(* ===== verification/Prelude.thy ===== *)
theory Prelude
  imports Main "HOL-Library.AList"
begin

text \<open>
  Shared vocabulary of the development: the JavaScript containers the kernel uses and the lemma
  collections the component theories extend.

  A JavaScript \<^verbatim>\<open>Map\<close> or plain-object dictionary is an association list in insertion order:
  \<^verbatim>\<open>m.get(k)\<close> is \<open>map_of m k\<close>, \<^verbatim>\<open>m.set(k, v)\<close> is \<open>AList.update k v m\<close> (in place when
  the key exists, at the end when it is new) and \<^verbatim>\<open>m.delete(k)\<close> is \<open>AList.delete k m\<close>.
  A \<^verbatim>\<open>Set\<close> is a duplicate-free list in insertion order (\<open>set_add\<close>).
\<close>

named_theorems kernel_simps \<open>unfolding rules of the kernel's step functions\<close>
named_theorems kernel_intros \<open>invariant introduction rules\<close>

type_synonym ('k, 'v) jsmap = "('k \<times> 'v) list"

abbreviation jm_get :: "('k, 'v) jsmap \<Rightarrow> 'k \<Rightarrow> 'v option" where
  "jm_get m k \<equiv> map_of m k"

abbreviation jm_set :: "'k \<Rightarrow> 'v \<Rightarrow> ('k, 'v) jsmap \<Rightarrow> ('k, 'v) jsmap" where
  "jm_set k v m \<equiv> AList.update k v m"

abbreviation jm_del :: "'k \<Rightarrow> ('k, 'v) jsmap \<Rightarrow> ('k, 'v) jsmap" where
  "jm_del k m \<equiv> AList.delete k m"

abbreviation jm_has :: "('k, 'v) jsmap \<Rightarrow> 'k \<Rightarrow> bool" where
  "jm_has m k \<equiv> map_of m k \<noteq> None"

section \<open>Sets in insertion order\<close>

definition set_add :: "'a \<Rightarrow> 'a list \<Rightarrow> 'a list" where
  "set_add x xs = (if x \<in> set xs then xs else xs @ [x])"

definition set_of_list :: "'a list \<Rightarrow> 'a list" where
  "set_of_list xs = fold set_add xs []"

lemma set_set_add [simp]: "set (set_add x xs) = insert x (set xs)"
  by (auto simp: set_add_def)

lemma distinct_set_add [simp]: "distinct (set_add x xs) = distinct xs"
  by (auto simp: set_add_def)

lemma set_add_not_Nil [simp]: "set_add x xs \<noteq> []"
  by (auto simp: set_add_def)

lemma set_fold_set_add [simp]: "set (fold set_add xs ys) = set xs \<union> set ys"
  by (induction xs arbitrary: ys) auto

lemma distinct_fold_set_add [simp]: "distinct (fold set_add xs ys) = distinct ys"
  by (induction xs arbitrary: ys) auto

lemma set_set_of_list [simp]: "set (set_of_list xs) = set xs"
  by (simp add: set_of_list_def)

lemma distinct_set_of_list [simp]: "distinct (set_of_list xs)"
  by (simp add: set_of_list_def)

section \<open>Array helpers\<close>

text \<open>\<^verbatim>\<open>xs.at(-1)\<close>, \<^verbatim>\<open>xs.find(p)\<close> and \<^verbatim>\<open>xs.findLast(p)\<close>; \<open>None\<close> is \<^verbatim>\<open>undefined\<close>.\<close>

definition last_opt :: "'a list \<Rightarrow> 'a option" where
  "last_opt xs = (if xs = [] then None else Some (last xs))"

definition find_last :: "('a \<Rightarrow> bool) \<Rightarrow> 'a list \<Rightarrow> 'a option" where
  "find_last p xs = last_opt (filter p xs)"

lemma last_opt_simps [simp]:
  "last_opt [] = None" "last_opt (xs @ [x]) = Some x"
  by (simp_all add: last_opt_def)

lemma last_opt_Cons [simp]: "last_opt (x # xs) = Some (if xs = [] then x else last xs)"
  by (simp add: last_opt_def)

lemma last_opt_eq_None [simp]: "last_opt xs = None \<longleftrightarrow> xs = []"
  by (simp add: last_opt_def)

lemma last_opt_SomeD: "last_opt xs = Some x \<Longrightarrow> x \<in> set xs"
  by (auto simp: last_opt_def split: if_splits)

lemma find_last_SomeD: "find_last p xs = Some x \<Longrightarrow> x \<in> set xs \<and> p x"
  unfolding find_last_def using last_opt_SomeD by fastforce

lemma find_last_None [simp]: "find_last p xs = None \<longleftrightarrow> (\<forall>x \<in> set xs. \<not> p x)"
  by (auto simp: find_last_def filter_empty_conv)

lemma find_SomeD: "List.find p xs = Some x \<Longrightarrow> x \<in> set xs \<and> p x"
  by (induction xs) (auto split: if_splits)

text \<open>\<^verbatim>\<open>Math.max(...xs)\<close> of numbers that are never negative, with a floor.\<close>

definition max_from :: "nat \<Rightarrow> nat list \<Rightarrow> nat" where
  "max_from z xs = fold max xs z"

lemma max_from_ge: "z \<le> max_from z xs"
  unfolding max_from_def by (induction xs arbitrary: z) (auto intro: le_trans max.cobounded2)

lemma max_from_ge_elem: "x \<in> set xs \<Longrightarrow> x \<le> max_from z xs"
proof (induction xs arbitrary: z)
  case (Cons y ys)
  then show ?case
    using max_from_ge [of "max y z" ys] by (auto simp: max_from_def)
qed simp

lemma max_from_in: "max_from z xs \<in> insert z (set xs)"
  unfolding max_from_def
proof (induction xs arbitrary: z)
  case (Cons y ys)
  have "fold max ys (max y z) \<in> insert (max y z) (set ys)" by (rule Cons.IH)
  moreover have "max y z = y \<or> max y z = z" by (auto simp: max_def)
  ultimately show ?case by auto
qed simp

text \<open>
  \<^verbatim>\<open>xs.reduce((best, c) => c.key > best.key ? c : best)\<close>: the first element of greatest key.
\<close>

definition first_max :: "('a \<Rightarrow> nat) \<Rightarrow> 'a \<Rightarrow> 'a list \<Rightarrow> 'a" where
  "first_max key x xs = fold (\<lambda>c best. if key c > key best then c else best) xs x"

lemma first_max_in: "first_max key x xs \<in> insert x (set xs)"
  unfolding first_max_def by (induction xs arbitrary: x) auto

lemma first_max_ge: "y \<in> insert x (set xs) \<Longrightarrow> key y \<le> key (first_max key x xs)"
proof (induction xs arbitrary: x y)
  case Nil
  then show ?case by (simp add: first_max_def)
next
  case (Cons z zs)
  let ?b = "if key z > key x then z else x"
  have IH: "key w \<le> key (first_max key ?b zs)" if "w \<in> insert ?b (set zs)" for w
    by (rule Cons.IH [OF that])
  have eq: "first_max key x (z # zs) = first_max key ?b zs"
    by (simp add: first_max_def)
  have "key x \<le> key ?b" and "key z \<le> key ?b" by auto
  moreover have "key ?b \<le> key (first_max key ?b zs)" by (rule IH) simp
  ultimately show ?case using Cons.prems IH eq by (auto intro: le_trans)
qed

section \<open>Writing one slot of a per-round array\<close>

text \<open>
  \<^verbatim>\<open>while (per.length < r) per.push([]); per[r - 1] = v\<close>. Rounds are 1-based; the array has no
  element for \<open>r = 0\<close> (JavaScript then writes a property that is no element).
\<close>

definition set_round :: "'a list list \<Rightarrow> nat \<Rightarrow> 'a list \<Rightarrow> 'a list list" where
  "set_round per r v =
     (if r = 0 then per else (per @ replicate (r - length per) [])[r - 1 := v])"

lemma length_set_round [simp]: "length (set_round per r v) = max (length per) r"
  by (auto simp: set_round_def max_def)

lemma set_round_nth:
  "r > 0 \<Longrightarrow> i < max (length per) r \<Longrightarrow>
   set_round per r v ! i = (if i = r - 1 then v else if i < length per then per ! i else [])"
  by (auto simp: set_round_def nth_list_update nth_append)

lemma set_round_append [simp]: "set_round per (Suc (length per)) v = per @ [v]"
  by (simp add: set_round_def)

section \<open>Text\<close>

text \<open>Template literals: decimal numbers and \<^verbatim>\<open>xs.join(sep)\<close>.\<close>

fun nat_text :: "nat \<Rightarrow> string" where
  "nat_text n = (if n < 10 then [char_of (48 + n)] else nat_text (n div 10) @ [char_of (48 + n mod 10)])"

declare nat_text.simps [simp del]

fun join :: "string \<Rightarrow> string list \<Rightarrow> string" where
  "join sep [] = []"
| "join sep [x] = x"
| "join sep (x # y # xs) = x @ sep @ join sep (y # xs)"

end
