(* ===== verification/Ontology.thy ===== *)
theory Ontology
  imports Prelude
begin

text \<open>
  The data model of \<^verbatim>\<open>packages/core/src/ontology.ts\<close>: phases, findings, verdicts, escalations,
  artifacts, outcomes and feedback. A phase is a string in the code (\<^verbatim>\<open>plan\<close>, \<^verbatim>\<open>verify:lint\<close>);
  here it is a datatype, and \<open>phase_name\<close>/\<open>parse_phase\<close> relate the two.
\<close>

section \<open>Phases\<close>

datatype core_phase = Plan | PlanReview | Implement | CodeReview | Finalize | Reconcile

definition CORE_PHASES :: "core_phase list" where
  "CORE_PHASES = [Plan, PlanReview, Implement, CodeReview, Finalize, Reconcile]"

fun core_phase_name :: "core_phase \<Rightarrow> string" where
  "core_phase_name Plan = ''plan''"
| "core_phase_name PlanReview = ''plan-review''"
| "core_phase_name Implement = ''implement''"
| "core_phase_name CodeReview = ''code-review''"
| "core_phase_name Finalize = ''finalize''"
| "core_phase_name Reconcile = ''reconcile''"

datatype phase = Core core_phase | Verify (verify_step: string)

definition isCorePhase :: "string \<Rightarrow> bool" where
  "isCorePhase value = (value \<in> set (map core_phase_name CORE_PHASES))"

definition isVerifyPhase :: "string \<Rightarrow> bool" where
  "isVerifyPhase value =
     (take (length ''verify:'') value = ''verify:'' \<and> length value > length ''verify:'')"

definition isPhase :: "string \<Rightarrow> bool" where
  "isPhase value = (isCorePhase value \<or> isVerifyPhase value)"

definition verifyStep :: "string \<Rightarrow> string" where
  "verifyStep p = drop (length ''verify:'') p"

definition verifyPhase :: "string \<Rightarrow> string" where
  "verifyPhase step = ''verify:'' @ step"

fun phase_name :: "phase \<Rightarrow> string" where
  "phase_name (Core p) = core_phase_name p"
| "phase_name (Verify step) = verifyPhase step"

text \<open>What \<^verbatim>\<open>phaseSchema\<close> accepts, as the phase it denotes.\<close>

definition parse_phase :: "string \<Rightarrow> phase option" where
  "parse_phase value =
     (case List.find (\<lambda>p. core_phase_name p = value) CORE_PHASES of
        Some p \<Rightarrow> Some (Core p)
      | None \<Rightarrow> if isVerifyPhase value then Some (Verify (verifyStep value)) else None)"

fun is_verify_phase :: "phase \<Rightarrow> bool" where
  "is_verify_phase (Verify _) = True"
| "is_verify_phase (Core _) = False"

section \<open>Findings, verdicts, artifacts\<close>

datatype severity = Blocking | Important | Minor

record finding =
  f_id :: string
  f_severity :: severity
  f_file :: "string option"
  f_lines :: "int list option"
  f_summary :: string
  f_detail :: "string option"
  f_persists :: "string list"

datatype review_verdict_kind = Approve | Revise | Escalate

datatype verify_outcome = Pass | Fail | Skipped

datatype verdict =
    VApprove
  | VRevise (verdict_findings: "finding list")
  | VEscalate (verdict_reason: string)

record artifact_ref =
  art_kind :: string
  art_rev :: nat

datatype feedback =
    FbFindings "string list"
  | FbVerify (fb_step: string) (fb_report: artifact_ref)
  | FbGuidance (fb_escalation: string) (fb_answer: string)

section \<open>Escalations and builds\<close>

datatype escalation_source = SrcAgent | SrcStall | SrcPolicy

datatype policy_cause =
    ReviewRoundLimit | VerifyFailureLimit | ReconcileNoProgress | DispatchFailureLimit
  | ExecutionNoProgress | SetupFailureLimit | InfrastructureFailureLimit
  | PublicationRetryLimit | PhaseAttemptLimit | NonRetryablePhaseFailure

datatype escalation_target = OnPhase phase | OnSetup

datatype resolution = Guidance | DismissFinding | ReviseSpec | Abort | Retry

datatype build_outcome = Merged | ClosedUnmerged | Abandoned | Discarded

datatype build_status =
  StQueued | StRunning | StCollecting | StPaused | StBlocked | StDone | StAborted

record commit_range =
  cr_base :: string
  cr_head :: string

record ticket_ref =
  tk_source :: string
  tk_id :: string
  tk_url :: "string option"
  tk_title :: "string option"

datatype observation_kind = Followup | Refactor | LatentBug

datatype actor =
    Kernel
  | Agent (agent_role: string) (agent_session: string)
  | Human string "string option"
  | Dispatcher
  | Ingester string

section \<open>Phase names round-trip\<close>

lemma core_phase_name_inj: "core_phase_name p = core_phase_name q \<Longrightarrow> p = q"
  by (cases p; cases q) simp_all

lemma isVerifyPhase_verifyPhase [simp]: "isVerifyPhase (verifyPhase s) \<longleftrightarrow> s \<noteq> []"
  by (simp add: isVerifyPhase_def verifyPhase_def)

lemma verifyStep_verifyPhase [simp]: "verifyStep (verifyPhase s) = s"
  by (simp add: verifyStep_def verifyPhase_def)

lemma verifyPhase_verifyStep: "isVerifyPhase v \<Longrightarrow> verifyPhase (verifyStep v) = v"
  unfolding isVerifyPhase_def verifyPhase_def verifyStep_def
  by (metis append_take_drop_id)

lemma core_not_verify: "core_phase_name p \<noteq> verifyPhase s"
  by (cases p) (simp_all add: verifyPhase_def)

lemma parse_core [simp]: "parse_phase (core_phase_name p) = Some (Core p)"
  by (cases p) (simp_all add: parse_phase_def CORE_PHASES_def)

lemma find_core_verify: "List.find (\<lambda>p. core_phase_name p = verifyPhase s) CORE_PHASES = None"
  using core_not_verify by (auto simp: find_None_iff)

lemma phase_name_inj: "phase_name p = phase_name q \<Longrightarrow> p = q"
proof (cases p; cases q)
  fix a s
  assume "phase_name p = phase_name q" "p = Core a" "q = Verify s"
  then show ?thesis using core_not_verify [of a s] by simp
next
  fix a s
  assume "phase_name p = phase_name q" "p = Verify s" "q = Core a"
  then show ?thesis using core_not_verify [of a s] by simp
qed (auto simp: verifyPhase_def dest: core_phase_name_inj)

text \<open>Printing then parsing a phase gives the phase back; a verify phase needs a step name.\<close>

lemma parse_phase_name:
  "(case p of Core _ \<Rightarrow> True | Verify s \<Rightarrow> s \<noteq> []) \<Longrightarrow> parse_phase (phase_name p) = Some p"
  by (cases p) (simp, simp add: parse_phase_def find_core_verify)

lemma find_core_SomeD:
  "List.find (\<lambda>p. core_phase_name p = v) CORE_PHASES = Some c \<Longrightarrow> core_phase_name c = v"
  by (drule find_SomeD) simp

lemma parse_phase_sound: "parse_phase v = Some p \<Longrightarrow> phase_name p = v"
  unfolding parse_phase_def
  by (auto split: option.splits if_splits dest: find_core_SomeD simp: verifyPhase_verifyStep)

lemma in_CORE_PHASES [simp]: "p \<in> set CORE_PHASES"
  by (cases p) (simp_all add: CORE_PHASES_def)

lemma parse_phase_isPhase: "parse_phase v \<noteq> None \<longleftrightarrow> isPhase v"
proof (cases "List.find (\<lambda>p. core_phase_name p = v) CORE_PHASES")
  case None
  then have "\<not> isCorePhase v" by (auto simp: isCorePhase_def find_None_iff)
  with None show ?thesis by (simp add: parse_phase_def isPhase_def)
next
  case (Some c)
  then have "isCorePhase v" using find_core_SomeD [of v c] by (auto simp: isCorePhase_def)
  with Some show ?thesis by (simp add: parse_phase_def isPhase_def)
qed

end
