(* ===== verification/Stall.thy ===== *)
theory Stall
  imports Ontology
begin

text \<open>
  Persistence chains for stall detection, \<^verbatim>\<open>packages/core/src/kernel/stall.ts\<close>: the findings of
  every review round are indexed by id, each finding is grouped under the roots its \<^verbatim>\<open>persists\<close>
  links lead to, and a chain stalls when it occupies enough consecutive rounds. The lemmas say
  which findings a chain holds (\<open>chain_of_map\<close>), that a root is exactly a link-free ancestor
  (\<open>roots_of_iff\<close>), and that the run length is the longest interval of rounds
  (\<open>longest_run_attained\<close>, \<open>longest_run_maximal\<close>).
\<close>

section \<open>The index of findings by id\<close>

text \<open>
  \<^verbatim>\<open>byId\<close> and \<^verbatim>\<open>traversal\<close>: the first occurrence of an id wins, in round-major order. The
  traversal list of the code is the key order of the map, \<open>map fst m\<close>.
\<close>

type_synonym finding_index = "(string, finding \<times> nat) jsmap"

fun index_findings :: "nat \<Rightarrow> finding list \<Rightarrow> finding_index \<Rightarrow> finding_index" where
  "index_findings r [] m = m"
| "index_findings r (f # fs) m =
     index_findings r fs (if jm_has m (f_id f) then m else jm_set (f_id f) (f, r) m)"

fun index_rounds :: "nat \<Rightarrow> finding list list \<Rightarrow> finding_index \<Rightarrow> finding_index" where
  "index_rounds r [] m = m"
| "index_rounds r (fs # rest) m = index_rounds (Suc r) rest (index_findings r fs m)"

definition by_id :: "finding list list \<Rightarrow> finding_index" where
  "by_id roundFindings = index_rounds 1 roundFindings []"

abbreviation traversal :: "finding_index \<Rightarrow> string list" where
  "traversal m \<equiv> map fst m"

section \<open>Roots of a finding\<close>

text \<open>
  A \<^verbatim>\<open>persists\<close> entry is a link only when its target exists in a strictly earlier round.
\<close>

definition is_link :: "finding_index \<Rightarrow> nat \<Rightarrow> string \<Rightarrow> bool" where
  "is_link m r parentId = (case map_of m parentId of None \<Rightarrow> False | Some (_, pr) \<Rightarrow> pr < r)"

definition parents_of :: "finding_index \<Rightarrow> finding \<Rightarrow> nat \<Rightarrow> string list" where
  "parents_of m f r = filter (is_link m r) (f_persists f)"

definition round_of :: "finding_index \<Rightarrow> string \<Rightarrow> nat" where
  "round_of m i = (case map_of m i of None \<Rightarrow> 0 | Some (_, r) \<Rightarrow> r)"

function roots_of :: "finding_index \<Rightarrow> string \<Rightarrow> string list" where
  "roots_of m i =
     (case map_of m i of
        None \<Rightarrow> []
      | Some (f, r) \<Rightarrow>
          if parents_of m f r = [] then [i]
          else fold (\<lambda>p roots. fold set_add (roots_of m p) roots) (parents_of m f r) [])"
  by pat_completeness auto
termination
  by (relation "measure (\<lambda>(m, i). round_of m i)")
     (auto simp: round_of_def parents_of_def is_link_def split: option.splits)

declare roots_of.simps [simp del]

section \<open>Chains\<close>

record chain_members =
  cm_ids :: "string list"
  cm_rounds :: "nat list"

record finding_chain =
  fc_ids :: "string list"
  fc_rounds :: nat

definition add_member ::
  "string \<Rightarrow> nat \<Rightarrow> string \<Rightarrow> (string, chain_members) jsmap \<Rightarrow> (string, chain_members) jsmap"
where
  "add_member i r root cs =
     (let chain = (case map_of cs root of
                     None \<Rightarrow> \<lparr>cm_ids = [], cm_rounds = []\<rparr>
                   | Some c \<Rightarrow> c)
      in jm_set root \<lparr>cm_ids = cm_ids chain @ [i], cm_rounds = cm_rounds chain @ [r]\<rparr> cs)"

definition add_to_chains ::
  "finding_index \<Rightarrow> string \<Rightarrow> (string, chain_members) jsmap \<Rightarrow> (string, chain_members) jsmap"
where
  "add_to_chains m i cs =
     (case map_of m i of
        None \<Rightarrow> cs
      | Some (_, r) \<Rightarrow> fold (add_member i r) (roots_of m i) cs)"

definition chain_map :: "finding_index \<Rightarrow> (string, chain_members) jsmap" where
  "chain_map m = fold (add_to_chains m) (traversal m) []"

definition buildChains :: "finding list list \<Rightarrow> chain_members list" where
  "buildChains roundFindings = map snd (chain_map (by_id roundFindings))"

section \<open>Consecutive runs\<close>

text \<open>\<^verbatim>\<open>while (occupied.has(round + length)) length += 1\<close>: the set is finite, so it stops.\<close>

function run_length :: "nat list \<Rightarrow> nat \<Rightarrow> nat \<Rightarrow> nat" where
  "run_length occupied r len =
     (if r + len \<in> set occupied then run_length occupied r (Suc len) else len)"
  by pat_completeness auto
termination
proof (relation "measure (\<lambda>(occ, r, len). card {x \<in> set occ. r + len \<le> x})", goal_cases)
  case (2 occ r len)
  then have "r + len \<in> {x \<in> set occ. r + len \<le> x}" by simp
  moreover have "r + len \<notin> {x \<in> set occ. r + Suc len \<le> x}" by simp
  moreover have "{x \<in> set occ. r + Suc len \<le> x} \<subseteq> {x \<in> set occ. r + len \<le> x}"
    by (rule Collect_mono) simp
  ultimately have "{x \<in> set occ. r + Suc len \<le> x} \<subset> {x \<in> set occ. r + len \<le> x}"
    by blast
  then have "card {x \<in> set occ. r + Suc len \<le> x} < card {x \<in> set occ. r + len \<le> x}"
    by (intro psubset_card_mono) auto
  then show ?case by simp
qed simp

declare run_length.simps [simp del]

definition longestConsecutiveRun :: "nat list \<Rightarrow> nat" where
  "longestConsecutiveRun rounds =
     (let occupied = set_of_list rounds in
      fold (\<lambda>r longest.
              if r > 0 \<and> r - 1 \<in> set occupied then longest
              else (let len = run_length occupied r 1
                    in if len > longest then len else longest))
        occupied 0)"

definition persistenceChains :: "finding list list \<Rightarrow> finding_chain list" where
  "persistenceChains roundFindings =
     map (\<lambda>c. \<lparr>fc_ids = cm_ids c, fc_rounds = longestConsecutiveRun (cm_rounds c)\<rparr>)
       (buildChains roundFindings)"

section \<open>Stalled chains\<close>

text \<open>
  \<^verbatim>\<open>tipDismissed\<close>: every member found in the chain's latest round is dismissed. A chain is never
  empty, so \<^verbatim>\<open>Math.max(...memberRounds)\<close> is the largest round.
\<close>

definition tipDismissed :: "chain_members \<Rightarrow> string list \<Rightarrow> bool" where
  "tipDismissed chain dismissedIds =
     (let tipRound = max_from 0 (cm_rounds chain) in
      \<forall>(i, r) \<in> set (zip (cm_ids chain) (cm_rounds chain)).
        r = tipRound \<longrightarrow> i \<in> set dismissedIds)"

definition stalled_chain :: "nat \<Rightarrow> string list option \<Rightarrow> chain_members \<Rightarrow> bool" where
  "stalled_chain stallRounds dismissedIds chain =
     (\<not> longestConsecutiveRun (cm_rounds chain) < stallRounds \<and>
      \<not> (case dismissedIds of None \<Rightarrow> False | Some ids \<Rightarrow> tipDismissed chain ids))"

definition stalledChains ::
  "finding list list \<Rightarrow> nat \<Rightarrow> string list option \<Rightarrow> finding_chain list" where
  "stalledChains roundFindings stallRounds dismissedIds =
     map (\<lambda>c. \<lparr>fc_ids = cm_ids c, fc_rounds = longestConsecutiveRun (cm_rounds c)\<rparr>)
       (filter (stalled_chain stallRounds dismissedIds) (buildChains roundFindings))"

section \<open>The index is well formed\<close>

lemma distinct_index_findings:
  "distinct (map fst m) \<Longrightarrow> distinct (map fst (index_findings r fs m))"
  by (induction fs arbitrary: m) (auto simp: distinct_update)

lemma distinct_index_rounds:
  "distinct (map fst m) \<Longrightarrow> distinct (map fst (index_rounds r rf m))"
  by (induction rf arbitrary: m r) (auto simp: distinct_index_findings)

lemma distinct_by_id [simp]: "distinct (map fst (by_id rf))"
  by (simp add: by_id_def distinct_index_rounds)

lemma update_new: "k \<notin> fst ` set m \<Longrightarrow> jm_set k v m = m @ [(k, v)]"
  by (induction m) auto

text \<open>Indexing one round only appends entries of that round.\<close>

lemma index_findings_append:
  "\<exists>ext. index_findings r fs m = m @ ext \<and> (\<forall>(i, f, q) \<in> set ext. q = r \<and> f \<in> set fs \<and> f_id f = i)"
proof (induction fs arbitrary: m)
  case (Cons f fs)
  let ?m = "if jm_has m (f_id f) then m else jm_set (f_id f) (f, r) m"
  obtain ext where ext: "index_findings r fs ?m = ?m @ ext"
    "\<forall>(i, g, q) \<in> set ext. q = r \<and> g \<in> set fs \<and> f_id g = i" using Cons.IH by blast
  have "?m = m @ (if jm_has m (f_id f) then [] else [(f_id f, (f, r))])"
    by (auto simp: update_new map_of_eq_None_iff)
  with ext show ?case
    by (intro exI [of _ "(if jm_has m (f_id f) then [] else [(f_id f, (f, r))]) @ ext"]) auto
qed simp

lemma index_rounds_snoc:
  "index_rounds r (rf @ [fs]) m = index_findings (r + length rf) fs (index_rounds r rf m)"
  by (induction rf arbitrary: r m) auto

lemma by_id_snoc: "by_id (rf @ [fs]) = index_findings (Suc (length rf)) fs (by_id rf)"
  by (simp add: by_id_def index_rounds_snoc)

lemma by_id_rounds: "(i, f, r) \<in> set (by_id rf) \<Longrightarrow> 1 \<le> r \<and> r \<le> length rf \<and> f \<in> set (rf ! (r - 1)) \<and> f_id f = i"
proof (induction rf arbitrary: i f r rule: rev_induct)
  case Nil
  then show ?case by (simp add: by_id_def)
next
  case (snoc fs rf)
  obtain ext where ext: "index_findings (Suc (length rf)) fs (by_id rf) = by_id rf @ ext"
    "\<forall>(i, f, q) \<in> set ext. q = Suc (length rf) \<and> f \<in> set fs \<and> f_id f = i"
    using index_findings_append by blast
  from snoc.prems ext(1) have "(i, f, r) \<in> set (by_id rf) \<or> (i, f, r) \<in> set ext"
    by (simp add: by_id_snoc)
  then show ?case
  proof
    assume "(i, f, r) \<in> set (by_id rf)"
    with snoc.IH [OF this] show ?thesis by (auto simp: nth_append)
  next
    assume "(i, f, r) \<in> set ext"
    with ext(2) show ?thesis by auto
  qed
qed

section \<open>The longest run is the longest interval\<close>

lemma run_length_interval:
  "r + len \<le> x \<Longrightarrow> x < r + run_length occ r len \<Longrightarrow> x \<in> set occ"
proof (induction occ r len rule: run_length.induct)
  case (1 occ r len)
  show ?case
  proof (cases "r + len \<in> set occ")
    case True
    with 1 show ?thesis
      by (cases "x = r + len") (auto simp: run_length.simps [of occ r len])
  next
    case False
    with 1 show ?thesis by (simp add: run_length.simps [of occ r len])
  qed
qed

lemma run_length_stop: "r + run_length occ r len \<notin> set occ"
proof (induction occ r len rule: run_length.induct)
  case (1 occ r len)
  then show ?case by (cases "r + len \<in> set occ") (simp_all add: run_length.simps [of occ r len])
qed

lemma run_length_ge: "len \<le> run_length occ r len"
proof (induction occ r len rule: run_length.induct)
  case (1 occ r len)
  then show ?case by (cases "r + len \<in> set occ") (simp_all add: run_length.simps [of occ r len])
qed

definition run_start :: "nat list \<Rightarrow> nat \<Rightarrow> bool" where
  "run_start occ r \<longleftrightarrow> \<not> (r > 0 \<and> r - 1 \<in> set occ)"

lemma fold_longest:
  "fold (\<lambda>r longest. if r > 0 \<and> r - 1 \<in> set occ then longest
          else (let len = run_length occ r 1 in if len > longest then len else longest)) rs z
   = max_from z (map (\<lambda>r. run_length occ r 1) (filter (run_start occ) rs))"
  by (induction rs arbitrary: z) (simp_all add: max_from_def run_start_def max_def Let_def)

lemma longestConsecutiveRun_eq:
  "longestConsecutiveRun rounds =
     max_from 0 (map (\<lambda>r. run_length (set_of_list rounds) r 1)
                   (filter (run_start (set_of_list rounds)) (set_of_list rounds)))"
  unfolding longestConsecutiveRun_def Let_def
  using fold_longest [of "set_of_list rounds", unfolded Let_def] by (simp only:)

lemma longest_run_attained: "\<exists>r. {r..<r + longestConsecutiveRun rounds} \<subseteq> set rounds"
proof -
  let ?occ = "set_of_list rounds"
  have "longestConsecutiveRun rounds = 0 \<or>
        (\<exists>r \<in> set ?occ. longestConsecutiveRun rounds = run_length ?occ r 1)"
    unfolding longestConsecutiveRun_eq
    using max_from_in [of 0 "map (\<lambda>r. run_length ?occ r 1) (filter (run_start ?occ) ?occ)"] by auto
  then show ?thesis
  proof
    assume "\<exists>r \<in> set ?occ. longestConsecutiveRun rounds = run_length ?occ r 1"
    then obtain r where r: "r \<in> set rounds" "longestConsecutiveRun rounds = run_length ?occ r 1"
      by auto
    have "x \<in> set rounds" if "r \<le> x" "x < r + run_length ?occ r 1" for x
      using run_length_interval [of r 1 x ?occ] that r(1) by (cases "x = r") auto
    with r(2) show ?thesis by (intro exI [of _ r]) auto
  qed simp
qed

lemma run_start_below:
  "r \<in> set occ \<Longrightarrow> \<exists>s \<le> r. run_start occ s \<and> {s..r} \<subseteq> set occ"
proof (induction r)
  case 0
  then show ?case by (auto simp: run_start_def)
next
  case (Suc r)
  show ?case
  proof (cases "r \<in> set occ")
    case True
    with Suc.IH obtain s where "s \<le> r" "run_start occ s" "{s..r} \<subseteq> set occ" by blast
    with Suc.prems show ?thesis by (intro exI [of _ s]) (auto simp: atLeastAtMostSuc_conv)
  next
    case False
    with Suc.prems show ?thesis by (intro exI [of _ "Suc r"]) (auto simp: run_start_def)
  qed
qed

lemma longest_run_maximal:
  assumes sub: "{r..<r + n} \<subseteq> set rounds"
  shows "n \<le> longestConsecutiveRun rounds"
proof (cases "n = 0")
  case False
  let ?occ = "set_of_list rounds"
  from sub False have "r \<in> set ?occ" by auto
  then obtain s where s: "s \<le> r" "run_start ?occ s" "{s..r} \<subseteq> set ?occ"
    using run_start_below by blast
  let ?L = "run_length ?occ s 1"
  have "s + ?L \<notin> set rounds" using run_length_stop [of s ?occ 1] by simp
  moreover have "x \<in> set rounds" if "s \<le> x" "x < r + n" for x
    using that s(3) sub by (cases "x \<le> r") auto
  ultimately have "r + n \<le> s + ?L" by (meson le_add1 not_le)
  then have "n \<le> ?L" using s(1) by simp
  moreover have "s \<in> set ?occ" using s(1,3) by auto
  with s(2) have "?L \<le> longestConsecutiveRun rounds"
    unfolding longestConsecutiveRun_eq by (intro max_from_ge_elem) auto
  ultimately show ?thesis by simp
qed simp

lemma longest_run_le_iff:
  "n \<le> longestConsecutiveRun rounds \<longleftrightarrow> (\<exists>r. {r..<r + n} \<subseteq> set rounds)"
proof
  assume n: "n \<le> longestConsecutiveRun rounds"
  from longest_run_attained obtain r where "{r..<r + longestConsecutiveRun rounds} \<subseteq> set rounds" ..
  moreover have "{r..<r + n} \<subseteq> {r..<r + longestConsecutiveRun rounds}"
    using n by (simp add: atLeastLessThan_subset_iff)
  ultimately show "\<exists>r. {r..<r + n} \<subseteq> set rounds" by blast
qed (auto intro: longest_run_maximal)

section \<open>Roots are the link-free ancestors\<close>

definition persist_links :: "finding_index \<Rightarrow> (string \<times> string) set" where
  "persist_links m =
     {(i, p). \<exists>f r. map_of m i = Some (f, r) \<and> p \<in> set (parents_of m f r)}"

definition is_root :: "finding_index \<Rightarrow> string \<Rightarrow> bool" where
  "is_root m i \<longleftrightarrow> (\<exists>f r. map_of m i = Some (f, r) \<and> parents_of m f r = [])"

lemma set_fold_union [simp]:
  "set (fold (\<lambda>p acc. fold set_add (g p) acc) ps acc) = set acc \<union> (\<Union>p \<in> set ps. set (g p))"
  by (induction ps arbitrary: acc) auto

lemma distinct_fold_union [simp]:
  "distinct (fold (\<lambda>p acc. fold set_add (g p) acc) ps acc) = distinct acc"
  by (induction ps arbitrary: acc) auto

lemma distinct_roots_of [simp]: "distinct (roots_of m i)"
  by (subst roots_of.simps) (auto split: option.splits)

lemma roots_of_iff:
  "root \<in> set (roots_of m i) \<longleftrightarrow> (i, root) \<in> (persist_links m)\<^sup>* \<and> is_root m root"
proof (induction m i rule: roots_of.induct)
  case (1 m i)
  show ?case
  proof (cases "map_of m i")
    case None
    then have "(i, root) \<in> (persist_links m)\<^sup>* \<Longrightarrow> root = i"
      by (auto simp: persist_links_def elim: converse_rtranclE)
    with None show ?thesis by (auto simp: roots_of.simps [of m i] is_root_def)
  next
    case (Some fr)
    obtain f r where fr: "fr = (f, r)" by (cases fr)
    show ?thesis
    proof (cases "parents_of m f r = []")
      case True
      then have "(i, root) \<in> (persist_links m)\<^sup>* \<Longrightarrow> root = i"
        using Some fr by (auto simp: persist_links_def elim: converse_rtranclE)
      with True Some fr show ?thesis
        by (auto simp: roots_of.simps [of m i] is_root_def)
    next
      case False
      have step: "(i, p) \<in> persist_links m \<longleftrightarrow> p \<in> set (parents_of m f r)" for p
        using Some fr by (auto simp: persist_links_def)
      have "root \<in> set (roots_of m i) \<longleftrightarrow>
              (\<exists>p \<in> set (parents_of m f r). root \<in> set (roots_of m p))"
        using Some fr False by (simp add: roots_of.simps [of m i])
      also have "\<dots> \<longleftrightarrow> (\<exists>p. (i, p) \<in> persist_links m \<and> (p, root) \<in> (persist_links m)\<^sup>*)
                      \<and> is_root m root"
        using "1.IH" [OF Some fr [symmetric] False] step by auto
      also have "\<dots> \<longleftrightarrow> (i, root) \<in> (persist_links m)\<^sup>* \<and> is_root m root"
      proof -
        have "\<not> is_root m i" using Some fr False by (auto simp: is_root_def)
        then show ?thesis
          by (metis converse_rtranclE converse_rtrancl_into_rtrancl)
      qed
      finally show ?thesis .
    qed
  qed
qed

text \<open>Links go to strictly earlier rounds, so every indexed finding has a root.\<close>

lemma link_earlier:
  "(i, p) \<in> persist_links m \<Longrightarrow> round_of m p < round_of m i \<and> map_of m p \<noteq> None"
  by (auto simp: persist_links_def parents_of_def is_link_def round_of_def split: option.splits)

lemma links_earlier: "(i, p) \<in> (persist_links m)\<^sup>* \<Longrightarrow> p = i \<or> round_of m p < round_of m i"
  by (induction rule: rtrancl_induct) (auto dest: link_earlier)

lemma roots_of_nonempty: "map_of m i \<noteq> None \<Longrightarrow> roots_of m i \<noteq> []"
proof (induction m i rule: roots_of.induct)
  case (1 m i)
  then obtain f r where fr: "map_of m i = Some (f, r)" by auto
  show ?case
  proof (cases "parents_of m f r")
    case Nil
    with fr show ?thesis by (simp add: roots_of.simps [of m i])
  next
    case (Cons p ps)
    then have "(i, p) \<in> persist_links m" using fr by (auto simp: persist_links_def)
    then have "map_of m p \<noteq> None" by (blast dest: link_earlier)
    then have "roots_of m p \<noteq> []" using "1.IH" [OF fr refl, of p] Cons by simp
    then obtain q where "q \<in> set (roots_of m p)" by (cases "roots_of m p") auto
    then have "q \<in> set (roots_of m i)"
      using fr Cons by (simp add: roots_of.simps [of m i])
    then show ?thesis by auto
  qed
qed

section \<open>What a chain holds\<close>

definition chain_ids :: "finding_index \<Rightarrow> string list \<Rightarrow> string \<Rightarrow> string list" where
  "chain_ids m xs root = filter (\<lambda>i. root \<in> set (roots_of m i)) xs"

definition chain_at :: "finding_index \<Rightarrow> string list \<Rightarrow> chain_members" where
  "chain_at m ids = \<lparr>cm_ids = ids, cm_rounds = map (round_of m) ids\<rparr>"

lemma chain_at_simps [simp]:
  "cm_ids (chain_at m ids) = ids" "cm_rounds (chain_at m ids) = map (round_of m) ids"
  by (simp_all add: chain_at_def)

lemma map_of_add_members:
  "distinct roots \<Longrightarrow>
   map_of (fold (add_member i r) roots cs) root =
     (if root \<in> set roots
      then Some (case map_of cs root of
                   None \<Rightarrow> \<lparr>cm_ids = [i], cm_rounds = [r]\<rparr>
                 | Some c \<Rightarrow> \<lparr>cm_ids = cm_ids c @ [i], cm_rounds = cm_rounds c @ [r]\<rparr>)
      else map_of cs root)"
  by (induction roots arbitrary: cs)
     (auto simp: add_member_def Let_def update_conv' split: option.splits)

definition chains_for :: "finding_index \<Rightarrow> string list \<Rightarrow> (string, chain_members) jsmap \<Rightarrow> bool" where
  "chains_for m xs cs \<longleftrightarrow>
     (\<forall>root. map_of cs root =
        (if chain_ids m xs root = [] then None else Some (chain_at m (chain_ids m xs root))))"

lemma chains_for_step:
  assumes "chains_for m xs cs" and "map_of m i \<noteq> None"
  shows "chains_for m (xs @ [i]) (add_to_chains m i cs)"
proof -
  obtain f r where fr: "map_of m i = Some (f, r)" using assms(2) by auto
  then have r: "round_of m i = r" by (simp add: round_of_def)
  show ?thesis
    using assms(1) fr r
    by (auto simp: chains_for_def add_to_chains_def map_of_add_members chain_ids_def chain_at_def)
qed

lemma chains_for_fold:
  "\<forall>i \<in> set ys. map_of m i \<noteq> None \<Longrightarrow> chains_for m xs cs \<Longrightarrow>
   chains_for m (xs @ ys) (fold (add_to_chains m) ys cs)"
proof (induction ys arbitrary: xs cs)
  case (Cons i ys)
  then have "chains_for m (xs @ [i]) (add_to_chains m i cs)"
    by (intro chains_for_step) auto
  with Cons.IH [of "xs @ [i]"] Cons.prems(1) show ?case by simp
qed simp

lemma chains_for_traversal: "chains_for m (traversal m) (chain_map m)"
  unfolding chain_map_def
  using chains_for_fold [of "traversal m" m "[]" "[]"]
  by (force simp: chains_for_def chain_ids_def map_of_eq_None_iff)

lemma chain_map_lookup:
  "map_of (chain_map m) root =
     (if chain_ids m (traversal m) root = [] then None
      else Some (chain_at m (chain_ids m (traversal m) root)))"
  using chains_for_traversal [of m] by (simp add: chains_for_def)

lemma distinct_add_members:
  "distinct (map fst cs) \<Longrightarrow> distinct (map fst (fold (add_member i r) roots cs))"
  by (induction roots arbitrary: cs) (simp_all add: add_member_def Let_def distinct_update)

lemma distinct_fold_chains:
  "distinct (map fst cs) \<Longrightarrow> distinct (map fst (fold (add_to_chains m) xs cs))"
  by (induction xs arbitrary: cs)
     (auto simp: add_to_chains_def distinct_add_members split: option.splits)

lemma distinct_chain_map [simp]: "distinct (map fst (chain_map m))"
  by (simp add: chain_map_def distinct_fold_chains)

lemma chain_of_map:
  "(root, c) \<in> set (chain_map m) \<longleftrightarrow>
     chain_ids m (traversal m) root \<noteq> [] \<and> c = chain_at m (chain_ids m (traversal m) root)"
proof -
  have "(root, c) \<in> set (chain_map m) \<longleftrightarrow> map_of (chain_map m) root = Some c"
    by (rule map_of_eq_Some_iff [OF distinct_chain_map, symmetric])
  then show ?thesis by (auto simp: chain_map_lookup)
qed

lemma buildChains_iff:
  "c \<in> set (buildChains rf) \<longleftrightarrow>
     (\<exists>root. chain_ids (by_id rf) (traversal (by_id rf)) root \<noteq> [] \<and>
             c = chain_at (by_id rf) (chain_ids (by_id rf) (traversal (by_id rf)) root))"
proof -
  have "c \<in> set (buildChains rf) \<longleftrightarrow> (\<exists>root. (root, c) \<in> set (chain_map (by_id rf)))"
    by (auto simp: buildChains_def intro: rev_image_eqI)
  then show ?thesis by (simp only: chain_of_map)
qed

text \<open>Rounds never decrease along the traversal, because rounds are indexed in order.\<close>

lemma round_of_mem: "distinct (map fst m) \<Longrightarrow> (i, f, r) \<in> set m \<Longrightarrow> round_of m i = r"
  by (simp add: round_of_def)

definition round_sorted :: "finding_index \<Rightarrow> bool" where
  "round_sorted m \<longleftrightarrow> sorted (map (\<lambda>(i, f, r). r) m)"

lemma round_sorted_by_id: "round_sorted (by_id rf)"
proof (induction rf rule: rev_induct)
  case Nil
  then show ?case by (simp add: by_id_def round_sorted_def)
next
  case (snoc fs rf)
  obtain ext where ext: "index_findings (Suc (length rf)) fs (by_id rf) = by_id rf @ ext"
    "\<forall>(i, f, q) \<in> set ext. q = Suc (length rf) \<and> f \<in> set fs \<and> f_id f = i"
    using index_findings_append by blast
  have "map (\<lambda>(i, f, r). r) ext = replicate (length ext) (Suc (length rf))"
    using ext(2) by (intro replicate_eqI) auto
  moreover have "\<forall>x \<in> set (by_id rf). (case x of (i, f, r) \<Rightarrow> r) \<le> Suc (length rf)"
    using by_id_rounds [of _ _ _ rf] by (auto intro: le_SucI)
  ultimately show ?case
    using snoc.IH ext(1) by (auto simp: round_sorted_def by_id_snoc sorted_append)
qed

lemma map_round_of_traversal:
  "distinct (map fst m) \<Longrightarrow> map (round_of m) (traversal m) = map (\<lambda>(i, f, r). r) m"
  by (auto simp: round_of_mem)

lemma sorted_chain_rounds:
  "sorted (map (round_of (by_id rf)) (chain_ids (by_id rf) (traversal (by_id rf)) root))"
proof -
  have "sorted (map (round_of (by_id rf)) (traversal (by_id rf)))"
    unfolding map_round_of_traversal [OF distinct_by_id]
    using round_sorted_by_id [of rf] by (simp only: round_sorted_def)
  then show ?thesis unfolding chain_ids_def by (rule sorted_filter)
qed

text \<open>A chain lists its root first: the root is its own root, and every other member is later.\<close>

lemma root_in_chain:
  assumes "chain_ids m (traversal m) root \<noteq> []"
  shows "root \<in> set (chain_ids m (traversal m) root)"
proof -
  from assms obtain i where "root \<in> set (roots_of m i)"
    unfolding chain_ids_def by (auto simp: filter_empty_conv)
  then have "is_root m root" by (simp add: roots_of_iff)
  then have "root \<in> set (roots_of m root)" and "map_of m root \<noteq> None"
    by (auto simp: roots_of_iff is_root_def)
  moreover from this(2) have "root \<in> set (traversal m)" by (auto simp: map_of_eq_None_iff)
  ultimately show ?thesis by (simp add: chain_ids_def)
qed

lemma chain_head_root:
  assumes ne: "chain_ids (by_id rf) (traversal (by_id rf)) root \<noteq> []"
  shows "hd (chain_ids (by_id rf) (traversal (by_id rf)) root) = root"
proof -
  let ?m = "by_id rf" and ?ids = "chain_ids (by_id rf) (traversal (by_id rf)) root"
  obtain i rest where ids: "?ids = i # rest" using ne by (cases ?ids) auto
  have "(i, root) \<in> (persist_links ?m)\<^sup>*"
    using ids unfolding chain_ids_def by (auto simp: filter_eq_Cons_iff roots_of_iff)
  then have cmp: "root = i \<or> round_of ?m root < round_of ?m i" by (rule links_earlier)
  have "root \<in> set ?ids" using ne by (rule root_in_chain)
  moreover have "sorted (map (round_of ?m) ?ids)" by (rule sorted_chain_rounds)
  ultimately have "round_of ?m i \<le> round_of ?m root" using ids by auto
  with cmp ids show ?thesis by auto
qed

section \<open>One more round\<close>

text \<open>
  Appending a round never changes what is known about earlier findings: their links, roots and
  places in chains. Findings of the new round only extend chains.
\<close>

definition extends_index :: "finding_index \<Rightarrow> finding_index \<Rightarrow> nat \<Rightarrow> bool" where
  "extends_index m ext R \<longleftrightarrow>
     distinct (map fst (m @ ext)) \<and> (\<forall>(i, f, r) \<in> set m. r < R) \<and> (\<forall>(i, f, r) \<in> set ext. r = R)"

lemma by_id_snoc_extends:
  obtains ext where "by_id (rf @ [fs]) = by_id rf @ ext" "extends_index (by_id rf) ext (Suc (length rf))"
    "\<forall>(i, f, q) \<in> set ext. f \<in> set fs \<and> f_id f = i"
proof -
  obtain ext where ext: "index_findings (Suc (length rf)) fs (by_id rf) = by_id rf @ ext"
    "\<forall>(i, f, q) \<in> set ext. q = Suc (length rf) \<and> f \<in> set fs \<and> f_id f = i"
    using index_findings_append by blast
  have "\<forall>(i, f, r) \<in> set (by_id rf). r < Suc (length rf)"
    using by_id_rounds [of _ _ _ rf] by (auto simp: less_Suc_eq_le)
  moreover have "distinct (map fst (by_id rf @ ext))"
    using distinct_by_id [of "rf @ [fs]"] ext(1) by (simp add: by_id_snoc)
  moreover have "\<forall>(i, f, q) \<in> set ext. f \<in> set fs \<and> f_id f = i"
    and "\<forall>(i, f, r) \<in> set ext. r = Suc (length rf)"
    using ext(2) by auto
  ultimately show ?thesis
    using that [of ext] ext(1) by (simp add: extends_index_def by_id_snoc)
qed

lemma extends_map_of:
  assumes "extends_index m ext R" "map_of m i = Some v"
  shows "map_of (m @ ext) i = Some v"
proof -
  have "i \<in> fst ` set m" using map_of_SomeD [OF assms(2)] by force
  then have "map_of ext i = None"
    using assms(1) by (auto simp: extends_index_def map_of_eq_None_iff)
  with assms(2) show ?thesis by (simp add: map_add_def)
qed

lemma extends_is_link:
  assumes ex: "extends_index m ext R" and r: "r < R"
  shows "is_link (m @ ext) r p = is_link m r p"
proof (cases "map_of m p")
  case None
  have "q = R" if "map_of ext p = Some (g, q)" for g q
    using map_of_SomeD [OF that] ex by (auto simp: extends_index_def)
  with None r show ?thesis
    by (auto simp: is_link_def map_add_def split: option.splits)
next
  case (Some v)
  then show ?thesis using extends_map_of [OF ex Some] by (simp add: is_link_def)
qed

lemma extends_roots_of:
  assumes "extends_index m ext R" and "map_of m i \<noteq> None"
  shows "roots_of (m @ ext) i = roots_of m i"
  using assms
proof (induction m i rule: roots_of.induct)
  case (1 m i)
  obtain f r where fr: "map_of m i = Some (f, r)" using "1.prems"(2) by auto
  have r: "r < R" using "1.prems"(1) map_of_SomeD [OF fr] by (auto simp: extends_index_def)
  have par: "parents_of (m @ ext) f r = parents_of m f r"
    unfolding parents_of_def by (rule filter_cong [OF refl extends_is_link [OF "1.prems"(1) r]])
  have IH: "roots_of (m @ ext) p = roots_of m p" if "p \<in> set (parents_of m f r)" for p
  proof -
    have "parents_of m f r \<noteq> []" using that by auto
    moreover have "map_of m p \<noteq> None"
      using that by (auto simp: parents_of_def is_link_def split: option.splits)
    ultimately show ?thesis using "1.IH" [OF fr refl _ that "1.prems"(1)] by blast
  qed
  have "fold (\<lambda>p roots. fold set_add (roots_of (m @ ext) p) roots) (parents_of m f r) [] =
        fold (\<lambda>p roots. fold set_add (roots_of m p) roots) (parents_of m f r) []"
    by (rule fold_cong) (simp_all add: IH)
  then show ?case
    using extends_map_of [OF "1.prems"(1) fr] fr par
    by (simp add: roots_of.simps [of "m @ ext" i] roots_of.simps [of m i])
qed

lemma extends_chain_ids:
  assumes ex: "extends_index m ext R"
  shows "chain_ids (m @ ext) (traversal (m @ ext)) root =
         chain_ids m (traversal m) root @ chain_ids (m @ ext) (traversal ext) root"
proof -
  have "filter (\<lambda>i. root \<in> set (roots_of (m @ ext) i)) (traversal m) =
        filter (\<lambda>i. root \<in> set (roots_of m i)) (traversal m)"
    by (rule filter_cong [OF refl]) (auto simp: extends_roots_of [OF ex] map_of_eq_None_iff)
  then show ?thesis by (simp add: chain_ids_def)
qed

lemma extends_round_of:
  assumes ex: "extends_index m ext R" and "map_of m i \<noteq> None"
  shows "round_of (m @ ext) i = round_of m i"
  using assms extends_map_of [OF ex] by (auto simp: round_of_def split: option.splits)

text \<open>
  The stalled chains of a longer history that hold no finding of the new round were stalled before.
\<close>

lemma stalled_new_member:
  assumes none: "stalledChains rf n dis = []"
    and c: "c \<in> set (stalledChains (rf @ [fs]) n dis)"
  shows "\<exists>i \<in> set (fc_ids c). i \<in> f_id ` set fs"
proof (rule ccontr)
  assume no: "\<not> ?thesis"
  obtain ext where ext: "by_id (rf @ [fs]) = by_id rf @ ext"
    "extends_index (by_id rf) ext (Suc (length rf))"
    "\<forall>(i, f, q) \<in> set ext. f \<in> set fs \<and> f_id f = i"
    by (rule by_id_snoc_extends)
  let ?m = "by_id rf" and ?m' = "by_id rf @ ext"
  from c obtain b where b: "b \<in> set (buildChains (rf @ [fs]))" "stalled_chain n dis b"
    "fc_ids c = cm_ids b"
    by (auto simp: stalledChains_def)
  then obtain root where root: "chain_ids ?m' (traversal ?m') root \<noteq> []"
    "b = chain_at ?m' (chain_ids ?m' (traversal ?m') root)"
    unfolding buildChains_iff ext(1) by blast
  have "chain_ids ?m' (traversal ext) root = []"
  proof (rule ccontr)
    assume "chain_ids ?m' (traversal ext) root \<noteq> []"
    then obtain i where i: "i \<in> set (chain_ids ?m' (traversal ext) root)"
      by (cases "chain_ids ?m' (traversal ext) root") auto
    then have "i \<in> f_id ` set fs" using ext(3) by (auto simp: chain_ids_def)
    moreover have "i \<in> set (fc_ids c)"
      using i b(3) root(2) by (auto simp: chain_ids_def)
    ultimately show False using no by blast
  qed
  then have ids: "chain_ids ?m' (traversal ?m') root = chain_ids ?m (traversal ?m) root"
    using extends_chain_ids [OF ext(2), of root] by simp
  have "map (round_of ?m') (chain_ids ?m (traversal ?m) root) =
        map (round_of ?m) (chain_ids ?m (traversal ?m) root)"
    by (rule map_cong [OF refl])
       (auto simp: chain_ids_def map_of_eq_None_iff intro!: extends_round_of [OF ext(2)])
  then have "b = chain_at ?m (chain_ids ?m (traversal ?m) root)"
    using root(2) ids by (simp add: chain_at_def)
  then have "b \<in> set (buildChains rf)"
    using root(1) ids unfolding buildChains_iff by auto
  with b(2) none show False by (auto simp: stalledChains_def filter_empty_conv)
qed

end
