(* ===== verification/Converge.thy ===== *)
theory Converge
  imports Stall
begin

text \<open>
  The in-process review loop, \<^verbatim>\<open>packages/core/src/kernel/converge.ts\<close>. The callbacks own all I/O:
  \<^verbatim>\<open>produce\<close>, \<^verbatim>\<open>review\<close> and the policy accessor are parameters that read and return an
  environment state \<open>'s\<close>, so a hot-reloaded policy and a session that remembers are both covered.
  The code's \<^verbatim>\<open>for\<close> loop has no bound of its own (its bound is re-read every round), so it is
  a partial function; \<open>converge_returns\<close> proves that it returns whenever the accessor never answers
  more than some number of rounds.
\<close>

record converge_policy =
  cp_maxRounds :: nat
  cp_stallRounds :: nat

datatype 'a converge_outcome =
    CApproved (approved_artifact: 'a) (outcome_rounds: nat)
  | CEscalated (outcome_source: escalation_source) (outcome_reason: string)
      (outcome_rounds: nat) (outcome_chain: "finding_chain option")

definition deepest :: "finding_chain list \<Rightarrow> finding_chain option" where
  "deepest cs = (case cs of [] \<Rightarrow> None | c # rest \<Rightarrow> Some (first_max fc_rounds c rest))"

definition maxRounds_reason :: "nat \<Rightarrow> string" where
  "maxRounds_reason n = ''maxRounds ('' @ nat_text n @ '') exhausted without approval''"

definition stall_reason :: "finding_chain \<Rightarrow> string" where
  "stall_reason c =
     ''finding chain persisted '' @ nat_text (fc_rounds c) @ '' rounds: '' @ join '' -> '' (fc_ids c)"

text \<open>The loop body from round \<open>rnd\<close> on; \<open>hist\<close> is \<^verbatim>\<open>roundFindings\<close>.\<close>

partial_function (option) converge_from ::
  "(feedback option \<Rightarrow> nat \<Rightarrow> 's \<Rightarrow> 'a \<times> 's) \<Rightarrow>
   ('a \<Rightarrow> nat \<Rightarrow> finding list list \<Rightarrow> 's \<Rightarrow> verdict \<times> 's) \<Rightarrow>
   ('s \<Rightarrow> converge_policy) \<Rightarrow> string list option \<Rightarrow>
   nat \<Rightarrow> finding list list \<Rightarrow> feedback option \<Rightarrow> 's \<Rightarrow> ('a converge_outcome \<times> 's) option"
where
  "converge_from produce review policy dismissedIds rnd hist fb s =
     (if rnd > cp_maxRounds (policy s)
      then Some (CEscalated SrcPolicy (maxRounds_reason (cp_maxRounds (policy s))) (rnd - 1) None, s)
      else
        case produce fb rnd s of (artifact, s1) \<Rightarrow>
        case review artifact rnd hist s1 of (v, s2) \<Rightarrow>
        (case v of
           VApprove \<Rightarrow> Some (CApproved artifact rnd, s2)
         | VEscalate reason \<Rightarrow> Some (CEscalated SrcAgent reason rnd None, s2)
         | VRevise findings \<Rightarrow>
             (case deepest (stalledChains (hist @ [findings]) (cp_stallRounds (policy s2)) dismissedIds) of
                Some chain \<Rightarrow> Some (CEscalated SrcStall (stall_reason chain) rnd (Some chain), s2)
              | None \<Rightarrow>
                  converge_from produce review policy dismissedIds (Suc rnd) (hist @ [findings])
                    (Some (FbFindings (map f_id findings))) s2)))"

text \<open>The entry point with its defaults: round 1, no history, no feedback.\<close>

definition converge ::
  "(feedback option \<Rightarrow> nat \<Rightarrow> 's \<Rightarrow> 'a \<times> 's) \<Rightarrow>
   ('a \<Rightarrow> nat \<Rightarrow> finding list list \<Rightarrow> 's \<Rightarrow> verdict \<times> 's) \<Rightarrow>
   ('s \<Rightarrow> converge_policy) \<Rightarrow> string list option \<Rightarrow>
   nat option \<Rightarrow> finding list list option \<Rightarrow> feedback option \<Rightarrow> 's \<Rightarrow> ('a converge_outcome \<times> 's) option"
where
  "converge produce review policy dismissedIds startRound priorRounds initialFeedback s =
     converge_from produce review policy dismissedIds
       (case startRound of None \<Rightarrow> 1 | Some r \<Rightarrow> r)
       (case priorRounds of None \<Rightarrow> [] | Some h \<Rightarrow> h)
       initialFeedback s"

section \<open>The deepest chain\<close>

lemma deepest_None [simp]: "deepest cs = None \<longleftrightarrow> cs = []"
  by (simp add: deepest_def split: list.splits)

lemma deepest_Nil [simp]: "deepest [] = None"
  by simp

lemma deepest_in: "deepest cs = Some c \<Longrightarrow> c \<in> set cs"
  using first_max_in by (fastforce simp: deepest_def split: list.splits)

lemma deepest_ge: "deepest cs = Some c \<Longrightarrow> d \<in> set cs \<Longrightarrow> fc_rounds d \<le> fc_rounds c"
  by (cases cs) (auto simp: deepest_def intro!: first_max_ge)

section \<open>The loop returns\<close>

lemma converge_from_returns:
  assumes bound: "\<And>s. cp_maxRounds (policy s) \<le> B"
  shows "\<exists>r. converge_from produce review policy dis rnd hist fb s = Some r"
proof (induction "Suc B - rnd" arbitrary: rnd hist fb s)
  case 0
  then have "rnd > cp_maxRounds (policy s)" using bound [of s] by simp
  then show ?case by (simp add: converge_from.simps)
next
  case (Suc k)
  show ?case
  proof (cases "rnd > cp_maxRounds (policy s)")
    case True
    then show ?thesis by (simp add: converge_from.simps)
  next
    case False
    have more: "\<exists>r. converge_from produce review policy dis (Suc rnd) h f t = Some r" for h f t
      using Suc.hyps(2) by (intro Suc.hyps(1)) simp
    obtain a s1 where pr: "produce fb rnd s = (a, s1)" by fastforce
    obtain v s2 where rv: "review a rnd hist s1 = (v, s2)" by fastforce
    note body = converge_from.simps [of produce review policy dis rnd hist fb s]
    show ?thesis
    proof (cases v)
      case (VRevise fs)
      with False pr rv more show ?thesis
        by (cases "deepest (stalledChains (hist @ [fs]) (cp_stallRounds (policy s2)) dis)")
           (simp_all add: body)
    qed (use False pr rv in \<open>simp_all add: body\<close>)
  qed
qed

section \<open>What an outcome says\<close>

text \<open>
  Under a fixed policy the outcome names a round within the cap, an exhausted cap names exactly the
  cap, and a stall names a chain that really reached the stall threshold.
\<close>

definition outcome_sound :: "converge_policy \<Rightarrow> 'a converge_outcome \<Rightarrow> bool" where
  "outcome_sound p res \<longleftrightarrow>
     (case res of
        CApproved _ r \<Rightarrow> 1 \<le> r \<and> r \<le> cp_maxRounds p
      | CEscalated src _ r chain \<Rightarrow>
          r \<le> cp_maxRounds p \<and>
          (src = SrcPolicy \<longrightarrow> r = cp_maxRounds p \<and> chain = None) \<and>
          (src = SrcAgent \<longrightarrow> 1 \<le> r \<and> chain = None) \<and>
          (src = SrcStall \<longrightarrow> 1 \<le> r \<and> (\<exists>c. chain = Some c \<and> cp_stallRounds p \<le> fc_rounds c)))"

lemma stalledChains_threshold: "c \<in> set (stalledChains rf n dis) \<Longrightarrow> n \<le> fc_rounds c"
  by (auto simp: stalledChains_def stalled_chain_def)

lemma converge_from_sound:
  assumes "converge_from produce review (\<lambda>_. p) dis rnd hist fb s = Some (res, s')"
    and "1 \<le> rnd" and "rnd \<le> Suc (cp_maxRounds p)"
  shows "outcome_sound p res"
  using assms
proof (induction "Suc (cp_maxRounds p) - rnd" arbitrary: rnd hist fb s)
  case 0
  then have "rnd > cp_maxRounds p" by simp
  with 0 show ?case by (auto simp: converge_from.simps outcome_sound_def)
next
  case (Suc k)
  then have le: "\<not> rnd > cp_maxRounds p" by simp
  obtain a s1 where pr: "produce fb rnd s = (a, s1)" by fastforce
  obtain v s2 where rv: "review a rnd hist s1 = (v, s2)" by fastforce
  show ?case
  proof (cases v)
    case (VRevise fs)
    let ?st = "deepest (stalledChains (hist @ [fs]) (cp_stallRounds p) dis)"
    show ?thesis
    proof (cases ?st)
      case None
      with Suc.prems(1) le pr rv VRevise
      have "converge_from produce review (\<lambda>_. p) dis (Suc rnd) (hist @ [fs])
              (Some (FbFindings (map f_id fs))) s2 = Some (res, s')"
        by (simp add: converge_from.simps [of _ _ _ _ rnd])
      then show ?thesis using Suc.hyps(2) le by (intro Suc.hyps(1)) auto
    next
      case (Some c)
      then have "cp_stallRounds p \<le> fc_rounds c"
        by (blast dest: deepest_in stalledChains_threshold)
      with Some Suc.prems le pr rv VRevise show ?thesis
        by (auto simp: converge_from.simps [of _ _ _ _ rnd] outcome_sound_def)
    qed
  qed (use Suc.prems le pr rv in \<open>auto simp: converge_from.simps [of _ _ _ _ rnd] outcome_sound_def\<close>)
qed

section \<open>Scripted reviewers\<close>

text \<open>
  The loop depends on its callbacks only through the verdicts: with a reviewer that answers the
  script \<open>vs\<close>, the outcome is the outcome of this function of the script.
\<close>

function scripted :: "(nat \<Rightarrow> verdict) \<Rightarrow> converge_policy \<Rightarrow> string list option \<Rightarrow>
    nat \<Rightarrow> finding list list \<Rightarrow> nat converge_outcome" where
  "scripted vs p dis rnd hist =
     (if rnd > cp_maxRounds p
      then CEscalated SrcPolicy (maxRounds_reason (cp_maxRounds p)) (rnd - 1) None
      else (case vs rnd of
              VApprove \<Rightarrow> CApproved rnd rnd
            | VEscalate reason \<Rightarrow> CEscalated SrcAgent reason rnd None
            | VRevise findings \<Rightarrow>
                (case deepest (stalledChains (hist @ [findings]) (cp_stallRounds p) dis) of
                   Some chain \<Rightarrow> CEscalated SrcStall (stall_reason chain) rnd (Some chain)
                 | None \<Rightarrow> scripted vs p dis (Suc rnd) (hist @ [findings]))))"
  by pat_completeness auto
termination
  by (relation "measure (\<lambda>(vs, p, dis, rnd, hist). Suc (cp_maxRounds p) - rnd)") auto

declare scripted.simps [simp del]

lemma converge_from_scripted:
  "converge_from (\<lambda>fb r s. (r, s)) (\<lambda>a r h s. (vs r, s)) (\<lambda>_. p) dis rnd hist fb s =
     Some (scripted vs p dis rnd hist, s)"
proof (induction vs p dis rnd hist arbitrary: fb rule: scripted.induct)
  case (1 vs p dis rnd hist)
  show ?case
  proof (cases "rnd > cp_maxRounds p")
    case True
    then show ?thesis by (simp add: converge_from.simps scripted.simps)
  next
    case False
    then show ?thesis
      using "1.IH" [OF False]
      by (auto simp: converge_from.simps [of _ _ _ _ rnd] scripted.simps [of vs p dis rnd hist]
               split: verdict.splits option.splits)
  qed
qed

end
