(* ===== verification/Phases.thy ===== *)
theory Phases
  imports Ontology
begin

text \<open>
  The phase table, \<^verbatim>\<open>packages/core/src/kernel/phases.ts\<close>: for each phase its kind, skill, events,
  terminal discipline, required deposit, plumbing and context inputs. \<open>allowed_terminals\<close> and the
  lemmas state the discipline every consumer of the table relies on.
\<close>

datatype phase_kind = Producer | Review | AgentVerify

datatype terminal_command = Done | VerdictCmd | EscalateCmd

datatype plumbing = PushBranch | OpenPr | PushMergeCommit

datatype plan_input = LatestPlan | ApprovedPlan

datatype findings_input = CurrentFindings | AllRounds

record context_inputs =
  in_ticket :: bool
  in_spec :: bool
  in_plan :: "plan_input option"
  in_findings :: "findings_input option"
  in_currentFeedback :: bool
  in_priorOwnArtifacts :: bool
  in_commitRange :: bool
  in_implementNotes :: bool
  in_verifyReports :: bool
  in_conflict :: bool
  in_prTemplate :: bool
  in_stepConfig :: bool
  in_answeredGuidance :: bool
  in_assets :: bool

definition no_inputs :: context_inputs where
  "no_inputs =
     \<lparr>in_ticket = False, in_spec = False, in_plan = None, in_findings = None,
      in_currentFeedback = False, in_priorOwnArtifacts = False, in_commitRange = False,
      in_implementNotes = False, in_verifyReports = False, in_conflict = False,
      in_prTemplate = False, in_stepConfig = False, in_answeredGuidance = False,
      in_assets = False\<rparr>"

text \<open>The rows of the table: the six core phases and the one row all verify phases share.\<close>

datatype phase_row = RowCore core_phase | RowVerify

fun row_name :: "phase_row \<Rightarrow> string" where
  "row_name (RowCore p) = core_phase_name p"
| "row_name RowVerify = ''verify''"

definition SKILL_NAMESPACE :: string where
  "SKILL_NAMESPACE = ''ab-''"

definition installedSkillName :: "string \<Rightarrow> string" where
  "installedSkillName name =
     (if take (length SKILL_NAMESPACE) name = SKILL_NAMESPACE then name else SKILL_NAMESPACE @ name)"

record phase_spec =
  sp_name :: phase_row
  sp_kind :: phase_kind
  sp_skill :: string
  sp_startedEvent :: string
  sp_terminal :: terminal_command
  sp_terminalEvent :: string
  sp_requiredArtifact :: "string option"
  sp_verdictVocabulary :: "string list option"
  sp_requiresCleanWorktree :: bool
  sp_plumbing :: "plumbing option"
  sp_inputs :: context_inputs

fun PHASE_SPECS :: "phase_row \<Rightarrow> phase_spec" where
  "PHASE_SPECS (RowCore Plan) =
     \<lparr>sp_name = RowCore Plan, sp_kind = Producer, sp_skill = installedSkillName ''plan'',
      sp_startedEvent = ''plan.started'', sp_terminal = Done, sp_terminalEvent = ''plan.completed'',
      sp_requiredArtifact = Some ''plan'', sp_verdictVocabulary = None,
      sp_requiresCleanWorktree = False, sp_plumbing = None,
      sp_inputs = no_inputs\<lparr>in_ticket := True, in_spec := True, in_priorOwnArtifacts := True,
        in_findings := Some CurrentFindings, in_assets := True\<rparr>\<rparr>"
| "PHASE_SPECS (RowCore PlanReview) =
     \<lparr>sp_name = RowCore PlanReview, sp_kind = Review, sp_skill = installedSkillName ''plan-review'',
      sp_startedEvent = ''plan-review.started'', sp_terminal = VerdictCmd,
      sp_terminalEvent = ''plan-review.verdict'', sp_requiredArtifact = Some ''plan-review'',
      sp_verdictVocabulary = Some [''approve'', ''revise'', ''escalate''],
      sp_requiresCleanWorktree = False, sp_plumbing = None,
      sp_inputs = no_inputs\<lparr>in_spec := True, in_plan := Some LatestPlan,
        in_findings := Some AllRounds, in_assets := True\<rparr>\<rparr>"
| "PHASE_SPECS (RowCore Implement) =
     \<lparr>sp_name = RowCore Implement, sp_kind = Producer, sp_skill = installedSkillName ''implement'',
      sp_startedEvent = ''implement.started'', sp_terminal = Done,
      sp_terminalEvent = ''implement.completed'', sp_requiredArtifact = Some ''implement-notes'',
      sp_verdictVocabulary = None, sp_requiresCleanWorktree = True, sp_plumbing = Some PushBranch,
      sp_inputs = no_inputs\<lparr>in_spec := True, in_plan := Some ApprovedPlan,
        in_findings := Some CurrentFindings, in_verifyReports := True,
        in_priorOwnArtifacts := True, in_assets := True\<rparr>\<rparr>"
| "PHASE_SPECS (RowCore CodeReview) =
     \<lparr>sp_name = RowCore CodeReview, sp_kind = Review, sp_skill = installedSkillName ''code-review'',
      sp_startedEvent = ''code-review.started'', sp_terminal = VerdictCmd,
      sp_terminalEvent = ''code-review.verdict'', sp_requiredArtifact = Some ''code-review'',
      sp_verdictVocabulary = Some [''approve'', ''revise'', ''escalate''],
      sp_requiresCleanWorktree = False, sp_plumbing = None,
      sp_inputs = no_inputs\<lparr>in_spec := True, in_plan := Some ApprovedPlan, in_commitRange := True,
        in_findings := Some AllRounds, in_implementNotes := True, in_assets := True\<rparr>\<rparr>"
| "PHASE_SPECS RowVerify =
     \<lparr>sp_name = RowVerify, sp_kind = AgentVerify, sp_skill = installedSkillName ''verify'',
      sp_startedEvent = ''verify.started'', sp_terminal = VerdictCmd,
      sp_terminalEvent = ''verify.completed'', sp_requiredArtifact = None,
      sp_verdictVocabulary = Some [''pass'', ''fail'', ''skip''],
      sp_requiresCleanWorktree = False, sp_plumbing = None,
      sp_inputs = no_inputs\<lparr>in_spec := True, in_stepConfig := True, in_commitRange := True,
        in_currentFeedback := True, in_assets := True\<rparr>\<rparr>"
| "PHASE_SPECS (RowCore Finalize) =
     \<lparr>sp_name = RowCore Finalize, sp_kind = Producer, sp_skill = installedSkillName ''finalize'',
      sp_startedEvent = ''finalize.started'', sp_terminal = Done,
      sp_terminalEvent = ''finalize.completed'', sp_requiredArtifact = Some ''pr-description'',
      sp_verdictVocabulary = None, sp_requiresCleanWorktree = False, sp_plumbing = Some OpenPr,
      sp_inputs = no_inputs\<lparr>in_spec := True, in_plan := Some ApprovedPlan, in_verifyReports := True,
        in_prTemplate := True, in_answeredGuidance := True, in_assets := True\<rparr>\<rparr>"
| "PHASE_SPECS (RowCore Reconcile) =
     \<lparr>sp_name = RowCore Reconcile, sp_kind = Producer, sp_skill = installedSkillName ''reconcile'',
      sp_startedEvent = ''reconcile.started'', sp_terminal = Done,
      sp_terminalEvent = ''reconcile.completed'', sp_requiredArtifact = Some ''reconcile-notes'',
      sp_verdictVocabulary = None, sp_requiresCleanWorktree = False,
      sp_plumbing = Some PushMergeCommit,
      sp_inputs = no_inputs\<lparr>in_spec := True, in_plan := Some ApprovedPlan,
        in_implementNotes := True, in_conflict := True, in_answeredGuidance := True,
        in_assets := True\<rparr>\<rparr>"

fun phaseSpecFor :: "phase \<Rightarrow> phase_spec" where
  "phaseSpecFor (Verify _) = PHASE_SPECS RowVerify"
| "phaseSpecFor (Core p) = PHASE_SPECS (RowCore p)"

definition allowedTerminals :: "phase \<Rightarrow> terminal_command list" where
  "allowedTerminals p = [sp_terminal (phaseSpecFor p), EscalateCmd]"

lemma PHASE_SPECS_name [simp]: "sp_name (PHASE_SPECS r) = r"
  by (cases r rule: PHASE_SPECS.cases) simp_all

text \<open>
  The table is mechanical: skill, started event and terminal event all derive from the row's name,
  a verdict vocabulary accompanies exactly the verdict terminals, and only implement needs a clean
  worktree. Every producer must deposit an artifact; a review never has plumbing.
\<close>

definition spec_disciplined :: "phase_spec \<Rightarrow> bool" where
  "spec_disciplined s \<longleftrightarrow>
     sp_skill s = ''ab-'' @ row_name (sp_name s) \<and>
     sp_startedEvent s = row_name (sp_name s) @ ''.started'' \<and>
     sp_terminalEvent s =
       row_name (sp_name s) @ (if sp_terminal s = VerdictCmd \<and> sp_kind s = Review
                               then ''.verdict'' else ''.completed'') \<and>
     (sp_terminal s = VerdictCmd \<longleftrightarrow> sp_verdictVocabulary s \<noteq> None) \<and>
     (sp_kind s = Producer \<longleftrightarrow> sp_terminal s = Done) \<and>
     (sp_kind s = Producer \<longrightarrow> sp_requiredArtifact s \<noteq> None) \<and>
     (sp_plumbing s \<noteq> None \<longrightarrow> sp_kind s = Producer) \<and>
     (sp_requiresCleanWorktree s \<longleftrightarrow> sp_name s = RowCore Implement) \<and>
     in_spec (sp_inputs s) \<and> in_assets (sp_inputs s)"

lemma PHASE_SPECS_disciplined: "spec_disciplined (PHASE_SPECS r)"
  by (cases r rule: PHASE_SPECS.cases)
     (simp_all add: spec_disciplined_def installedSkillName_def SKILL_NAMESPACE_def no_inputs_def)

lemma installedSkillName_idem: "installedSkillName (installedSkillName n) = installedSkillName n"
  by (simp add: installedSkillName_def SKILL_NAMESPACE_def)

end
