(* ===== verification/Config.thy ===== *)
theory Config
  imports Ontology
begin

text \<open>
  The part of \<^verbatim>\<open>packages/core/src/config/schema.ts\<close> the kernel reads: the policy thresholds, the
  ordered verify and finalize steps with their step tables, the commands, and the path-selector
  grammar. A step table is keyed by step name in declaration order.
\<close>

record policy =
  po_stallRounds :: nat
  po_maxVerifyAttempts :: nat
  po_maxReconcileAttempts :: nat
  po_maxReviewRounds :: nat

datatype step_kind = CheckStep string | AgentStep string

record verify_step_config =
  sc_kind :: step_kind
  sc_failFast :: "bool option"
  sc_afterReconcile :: "bool option"
  sc_paths :: "string list option"
  sc_always :: "bool option"

record verify_config =
  vy_afterReconcile :: bool
  vy_steps :: "string list"
  vy_stages :: "string list list option"
  vy_stepConfigs :: "(string, verify_step_config) jsmap"

record finalize_config =
  fz_steps :: "string list"
  fz_stepConfigs :: "(string, step_kind) jsmap"

type_synonym commands = "(string, string) jsmap"

record config =
  cf_policy :: policy
  cf_verify :: verify_config
  cf_finalize :: finalize_config
  cf_commands :: commands

text \<open>
  The text \<^verbatim>\<open>JSON.stringify({verify, commands})\<close> a node's integration cycle freezes. Serialising is
  injective on the two values and parsing gives them back, so the text is represented by them; any
  other text is kept as it is.
\<close>

datatype config_text = SerializedConfig verify_config commands | OtherText string

section \<open>Entries of a verify section\<close>

text \<open>\<^verbatim>\<open>[verify].steps\<close> mixes plain step names with groups; a group makes the stages explicit.\<close>

datatype steps_entry = Single string | Group "string list"

fun entry_steps :: "steps_entry \<Rightarrow> string list" where
  "entry_steps (Single s) = [s]"
| "entry_steps (Group ss) = ss"

fun is_group :: "steps_entry \<Rightarrow> bool" where
  "is_group (Group _) = True"
| "is_group (Single _) = False"

definition verify_section ::
  "steps_entry list \<Rightarrow> (string, verify_step_config) jsmap \<Rightarrow> bool \<Rightarrow> verify_config" where
  "verify_section entries stepConfigs afterReconcile =
     \<lparr>vy_afterReconcile = afterReconcile,
      vy_steps = concat (map entry_steps entries),
      vy_stages = (if list_ex is_group entries then Some (map entry_steps entries) else None),
      vy_stepConfigs = stepConfigs\<rparr>"

definition verifyStages :: "verify_config \<Rightarrow> string list list" where
  "verifyStages c = (case vy_stages c of Some st \<Rightarrow> st | None \<Rightarrow> map (\<lambda>s. [s]) (vy_steps c))"

text \<open>Whatever the grouping, the stages in order are the steps in order.\<close>

lemma concat_verifyStages_section:
  "concat (verifyStages (verify_section es sc ar)) = vy_steps (verify_section es sc ar)"
proof (cases "list_ex is_group es")
  case True
  then show ?thesis by (simp add: verifyStages_def verify_section_def)
next
  case False
  then have "map entry_steps es = map (\<lambda>s. [s]) (concat (map entry_steps es))"
  proof (induction es)
    case (Cons e es)
    then show ?case by (cases e) auto
  qed simp
  with False show ?thesis by (simp add: verifyStages_def verify_section_def)
qed

section \<open>Path selectors\<close>

text \<open>
  \<^verbatim>\<open>verifyPathGlobError\<close>: which rule a selector breaks first, \<open>None\<close> when it breaks none.
\<close>

datatype glob_error =
    GlobEmpty | GlobNul | GlobAbsolute | GlobBackslash | GlobNegation | GlobClass | GlobExtglob
  | GlobEmptySegment | GlobTraversal | GlobPartialStar

fun split_on :: "char \<Rightarrow> string \<Rightarrow> string list" where
  "split_on c [] = [[]]"
| "split_on c (x # xs) =
     (if x = c then [] # split_on c xs
      else (case split_on c xs of [] \<Rightarrow> [[x]] | s # ss \<Rightarrow> (x # s) # ss))"

fun has_extglob :: "string \<Rightarrow> bool" where
  "has_extglob (x # y # xs) =
     ((x \<in> set ''?*+@!'' \<and> y = CHR ''('') \<or> has_extglob (y # xs))"
| "has_extglob _ = False"

fun has_double_star :: "string \<Rightarrow> bool" where
  "has_double_star (x # y # xs) = ((x = CHR ''*'' \<and> y = CHR ''*'') \<or> has_double_star (y # xs))"
| "has_double_star _ = False"

definition is_letter :: "char \<Rightarrow> bool" where
  "is_letter c = (let n = of_char c :: nat in (65 \<le> n \<and> n \<le> 90) \<or> (97 \<le> n \<and> n \<le> 122))"

fun drive_prefix :: "string \<Rightarrow> bool" where
  "drive_prefix (l # c # s # _) = (is_letter l \<and> c = CHR '':'' \<and> s = CHR ''/'')"
| "drive_prefix _ = False"

definition verifyPathGlobError :: "string \<Rightarrow> glob_error option" where
  "verifyPathGlobError pattern =
     (let segments = split_on (CHR ''/'') pattern in
      if pattern = [] then Some GlobEmpty
      else if CHR 0x00 \<in> set pattern then Some GlobNul
      else if take 1 pattern = ''/'' \<or> drive_prefix pattern then Some GlobAbsolute
      else if CHR 0x5C \<in> set pattern then Some GlobBackslash
      else if take 1 pattern = ''!'' then Some GlobNegation
      else if list_ex (\<lambda>c. c \<in> set ''[]{}'') pattern then Some GlobClass
      else if has_extglob pattern then Some GlobExtglob
      else if [] \<in> set segments then Some GlobEmptySegment
      else if ''.'' \<in> set segments \<or> ''..'' \<in> set segments then Some GlobTraversal
      else if list_ex (\<lambda>s. has_double_star s \<and> s \<noteq> ''**'') segments then Some GlobPartialStar
      else None)"

lemma split_on_nonempty [simp]: "split_on c xs \<noteq> []"
  by (induction xs) (auto split: list.splits)

lemma join_split_on: "join [c] (split_on c xs) = xs"
proof (induction xs)
  case (Cons x xs)
  obtain s ss where s: "split_on c xs = s # ss" by (cases "split_on c xs") auto
  show ?case
  proof (cases "x = c")
    case True
    with Cons s show ?thesis by simp
  next
    case False
    with Cons s show ?thesis by (cases ss) simp_all
  qed
qed simp

text \<open>An accepted selector is relative, has no traversal and uses \<^verbatim>\<open>**\<close> only as a whole segment.\<close>

lemma verifyPathGlobError_accepts:
  "verifyPathGlobError p = None \<Longrightarrow>
     p \<noteq> [] \<and> hd p \<noteq> CHR ''/'' \<and>
     (\<forall>s \<in> set (split_on (CHR ''/'') p).
        s \<noteq> [] \<and> s \<noteq> ''.'' \<and> s \<noteq> ''..'' \<and> (has_double_star s \<longrightarrow> s = ''**''))"
  unfolding verifyPathGlobError_def Let_def
  by (cases p) (auto split: if_splits simp: list_ex_iff)

section \<open>Verify applicability\<close>

text \<open>
  \<^verbatim>\<open>evaluateVerifyApplicability\<close> of \<^verbatim>\<open>kernel/verify-applicability.ts\<close>. The matcher
  \<^verbatim>\<open>Bun.Glob(path).match\<close> is the runtime's, a parameter here; a selector outside the documented
  grammar is an error before any matching.
\<close>

datatype applicability_rule = Always | Paths (rule_step: string) (rule_paths: "string list")

datatype applicability = Applies | Excluded (excluded_step: string) (excluded_paths: "string list")

definition evaluateVerifyApplicability ::
  "(string \<Rightarrow> string \<Rightarrow> bool) \<Rightarrow> applicability_rule \<Rightarrow> string list \<Rightarrow>
   (string \<times> string \<times> glob_error) + applicability"
where
  "evaluateVerifyApplicability glob_match rule changedPaths =
     (case rule of
        Always \<Rightarrow> Inr Applies
      | Paths step paths \<Rightarrow>
          (case List.find (\<lambda>p. verifyPathGlobError p \<noteq> None) paths of
             Some p \<Rightarrow> Inl (step, p, the (verifyPathGlobError p))
           | None \<Rightarrow>
               if list_ex (\<lambda>changed. list_ex (\<lambda>p. glob_match p changed) paths) changedPaths
               then Inr Applies else Inr (Excluded step paths)))"

lemma applicability_excluded_iff:
  assumes "\<forall>p \<in> set paths. verifyPathGlobError p = None"
  shows "evaluateVerifyApplicability g (Paths step paths) changed = Inr (Excluded step paths) \<longleftrightarrow>
         (\<forall>c \<in> set changed. \<forall>p \<in> set paths. \<not> g p c)"
proof -
  have "List.find (\<lambda>p. verifyPathGlobError p \<noteq> None) paths = None"
    using assms by (simp add: find_None_iff)
  then show ?thesis by (auto simp: evaluateVerifyApplicability_def list_ex_iff)
qed

end
