(* ===== verification/EventBase.thy ===== *)
theory EventBase
  imports Config
begin

text \<open>
  The values payloads share, \<^verbatim>\<open>packages/core/src/events/payloads.ts\<close> and \<^verbatim>\<open>events/runtime.ts\<close>. A commit id is
  its text; a timestamp is the instant its ISO text denotes, in milliseconds. A selected account is its
  name and the text of its descriptor.
\<close>

type_synonym sha = string
type_synonym timestamp = int
type_synonym account = "string \<times> string"

record runtime_identity =
  rt_version :: string
  rt_commit :: string
  rt_kind :: string
  rt_location :: string

record native_handle =
  nh_runner :: string
  nh_nativeId :: string
  nh_host :: string
  nh_workspacePath :: string
  nh_statePath :: "string option"

record usage =
  us_inputTokens :: nat
  us_outputTokens :: nat
  us_turns :: nat

record pinned_asset =
  pa_kind :: string
  pa_name :: string
  pa_revision :: nat
  pa_tree :: bool
  pa_size :: nat
  pa_fileCount :: nat
  pa_dirCount :: nat
  pa_snapshot :: "(string \<times> nat) option"

datatype link_intent = Closes | Refs

datatype build_kind = Work | Node

record node_target =
  nt_ticket :: ticket_ref
  nt_build :: string

record pr_ref =
  pr_number :: nat
  pr_url :: string
  pr_headSha :: sha

end
