(* ===== verification/BuildPayloads.thy ===== *)
theory BuildPayloads
  imports EventBase
begin

text \<open>
  Payload records of \<^verbatim>\<open>packages/core/src/events/payloads.ts\<close>: the build, its executions and workspaces,
  its sessions. Fields that no modelled reducer reads or stores are left out.
\<close>

record build_created =
  bc_kind :: "build_kind option"
  bc_target :: "node_target option"
  bc_baseBranch :: string
  bc_assets :: "pinned_asset list option"
  bc_issueLinks :: "(nat \<times> link_intent) list option"

record janitor_failure =
  jf_firstFailureAt :: timestamp
  jf_attempt :: nat
  jf_message :: string
  jf_nextAttemptAt :: timestamp

record setup_failed =
  sf_command :: string
  sf_attempt :: nat
  sf_exitStatus :: "int option"
  sf_output :: string

record dispatch_failed =
  df_stage :: string
  df_attempt :: nat
  df_error :: string

record execution_started =
  xs_provider :: string
  xs_workspaceRef :: string
  xs_instance :: string
  xs_environmentId :: "string option"
  xs_sessionId :: "string option"
  xs_commandId :: "string option"

record workspace_location =
  wl_provider :: string
  wl_ref :: string
  wl_path :: "string option"
  wl_localPath :: "string option"
  wl_remote :: "bool option"
  wl_branch :: string
  wl_base :: sha

record drain_authorized =
  da_targetRuntime :: "runtime_identity option"
  da_correlation :: string
  da_run :: string
  da_runtime :: runtime_identity
  da_instance :: string

record relaunch_requested =
  rr_instance :: string
  rr_correlation :: string
  rr_from :: runtime_identity
  rr_to :: runtime_identity

record infrastructure_failed =
  if_provider :: string
  if_workspaceRef :: string
  if_instance :: string
  if_operation :: string
  if_cause :: string
  if_attempt :: nat
  if_retryable :: bool
  if_cleanupPending :: bool
  if_error :: string

datatype cleanup_outcome = Confirmed | Absent | Unknown

record cleanup_attempted =
  ca_provider :: string
  ca_workspaceRef :: string
  ca_operation :: string
  ca_attempt :: nat
  ca_outcome :: cleanup_outcome
  ca_error :: "string option"

datatype suspension_cause = Shutdown | PauseCause | RunnerLoss

record continuation =
  co_predecessor :: string
  co_root :: string
  co_handle :: native_handle
  co_cause :: suspension_cause
  co_activeMs :: nat
  co_budgetMs :: nat

record session_started =
  ss_continuation :: "continuation option"
  ss_budgetMs :: "nat option"
  ss_session :: string
  ss_role :: string
  ss_runner :: string
  ss_model :: "string option"
  ss_args :: "string list option"
  ss_account :: "account option"
  ss_phase :: phase
  ss_round :: "nat option"
  ss_stream :: "string option"
  ss_prompt :: "string option"

record session_suspended =
  su_session :: string
  su_phase :: phase
  su_round :: "nat option"
  su_handle :: "native_handle option"
  su_cause :: suspension_cause
  su_activeMs :: nat
  su_transcript :: artifact_ref
  su_usage :: "usage option"

record session_resumed =
  sr_session :: string
  sr_predecessor :: string
  sr_root :: string
  sr_handle :: native_handle
  sr_stale :: bool

record build_read_failed =
  rf_session :: string
  rf_phase :: phase
  rf_round :: nat
  rf_diagnostic :: string

record build_read_recovered =
  rc_session :: string
  rc_phase :: phase
  rc_round :: nat
  rc_evidenceSeq :: nat
  rc_failureSeq :: nat

end
