(* ===== verification/PhasePayloads.thy ===== *)
theory PhasePayloads
  imports EventBase
begin

text \<open>
  Payload records of \<^verbatim>\<open>packages/core/src/events/payloads.ts\<close>: verdicts, verification, restacks, targets,
  landing, escalations. Fields that no modelled reducer reads or stores are left out.
\<close>

record verdict_payload =
  vp_round :: nat
  vp_verdict :: review_verdict_kind
  vp_findings :: "finding list"
  vp_artifact :: artifact_ref
  vp_reason :: "string option"

record config_captured =
  cc_cycle :: nat
  cc_artifact :: artifact_ref
  cc_head :: sha
  cc_identity :: string

record verify_started =
  vs_baseSha :: "sha option"
  vs_headSha :: "sha option"
  vs_restackId :: "string option"
  vs_step :: string
  vs_attempt :: nat
  vs_feedback :: "feedback option"

record policy_step =
  ps_step :: string
  ps_enabled :: bool
  ps_source :: string

record reconcile_policy =
  rp_cycle :: "nat option"
  rp_reconcileSeq :: nat
  rp_steps :: "policy_step list"

record verify_cancelled =
  vc_baseSha :: "sha option"
  vc_headSha :: "sha option"
  vc_restackId :: "string option"
  vc_step :: string
  vc_attempt :: nat
  vc_cause :: string

record stage_failed =
  sg_attempt :: nat
  sg_cycle :: nat
  sg_stage :: "string list"
  sg_baseSha :: "sha option"
  sg_headSha :: "sha option"
  sg_restackId :: "string option"
  sg_failed :: "(string \<times> artifact_ref option) list"
  sg_cancelled :: "(string \<times> string) list"

text \<open>\<^verbatim>\<open>verify.completed\<close>: the legacy boolean branch and the three-outcome branch.\<close>

record verify_base =
  vb_baseSha :: "sha option"
  vb_headSha :: "sha option"
  vb_restackId :: "string option"
  vb_step :: string
  vb_attempt :: nat

datatype verify_completed =
    LegacyPass verify_base bool "artifact_ref option"
  | OutcomePass verify_base "artifact_ref option"
  | OutcomeFail verify_base "artifact_ref option"
  | OutcomeSkipped verify_base bool string

record leaf_restack =
  lr_id :: string
  lr_branch :: string
  lr_oldHead :: sha
  lr_oldBase :: sha
  lr_targetBase :: sha
  lr_changeSha :: sha
  lr_workspaceHead :: sha
  lr_localBranchHead :: sha
  lr_verifyEntry :: bool
  lr_cycle :: nat
  lr_observation :: nat
  lr_message :: string

record restack_replayed =
  ry_id :: string
  ry_conflicted :: bool
  ry_files :: "string list option"

record reconcile_started =
  rs_attempt :: nat
  rs_baseSha :: sha
  rs_restackId :: "string option"

record progress_checked =
  pc_conflictSeq :: nat
  pc_attempt :: nat
  pc_baseSha :: sha

record reconcile_rewritten =
  rw_id :: string
  rw_targetBase :: sha
  rw_headSha :: sha
  rw_observedHead :: "sha option"

record target_distance =
  td_branch :: string
  td_sha :: sha
  td_head :: "sha option"
  td_count :: "nat option"

record lineage_entry =
  le_node :: string
  le_from :: sha
  le_receipts :: "(string \<times> sha \<times> sha) list"

record target_moved =
  tm_branch :: string
  tm_sha :: sha
  tm_lineage :: "lineage_entry list option"

record target_rewritten =
  tr_branch :: string
  tr_previousSha :: sha
  tr_sha :: sha

record landing_candidate =
  lc_head :: sha
  lc_parent :: sha
  lc_cycle :: string

datatype landing_target = ToRoot | ToNode string
datatype landing_mode = Auto | Consent

record landing_rule =
  rule_into :: "string option"
  rule_from :: "build_kind option"
  rule_label :: "string option"
  rule_mode :: landing_mode

datatype rule_match = MatchedRule nat landing_rule | DefaultRule

record landing_decision =
  ld_candidate :: landing_candidate
  ld_from :: build_kind
  ld_into :: landing_target
  ld_labels :: "string list"
  ld_mode :: landing_mode
  ld_rule :: rule_match

record native_applied =
  na_enableSeq :: "nat option"
  na_enabled :: bool
  na_candidate :: "landing_candidate option"
  na_decisionSeq :: "nat option"
  na_commandSeq :: "nat option"
  na_operation :: "string option"
  na_publicationHead :: "sha option"

record application_failed =
  af_candidate :: landing_candidate
  af_decisionSeq :: nat
  af_commandSeq :: "nat option"
  af_message :: string
  af_attempt :: nat
  af_after :: timestamp

record observation =
  ob_id :: string
  ob_kind :: observation_kind
  ob_summary :: string
  ob_files :: "string list option"
  ob_refs :: "string list option"

record escalation_raised =
  er_id :: string
  er_phase :: escalation_target
  er_round :: "nat option"
  er_source :: escalation_source
  er_policyCause :: "policy_cause option"
  er_question :: string
  er_refs :: "string list option"

record escalation_answered =
  ea_id :: string
  ea_answer :: string
  ea_resolution :: resolution
  ea_artifact :: "artifact_ref option"
  ea_assets :: "pinned_asset list option"
  ea_reviewRoundCeiling :: "nat option"

record deferral_escalated =
  de_session :: string
  de_phase :: phase
  de_round :: nat
  de_id :: string
  de_evidenceSeq :: nat
  de_question :: string
  de_refs :: "string list"

end
