(* ===== verification/TreePayloads.thy ===== *)
theory TreePayloads
  imports EventBase
begin

text \<open>
  Payload records of \<^verbatim>\<open>packages/core/src/events/payloads.ts\<close>: the integration tree. Fields that no modelled
  reducer reads or stores are left out.
\<close>

record node_opening =
  no_branch :: string
  no_parent :: sha
  no_sha :: sha

record restack_request =
  rq_id :: string
  rq_presence :: bool
  rq_branch :: string
  rq_parent :: sha
  rq_dependent :: "ticket_ref option"
  rq_identities :: "string list option"

record availability =
  av_fingerprint :: string
  av_branch :: string
  av_parentBranch :: string
  av_head :: sha
  av_parent :: sha
  av_base :: sha
  av_available :: "string list"

record parent_distance =
  pd_base :: sha
  pd_parent :: sha
  pd_branch :: string
  pd_count :: "nat option"

record node_parent =
  np_target :: "node_target option"
  np_branch :: string

record parent_change =
  px_id :: string
  px_old :: node_parent
  px_next :: node_parent
  px_revision :: string

record parent_rejected =
  pj_revision :: string
  pj_target :: "string option"
  pj_reason :: string

record reserved_change =
  ch_sha :: sha
  ch_build :: "string option"

record writer_reserved =
  wr_id :: string
  wr_restack :: bool
  wr_requests :: "string list option"
  wr_expected :: sha
  wr_parent :: sha
  wr_oldBase :: sha
  wr_changes :: "reserved_change list"

record item_prepared =
  ip_id :: string
  ip_index :: nat
  ip_base :: sha

record item_replayed =
  ir_id :: string
  ir_index :: nat
  ir_base :: sha
  ir_head :: sha
  ir_dropped :: bool

record publish_intended =
  pi_id :: string
  pi_head :: sha

record node_rewritten =
  nw_id :: string
  nw_previous :: sha
  nw_head :: sha

datatype settle_outcome = Completed | Contended | SettleAbandoned

record contribution =
  cn_landing :: sha
  cn_head :: sha
  cn_base :: sha
  cn_identities :: "string list"

record node_inventory =
  ni_head :: sha
  ni_base :: "sha option"
  ni_builds :: "string list"
  ni_contributions :: "string list option"
  ni_foreign :: "string list"

record node_issue_link =
  il_issue :: nat
  il_intent :: link_intent
  il_downgraded :: bool

record poll_checked =
  pk_activityKey :: string
  pk_unchangedSince :: timestamp
  pk_idleAfterSeconds :: nat
  pk_idlePollSeconds :: nat

record node_compared =
  nc_parentSha :: sha
  nc_headSha :: sha
  nc_ahead :: nat

record observed_child =
  oc_source :: string
  oc_id :: string
  oc_title :: "string option"
  oc_builds :: "string list option"
  oc_claims :: "string list option"

record integration_observed =
  io_membershipSource :: "string option"
  io_openChildren :: "string list"
  io_diagnostics :: "string list"
  io_contributions :: "string list"
  io_children :: "observed_child list option"

record integration_prepared =
  gp_id :: string
  gp_head :: sha
  gp_parent :: sha
  gp_context :: "nat option"
  gp_config :: config_text

record verification_failed =
  vf_id :: string
  vf_head :: sha
  vf_parent :: sha
  vf_steps :: "string list"
  vf_guidance :: string

record landing_intended =
  li_id :: string
  li_cycle :: string
  li_head :: sha
  li_parent :: sha
  li_commandSeq :: "nat option"
  li_decisionSeq :: "nat option"
  li_fenced :: bool
  li_evidence :: "string list"

record integration_landed =
  gl_operation :: "string option"
  gl_head :: sha
  gl_landed :: sha
  gl_human :: bool
  gl_verified :: bool
  gl_fenced :: bool

record integration_audited =
  ga_operation :: string
  ga_verifiedTree :: string
  ga_landedTree :: string
  ga_identities :: "string list"

end
