(* ===== verification/Events.thy ===== *)
theory Events
  imports BuildPayloads PhasePayloads TreePayloads
begin

text \<open>
  The event vocabulary of a build log, \<^verbatim>\<open>packages/core/src/events/payloads.ts\<close>, and the envelope of
  \<^verbatim>\<open>events/envelope.ts\<close>. One datatype per type-name prefix (\<^verbatim>\<open>build.\<close>, \<^verbatim>\<open>node.\<close>, \<^verbatim>\<open>session.\<close>, ...),
  so the code's prefix tests are constructor tests. A payload the kernel stores whole is a record of
  \<open>BuildPayloads\<close>, \<open>PhasePayloads\<close> or \<open>TreePayloads\<close>; payload fields that no modelled reducer reads or
  stores are left out of their constructor.
\<close>

section \<open>Events by family\<close>

datatype build_ev =
    CompatibilityDeferred nat
  | BuildCreated build_created
  | BuildCompleted build_outcome
  | PauseRequested "string option"
  | ResumeRequested "string option"
  | AbortRequested "string option"
  | DiscardRequested
  | JanitorAttemptFailed janitor_failure
  | JanitorFailing
  | JanitorRecovered
  | HoldRequested
  | LandRequested nat
  | AutoMergeRequested bool "nat option"
  | AutoMergeCancelled "nat option"
  | AutoMergeDefaultObserved nat
  | BuildPaused
  | BuildResumed
  | BuildAborted

datatype node_ev =
    NodeOpening node_opening
  | NodeRestackRequested restack_request
  | NodeRestackSatisfied string
  | NodeAvailability availability
  | NodeParentDistance parent_distance
  | NodeParentRequested parent_change
  | NodeParentAccepted parent_change
  | NodeParentPrRetargeted string
  | NodeParentCompleted string
  | NodeParentCancelled string
  | NodeParentRejectionCleared
  | NodeParentRejected parent_rejected
  | NodeOpened sha
  | NodeWriterReserved writer_reserved
  | NodeItemPrepared item_prepared
  | NodeItemReplayed item_replayed
  | NodeItemConflicted item_prepared
  | NodePublishIntended publish_intended
  | NodeRewritten node_rewritten
  | NodeWriterSettled string settle_outcome
  | NodeContributionRecorded contribution
  | NodeIssueLinksRecorded string "node_issue_link list"
  | NodeIssueLinksPublished nat "(nat \<times> link_intent) list"
  | NodeInventory node_inventory
  | NodePollChecked poll_checked
  | NodeCompared node_compared

datatype integration_ev =
    IntegrationAbandoned string
  | IntegrationObserved integration_observed
  | IntegrationVerificationFailed verification_failed
  | IntegrationPrepared integration_prepared
  | IntegrationLandingIntended landing_intended
  | IntegrationLanded integration_landed
  | IntegrationAudited integration_audited

datatype runner_ev = RunnerRuntimeRecorded | RunnerAttached | RunnerSetupFailed setup_failed

text \<open>
  A release names its workspace, or is the empty payload of older logs (\<open>None\<close>); a provisioning marker
  is its provider, branch and generation.
\<close>

datatype workspace_ev =
    WorkspaceProvisioned workspace_location
  | WorkspaceCleanupRequired workspace_location
  | WorkspaceReleased "string option"
  | WorkspaceProvisionStarted string string nat
  | WorkspaceFact string

datatype execution_outcome = EndedCompleted | EndedStopped | EndedLost | EndedRelaunch

datatype execution_ev =
    RelaunchRequested relaunch_requested
  | DrainAuthorized drain_authorized
  | DrainSettled string string
  | ExecutionStarted execution_started
  | ExecutionEnded string execution_outcome "int option"

datatype infra_ev = InfrastructureFailed infrastructure_failed | CleanupAttempted cleanup_attempted

datatype spec_ev =
    SpecImported artifact_ref
  | SpecAuthored artifact_ref
  | SpecRevised artifact_ref "pinned_asset list option"

datatype session_ev =
    SessionStarted session_started
  | SessionSuspended session_suspended
  | SessionResumed session_resumed
  | SessionResumeFallback string bool
  | SessionHandleRecorded string phase "nat option" native_handle
  | SessionEnded string "nat option" artifact_ref usage
  | SessionReclaimed string
  | SessionBuildReadFailed build_read_failed
  | SessionBuildReadRecovered build_read_recovered

datatype loop_ev =
    PlanStarted nat "feedback option"
  | PlanCompleted nat artifact_ref "string list option"
  | PlanReviewStarted nat
  | PlanReviewVerdict verdict_payload
  | ImplementStarted nat "nat option" "feedback option"
  | ImplementCompleted nat commit_range artifact_ref
  | CodeReviewStarted nat
  | CodeReviewVerdict verdict_payload

datatype verify_ev =
    VerifyConfigCaptured config_captured
  | VerifyConfigSuperseded
  | VerifyStarted verify_started
  | VerifyReconcilePolicyCaptured reconcile_policy
  | VerifyCompleted verify_completed
  | VerifyCancelled verify_cancelled
  | VerifyStageFailed stage_failed

datatype finalize_ev =
    FinalizeStarted
  | FinalizeCompleted pr_ref
  | FinalizeStepStarted string
  | FinalizeStepCompleted string bool "sha option"

datatype pr_ev =
    PrOpened pr_ref
  | PrAutoMergeEnabled nat
  | PrAutoMergeDisabled nat
  | PrMerged sha
  | PrClosed
  | PrConflicted sha

datatype landing_ev =
    LandingApplicationFailed application_failed
  | LandingDecided landing_decision
  | LandingCommandAcknowledged nat
  | LandingNativeEnableStarted
  | LandingForgeMerged bool bool
  | LandingNativeApplied native_applied

datatype target_ev =
    TargetDistance target_distance
  | TargetRewritten target_rewritten
  | TargetRewriteCleared string sha "lineage_entry list option"
  | TargetMoved target_moved

datatype restack_ev =
    RestackPrepared leaf_restack
  | RestackReplayed restack_replayed
  | RestackPublishIntended leaf_restack sha
  | RestackRewritten leaf_restack sha "sha option"
  | RestackContended string nat
  | RestackCompleted leaf_restack sha

datatype reconcile_ev =
    ReconcileStarted reconcile_started
  | ReconcileProgressChecked progress_checked
  | ReconcileRewritten reconcile_rewritten
  | ReconcileMerged sha
  | ReconcileRebased sha string
  | ReconcileContended string nat
  | ReconcileFact string

datatype publication_op = OpImplement | OpReconcile | OpRestack | OpFinalize | OpFinalizeStep

record retry_facts =
  rtf_operation :: publication_op
  rtf_rewriteId :: string
  rtf_round :: nat
  rtf_anchor :: nat
  rtf_failure :: nat
  rtf_error :: string

text \<open>
  What is published: the commit, and what ties the request to the fact that completes it. A retired
  candidate names the request and the rewrites it moves between.
\<close>

datatype publication_request =
    ReqRestack sha string
  | ReqImplement sha nat sha
  | ReqReconcile sha "string option"
  | ReqFinalize sha
  | ReqFinalizeStep sha string

datatype publication_ev =
    PublicationRequested publication_request
  | PublicationRetryScheduled retry_facts timestamp
  | PublicationRetryExhausted retry_facts
  | PublicationCandidateRetired nat publication_op string string
  | PublicationLost nat
  | PublicationFact string

datatype escalation_ev = EscalationRaised escalation_raised | EscalationAnswered escalation_answered

datatype phase_ev =
    PhaseDeferred string phase nat
  | PhaseDeferralEscalated deferral_escalated
  | PhaseFailed phase "nat option"

datatype issue_ev = IssueLinkDowngraded nat string | IssueLinksSealed

text \<open>
  \<open>EFact\<close> is any other catalogued type (\<^verbatim>\<open>pr-summary.*\<close>, \<^verbatim>\<open>pr-attachment.*\<close>, \<^verbatim>\<open>abort.*\<close>,
  \<^verbatim>\<open>dispatch.comment-posted\<close>), which every modelled reducer ignores. \<open>EUnknown\<close> is a type this
  build's catalog does not know, with the writer's compatibility metadata: the writer version, and
  whether it classified the fact as advisory.
\<close>

datatype event_body =
    EBuild build_ev
  | ENode node_ev
  | EIntegration integration_ev
  | ERunner runner_ev
  | EWorkspace workspace_ev
  | EExecution execution_ev
  | EInfra infra_ev
  | EDispatchFailed dispatch_failed
  | ESpec spec_ev
  | ESession session_ev
  | ELoop loop_ev
  | EVerify verify_ev
  | EFinalize finalize_ev
  | EPr pr_ev
  | ELanding landing_ev
  | ETarget target_ev
  | ERestack restack_ev
  | EReconcile reconcile_ev
  | EPublication publication_ev
  | EEscalation escalation_ev
  | EPhase phase_ev
  | EIssue issue_ev
  | EObservation observation
  | EFact string
  | EUnknown string "(string \<times> bool) option"

record ab_event =
  ev_seq :: nat
  ev_ts :: timestamp
  ev_actor :: actor
  ev_body :: event_body

section \<open>Verify completions in one shape\<close>

record verify_record =
  vr_baseSha :: "sha option"
  vr_headSha :: "sha option"
  vr_restackId :: "string option"
  vr_step :: string
  vr_attempt :: nat
  vr_outcome :: verify_outcome
  vr_report :: "artifact_ref option"
  vr_reason :: "string option"
  vr_policySkip :: bool
  vr_seq :: nat

definition of_base ::
  "verify_base \<Rightarrow> verify_outcome \<Rightarrow> artifact_ref option \<Rightarrow> string option \<Rightarrow> bool \<Rightarrow> nat \<Rightarrow> verify_record"
where
  "of_base b out rep reason skip seq =
     \<lparr>vr_baseSha = vb_baseSha b, vr_headSha = vb_headSha b, vr_restackId = vb_restackId b,
      vr_step = vb_step b, vr_attempt = vb_attempt b, vr_outcome = out, vr_report = rep,
      vr_reason = reason, vr_policySkip = skip, vr_seq = seq\<rparr>"

text \<open>
  \<^verbatim>\<open>normalizeVerifyCompletion\<close>; the seq every caller adds to the result is the last argument.
\<close>

fun normalizeVerifyCompletion :: "verify_completed \<Rightarrow> nat \<Rightarrow> verify_record" where
  "normalizeVerifyCompletion (LegacyPass b pass report) seq =
     of_base b (if pass then Pass else Fail) report None False seq"
| "normalizeVerifyCompletion (OutcomeSkipped b policySkip reason) seq =
     of_base b Skipped None (Some reason) policySkip seq"
| "normalizeVerifyCompletion (OutcomePass b report) seq = of_base b Pass report None False seq"
| "normalizeVerifyCompletion (OutcomeFail b report) seq = of_base b Fail report None False seq"

fun completion_base :: "verify_completed \<Rightarrow> verify_base" where
  "completion_base (LegacyPass b _ _) = b"
| "completion_base (OutcomeSkipped b _ _) = b"
| "completion_base (OutcomePass b _) = b"
| "completion_base (OutcomeFail b _) = b"

lemma normalize_seq [simp]: "vr_seq (normalizeVerifyCompletion c n) = n"
  by (cases c) (simp_all add: of_base_def)

lemma normalize_step [simp]: "vr_step (normalizeVerifyCompletion c n) = vb_step (completion_base c)"
  by (cases c) (simp_all add: of_base_def)

lemma normalize_attempt [simp]:
  "vr_attempt (normalizeVerifyCompletion c n) = vb_attempt (completion_base c)"
  by (cases c) (simp_all add: of_base_def)

text \<open>A skip has a reason and no report, a pass or fail has no reason: the outcomes never blur.\<close>

lemma normalize_skipped_iff:
  "vr_outcome (normalizeVerifyCompletion c n) = Skipped \<longleftrightarrow>
   vr_reason (normalizeVerifyCompletion c n) \<noteq> None"
  by (cases c) (simp_all add: of_base_def)

end
