(* ===== verification/VerifyStage.thy ===== *)
theory VerifyStage
  imports Events
begin

text \<open>
  Concurrent verify stages: the fold \<^verbatim>\<open>kernel/verify-stage-state.ts\<close> keeps over the log, the barrier
  selection of \<^verbatim>\<open>kernel/verify-stages.ts\<close>, and the wording of an exhausted budget in
  \<^verbatim>\<open>kernel/verify-budget.ts\<close>. A member is keyed by its step and attempt (\<^verbatim>\<open>verifyMemberKey\<close>). The
  store numbers events from 1, so a recorded seq is present exactly when it is truthy. The
  invariant \<open>stage_inv\<close> says a member never has both an outcome and a cancellation.
\<close>

type_synonym member_key = "string \<times> nat"

definition verifyMemberKey :: "string \<Rightarrow> nat \<Rightarrow> member_key" where
  "verifyMemberKey step att = (step, att)"

text \<open>The escalation records of \<^verbatim>\<open>reducer.ts\<close>; the reducer and the stage fold share them.\<close>

record open_escalation =
  oe_id :: string
  oe_phase :: escalation_target
  oe_round :: "nat option"
  oe_source :: escalation_source
  oe_session :: "string option"
  oe_policyCause :: "policy_cause option"
  oe_deferral :: bool
  oe_question :: string
  oe_refs :: "string list option"
  oe_seq :: nat

record answered_escalation =
  an_open :: open_escalation
  an_answer :: string
  an_resolution :: resolution
  an_artifact :: "artifact_ref option"
  an_assets :: "pinned_asset list option"
  an_reviewRoundCeiling :: "nat option"
  an_answeredSeq :: nat

datatype any_escalation = StillOpen open_escalation | Answered answered_escalation

fun any_open :: "any_escalation \<Rightarrow> open_escalation" where
  "any_open (StillOpen e) = e"
| "any_open (Answered a) = an_open a"

type_synonym verify_cancellation = "verify_cancelled \<times> nat"

record verify_stage_state =
  vss_cycle :: nat
  vss_concurrent :: bool
  vss_executionSeq :: nat
  vss_cleanupExecutionSeq :: "nat option"
  vss_members :: "(member_key, verify_started \<times> nat) jsmap"
  vss_owners :: "(string, member_key) jsmap"
  vss_outcomes :: "(member_key, nat) jsmap"
  vss_cancellations :: "(member_key, verify_cancellation) jsmap"
  vss_failures :: "(stage_failed \<times> nat) list"
  vss_implementations :: "(nat, nat) jsmap"
  vss_superseded :: "(any_escalation \<times> verify_cancellation) list"

definition initialVerifyStageState :: verify_stage_state where
  "initialVerifyStageState =
     \<lparr>vss_cycle = 0, vss_concurrent = False, vss_executionSeq = 0, vss_cleanupExecutionSeq = None,
      vss_members = [], vss_owners = [], vss_outcomes = [], vss_cancellations = [],
      vss_failures = [], vss_implementations = [], vss_superseded = []\<rparr>"

text \<open>A member that has neither finished nor been cancelled, started after \<open>since\<close>.\<close>

definition member_running :: "verify_stage_state \<Rightarrow> nat \<Rightarrow> member_key \<times> verify_started \<times> nat \<Rightarrow> bool" where
  "member_running st since = (\<lambda>(key, _, seq).
     seq > since \<and> \<not> jm_has (vss_outcomes st) key \<and> \<not> jm_has (vss_cancellations st) key)"

definition stage_verify_started :: "verify_stage_state \<Rightarrow> verify_started \<Rightarrow> nat \<Rightarrow> verify_stage_state" where
  "stage_verify_started st p seq =
     (let key = verifyMemberKey (vs_step p) (vs_attempt p);
          others = list_ex (\<lambda>m. fst m \<noteq> key \<and> member_running st (vss_cycle st) m) (vss_members st)
      in st\<lparr>vss_concurrent := vss_concurrent st \<or> others,
            vss_members := jm_set key (p, seq) (vss_members st)\<rparr>)"

definition stage_session_started :: "verify_stage_state \<Rightarrow> session_started \<Rightarrow> verify_stage_state" where
  "stage_session_started st p =
     (case (ss_phase p, ss_round p) of
        (Verify step, Some r) \<Rightarrow>
          (let key = verifyMemberKey step r in
           if jm_has (vss_members st) key
           then st\<lparr>vss_owners := jm_set (ss_session p) key (vss_owners st)\<rparr> else st)
      | _ \<Rightarrow> st)"

definition stage_verify_completed :: "verify_stage_state \<Rightarrow> verify_completed \<Rightarrow> nat \<Rightarrow> verify_stage_state" where
  "stage_verify_completed st c seq =
     (let b = completion_base c; key = verifyMemberKey (vb_step b) (vb_attempt b) in
      if jm_has (vss_cancellations st) key then st
      else st\<lparr>vss_outcomes := jm_set key seq (vss_outcomes st)\<rparr>)"

definition stage_verify_cancelled :: "verify_stage_state \<Rightarrow> verify_cancelled \<Rightarrow> nat \<Rightarrow> verify_stage_state" where
  "stage_verify_cancelled st p seq =
     (let key = verifyMemberKey (vc_step p) (vc_attempt p) in
      if \<not> jm_has (vss_outcomes st) key \<and> \<not> jm_has (vss_cancellations st) key
      then st\<lparr>vss_cancellations := jm_set key (p, seq) (vss_cancellations st),
              vss_cleanupExecutionSeq := Some (vss_executionSeq st)\<rparr>
      else st)"

definition stage_implement_started ::
  "verify_stage_state \<Rightarrow> nat \<Rightarrow> nat option \<Rightarrow> nat \<Rightarrow> verify_stage_state" where
  "stage_implement_started st round failure seq =
     (case failure of
        None \<Rightarrow> st
      | Some v \<Rightarrow>
          if list_ex (\<lambda>(f, fseq). fseq = v \<and> fseq < seq \<and> sg_cycle f = vss_cycle st) (vss_failures st)
          then st\<lparr>vss_implementations := jm_set round v (vss_implementations st)\<rparr> else st)"

definition advanceVerifyStage :: "verify_stage_state \<Rightarrow> ab_event \<Rightarrow> verify_stage_state" where
  "advanceVerifyStage st e =
     (case ev_body e of
        EVerify (VerifyConfigCaptured _) \<Rightarrow> st\<lparr>vss_cycle := ev_seq e\<rparr>
      | EVerify VerifyConfigSuperseded \<Rightarrow> st\<lparr>vss_cycle := ev_seq e\<rparr>
      | ESpec (SpecRevised _ _) \<Rightarrow> st\<lparr>vss_cycle := ev_seq e\<rparr>
      | EReconcile (ReconcileMerged _) \<Rightarrow> st\<lparr>vss_cycle := ev_seq e\<rparr>
      | EReconcile (ReconcileRebased _ _) \<Rightarrow> st\<lparr>vss_cycle := ev_seq e\<rparr>
      | EIntegration (IntegrationPrepared _) \<Rightarrow> st\<lparr>vss_cycle := ev_seq e\<rparr>
      | ELoop (CodeReviewVerdict v) \<Rightarrow>
          if vp_verdict v = Approve then st\<lparr>vss_cycle := ev_seq e\<rparr> else st
      | EExecution (ExecutionStarted _) \<Rightarrow> st\<lparr>vss_executionSeq := ev_seq e\<rparr>
      | EVerify (VerifyStarted p) \<Rightarrow> stage_verify_started st p (ev_seq e)
      | ESession (SessionStarted p) \<Rightarrow> stage_session_started st p
      | EVerify (VerifyCompleted c) \<Rightarrow> stage_verify_completed st c (ev_seq e)
      | EVerify (VerifyCancelled p) \<Rightarrow> stage_verify_cancelled st p (ev_seq e)
      | EVerify (VerifyStageFailed f) \<Rightarrow> st\<lparr>vss_failures := vss_failures st @ [(f, ev_seq e)]\<rparr>
      | ELoop (ImplementStarted round failure _) \<Rightarrow>
          stage_implement_started st round failure (ev_seq e)
      | _ \<Rightarrow> st)"

definition runningVerifyMembers :: "verify_stage_state \<Rightarrow> nat \<Rightarrow> (verify_started \<times> nat) list" where
  "runningVerifyMembers st since = map snd (filter (member_running st since) (vss_members st))"

section \<open>The active stage\<close>

record active_stage =
  as_stage :: "string list"
  as_failures :: "verify_record list"
  as_cancellations :: "verify_cancellation list"
  as_unfinished :: "string list"
  as_cause :: "verify_record option"
  as_settled :: bool

definition satisfied :: "verify_record \<Rightarrow> bool" where
  "satisfied r = (vr_outcome r = Pass \<or> vr_outcome r = Skipped)"

definition stage_outcome :: "verify_record list \<Rightarrow> nat \<Rightarrow> string \<Rightarrow> verify_record option" where
  "stage_outcome results since step = List.find (\<lambda>r. vr_seq r > since \<and> vr_step r = step) results"

text \<open>\<^verbatim>\<open>[...failures].filter(failFast).sort((a, b) => a.seq - b.seq)[0]\<close>\<close>

definition earliest_cause :: "verify_config \<Rightarrow> verify_record list \<Rightarrow> verify_record option" where
  "earliest_cause config failures =
     (case sort_key vr_seq (filter (\<lambda>r. case map_of (vy_stepConfigs config) (vr_step r) of
                                        None \<Rightarrow> False
                                      | Some sc \<Rightarrow> sc_failFast sc = Some True) failures) of
        [] \<Rightarrow> None | r # _ \<Rightarrow> Some r)"

definition stage_view ::
  "verify_config \<Rightarrow> verify_record list \<Rightarrow> verify_stage_state \<Rightarrow> nat \<Rightarrow> string list \<Rightarrow> active_stage"
where
  "stage_view config results st since stage =
     (let outcome = stage_outcome results since;
          cancellations = filter (\<lambda>(c, seq). seq > since \<and> vc_step c \<in> set stage)
                            (map snd (vss_cancellations st));
          unfinished = filter (\<lambda>step. outcome step = None \<and>
                          \<not> list_ex (\<lambda>(c, _). vc_step c = step) cancellations) stage;
          failures = filter (\<lambda>r. vr_outcome r = Fail) (List.map_filter outcome stage)
      in \<lparr>as_stage = stage, as_failures = failures, as_cancellations = cancellations,
          as_unfinished = unfinished, as_cause = earliest_cause config failures,
          as_settled = (unfinished = [])\<rparr>)"

definition stage_done :: "verify_record list \<Rightarrow> nat \<Rightarrow> string list \<Rightarrow> bool" where
  "stage_done results since stage =
     list_all (\<lambda>step. case stage_outcome results since step of None \<Rightarrow> False | Some r \<Rightarrow> satisfied r) stage"

definition activeVerifyStage ::
  "verify_config \<Rightarrow> verify_record list \<Rightarrow> verify_stage_state \<Rightarrow> nat \<Rightarrow> active_stage option" where
  "activeVerifyStage config results st since =
     map_option (stage_view config results st since)
       (List.find (\<lambda>stage. \<not> stage_done results since stage) (verifyStages config))"

section \<open>The wording of an exhausted verify budget\<close>

definition steps_by_attempt :: "verify_record list \<Rightarrow> (nat, string list) jsmap" where
  "steps_by_attempt fails =
     fold (\<lambda>f m. let steps = (case map_of m (vr_attempt f) of None \<Rightarrow> [] | Some s \<Rightarrow> s)
                 in jm_set (vr_attempt f) (set_add (vr_step f) steps) m) fails []"

definition label :: "string list \<Rightarrow> string" where
  "label steps = join '', '' (map (\<lambda>s. ''verify:'' @ s) steps)"

definition every_cycle :: "(nat, string list) jsmap \<Rightarrow> nat list \<Rightarrow> string list \<Rightarrow> string list" where
  "every_cycle m attempts latest =
     filter (\<lambda>step. \<forall>a \<in> set attempts. step \<in> set (the (map_of m a))) latest"

definition verifyBudgetExhaustedQuestion :: "nat \<Rightarrow> verify_record list \<Rightarrow> string" where
  "verifyBudgetExhaustedQuestion limit fails =
     (let m = steps_by_attempt fails;
          attempts = sort (map fst m);
          history = join '', '' (map (\<lambda>a. ''attempt '' @ nat_text a @ '' ('' @
                                       label (the (map_of m a)) @ '')'') attempts);
          cycles = (if length attempts = 1 then ''1 failed verify cycle counts''
                    else nat_text (length attempts) @ '' failed verify cycles count'');
          latest = last_opt attempts;
          latestSteps = (case latest of None \<Rightarrow> [] | Some a \<Rightarrow> the (map_of m a));
          everyCycle = every_cycle m attempts latestSteps;
          diagnosis =
            (if everyCycle \<noteq> [] then label everyCycle @ '' failed in every counted cycle.''
             else ''No single step failed in every counted cycle; the latest failed cycle, attempt ''
                  @ (case latest of None \<Rightarrow> ''undefined'' | Some a \<Rightarrow> nat_text a)
                  @ '', failed '' @ label latestSteps @ ''.'')
      in ''maxVerifyAttempts ('' @ nat_text limit @ '') exhausted: '' @ cycles
         @ '' against the build-wide budget: '' @ history @ ''. '' @ diagnosis)"

section \<open>Invariants of the stage fold\<close>

definition stage_inv :: "verify_stage_state \<Rightarrow> bool" where
  "stage_inv st \<longleftrightarrow>
     dom (map_of (vss_outcomes st)) \<inter> dom (map_of (vss_cancellations st)) = {} \<and>
     ran (map_of (vss_owners st)) \<subseteq> dom (map_of (vss_members st)) \<and>
     ran (map_of (vss_implementations st)) \<subseteq> snd ` set (vss_failures st) \<and>
     distinct (map fst (vss_members st)) \<and> distinct (map fst (vss_cancellations st))"

lemma stage_inv_initial: "stage_inv initialVerifyStageState"
  by (simp add: stage_inv_def initialVerifyStageState_def)

lemma dom_map_of_update: "dom (map_of (jm_set k v m)) = insert k (dom (map_of m))"
  by (simp add: update_conv')

lemma ran_map_of_update: "x \<in> ran (map_of (jm_set k v m)) \<Longrightarrow> x = v \<or> x \<in> ran (map_of m)"
  by (auto simp: update_conv' ran_def split: if_splits)

text \<open>What the session and implement steps leave alone.\<close>

lemma stage_session_frame [simp]:
  "vss_cycle (stage_session_started st p) = vss_cycle st"
  "vss_concurrent (stage_session_started st p) = vss_concurrent st"
  "vss_members (stage_session_started st p) = vss_members st"
  "vss_outcomes (stage_session_started st p) = vss_outcomes st"
  "vss_cancellations (stage_session_started st p) = vss_cancellations st"
  "vss_failures (stage_session_started st p) = vss_failures st"
  "vss_implementations (stage_session_started st p) = vss_implementations st"
  by (simp_all add: stage_session_started_def Let_def split: phase.split option.split)

lemma stage_implement_frame [simp]:
  "vss_cycle (stage_implement_started st r f n) = vss_cycle st"
  "vss_concurrent (stage_implement_started st r f n) = vss_concurrent st"
  "vss_members (stage_implement_started st r f n) = vss_members st"
  "vss_outcomes (stage_implement_started st r f n) = vss_outcomes st"
  "vss_cancellations (stage_implement_started st r f n) = vss_cancellations st"
  "vss_failures (stage_implement_started st r f n) = vss_failures st"
  "vss_owners (stage_implement_started st r f n) = vss_owners st"
  by (simp_all add: stage_implement_started_def split: option.split)

lemma member_running_session [simp]:
  "member_running (stage_session_started st p) = member_running st"
  by (simp add: member_running_def fun_eq_iff)

lemma member_running_implement [simp]:
  "member_running (stage_implement_started st r f n) = member_running st"
  by (simp add: member_running_def fun_eq_iff)

lemma stage_inv_started: "stage_inv st \<Longrightarrow> stage_inv (stage_verify_started st p n)"
  by (auto simp: stage_inv_def stage_verify_started_def Let_def dom_map_of_update distinct_update)

lemma session_owners:
  "ran (map_of (vss_owners st)) \<subseteq> dom (map_of (vss_members st)) \<Longrightarrow>
   ran (map_of (vss_owners (stage_session_started st p))) \<subseteq> dom (map_of (vss_members st))"
  by (auto simp: stage_session_started_def Let_def split: phase.split option.split
        dest!: ran_map_of_update)

lemma stage_inv_session: "stage_inv st \<Longrightarrow> stage_inv (stage_session_started st p)"
  unfolding stage_inv_def by (simp add: session_owners)

lemma stage_inv_completed: "stage_inv st \<Longrightarrow> stage_inv (stage_verify_completed st c n)"
  by (auto simp: stage_inv_def stage_verify_completed_def Let_def update_conv' split: if_splits)

lemma stage_inv_cancelled: "stage_inv st \<Longrightarrow> stage_inv (stage_verify_cancelled st p n)"
  by (auto simp: stage_inv_def stage_verify_cancelled_def Let_def update_conv' distinct_update
        split: if_splits)

lemma implement_receipts:
  "ran (map_of (vss_implementations st)) \<subseteq> snd ` set (vss_failures st) \<Longrightarrow>
   ran (map_of (vss_implementations (stage_implement_started st r f n))) \<subseteq> snd ` set (vss_failures st)"
proof (cases f)
  case (Some v)
  assume base: "ran (map_of (vss_implementations st)) \<subseteq> snd ` set (vss_failures st)"
  show ?thesis
  proof (cases "list_ex (\<lambda>(g, s). s = v \<and> s < n \<and> sg_cycle g = vss_cycle st) (vss_failures st)")
    case True
    then have "v \<in> snd ` set (vss_failures st)" by (force simp: list_ex_iff)
    with base Some True show ?thesis
      by (auto simp: stage_implement_started_def dest!: ran_map_of_update)
  qed (use base Some in \<open>simp add: stage_implement_started_def\<close>)
qed (simp add: stage_implement_started_def)

lemma stage_inv_implement: "stage_inv st \<Longrightarrow> stage_inv (stage_implement_started st r f n)"
  unfolding stage_inv_def by (simp add: implement_receipts)

lemma stage_inv_frame:
  "stage_inv (st\<lparr>vss_cycle := n\<rparr>) = stage_inv st"
  "stage_inv (st\<lparr>vss_executionSeq := n\<rparr>) = stage_inv st"
  "stage_inv st \<Longrightarrow> stage_inv (st\<lparr>vss_failures := vss_failures st @ [x]\<rparr>)"
  by (auto simp: stage_inv_def)

lemmas stage_inv_steps =
  stage_inv_started stage_inv_session stage_inv_completed stage_inv_cancelled
  stage_inv_implement stage_inv_frame

lemma stage_inv_advance: "stage_inv st \<Longrightarrow> stage_inv (advanceVerifyStage st e)"
  unfolding advanceVerifyStage_def
  by (simp add: stage_inv_steps
        split: event_body.split verify_ev.split spec_ev.split reconcile_ev.split
               integration_ev.split loop_ev.split execution_ev.split session_ev.split)

lemma stage_inv_fold: "stage_inv st \<Longrightarrow> stage_inv (fold (\<lambda>e s. advanceVerifyStage s e) es st)"
  by (induction es arbitrary: st) (auto intro: stage_inv_advance)

section \<open>Without concurrency at most one member runs\<close>

definition log_bounded :: "verify_stage_state \<Rightarrow> nat \<Rightarrow> bool" where
  "log_bounded st n \<longleftrightarrow> vss_cycle st \<le> n \<and> (\<forall>(k, p, seq) \<in> set (vss_members st). seq \<le> n)"

definition serial_inv :: "verify_stage_state \<Rightarrow> bool" where
  "serial_inv st \<longleftrightarrow>
     (\<not> vss_concurrent st \<longrightarrow>
        (\<forall>m \<in> set (vss_members st). \<forall>m' \<in> set (vss_members st).
           member_running st (vss_cycle st) m \<longrightarrow> member_running st (vss_cycle st) m' \<longrightarrow>
           fst m = fst m'))"

lemma in_set_update: "x \<in> set (jm_set k v m) \<Longrightarrow> x = (k, v) \<or> x \<in> set m"
  by (induction m) (auto split: if_splits)

lemma serial_started:
  assumes "serial_inv st"
  shows "serial_inv (stage_verify_started st p n)"
proof -
  let ?key = "verifyMemberKey (vs_step p) (vs_attempt p)"
  let ?st = "stage_verify_started st p n"
  have run: "member_running ?st (vss_cycle ?st) m = member_running st (vss_cycle st) m" for m
    by (cases m) (simp add: member_running_def stage_verify_started_def Let_def)
  show ?thesis
    unfolding serial_inv_def
  proof (intro impI ballI)
    fix m m'
    assume nc: "\<not> vss_concurrent ?st" and m: "m \<in> set (vss_members ?st)" "m' \<in> set (vss_members ?st)"
      and r: "member_running ?st (vss_cycle ?st) m" "member_running ?st (vss_cycle ?st) m'"
    have none: "\<forall>x \<in> set (vss_members st). fst x = ?key \<or> \<not> member_running st (vss_cycle st) x"
      using nc by (auto simp: stage_verify_started_def Let_def list_ex_iff)
    have key: "fst x = ?key" if "x \<in> set (vss_members ?st)" "member_running st (vss_cycle st) x" for x
    proof -
      have "x = (?key, p, n) \<or> x \<in> set (vss_members st)"
        using that(1) by (auto simp: stage_verify_started_def Let_def dest!: in_set_update)
      with none that(2) show ?thesis by auto
    qed
    from key [of m] key [of m'] m r run show "fst m = fst m'" by simp
  qed
qed

lemma serial_fewer:
  assumes "serial_inv st" and "vss_concurrent st' = vss_concurrent st"
    and "set (vss_members st') \<subseteq> set (vss_members st)"
    and "\<And>m. m \<in> set (vss_members st) \<Longrightarrow>
           member_running st' (vss_cycle st') m \<Longrightarrow> member_running st (vss_cycle st) m"
  shows "serial_inv st'"
  using assms unfolding serial_inv_def by blast

lemma running_new_cycle:
  "log_bounded st n \<Longrightarrow> m \<in> set (vss_members st) \<Longrightarrow> \<not> member_running st' n m"
  by (auto simp: log_bounded_def member_running_def)

lemma serial_cycle:
  assumes "serial_inv st" "log_bounded st n"
  shows "serial_inv (st\<lparr>vss_cycle := n\<rparr>)"
  by (simp add: serial_inv_def running_new_cycle [OF assms(2)])

lemma serial_session: "serial_inv st \<Longrightarrow> serial_inv (stage_session_started st p)"
  by (simp only: serial_inv_def stage_session_frame member_running_session)

lemma stage_completed_frame [simp]:
  "vss_cycle (stage_verify_completed st c n) = vss_cycle st"
  "vss_concurrent (stage_verify_completed st c n) = vss_concurrent st"
  "vss_members (stage_verify_completed st c n) = vss_members st"
  by (simp_all add: stage_verify_completed_def Let_def)

lemma stage_cancelled_frame [simp]:
  "vss_cycle (stage_verify_cancelled st p n) = vss_cycle st"
  "vss_concurrent (stage_verify_cancelled st p n) = vss_concurrent st"
  "vss_members (stage_verify_cancelled st p n) = vss_members st"
  by (simp_all add: stage_verify_cancelled_def Let_def)

lemma running_completed:
  "member_running (stage_verify_completed st c n) since m \<Longrightarrow> member_running st since m"
  by (cases m) (simp add: member_running_def stage_verify_completed_def Let_def update_conv'
                  split: if_split_asm)

lemma running_cancelled:
  "member_running (stage_verify_cancelled st p n) since m \<Longrightarrow> member_running st since m"
  by (cases m) (simp add: member_running_def stage_verify_cancelled_def Let_def update_conv'
                  split: if_split_asm)

lemma serial_completed: "serial_inv st \<Longrightarrow> serial_inv (stage_verify_completed st c n)"
  unfolding serial_inv_def by (simp, blast dest: running_completed)

lemma serial_cancelled: "serial_inv st \<Longrightarrow> serial_inv (stage_verify_cancelled st p n)"
  unfolding serial_inv_def by (simp, blast dest: running_cancelled)

lemma serial_implement: "serial_inv st \<Longrightarrow> serial_inv (stage_implement_started st r f n)"
  by (simp only: serial_inv_def stage_implement_frame member_running_implement)

lemma serial_frame:
  "serial_inv (st\<lparr>vss_executionSeq := n\<rparr>) = serial_inv st"
  "serial_inv (st\<lparr>vss_failures := x\<rparr>) = serial_inv st"
  by (simp_all add: serial_inv_def member_running_def)

lemma serial_advance:
  assumes "serial_inv st" and "log_bounded st (ev_seq e)"
  shows "serial_inv (advanceVerifyStage st e)"
  using assms unfolding advanceVerifyStage_def
  by (simp add: serial_started serial_cycle serial_session serial_completed serial_cancelled
        serial_implement serial_frame
        split: event_body.split verify_ev.split spec_ev.split reconcile_ev.split
               integration_ev.split loop_ev.split execution_ev.split session_ev.split)

lemma bounded_mono: "log_bounded st n \<Longrightarrow> n \<le> n' \<Longrightarrow> log_bounded st n'"
  by (force simp: log_bounded_def)

lemma bounded_started: "log_bounded st n \<Longrightarrow> log_bounded (stage_verify_started st p n) n"
  by (auto simp: log_bounded_def stage_verify_started_def Let_def dest!: in_set_update)

lemma bounded_frame:
  "log_bounded st n \<Longrightarrow> log_bounded (st\<lparr>vss_cycle := n\<rparr>) n"
  "log_bounded (st\<lparr>vss_executionSeq := k\<rparr>) n = log_bounded st n"
  "log_bounded (st\<lparr>vss_failures := x\<rparr>) n = log_bounded st n"
  "log_bounded (stage_session_started st sp) n = log_bounded st n"
  "log_bounded (stage_verify_completed st c k) n = log_bounded st n"
  "log_bounded (stage_verify_cancelled st vc k) n = log_bounded st n"
  "log_bounded (stage_implement_started st r f k) n = log_bounded st n"
  by (auto simp: log_bounded_def stage_verify_completed_def stage_verify_cancelled_def Let_def)

lemma bounded_advance:
  "log_bounded st (ev_seq e) \<Longrightarrow> log_bounded (advanceVerifyStage st e) (ev_seq e)"
  unfolding advanceVerifyStage_def
  by (simp add: bounded_started bounded_frame
        split: event_body.split verify_ev.split spec_ev.split reconcile_ev.split
               integration_ev.split loop_ev.split execution_ev.split session_ev.split)

lemma serial_fold:
  assumes "serial_inv st" "log_bounded st n" "sorted (n # map ev_seq es)"
  shows "serial_inv (fold (\<lambda>e s. advanceVerifyStage s e) es st)"
  using assms
proof (induction es arbitrary: st n)
  case (Cons e es)
  have b: "log_bounded st (ev_seq e)" using Cons.prems by (auto intro: bounded_mono)
  show ?case
    using Cons.IH [OF serial_advance [OF Cons.prems(1) b] bounded_advance [OF b]] Cons.prems(3)
    by simp
qed simp

lemma initial_serial: "serial_inv initialVerifyStageState" "log_bounded initialVerifyStageState 0"
  by (simp_all add: serial_inv_def log_bounded_def initialVerifyStageState_def)

section \<open>The barrier\<close>

lemma stage_done_iff:
  "stage_done results since stage \<longleftrightarrow>
     (\<forall>step \<in> set stage. \<exists>r. stage_outcome results since step = Some r \<and> satisfied r)"
  unfolding stage_done_def list_all_iff by (rule ball_cong) (auto split: option.split)

lemma activeVerifyStage_None_iff:
  "activeVerifyStage c results st since = None \<longleftrightarrow>
     (\<forall>step \<in> set (concat (verifyStages c)).
        \<exists>r. stage_outcome results since step = Some r \<and> satisfied r)"
  by (simp add: activeVerifyStage_def find_None_iff stage_done_iff) blast

lemma activeVerifyStage_barrier:
  assumes "activeVerifyStage c results st since = Some v"
  shows "\<exists>before after. verifyStages c = before @ as_stage v # after \<and>
           (\<forall>stage \<in> set before. stage_done results since stage) \<and>
           \<not> stage_done results since (as_stage v)"
proof -
  obtain stage where f: "List.find (\<lambda>stage. \<not> stage_done results since stage) (verifyStages c) = Some stage"
    and v: "as_stage v = stage"
    using assms by (auto simp: activeVerifyStage_def stage_view_def Let_def)
  then obtain i where "i < length (verifyStages c)" "\<not> stage_done results since (verifyStages c ! i)"
    "stage = verifyStages c ! i" "\<forall>j < i. stage_done results since (verifyStages c ! j)"
    by (auto simp: find_Some_iff)
  with v show ?thesis
    by (intro exI [of _ "take i (verifyStages c)"] exI [of _ "drop (Suc i) (verifyStages c)"])
       (auto simp: in_set_conv_nth id_take_nth_drop [symmetric])
qed

text \<open>A settled stage that is still active holds a failure or a cancelled member.\<close>

lemma settled_reason:
  assumes "activeVerifyStage c results st since = Some v" and "as_settled v"
  shows "as_failures v \<noteq> [] \<or> as_cancellations v \<noteq> []"
proof (rule ccontr)
  assume no: "\<not> ?thesis"
  obtain stage where nd: "\<not> stage_done results since stage"
    and v: "v = stage_view c results st since stage"
    using assms(1) find_SomeD [of _ "verifyStages c"] by (auto simp: activeVerifyStage_def)
  have fin: "stage_outcome results since step \<noteq> None" if "step \<in> set stage" for step
    using that assms(2) no v
    by (auto simp: stage_view_def Let_def filter_empty_conv list_ex_iff)
  have "satisfied r" if "step \<in> set stage" "stage_outcome results since step = Some r" for step r
  proof (cases "vr_outcome r")
    case Fail
    then have "r \<in> set (as_failures v)"
      using that v by (force simp: stage_view_def Let_def List.map_filter_def)
    with no show ?thesis by simp
  qed (simp_all add: satisfied_def)
  with fin have "stage_done results since stage" unfolding stage_done_iff by blast
  with nd show False by simp
qed

end
