(* ===== verification/LoopProperties.thy ===== *)
theory LoopProperties
  imports Converge Phases VerifyStage
begin

text \<open>
  The properties of the review loops, the phase table, the verify sections and the verify stages.
\<close>

section \<open>Review loops\<close>

text \<open>C15: stall detection is exactly persistence. A history has a stalled chain of \<open>n\<close> rounds
  precisely when some finding without an earlier ancestor has, among itself and its descendants
  along \<^verbatim>\<open>persists\<close> links, findings first raised in \<open>n\<close> consecutive rounds.\<close>

theorem stalled_iff_persistent:
  "stalledChains rf n None \<noteq> [] \<longleftrightarrow>
     (\<exists>root r. is_root (by_id rf) root \<and>
        {r..<r + n} \<subseteq> round_of (by_id rf) ` {i. jm_has (by_id rf) i \<and>
                                                 (i, root) \<in> (persist_links (by_id rf))\<^sup>*})"
proof -
  let ?m = "by_id rf"
  have ids: "set (chain_ids ?m (traversal ?m) root) =
      (if is_root ?m root then {i. jm_has ?m i \<and> (i, root) \<in> (persist_links ?m)\<^sup>*} else {})" for root
    by (auto simp: chain_ids_def roots_of_iff map_of_eq_None_iff)
  have "stalledChains rf n None \<noteq> [] \<longleftrightarrow>
      (\<exists>c \<in> set (buildChains rf). n \<le> longestConsecutiveRun (cm_rounds c))"
    by (auto simp: stalledChains_def stalled_chain_def filter_empty_conv not_less)
  also have "\<dots> \<longleftrightarrow> (\<exists>root. chain_ids ?m (traversal ?m) root \<noteq> [] \<and>
      n \<le> longestConsecutiveRun (cm_rounds (chain_at ?m (chain_ids ?m (traversal ?m) root))))"
    unfolding Bex_def buildChains_iff by blast
  also have "\<dots> \<longleftrightarrow> (\<exists>root r. chain_ids ?m (traversal ?m) root \<noteq> [] \<and>
      {r..<r + n} \<subseteq> round_of ?m ` set (chain_ids ?m (traversal ?m) root))"
    by (simp add: longest_run_le_iff)
  also have "\<dots> \<longleftrightarrow> (\<exists>root r. is_root ?m root \<and>
      {r..<r + n} \<subseteq> round_of ?m ` {i. jm_has ?m i \<and> (i, root) \<in> (persist_links ?m)\<^sup>*})"
  proof -
    have "chain_ids ?m (traversal ?m) root \<noteq> [] \<longleftrightarrow> is_root ?m root" for root
    proof
      assume "is_root ?m root"
      then have "root \<in> set (chain_ids ?m (traversal ?m) root)"
        unfolding ids by (auto simp: is_root_def)
      then show "chain_ids ?m (traversal ?m) root \<noteq> []" by auto
    next
      assume "chain_ids ?m (traversal ?m) root \<noteq> []"
      then have "set (chain_ids ?m (traversal ?m) root) \<noteq> {}" by simp
      then show "is_root ?m root" unfolding ids by (simp split: if_splits)
    qed
    then show ?thesis by (auto simp: ids)
  qed
  finally show ?thesis .
qed

text \<open>C16: the review loop returns. Whatever the producer and the reviewer do, and however the policy
  is reloaded between rounds, \<^verbatim>\<open>converge\<close> returns an outcome as long as the policy never asks for
  more than some number of rounds.\<close>

theorem converge_returns:
  assumes "\<And>s. cp_maxRounds (policy s) \<le> B"
  shows "\<exists>r. converge produce review policy dis start prior fb s = Some r"
  unfolding converge_def by (rule converge_from_returns [where B = B]) (rule assms)

theorem converge_returns_witness:
  "\<exists>r. converge (\<lambda>fb n (s::nat). (n, s)) (\<lambda>a n h s. (VRevise [], Suc s))
         (\<lambda>s. \<lparr>cp_maxRounds = min s 3, cp_stallRounds = 2\<rparr>) None None None None 7 = Some r"
  by (rule converge_returns [where B = 3]) simp

text \<open>what an outcome of the loop says is true. Under a fixed policy, started afresh, the loop
  returns an outcome whose round is within the cap; an approval names a round that ran; an exhausted
  cap is reported exactly at the cap; a stall carries a chain that reached the stall threshold.\<close>

lemma converge_sound:
  "\<exists>res s'. converge produce review (\<lambda>_. p) dis None prior fb s = Some (res, s') \<and> outcome_sound p res"
proof -
  obtain res s' where "converge produce review (\<lambda>_. p) dis None prior fb s = Some (res, s')"
    using converge_from_returns [where B = "cp_maxRounds p" and policy = "\<lambda>_. p"]
    unfolding converge_def by (metis order_refl surj_pair)
  moreover from this have "outcome_sound p res"
    unfolding converge_def by (rule converge_from_sound) simp_all
  ultimately show ?thesis by blast
qed

section \<open>Phases and their table\<close>

text \<open>phase names round-trip. A core phase and a verify phase with a step name print to a string
  that parses back to them, and whatever parses prints back to the same text.\<close>

lemma phase_round_trip:
  "(p \<noteq> Verify [] \<longrightarrow> parse_phase (phase_name p) = Some p) \<and>
   (parse_phase v = Some q \<longrightarrow> phase_name q = v)"
  using parse_phase_name [of p] parse_phase_sound [of v q] by (cases p) auto

lemma phase_round_trip_witness:
  "parse_phase (phase_name (Verify ''lint'')) = Some (Verify ''lint'') \<and>
   phase_name (Core CodeReview) = ''code-review''"
proof -
  have "parse_phase ''code-review'' = Some (Core CodeReview)" by code_simp
  then show ?thesis
    using phase_round_trip [of "Verify ''lint''" "''code-review''" "Core CodeReview"] by simp
qed

section \<open>Verify sections\<close>

text \<open>an accepted path selector is repository-relative and has no traversal segment: no
  segment is empty, \<^verbatim>\<open>.\<close> or \<^verbatim>\<open>..\<close>, and \<^verbatim>\<open>**\<close> stands only as a whole segment.\<close>

lemma accepted_glob_is_safe:
  assumes "verifyPathGlobError p = None"
  shows "p \<noteq> [] \<and> hd p \<noteq> CHR ''/'' \<and>
     set (split_on (CHR ''/'') p) \<inter> {[], ''.'', ''..''} = {} \<and>
     {s \<in> set (split_on (CHR ''/'') p). has_double_star s} \<subseteq> {''**''}"
  using verifyPathGlobError_accepts [OF assms] by auto

lemma accepted_glob_is_safe_witness:
  "''src/**/a.ts'' \<noteq> [] \<and> hd ''src/**/a.ts'' \<noteq> CHR ''/'' \<and>
     set (split_on (CHR ''/'') ''src/**/a.ts'') \<inter> {[], ''.'', ''..''} = {} \<and>
     {s \<in> set (split_on (CHR ''/'') ''src/**/a.ts''). has_double_star s} \<subseteq> {''**''}"
  by (rule accepted_glob_is_safe) code_simp

text \<open>a step with accepted path selectors is excluded exactly when no changed path matches any of
  them; with no changed path matching, and only then, is it skipped by policy.\<close>

lemma step_excluded_iff:
  assumes "\<forall>p \<in> set paths. verifyPathGlobError p = None"
  shows "evaluateVerifyApplicability g (Paths step paths) changed = Inr (Excluded step paths) \<longleftrightarrow>
         (\<forall>c \<in> set changed. \<forall>p \<in> set paths. \<not> g p c)"
  by (rule applicability_excluded_iff [OF assms])

lemma step_excluded_iff_witness:
  "evaluateVerifyApplicability (=) (Paths ''docs'' [''docs/a.md'']) [''src/b.ts''] =
     Inr (Excluded ''docs'' [''docs/a.md'']) \<longleftrightarrow>
   (\<forall>c \<in> set [''src/b.ts'']. \<forall>p \<in> set [''docs/a.md'']. \<not> p = c)"
proof (rule step_excluded_iff)
  show "\<forall>p \<in> set [''docs/a.md'']. verifyPathGlobError p = None" by code_simp
qed

section \<open>Verify stages\<close>

text \<open>bookkeeping of the verify members, over any log. No member is both completed and cancelled,
  every session that owns a member owns one that was started, and every round that implements a
  stage failure names a recorded failure.\<close>

lemma stage_log_invariant:
  "stage_inv (fold (\<lambda>e st. advanceVerifyStage st e) es initialVerifyStageState)"
  by (rule stage_inv_fold) (simp add: stage_inv_def initialVerifyStageState_def)

text \<open>verification is over exactly when every configured step has settled successfully: no stage
  is active precisely when each step of each stage has an outcome of the current cycle, and its
  first outcome passed or was skipped.\<close>

lemma verify_over_iff:
  "activeVerifyStage c results st since = None \<longleftrightarrow>
   set (concat (verifyStages c)) \<subseteq>
     {step. \<exists>r. stage_outcome results since step = Some r \<and> satisfied r}"
  by (auto simp: activeVerifyStage_None_iff)

text \<open>stages are barriers. The active stage is the first that is not done: every stage before it is
  done, so nothing of a later stage is offered while an earlier one still runs or failed.\<close>

lemma stages_are_barriers:
  assumes "activeVerifyStage c results st since = Some v"
  shows "\<exists>before after. verifyStages c = before @ as_stage v # after \<and>
           (\<forall>stage \<in> set before. stage_done results since stage) \<and>
           \<not> stage_done results since (as_stage v)"
  by (rule activeVerifyStage_barrier [OF assms])

abbreviation two_stages :: verify_config where
  "two_stages \<equiv> verify_section [Group [''lint''], Group [''test'']] [] False"

lemma stages_are_barriers_witness:
  "\<exists>v before after. activeVerifyStage two_stages [] initialVerifyStageState 0 = Some v \<and>
     verifyStages two_stages = before @ as_stage v # after \<and>
     (\<forall>stage \<in> set before. stage_done [] 0 stage) \<and> \<not> stage_done [] 0 (as_stage v)"
proof -
  have "activeVerifyStage two_stages [] initialVerifyStageState 0 =
      Some (stage_view two_stages [] initialVerifyStageState 0 [''lint''])"
    by code_simp
  with stages_are_barriers [OF this] show ?thesis by blast
qed

end
