(* ===== verification/Incremental.thy ===== *)
theory Incremental
  imports Events
begin

text \<open>
  The incremental reducer contract of \<^verbatim>\<open>kernel/incremental.ts\<close> and the check of
  \<^verbatim>\<open>kernel/incremental-contract.ts\<close>. A reducer is its version, its initial accumulator, its fold and
  its final derivation; \<open>advance\<close> and \<open>reduce\<close> are derived as \<^verbatim>\<open>defineReducer\<close> derives them
  (accumulators are values here, so \<^verbatim>\<open>cloneAcc\<close> is the identity). The locale \<open>incremental_reducer\<close>
  states what lets a cached accumulator stand for the log that made it, and its lemmas are the
  contract: any split point, any chunking and the one-event-at-a-time fold agree with the whole log.
\<close>

record ('acc, 'e, 'st) reducer =
  rd_version :: nat
  rd_rawEvents :: bool
  rd_initial :: 'acc
  rd_fold :: "'acc \<Rightarrow> 'e list \<Rightarrow> 'acc"
  rd_finish :: "'acc \<Rightarrow> 'st"

text \<open>\<^verbatim>\<open>filterKnownEvents\<close>: events whose type is in the catalog.\<close>

definition known_event :: "ab_event \<Rightarrow> bool" where
  "known_event e = (case ev_body e of EUnknown _ _ \<Rightarrow> False | _ \<Rightarrow> True)"

definition filterKnownEvents :: "ab_event list \<Rightarrow> ab_event list" where
  "filterKnownEvents = filter known_event"

definition rd_events :: "('acc, ab_event, 'st) reducer \<Rightarrow> ab_event list \<Rightarrow> ab_event list" where
  "rd_events r events = (if rd_rawEvents r then events else filterKnownEvents events)"

definition advance :: "('acc, ab_event, 'st) reducer \<Rightarrow> 'acc \<Rightarrow> ab_event list \<Rightarrow> 'acc" where
  "advance r acc events = rd_fold r acc (rd_events r events)"

definition reduce_log :: "('acc, ab_event, 'st) reducer \<Rightarrow> ab_event list \<Rightarrow> 'st" where
  "reduce_log r events = rd_finish r (rd_fold r (rd_initial r) (rd_events r events))"

lemma filterKnownEvents_append [simp]:
  "filterKnownEvents (xs @ ys) = filterKnownEvents xs @ filterKnownEvents ys"
  by (simp add: filterKnownEvents_def)

lemma rd_events_append: "rd_events r (xs @ ys) = rd_events r xs @ rd_events r ys"
  by (simp add: rd_events_def)

locale incremental_reducer =
  fixes r :: "('acc, ab_event, 'st) reducer"
  assumes fold_nil: "rd_fold r acc [] = acc"
    and fold_append: "rd_fold r acc (xs @ ys) = rd_fold r (rd_fold r acc xs) ys"
begin

lemma advance_append: "advance r acc (xs @ ys) = advance r (advance r acc xs) ys"
  by (simp add: advance_def rd_events_append fold_append)

lemma advance_nil: "advance r acc [] = acc"
  by (simp add: advance_def rd_events_def filterKnownEvents_def fold_nil)

lemma split_point: "rd_finish r (advance r (advance r (rd_initial r) xs) ys) = reduce_log r (xs @ ys)"
  by (simp add: reduce_log_def advance_def rd_events_append fold_append)

lemma chunked: "foldl (advance r) acc chunks = advance r acc (concat chunks)"
  by (induction chunks arbitrary: acc) (simp_all add: advance_nil advance_append)

lemma stepwise: "foldl (\<lambda>a e. advance r a [e]) acc es = advance r acc es"
proof (induction es arbitrary: acc)
  case (Cons e es)
  have "advance r acc (e # es) = advance r (advance r acc [e]) es"
    using advance_append [of acc "[e]" es] by simp
  with Cons show ?case by simp
qed (simp add: advance_nil)

end

text \<open>A fold of single-event steps satisfies the contract.\<close>

definition fold_events :: "('acc \<Rightarrow> 'e \<Rightarrow> 'acc) \<Rightarrow> 'acc \<Rightarrow> 'e list \<Rightarrow> 'acc" where
  "fold_events step acc events = foldl step acc events"

lemma fold_events_simps [simp]:
  "fold_events step acc [] = acc"
  "fold_events step acc (e # es) = fold_events step (step acc e) es"
  "fold_events step acc (xs @ ys) = fold_events step (fold_events step acc xs) ys"
  by (simp_all add: fold_events_def)

lemma fold_events_invariant:
  assumes "P acc" and "\<And>a e. P a \<Longrightarrow> e \<in> set es \<Longrightarrow> P (step a e)"
  shows "P (fold_events step acc es)"
  using assms by (induction es arbitrary: acc) auto

end
