(* ===== verification/LeafRestack.thy ===== *)
theory LeafRestack
  imports Incremental
begin

text \<open>
  The leaf restack fold, \<^verbatim>\<open>kernel/leaf-restack-state.ts\<close>: the target observation a build replays
  onto, the frozen replay transaction, its replay receipt and publication intent, and the gates of
  completed replays. \<open>restack_inv\<close>: a receipt or an intent always belongs to the active transaction.
\<close>

record leaf_restack_state =
  lrs_activityAt :: "timestamp option"
  lrs_initialBase :: "sha option"
  lrs_postStepAt :: "nat option"
  lrs_completedAt :: "nat option"
  lrs_finalizedAt :: "nat option"
  lrs_target :: "(target_moved \<times> nat) option"
  lrs_targetRewrite :: "target_rewritten option"
  lrs_distance :: "target_distance option"
  lrs_active :: "leaf_restack option"
  lrs_replay :: "restack_replayed option"
  lrs_intent :: "(leaf_restack \<times> sha) option"
  lrs_completed :: "(leaf_restack \<times> sha) option"
  lrs_reconcileAttempt :: "nat option"
  lrs_initialVerification :: "bool option"
  lrs_gates :: "(nat, leaf_restack \<times> sha) jsmap"

definition initialLeafRestack :: leaf_restack_state where
  "initialLeafRestack =
     \<lparr>lrs_activityAt = None, lrs_initialBase = None, lrs_postStepAt = None, lrs_completedAt = None,
      lrs_finalizedAt = None, lrs_target = None, lrs_targetRewrite = None, lrs_distance = None,
      lrs_active = None, lrs_replay = None, lrs_intent = None, lrs_completed = None,
      lrs_reconcileAttempt = None, lrs_initialVerification = None, lrs_gates = []\<rparr>"

text \<open>\<^verbatim>\<open>if (state.distance?.head !== head) delete state.distance\<close>\<close>

definition keep_distance_at :: "sha \<Rightarrow> leaf_restack_state \<Rightarrow> leaf_restack_state" where
  "keep_distance_at head st =
     (case lrs_distance st of
        None \<Rightarrow> st
      | Some d \<Rightarrow> if td_head d = Some head then st else st\<lparr>lrs_distance := None\<rparr>)"

text \<open>\<^verbatim>\<open>event.payload.id === state.active?.id\<close>\<close>

definition active_is :: "leaf_restack_state \<Rightarrow> string \<Rightarrow> bool" where
  "active_is st i = (case lrs_active st of None \<Rightarrow> False | Some a \<Rightarrow> lr_id a = i)"

definition leaf_finalize_step :: "leaf_restack_state \<Rightarrow> bool \<Rightarrow> sha option \<Rightarrow> nat \<Rightarrow> leaf_restack_state" where
  "leaf_finalize_step st ok headSha seq =
     (case headSha of
        Some h \<Rightarrow>
          (let st1 = (if ok \<and> h \<noteq> [] then keep_distance_at h st else st)
           in if ok then st1\<lparr>lrs_postStepAt := Some seq\<rparr> else st1)
      | None \<Rightarrow> st)"

definition leaf_rewrite_cleared ::
  "leaf_restack_state \<Rightarrow> string \<Rightarrow> sha \<Rightarrow> lineage_entry list option \<Rightarrow> leaf_restack_state" where
  "leaf_rewrite_cleared st branch sha lineage =
     (let st1 = (case (lineage, lrs_target st) of
                   (Some l, Some (t, seq)) \<Rightarrow>
                     if tm_branch t = branch \<and> tm_sha t = sha
                     then st\<lparr>lrs_target := Some (t\<lparr>tm_lineage := Some l\<rparr>, seq)\<rparr> else st
                 | _ \<Rightarrow> st)
      in st1\<lparr>lrs_targetRewrite := None\<rparr>)"

definition leaf_candidate_retired ::
  "leaf_restack_state \<Rightarrow> publication_op \<Rightarrow> string \<Rightarrow> string \<Rightarrow> leaf_restack_state" where
  "leaf_candidate_retired st op i replacementId =
     (case lrs_active st of
        Some a \<Rightarrow>
          if op = OpRestack \<and> lr_id a = i
          then st\<lparr>lrs_active := Some (a\<lparr>lr_id := replacementId\<rparr>), lrs_replay := None,
                  lrs_intent := None\<rparr>
          else st
      | None \<Rightarrow> st)"

definition leaf_reconcile_started :: "leaf_restack_state \<Rightarrow> reconcile_started \<Rightarrow> leaf_restack_state" where
  "leaf_reconcile_started st p =
     (case lrs_active st of
        Some a \<Rightarrow>
          if rs_restackId p = Some (lr_id a)
          then st\<lparr>lrs_reconcileAttempt := Some (rs_attempt p),
                  lrs_initialVerification := Some (lr_verifyEntry a)\<rparr>
          else st\<lparr>lrs_initialVerification := Some False\<rparr>
      | None \<Rightarrow> st\<lparr>lrs_initialVerification := Some False\<rparr>)"

definition leaf_completed :: "leaf_restack_state \<Rightarrow> leaf_restack \<Rightarrow> sha \<Rightarrow> nat \<Rightarrow> leaf_restack_state" where
  "leaf_completed st p head seq =
     (let st1 = (keep_distance_at head st)
                  \<lparr>lrs_completedAt := Some seq, lrs_completed := Some (p, head),
                   lrs_gates := jm_set (lr_cycle p) (p, head) (lrs_gates st)\<rparr>
      in if active_is st1 (lr_id p)
         then st1\<lparr>lrs_active := None, lrs_replay := None, lrs_intent := None\<rparr> else st1)"

definition leaf_body :: "leaf_restack_state \<Rightarrow> ab_event \<Rightarrow> leaf_restack_state" where
  "leaf_body st e =
     (case ev_body e of
        EWorkspace (WorkspaceProvisioned w) \<Rightarrow>
          (if lrs_initialBase st = None then st\<lparr>lrs_initialBase := Some (wl_base w)\<rparr> else st)
      | EFinalize (FinalizeCompleted _) \<Rightarrow> st\<lparr>lrs_finalizedAt := Some (ev_seq e)\<rparr>
      | ENode (NodeParentAccepted _) \<Rightarrow>
          st\<lparr>lrs_targetRewrite := None, lrs_distance := None, lrs_target := None\<rparr>
      | EPr (PrOpened pr) \<Rightarrow> keep_distance_at (pr_headSha pr) st
      | ELoop (ImplementCompleted _ commits _) \<Rightarrow> keep_distance_at (cr_head commits) st
      | ERestack (RestackRewritten _ _ _) \<Rightarrow> st\<lparr>lrs_distance := None\<rparr>
      | EReconcile (ReconcileRewritten _) \<Rightarrow> st\<lparr>lrs_distance := None\<rparr>
      | EFinalize (FinalizeStepCompleted _ ok headSha) \<Rightarrow> leaf_finalize_step st ok headSha (ev_seq e)
      | ETarget (TargetDistance d) \<Rightarrow> st\<lparr>lrs_distance := Some d\<rparr>
      | ETarget (TargetRewritten t) \<Rightarrow> st\<lparr>lrs_targetRewrite := Some t\<rparr>
      | ETarget (TargetRewriteCleared branch sha lineage) \<Rightarrow> leaf_rewrite_cleared st branch sha lineage
      | ETarget (TargetMoved t) \<Rightarrow>
          st\<lparr>lrs_targetRewrite := None, lrs_distance := None, lrs_target := Some (t, ev_seq e)\<rparr>
      | EPublication (PublicationCandidateRetired _ op i replacement) \<Rightarrow>
          leaf_candidate_retired st op i replacement
      | ERestack (RestackPrepared p) \<Rightarrow>
          st\<lparr>lrs_active := Some p, lrs_replay := None, lrs_intent := None,
             lrs_reconcileAttempt := None\<rparr>
      | ERestack (RestackReplayed p) \<Rightarrow>
          (if active_is st (ry_id p) then st\<lparr>lrs_replay := Some p\<rparr> else st)
      | ERestack (RestackPublishIntended p head) \<Rightarrow>
          (if active_is st (lr_id p) then st\<lparr>lrs_intent := Some (p, head)\<rparr> else st)
      | EReconcile (ReconcileStarted p) \<Rightarrow> leaf_reconcile_started st p
      | ERestack (RestackCompleted p head) \<Rightarrow> leaf_completed st p head (ev_seq e)
      | _ \<Rightarrow> st)"

definition is_target_distance :: "event_body \<Rightarrow> bool" where
  "is_target_distance b = (case b of ETarget (TargetDistance _) \<Rightarrow> True | _ \<Rightarrow> False)"

definition leaf_step :: "leaf_restack_state \<Rightarrow> ab_event \<Rightarrow> leaf_restack_state" where
  "leaf_step st e =
     leaf_body (if is_target_distance (ev_body e) then st
                else st\<lparr>lrs_activityAt := Some (ev_ts e)\<rparr>) e"

definition advanceLeafRestack :: "leaf_restack_state \<Rightarrow> ab_event list \<Rightarrow> leaf_restack_state" where
  "advanceLeafRestack = fold_events leaf_step"

definition leafRestackReducer :: "(leaf_restack_state, ab_event, leaf_restack_state) reducer" where
  "leafRestackReducer =
     \<lparr>rd_version = 8, rd_rawEvents = False, rd_initial = initialLeafRestack,
      rd_fold = advanceLeafRestack, rd_finish = (\<lambda>st. st)\<rparr>"

interpretation leaf_restack: incremental_reducer leafRestackReducer
  by unfold_locales (simp_all add: leafRestackReducer_def advanceLeafRestack_def)

section \<open>Receipts belong to the active transaction\<close>

definition restack_inv :: "leaf_restack_state \<Rightarrow> bool" where
  "restack_inv st \<longleftrightarrow>
     (\<forall>p. lrs_replay st = Some p \<longrightarrow> active_is st (ry_id p)) \<and>
     (\<forall>p h. lrs_intent st = Some (p, h) \<longrightarrow> active_is st (lr_id p))"

lemma keep_distance_frame [simp]:
  "lrs_active (keep_distance_at h st) = lrs_active st"
  "lrs_replay (keep_distance_at h st) = lrs_replay st"
  "lrs_intent (keep_distance_at h st) = lrs_intent st"
  "lrs_gates (keep_distance_at h st) = lrs_gates st"
  by (simp_all add: keep_distance_at_def split: option.split)

lemma leaf_finalize_frame [simp]:
  "lrs_active (leaf_finalize_step st ok h n) = lrs_active st"
  "lrs_replay (leaf_finalize_step st ok h n) = lrs_replay st"
  "lrs_intent (leaf_finalize_step st ok h n) = lrs_intent st"
  by (simp_all add: leaf_finalize_step_def Let_def split: option.split)

lemma leaf_cleared_frame [simp]:
  "lrs_active (leaf_rewrite_cleared st b s l) = lrs_active st"
  "lrs_replay (leaf_rewrite_cleared st b s l) = lrs_replay st"
  "lrs_intent (leaf_rewrite_cleared st b s l) = lrs_intent st"
  by (simp_all add: leaf_rewrite_cleared_def Let_def split: option.split)

lemma leaf_reconcile_frame [simp]:
  "lrs_active (leaf_reconcile_started st p) = lrs_active st"
  "lrs_replay (leaf_reconcile_started st p) = lrs_replay st"
  "lrs_intent (leaf_reconcile_started st p) = lrs_intent st"
  by (simp_all add: leaf_reconcile_started_def split: option.split)

lemma restack_inv_retired:
  "restack_inv st \<Longrightarrow> restack_inv (leaf_candidate_retired st op i j)"
  by (auto simp: restack_inv_def leaf_candidate_retired_def active_is_def split: option.splits)

lemma restack_inv_completed: "restack_inv st \<Longrightarrow> restack_inv (leaf_completed st p h n)"
  by (auto simp: restack_inv_def leaf_completed_def Let_def active_is_def split: option.splits)

lemma restack_inv_body: "restack_inv st \<Longrightarrow> restack_inv (leaf_body st e)"
  unfolding leaf_body_def
  by (simp add: restack_inv_retired restack_inv_completed
        split: event_body.split workspace_ev.split finalize_ev.split node_ev.split pr_ev.split
          loop_ev.split restack_ev.split reconcile_ev.split target_ev.split publication_ev.split)
     (simp add: restack_inv_def active_is_def)

lemma restack_inv_step: "restack_inv st \<Longrightarrow> restack_inv (leaf_step st e)"
  unfolding leaf_step_def
  by (rule restack_inv_body) (simp add: restack_inv_def active_is_def)

lemma restack_inv_initial: "restack_inv initialLeafRestack"
  by (simp add: restack_inv_def initialLeafRestack_def)

lemma restack_inv_advance: "restack_inv st \<Longrightarrow> restack_inv (advanceLeafRestack st es)"
  unfolding advanceLeafRestack_def by (rule fold_events_invariant) (auto intro: restack_inv_step)

end
