(* ===== verification/EventTypes.thy ===== *)
theory EventTypes
  imports Events
begin

text \<open>
  The type name of every event, the discriminator \<^verbatim>\<open>event.type\<close> of the catalog in
  \<^verbatim>\<open>packages/core/src/events/payloads.ts\<close>, family by family. Facts kept by name carry it.
\<close>

fun build_ev_type :: "build_ev \<Rightarrow> string" where
  "build_ev_type (CompatibilityDeferred _) = ''build.compatibility-deferred''"
| "build_ev_type (BuildCreated _) = ''build.created''"
| "build_ev_type (BuildCompleted _) = ''build.completed''"
| "build_ev_type (PauseRequested _) = ''build.pause-requested''"
| "build_ev_type (ResumeRequested _) = ''build.resume-requested''"
| "build_ev_type (AbortRequested _) = ''build.abort-requested''"
| "build_ev_type DiscardRequested = ''build.discard-requested''"
| "build_ev_type (JanitorAttemptFailed _) = ''build.janitor-attempt-failed''"
| "build_ev_type JanitorFailing = ''build.janitor-failing''"
| "build_ev_type JanitorRecovered = ''build.janitor-recovered''"
| "build_ev_type HoldRequested = ''build.hold-requested''"
| "build_ev_type (LandRequested _) = ''build.land-requested''"
| "build_ev_type (AutoMergeRequested _ _) = ''build.auto-merge-requested''"
| "build_ev_type (AutoMergeCancelled _) = ''build.auto-merge-cancelled''"
| "build_ev_type (AutoMergeDefaultObserved _) = ''build.auto-merge-default-observed''"
| "build_ev_type BuildPaused = ''build.paused''"
| "build_ev_type BuildResumed = ''build.resumed''"
| "build_ev_type BuildAborted = ''build.aborted''"

fun node_ev_type :: "node_ev \<Rightarrow> string" where
  "node_ev_type (NodeOpening _) = ''node.opening''"
| "node_ev_type (NodeRestackRequested _) = ''node.restack-requested''"
| "node_ev_type (NodeRestackSatisfied _) = ''node.restack-satisfied''"
| "node_ev_type (NodeAvailability _) = ''node.restack-availability-observed''"
| "node_ev_type (NodeParentDistance _) = ''node.parent-distance''"
| "node_ev_type (NodeParentRequested _) = ''node.parent-requested''"
| "node_ev_type (NodeParentAccepted _) = ''node.parent-accepted''"
| "node_ev_type (NodeParentPrRetargeted _) = ''node.parent-pr-retargeted''"
| "node_ev_type (NodeParentCompleted _) = ''node.parent-completed''"
| "node_ev_type (NodeParentCancelled _) = ''node.parent-cancelled''"
| "node_ev_type NodeParentRejectionCleared = ''node.parent-rejection-cleared''"
| "node_ev_type (NodeParentRejected _) = ''node.parent-rejected''"
| "node_ev_type (NodeOpened _) = ''node.opened''"
| "node_ev_type (NodeWriterReserved _) = ''node.writer-reserved''"
| "node_ev_type (NodeItemPrepared _) = ''node.item-prepared''"
| "node_ev_type (NodeItemReplayed _) = ''node.item-replayed''"
| "node_ev_type (NodeItemConflicted _) = ''node.item-conflicted''"
| "node_ev_type (NodePublishIntended _) = ''node.publish-intended''"
| "node_ev_type (NodeRewritten _) = ''node.rewritten''"
| "node_ev_type (NodeWriterSettled _ _) = ''node.writer-settled''"
| "node_ev_type (NodeContributionRecorded _) = ''node.contribution-recorded''"
| "node_ev_type (NodeIssueLinksRecorded _ _) = ''node.issue-links-recorded''"
| "node_ev_type (NodeIssueLinksPublished _ _) = ''node.issue-links-published''"
| "node_ev_type (NodeInventory _) = ''node.inventory''"
| "node_ev_type (NodePollChecked _) = ''node.poll-checked''"
| "node_ev_type (NodeCompared _) = ''node.compared''"

fun integration_ev_type :: "integration_ev \<Rightarrow> string" where
  "integration_ev_type (IntegrationAbandoned _) = ''integration.abandoned''"
| "integration_ev_type (IntegrationObserved _) = ''integration.observed''"
| "integration_ev_type (IntegrationVerificationFailed _) = ''integration.verification-failed''"
| "integration_ev_type (IntegrationPrepared _) = ''integration.prepared''"
| "integration_ev_type (IntegrationLandingIntended _) = ''integration.landing-intended''"
| "integration_ev_type (IntegrationLanded _) = ''integration.landed''"
| "integration_ev_type (IntegrationAudited _) = ''integration.audited''"

fun execution_ev_type :: "execution_ev \<Rightarrow> string" where
  "execution_ev_type (RelaunchRequested _) = ''execution.relaunch-requested''"
| "execution_ev_type (DrainAuthorized _) = ''execution.drain-authorized''"
| "execution_ev_type (DrainSettled _ _) = ''execution.drain-settled''"
| "execution_ev_type (ExecutionStarted _) = ''execution.started''"
| "execution_ev_type (ExecutionEnded _ _ _) = ''execution.ended''"

fun session_ev_type :: "session_ev \<Rightarrow> string" where
  "session_ev_type (SessionStarted _) = ''session.started''"
| "session_ev_type (SessionSuspended _) = ''session.suspended''"
| "session_ev_type (SessionResumed _) = ''session.resumed''"
| "session_ev_type (SessionResumeFallback _ _) = ''session.resume-fallback''"
| "session_ev_type (SessionHandleRecorded _ _ _ _) = ''session.native-handle-recorded''"
| "session_ev_type (SessionEnded _ _ _ _) = ''session.ended''"
| "session_ev_type (SessionReclaimed _) = ''session.ended''"
| "session_ev_type (SessionBuildReadFailed _) = ''session.build-read-failed''"
| "session_ev_type (SessionBuildReadRecovered _) = ''session.build-read-recovered''"

fun loop_ev_type :: "loop_ev \<Rightarrow> string" where
  "loop_ev_type (PlanStarted _ _) = ''plan.started''"
| "loop_ev_type (PlanCompleted _ _ _) = ''plan.completed''"
| "loop_ev_type (PlanReviewStarted _) = ''plan-review.started''"
| "loop_ev_type (PlanReviewVerdict _) = ''plan-review.verdict''"
| "loop_ev_type (ImplementStarted _ _ _) = ''implement.started''"
| "loop_ev_type (ImplementCompleted _ _ _) = ''implement.completed''"
| "loop_ev_type (CodeReviewStarted _) = ''code-review.started''"
| "loop_ev_type (CodeReviewVerdict _) = ''code-review.verdict''"

fun verify_ev_type :: "verify_ev \<Rightarrow> string" where
  "verify_ev_type (VerifyConfigCaptured _) = ''verify.config-captured''"
| "verify_ev_type VerifyConfigSuperseded = ''verify.config-superseded''"
| "verify_ev_type (VerifyStarted _) = ''verify.started''"
| "verify_ev_type (VerifyReconcilePolicyCaptured _) = ''verify.reconcile-policy-captured''"
| "verify_ev_type (VerifyCompleted _) = ''verify.completed''"
| "verify_ev_type (VerifyCancelled _) = ''verify.cancelled''"
| "verify_ev_type (VerifyStageFailed _) = ''verify.stage-failed''"

fun finalize_ev_type :: "finalize_ev \<Rightarrow> string" where
  "finalize_ev_type FinalizeStarted = ''finalize.started''"
| "finalize_ev_type (FinalizeCompleted _) = ''finalize.completed''"
| "finalize_ev_type (FinalizeStepStarted _) = ''finalize.step-started''"
| "finalize_ev_type (FinalizeStepCompleted _ _ _) = ''finalize.step-completed''"

fun pr_ev_type :: "pr_ev \<Rightarrow> string" where
  "pr_ev_type (PrOpened _) = ''pr.opened''"
| "pr_ev_type (PrAutoMergeEnabled _) = ''pr.auto-merge-enabled''"
| "pr_ev_type (PrAutoMergeDisabled _) = ''pr.auto-merge-disabled''"
| "pr_ev_type (PrMerged _) = ''pr.merged''"
| "pr_ev_type PrClosed = ''pr.closed''"
| "pr_ev_type (PrConflicted _) = ''pr.conflicted''"

fun landing_ev_type :: "landing_ev \<Rightarrow> string" where
  "landing_ev_type (LandingApplicationFailed _) = ''landing.application-failed''"
| "landing_ev_type (LandingDecided _) = ''landing.decided''"
| "landing_ev_type (LandingCommandAcknowledged _) = ''landing.command-acknowledged''"
| "landing_ev_type LandingNativeEnableStarted = ''landing.native-enable-started''"
| "landing_ev_type (LandingForgeMerged _ _) = ''landing.forge-merged''"
| "landing_ev_type (LandingNativeApplied _) = ''landing.native-applied''"

fun target_ev_type :: "target_ev \<Rightarrow> string" where
  "target_ev_type (TargetDistance _) = ''target.distance''"
| "target_ev_type (TargetRewritten _) = ''target.rewritten''"
| "target_ev_type (TargetRewriteCleared _ _ _) = ''target.rewrite-cleared''"
| "target_ev_type (TargetMoved _) = ''target.moved''"

fun restack_ev_type :: "restack_ev \<Rightarrow> string" where
  "restack_ev_type (RestackPrepared _) = ''restack.prepared''"
| "restack_ev_type (RestackReplayed _) = ''restack.replayed''"
| "restack_ev_type (RestackPublishIntended _ _) = ''restack.publish-intended''"
| "restack_ev_type (RestackRewritten _ _ _) = ''restack.rewritten''"
| "restack_ev_type (RestackContended _ _) = ''restack.contended''"
| "restack_ev_type (RestackCompleted _ _) = ''restack.completed''"

fun reconcile_ev_type :: "reconcile_ev \<Rightarrow> string" where
  "reconcile_ev_type (ReconcileStarted _) = ''reconcile.started''"
| "reconcile_ev_type (ReconcileProgressChecked _) = ''reconcile.progress-checked''"
| "reconcile_ev_type (ReconcileRewritten _) = ''reconcile.rewritten''"
| "reconcile_ev_type (ReconcileMerged _) = ''reconcile.completed''"
| "reconcile_ev_type (ReconcileRebased _ _) = ''reconcile.completed''"
| "reconcile_ev_type (ReconcileContended _ _) = ''reconcile.contended''"
| "reconcile_ev_type (ReconcileFact n) = ''reconcile.'' @ n"

fun publication_ev_type :: "publication_ev \<Rightarrow> string" where
  "publication_ev_type (PublicationRequested _) = ''publication.requested''"
| "publication_ev_type (PublicationRetryScheduled _ _) = ''publication.retry-scheduled''"
| "publication_ev_type (PublicationRetryExhausted _) = ''publication.retry-exhausted''"
| "publication_ev_type (PublicationCandidateRetired _ _ _ _) = ''publication.candidate-retired''"
| "publication_ev_type (PublicationLost _) = ''publication.lost''"
| "publication_ev_type (PublicationFact n) = ''publication.'' @ n"

fun event_type :: "event_body \<Rightarrow> string" where
  "event_type (EBuild b) = build_ev_type b"
| "event_type (ENode b) = node_ev_type b"
| "event_type (EIntegration b) = integration_ev_type b"
| "event_type (ERunner RunnerRuntimeRecorded) = ''runner.runtime-recorded''"
| "event_type (ERunner RunnerAttached) = ''runner.attached''"
| "event_type (ERunner (RunnerSetupFailed _)) = ''runner.setup-failed''"
| "event_type (EWorkspace (WorkspaceProvisioned _)) = ''workspace.provisioned''"
| "event_type (EWorkspace (WorkspaceCleanupRequired _)) = ''workspace.cleanup-required''"
| "event_type (EWorkspace (WorkspaceReleased _)) = ''workspace.released''"
| "event_type (EWorkspace (WorkspaceProvisionStarted _ _ _)) = ''workspace.provision-started''"
| "event_type (EWorkspace (WorkspaceFact n)) = ''workspace.'' @ n"
| "event_type (EExecution b) = execution_ev_type b"
| "event_type (EInfra (InfrastructureFailed _)) = ''infrastructure.failed''"
| "event_type (EInfra (CleanupAttempted _)) = ''infrastructure.cleanup-attempted''"
| "event_type (EDispatchFailed _) = ''dispatch.failed''"
| "event_type (ESpec (SpecImported _)) = ''spec.imported''"
| "event_type (ESpec (SpecAuthored _)) = ''spec.authored''"
| "event_type (ESpec (SpecRevised _ _)) = ''spec.revised''"
| "event_type (ESession b) = session_ev_type b"
| "event_type (ELoop b) = loop_ev_type b"
| "event_type (EVerify b) = verify_ev_type b"
| "event_type (EFinalize b) = finalize_ev_type b"
| "event_type (EPr b) = pr_ev_type b"
| "event_type (ELanding b) = landing_ev_type b"
| "event_type (ETarget b) = target_ev_type b"
| "event_type (ERestack b) = restack_ev_type b"
| "event_type (EReconcile b) = reconcile_ev_type b"
| "event_type (EPublication b) = publication_ev_type b"
| "event_type (EEscalation (EscalationRaised _)) = ''escalation.raised''"
| "event_type (EEscalation (EscalationAnswered _)) = ''escalation.answered''"
| "event_type (EPhase (PhaseDeferred _ _ _)) = ''phase.deferred''"
| "event_type (EPhase (PhaseDeferralEscalated _)) = ''phase.deferral-escalated''"
| "event_type (EPhase (PhaseFailed _ _)) = ''phase.failed''"
| "event_type (EIssue (IssueLinkDowngraded _ _)) = ''issue-link.downgraded''"
| "event_type (EIssue IssueLinksSealed) = ''issue-links.sealed''"
| "event_type (EObservation _) = ''observation.recorded''"
| "event_type (EFact n) = n"
| "event_type (EUnknown n _) = n"

text \<open>
  The \<^verbatim>\<open>round\<close>, \<^verbatim>\<open>attempt\<close> and \<^verbatim>\<open>step\<close> a terminal event's payload carries; \<open>None\<close> when the payload
  has no such key.
\<close>

fun terminal_round :: "event_body \<Rightarrow> nat option" where
  "terminal_round (ELoop (PlanCompleted r _ _)) = Some r"
| "terminal_round (ELoop (PlanReviewVerdict v)) = Some (vp_round v)"
| "terminal_round (ELoop (ImplementCompleted r _ _)) = Some r"
| "terminal_round (ELoop (CodeReviewVerdict v)) = Some (vp_round v)"
| "terminal_round _ = None"

fun terminal_attempt :: "event_body \<Rightarrow> nat option" where
  "terminal_attempt (EVerify (VerifyCompleted c)) = Some (vb_attempt (completion_base c))"
| "terminal_attempt _ = None"

fun terminal_step :: "event_body \<Rightarrow> string option" where
  "terminal_step (EVerify (VerifyCompleted c)) = Some (vb_step (completion_base c))"
| "terminal_step _ = None"

end
