(* ===== verification/ReadDeferrals.thy ===== *)
theory ReadDeferrals
  imports Incremental EventTypes Phases
begin

text \<open>
  Own-build read deferrals, \<^verbatim>\<open>kernel/read-deferrals.ts\<close>: a session that cannot read its own build
  parks once, inherits its item across native continuations, and is retired by its phase terminal,
  by a recovered finalize post-step, or by the answer to its escalation. The code's step is a
  sequence of blocks; each block is a definition and \<open>read_deferral_step\<close> composes them in order.
\<close>

record read_deferral =
  dr_session :: string
  dr_phase :: phase
  dr_round :: nat
  dr_evidenceSeq :: nat
  dr_diagnostic :: string
  dr_ended :: bool
  dr_settled :: bool
  dr_lastFailureSeq :: nat
  dr_recovered :: bool

record read_session =
  rn_phase :: phase
  rn_round :: nat
  rn_ended :: bool
  rn_terminal :: bool

record read_deferrals =
  ra_sessions :: "(string, read_session) jsmap"
  ra_pending :: "read_deferral list"
  ra_raises :: "(string, nat) jsmap"

definition initialReadDeferrals :: read_deferrals where
  "initialReadDeferrals = \<lparr>ra_sessions = [], ra_pending = [], ra_raises = []\<rparr>"

definition has_pending :: "read_deferrals \<Rightarrow> string \<Rightarrow> bool" where
  "has_pending acc session = list_ex (\<lambda>item. dr_session item = session) (ra_pending acc)"

definition rd_inherit :: "read_deferrals \<Rightarrow> session_started \<Rightarrow> string \<Rightarrow> read_deferrals" where
  "rd_inherit acc p predecessor =
     (let round = (case ss_round p of None \<Rightarrow> 1 | Some r \<Rightarrow> r);
          acc1 = acc\<lparr>ra_pending := map (\<lambda>item.
                    if dr_session item = predecessor \<and> \<not> dr_ended item \<and>
                       dr_phase item = ss_phase p \<and> dr_round item = round
                    then item\<lparr>dr_session := ss_session p\<rparr> else item) (ra_pending acc)\<rparr>
      in if has_pending acc1 predecessor then acc1
         else acc1\<lparr>ra_sessions := jm_del predecessor (ra_sessions acc1)\<rparr>)"

definition rd_session_started :: "read_deferrals \<Rightarrow> ab_event \<Rightarrow> read_deferrals" where
  "rd_session_started acc e =
     (case ev_body e of
        ESession (SessionStarted p) \<Rightarrow>
          (let acc1 = (case ss_continuation p of None \<Rightarrow> acc
                       | Some c \<Rightarrow> rd_inherit acc p (co_predecessor c))
           in acc1\<lparr>ra_sessions := jm_set (ss_session p)
                     \<lparr>rn_phase = ss_phase p,
                      rn_round = (case ss_round p of None \<Rightarrow> 1 | Some r \<Rightarrow> r),
                      rn_ended = False, rn_terminal = False\<rparr> (ra_sessions acc1)\<rparr>)
      | _ \<Rightarrow> acc)"

text \<open>The terminal test for one tracked session.\<close>

definition is_completion :: "read_session \<Rightarrow> event_body \<Rightarrow> bool" where
  "is_completion s b =
     (event_type b = sp_terminalEvent (phaseSpecFor (rn_phase s)) \<and>
      (case terminal_step b of None \<Rightarrow> True | Some step \<Rightarrow> rn_phase s = Verify step) \<and>
      (case terminal_round b of None \<Rightarrow> True | Some r \<Rightarrow> r = rn_round s) \<and>
      (case terminal_attempt b of None \<Rightarrow> True | Some a \<Rightarrow> a = rn_round s))"

fun actor_is_session :: "actor \<Rightarrow> string \<Rightarrow> bool" where
  "actor_is_session (Agent _ s) i = (s = i)"
| "actor_is_session _ i = False"

fun agent_boundary :: "event_body \<Rightarrow> bool" where
  "agent_boundary (EEscalation (EscalationRaised _)) = True"
| "agent_boundary (EPublication (PublicationRequested _)) = True"
| "agent_boundary _ = False"

definition session_terminates :: "ab_event \<Rightarrow> string \<times> read_session \<Rightarrow> bool" where
  "session_terminates e = (\<lambda>(i, s).
     \<not> rn_ended s \<and>
     (ev_actor e = Kernel \<or> actor_is_session (ev_actor e) i) \<and>
     (is_completion s (ev_body e) \<or> (actor_is_session (ev_actor e) i \<and> agent_boundary (ev_body e))))"

definition rd_terminals :: "read_deferrals \<Rightarrow> ab_event \<Rightarrow> read_deferrals" where
  "rd_terminals acc e =
     (let hits = map fst (filter (session_terminates e) (ra_sessions acc)) in
      acc\<lparr>ra_sessions := map (\<lambda>(i, s). (i, if session_terminates e (i, s)
                                            then s\<lparr>rn_terminal := True\<rparr> else s)) (ra_sessions acc),
          ra_pending := filter (\<lambda>item. dr_session item \<notin> set hits) (ra_pending acc)\<rparr>)"

definition new_deferral :: "build_read_failed \<Rightarrow> nat \<Rightarrow> read_deferral" where
  "new_deferral p seq =
     \<lparr>dr_session = rf_session p, dr_phase = rf_phase p, dr_round = rf_round p,
      dr_evidenceSeq = seq, dr_diagnostic = rf_diagnostic p, dr_ended = False, dr_settled = False,
      dr_lastFailureSeq = seq, dr_recovered = False\<rparr>"

text \<open>\<^verbatim>\<open>existing\<close> is the first item of the session; only that one is updated.\<close>

fun update_first :: "('a \<Rightarrow> bool) \<Rightarrow> ('a \<Rightarrow> 'a) \<Rightarrow> 'a list \<Rightarrow> 'a list" where
  "update_first p f [] = []"
| "update_first p f (x # xs) = (if p x then f x # xs else x # update_first p f xs)"

definition refail :: "build_read_failed \<Rightarrow> nat \<Rightarrow> read_deferral \<Rightarrow> read_deferral" where
  "refail p seq item =
     (if \<not> dr_ended item \<and> \<not> dr_settled item \<and> dr_phase item = rf_phase p \<and> dr_round item = rf_round p
      then item\<lparr>dr_lastFailureSeq := seq, dr_recovered := False, dr_diagnostic := rf_diagnostic p\<rparr>
      else item)"

definition rd_read_failed :: "read_deferrals \<Rightarrow> ab_event \<Rightarrow> read_deferrals" where
  "rd_read_failed acc e =
     (case ev_body e of
        ESession (SessionBuildReadFailed p) \<Rightarrow>
          (case map_of (ra_sessions acc) (rf_session p) of
             None \<Rightarrow> acc
           | Some s \<Rightarrow>
               if \<not> rn_terminal s \<and> \<not> rn_ended s \<and> rn_phase s = rf_phase p \<and> rn_round s = rf_round p
               then (if has_pending acc (rf_session p)
                     then acc\<lparr>ra_pending := update_first (\<lambda>item. dr_session item = rf_session p)
                                (refail p (ev_seq e)) (ra_pending acc)\<rparr>
                     else acc\<lparr>ra_pending := ra_pending acc @ [new_deferral p (ev_seq e)]\<rparr>)
               else acc)
      | _ \<Rightarrow> acc)"

definition rd_recovered :: "read_deferrals \<Rightarrow> ab_event \<Rightarrow> read_deferrals" where
  "rd_recovered acc e =
     (case ev_body e of
        ESession (SessionBuildReadRecovered p) \<Rightarrow>
          acc\<lparr>ra_pending := map (\<lambda>item.
             if dr_session item = rc_session p \<and> dr_phase item = rc_phase p \<and>
                dr_round item = rc_round p \<and> dr_evidenceSeq item = rc_evidenceSeq p \<and>
                dr_lastFailureSeq item = rc_failureSeq p \<and> \<not> dr_ended item \<and> \<not> dr_settled item
             then item\<lparr>dr_recovered := True\<rparr> else item) (ra_pending acc)\<rparr>
      | _ \<Rightarrow> acc)"

fun step_outcome :: "event_body \<Rightarrow> bool" where
  "step_outcome (EFinalize (FinalizeStepCompleted _ _ _)) = True"
| "step_outcome (EPublication (PublicationRequested _)) = True"
| "step_outcome _ = False"

definition retired :: "string \<Rightarrow> read_deferral \<Rightarrow> bool" where
  "retired i item =
     (dr_session item = i \<and> dr_phase item = Core Finalize \<and> dr_recovered item \<and> \<not> dr_settled item)"

definition rd_retire :: "read_deferrals \<Rightarrow> ab_event \<Rightarrow> read_deferrals" where
  "rd_retire acc e =
     (case ev_actor e of
        Agent _ i \<Rightarrow>
          if step_outcome (ev_body e) \<and> list_ex (retired i) (ra_pending acc)
          then acc\<lparr>ra_pending := filter (\<lambda>item. \<not> retired i item) (ra_pending acc),
                   ra_sessions := jm_del i (ra_sessions acc)\<rparr>
          else acc
      | _ \<Rightarrow> acc)"

definition rd_end :: "read_deferrals \<Rightarrow> string \<Rightarrow> read_deferrals" where
  "rd_end acc session =
     (let acc1 = (case map_of (ra_sessions acc) session of
                    None \<Rightarrow> acc
                  | Some s \<Rightarrow> acc\<lparr>ra_sessions := jm_set session (s\<lparr>rn_ended := True\<rparr>) (ra_sessions acc)\<rparr>);
          acc2 = (if has_pending acc1 session then acc1
                  else acc1\<lparr>ra_sessions := jm_del session (ra_sessions acc1)\<rparr>)
      in acc2\<lparr>ra_pending := map (\<lambda>item. if dr_session item = session
                                      then item\<lparr>dr_ended := True\<rparr> else item) (ra_pending acc2)\<rparr>)"

definition rd_session_ended :: "read_deferrals \<Rightarrow> ab_event \<Rightarrow> read_deferrals" where
  "rd_session_ended acc e =
     (case ev_body e of
        ESession (SessionEnded session _ _ _) \<Rightarrow> rd_end acc session
      | ESession (SessionReclaimed session) \<Rightarrow> rd_end acc session
      | _ \<Rightarrow> acc)"

definition rd_deferred :: "read_deferrals \<Rightarrow> ab_event \<Rightarrow> read_deferrals" where
  "rd_deferred acc e =
     (case ev_body e of
        EPhase (PhaseDeferred session phase round) \<Rightarrow>
          acc\<lparr>ra_pending := map (\<lambda>item.
             if dr_session item = session \<and> dr_phase item = phase \<and> dr_round item = round
             then item\<lparr>dr_settled := True\<rparr> else item) (ra_pending acc)\<rparr>
      | EPhase (PhaseDeferralEscalated p) \<Rightarrow>
          (if list_ex (\<lambda>item. dr_evidenceSeq item = de_evidenceSeq p \<and> dr_session item = de_session p \<and>
                 dr_phase item = de_phase p \<and> dr_round item = de_round p) (ra_pending acc)
           then acc\<lparr>ra_raises := jm_set (de_id p) (de_evidenceSeq p) (ra_raises acc)\<rparr> else acc)
      | _ \<Rightarrow> acc)"

definition rd_answered :: "read_deferrals \<Rightarrow> ab_event \<Rightarrow> read_deferrals" where
  "rd_answered acc e =
     (case ev_body e of
        EEscalation (EscalationAnswered p) \<Rightarrow>
          (case map_of (ra_raises acc) (ea_id p) of
             None \<Rightarrow> acc
           | Some seq \<Rightarrow>
               acc\<lparr>ra_sessions := fold (\<lambda>item m. if dr_evidenceSeq item = seq
                                              then jm_del (dr_session item) m else m)
                                   (ra_pending acc) (ra_sessions acc),
                   ra_pending := filter (\<lambda>item. dr_evidenceSeq item \<noteq> seq) (ra_pending acc),
                   ra_raises := jm_del (ea_id p) (ra_raises acc)\<rparr>)
      | _ \<Rightarrow> acc)"

definition read_deferral_step :: "read_deferrals \<Rightarrow> ab_event \<Rightarrow> read_deferrals" where
  "read_deferral_step acc e =
     (let acc = rd_session_started acc e;
          acc = rd_terminals acc e;
          acc = rd_read_failed acc e;
          acc = rd_recovered acc e;
          acc = rd_retire acc e;
          acc = rd_session_ended acc e;
          acc = rd_deferred acc e
      in rd_answered acc e)"

definition foldReadDeferrals :: "read_deferrals \<Rightarrow> ab_event list \<Rightarrow> read_deferrals" where
  "foldReadDeferrals = fold_events read_deferral_step"

section \<open>A session parks at most once\<close>

text \<open>
  An item's evidence is never later than its latest failure. An inherited item always names the
  session that was just started, so a chain keeps its own item.
\<close>

definition item_inv :: "read_deferral \<Rightarrow> bool" where
  "item_inv item \<longleftrightarrow> dr_evidenceSeq item \<le> dr_lastFailureSeq item"

lemma set_update_first: "x \<in> set (update_first p f xs) \<Longrightarrow> x \<in> set xs \<or> (\<exists>y \<in> set xs. x = f y)"
  by (induction xs) (auto split: if_splits)

definition items_inv :: "nat \<Rightarrow> read_deferrals \<Rightarrow> bool" where
  "items_inv n acc \<longleftrightarrow> (\<forall>item \<in> set (ra_pending acc). item_inv item \<and> dr_lastFailureSeq item \<le> n)"

lemma items_inv_simple:
  "items_inv n acc \<Longrightarrow> items_inv n (rd_session_started acc e)"
  "items_inv n acc \<Longrightarrow> items_inv n (rd_terminals acc e)"
  "items_inv n acc \<Longrightarrow> items_inv n (rd_recovered acc e)"
  "items_inv n acc \<Longrightarrow> items_inv n (rd_retire acc e)"
  "items_inv n acc \<Longrightarrow> items_inv n (rd_session_ended acc e)"
  "items_inv n acc \<Longrightarrow> items_inv n (rd_deferred acc e)"
  "items_inv n acc \<Longrightarrow> items_inv n (rd_answered acc e)"
  by (auto simp: items_inv_def item_inv_def rd_session_started_def rd_inherit_def rd_terminals_def
        rd_recovered_def rd_retire_def rd_session_ended_def rd_end_def rd_deferred_def
        rd_answered_def Let_def
      split: event_body.split session_ev.split option.split actor.split phase_ev.split
        escalation_ev.split)

lemma items_inv_read_failed: "items_inv (ev_seq e) acc \<Longrightarrow> items_inv (ev_seq e) (rd_read_failed acc e)"
  by (auto simp: items_inv_def item_inv_def rd_read_failed_def new_deferral_def refail_def
        intro: le_trans dest!: set_update_first
      split: event_body.split session_ev.split option.split if_splits)

lemma items_inv_step: "items_inv n acc \<Longrightarrow> n \<le> ev_seq e \<Longrightarrow> items_inv (ev_seq e) (read_deferral_step acc e)"
proof -
  assume "items_inv n acc" "n \<le> ev_seq e"
  then have "items_inv (ev_seq e) acc" by (auto simp: items_inv_def)
  then show ?thesis
    by (simp add: read_deferral_step_def Let_def items_inv_simple items_inv_read_failed)
qed

lemma items_inv_fold:
  "items_inv n acc \<Longrightarrow> sorted (n # map ev_seq es) \<Longrightarrow>
   \<exists>m. items_inv m (foldReadDeferrals acc es)"
proof (induction es arbitrary: n acc)
  case (Cons e es)
  then show ?case
    using Cons.IH [of "ev_seq e" "read_deferral_step acc e"] items_inv_step [of n acc e]
    by (simp add: foldReadDeferrals_def)
qed (auto simp: foldReadDeferrals_def)

text \<open>An answer to a raised deferral retires every item of that evidence.\<close>

lemma answered_retires:
  assumes "ev_body e = EEscalation (EscalationAnswered p)" and "map_of (ra_raises acc) (ea_id p) = Some seq"
  shows "\<forall>item \<in> set (ra_pending (rd_answered acc e)). dr_evidenceSeq item \<noteq> seq"
  using assms by (simp add: rd_answered_def)

end
