(* ===== verification/LogIndex.thy ===== *)
theory LogIndex
  imports LeafRestack ReadDeferrals
begin

text \<open>
  The engine's raw-log index, \<^verbatim>\<open>kernel/log-index.ts\<close>. The accumulator keeps running state that never
  depends on the restart boundary and a list of candidates in log order; \<open>finishLogIndex\<close> replays the
  candidates after the last \<^verbatim>\<open>spec.revised\<close>. A phase-at-round key \<^verbatim>\<open>`plan@3`\<close> is a pair.
\<close>

section \<open>Index records\<close>

record verdict_record =
  vd_seq :: nat
  vd_round :: nat
  vd_verdict :: review_verdict_kind
  vd_findings :: "finding list"
  vd_reason :: "string option"

record plan_completion =
  pq_seq :: nat
  pq_artifact :: artifact_ref
  pq_verifySteps :: "string list option"

record round_record =
  ro_startedSeq :: "nat option"
  ro_completedSeq :: "nat option"
  ro_planCompletion :: "plan_completion option"
  ro_verdict :: "verdict_record option"

record loop_index =
  lo_maxRoundEver :: nat
  lo_maxRound :: nat
  lo_rounds :: "(nat, round_record) jsmap"
  lo_latestRevise :: "verdict_record option"
  lo_latestApproveSeq :: nat
  lo_approvedPlan :: "plan_completion option"
  lo_findingsByRound :: "finding list list"

record verify_start_record =
  vt_seq :: nat
  vt_attempt :: nat
  vt_baseSha :: "sha option"
  vt_headSha :: "sha option"
  vt_restackId :: "string option"

record guidance_delivery =
  gd_escalation :: string
  gd_seq :: nat

record reconcile_start =
  rz_seq :: nat
  rz_attempt :: nat
  rz_baseSha :: sha
  rz_restackId :: "string option"

record reconcile_completion = reconcile_start +
  rz_completedSeq :: nat

record reconcile_progress =
  rg_seq :: nat
  rg_conflictSeq :: nat
  rg_attempt :: nat
  rg_baseSha :: sha

datatype loop_name = PlanLoop | CodeLoop

datatype candidate =
    CRoundStart loop_name nat nat
  | CPlanCompleted nat nat artifact_ref "string list option"
  | CRoundTouch loop_name nat nat
  | CRoundCompleted loop_name nat nat
  | CVerdict loop_name verdict_record
  | CImplementCompleted nat
  | CVerifyStarted verify_start_record
  | CReconcilePolicy nat reconcile_policy
  | CVerifyCompleted verify_record
  | CFinalizeCompleted nat
  | CFinalizeStep nat string
  | CReconcileCompleted nat
  | CConfigSuperseded nat

fun candidate_seq :: "candidate \<Rightarrow> nat" where
  "candidate_seq (CRoundStart _ s _) = s"
| "candidate_seq (CPlanCompleted s _ _ _) = s"
| "candidate_seq (CRoundTouch _ s _) = s"
| "candidate_seq (CRoundCompleted _ s _) = s"
| "candidate_seq (CVerdict _ v) = vd_seq v"
| "candidate_seq (CImplementCompleted s) = s"
| "candidate_seq (CVerifyStarted v) = vt_seq v"
| "candidate_seq (CReconcilePolicy s _) = s"
| "candidate_seq (CVerifyCompleted v) = vr_seq v"
| "candidate_seq (CFinalizeCompleted s) = s"
| "candidate_seq (CFinalizeStep s _) = s"
| "candidate_seq (CReconcileCompleted s) = s"
| "candidate_seq (CConfigSuperseded s) = s"

record log_acc =
  la_readDeferrals :: read_deferrals
  la_restack :: leaf_restack_state
  la_restartSeq :: nat
  la_maxRoundPlan :: nat
  la_maxRoundCode :: nat
  la_maxVerifyAttempt :: nat
  la_pendingGuidance :: "(phase \<times> nat, guidance_delivery) jsmap"
  la_deliveries :: "guidance_delivery list"
  la_lastConflict :: "nat option"
  la_conflictSeqs :: "nat list"
  la_conflictReconcile :: "nat option"
  la_activeReconcile :: "reconcile_start option"
  la_reconcileStarts :: "reconcile_start list"
  la_reconcileCompletions :: "reconcile_completion list"
  la_progressChecks :: "reconcile_progress list"
  la_candidates :: "candidate list"

definition initialLogIndexAcc :: log_acc where
  "initialLogIndexAcc =
     \<lparr>la_readDeferrals = initialReadDeferrals, la_restack = initialLeafRestack, la_restartSeq = 0,
      la_maxRoundPlan = 0, la_maxRoundCode = 0, la_maxVerifyAttempt = 0, la_pendingGuidance = [],
      la_deliveries = [], la_lastConflict = None, la_conflictSeqs = [], la_conflictReconcile = None,
      la_activeReconcile = None, la_reconcileStarts = [], la_reconcileCompletions = [],
      la_progressChecks = [], la_candidates = []\<rparr>"

section \<open>The fold\<close>

definition note_round :: "loop_name \<Rightarrow> nat \<Rightarrow> log_acc \<Rightarrow> log_acc" where
  "note_round l r acc =
     (case l of
        PlanLoop \<Rightarrow> if r > la_maxRoundPlan acc then acc\<lparr>la_maxRoundPlan := r\<rparr> else acc
      | CodeLoop \<Rightarrow> if r > la_maxRoundCode acc then acc\<lparr>la_maxRoundCode := r\<rparr> else acc)"

definition note_guidance_start :: "phase \<times> nat \<Rightarrow> feedback option \<Rightarrow> nat \<Rightarrow> log_acc \<Rightarrow> log_acc" where
  "note_guidance_start key fb seq acc =
     acc\<lparr>la_pendingGuidance :=
        (case fb of
           Some (FbGuidance esc _) \<Rightarrow>
             jm_set key \<lparr>gd_escalation = esc, gd_seq = seq\<rparr> (la_pendingGuidance acc)
         | _ \<Rightarrow> jm_del key (la_pendingGuidance acc))\<rparr>"

definition push_candidate :: "candidate \<Rightarrow> log_acc \<Rightarrow> log_acc" where
  "push_candidate c acc = acc\<lparr>la_candidates := la_candidates acc @ [c]\<rparr>"

definition verdict_of :: "verdict_payload \<Rightarrow> nat \<Rightarrow> verdict_record" where
  "verdict_of p seq =
     \<lparr>vd_seq = seq, vd_round = vp_round p, vd_verdict = vp_verdict p, vd_findings = vp_findings p,
      vd_reason = vp_reason p\<rparr>"

definition verdictCandidate :: "loop_name \<Rightarrow> verdict_payload \<Rightarrow> nat \<Rightarrow> candidate" where
  "verdictCandidate l p seq = CVerdict l (verdict_of p seq)"

fun log_loop_step :: "loop_ev \<Rightarrow> nat \<Rightarrow> log_acc \<Rightarrow> log_acc" where
  "log_loop_step (PlanStarted r fb) s acc =
     push_candidate (CRoundStart PlanLoop s r)
       (note_round PlanLoop r (note_guidance_start (Core Plan, r) fb s acc))"
| "log_loop_step (PlanCompleted r art steps) s acc =
     push_candidate (CPlanCompleted s r art steps) (note_round PlanLoop r acc)"
| "log_loop_step (PlanReviewStarted r) s acc =
     push_candidate (CRoundTouch PlanLoop s r) (note_round PlanLoop r acc)"
| "log_loop_step (PlanReviewVerdict p) s acc =
     push_candidate (verdictCandidate PlanLoop p s) (note_round PlanLoop (vp_round p) acc)"
| "log_loop_step (ImplementStarted r _ fb) s acc =
     push_candidate (CRoundStart CodeLoop s r)
       (note_round CodeLoop r (note_guidance_start (Core Implement, r) fb s acc))"
| "log_loop_step (ImplementCompleted r _ _) s acc =
     push_candidate (CImplementCompleted s)
       (push_candidate (CRoundCompleted CodeLoop s r) (note_round CodeLoop r acc))"
| "log_loop_step (CodeReviewStarted r) s acc =
     push_candidate (CRoundTouch CodeLoop s r) (note_round CodeLoop r acc)"
| "log_loop_step (CodeReviewVerdict p) s acc =
     push_candidate (verdictCandidate CodeLoop p s) (note_round CodeLoop (vp_round p) acc)"

fun log_verify_step :: "verify_ev \<Rightarrow> nat \<Rightarrow> log_acc \<Rightarrow> log_acc" where
  "log_verify_step (VerifyConfigCaptured _) s acc = push_candidate (CConfigSuperseded s) acc"
| "log_verify_step VerifyConfigSuperseded s acc = push_candidate (CConfigSuperseded s) acc"
| "log_verify_step (VerifyStarted p) s acc =
     push_candidate
       (CVerifyStarted \<lparr>vt_seq = s, vt_attempt = vs_attempt p, vt_baseSha = vs_baseSha p,
                        vt_headSha = vs_headSha p, vt_restackId = vs_restackId p\<rparr>)
       ((\<lambda>a. a\<lparr>la_maxVerifyAttempt := max (la_maxVerifyAttempt a) (vs_attempt p)\<rparr>)
         (note_guidance_start (Verify (vs_step p), vs_attempt p) (vs_feedback p) s acc))"
| "log_verify_step (VerifyReconcilePolicyCaptured p) s acc = push_candidate (CReconcilePolicy s p) acc"
| "log_verify_step (VerifyCompleted c) s acc =
     (let result = normalizeVerifyCompletion c s in
      push_candidate (CVerifyCompleted result)
        (acc\<lparr>la_maxVerifyAttempt := max (la_maxVerifyAttempt acc) (vr_attempt result)\<rparr>))"
| "log_verify_step (VerifyCancelled _) s acc = acc"
| "log_verify_step (VerifyStageFailed _) s acc = acc"

text \<open>A session launch delivers the guidance its occurrence's latest start cites.\<close>

definition log_session_started :: "session_started \<Rightarrow> nat \<Rightarrow> log_acc \<Rightarrow> log_acc" where
  "log_session_started p s acc =
     (case ss_round p of
        None \<Rightarrow> acc
      | Some r \<Rightarrow>
          (case map_of (la_pendingGuidance acc) (ss_phase p, r) of
             None \<Rightarrow> acc
           | Some carrier \<Rightarrow>
               if gd_seq carrier < s
               then acc\<lparr>la_deliveries := la_deliveries acc @
                          [\<lparr>gd_escalation = gd_escalation carrier, gd_seq = s\<rparr>],
                        la_pendingGuidance := jm_del (ss_phase p, r) (la_pendingGuidance acc)\<rparr>
               else acc))"

definition log_reconcile_started :: "reconcile_started \<Rightarrow> nat \<Rightarrow> log_acc \<Rightarrow> log_acc" where
  "log_reconcile_started p s acc =
     (let start = \<lparr>rz_seq = s, rz_attempt = rs_attempt p, rz_baseSha = rs_baseSha p,
                   rz_restackId = rs_restackId p\<rparr>;
          acc1 = acc\<lparr>la_reconcileStarts := la_reconcileStarts acc @ [start],
                     la_activeReconcile := Some start\<rparr>
      in case la_lastConflict acc of
           Some c \<Rightarrow> if s > c then acc1\<lparr>la_conflictReconcile := Some (rs_attempt p)\<rparr> else acc1
         | None \<Rightarrow> acc1)"

definition completion_of :: "reconcile_start \<Rightarrow> nat \<Rightarrow> reconcile_completion" where
  "completion_of r s =
     \<lparr>rz_seq = rz_seq r, rz_attempt = rz_attempt r, rz_baseSha = rz_baseSha r,
      rz_restackId = rz_restackId r, rz_completedSeq = s\<rparr>"

definition log_reconcile_completed :: "nat \<Rightarrow> log_acc \<Rightarrow> log_acc" where
  "log_reconcile_completed s acc =
     (let acc1 = push_candidate (CReconcileCompleted s) acc;
          acc2 = (case la_activeReconcile acc1 of
                    Some r \<Rightarrow> acc1\<lparr>la_reconcileCompletions :=
                                la_reconcileCompletions acc1 @ [completion_of r s],
                                la_activeReconcile := None\<rparr>
                  | None \<Rightarrow> acc1)
      in acc2\<lparr>la_conflictReconcile := None\<rparr>)"

definition log_step :: "log_acc \<Rightarrow> ab_event \<Rightarrow> log_acc" where
  "log_step acc e =
     (let s = ev_seq e in
      case ev_body e of
        ESpec (SpecRevised _ _) \<Rightarrow> acc\<lparr>la_restartSeq := s\<rparr>
      | ELoop l \<Rightarrow> log_loop_step l s acc
      | EVerify v \<Rightarrow> log_verify_step v s acc
      | ESession (SessionStarted p) \<Rightarrow> log_session_started p s acc
      | EFinalize (FinalizeCompleted _) \<Rightarrow> push_candidate (CFinalizeCompleted s) acc
      | EFinalize (FinalizeStepCompleted step _ _) \<Rightarrow> push_candidate (CFinalizeStep s step) acc
      | EPr (PrConflicted _) \<Rightarrow>
          acc\<lparr>la_lastConflict := Some s, la_conflictSeqs := la_conflictSeqs acc @ [s],
              la_conflictReconcile := None\<rparr>
      | EReconcile (ReconcileProgressChecked p) \<Rightarrow>
          acc\<lparr>la_progressChecks := la_progressChecks acc @
                [\<lparr>rg_seq = s, rg_conflictSeq = pc_conflictSeq p, rg_attempt = pc_attempt p,
                  rg_baseSha = pc_baseSha p\<rparr>]\<rparr>
      | EReconcile (ReconcileStarted p) \<Rightarrow> log_reconcile_started p s acc
      | EReconcile (ReconcileMerged _) \<Rightarrow> log_reconcile_completed s acc
      | EReconcile (ReconcileRebased _ _) \<Rightarrow> log_reconcile_completed s acc
      | _ \<Rightarrow> acc)"

definition foldLogIndex :: "log_acc \<Rightarrow> ab_event list \<Rightarrow> log_acc" where
  "foldLogIndex acc events =
     fold_events log_step
       (acc\<lparr>la_readDeferrals := foldReadDeferrals (la_readDeferrals acc) events,
            la_restack := advance leafRestackReducer (la_restack acc) events\<rparr>) events"

section \<open>The finish\<close>

record log_index =
  lx_readDeferrals :: "read_deferral list"
  lx_restack :: leaf_restack_state
  lx_reconcilePolicy :: "reconcile_policy option"
  lx_restartSeq :: nat
  lx_plan :: loop_index
  lx_code :: loop_index
  lx_verifyCompleted :: "verify_record list"
  lx_verifyStarted :: "verify_start_record list"
  lx_maxVerifyAttemptEver :: nat
  lx_verifyConfigBoundary :: nat
  lx_lastReconcileCompletedSeq :: nat
  lx_lastImplementCompletedSeq :: nat
  lx_finalizeCompleted :: bool
  lx_finalizeStepsDone :: "string list"
  lx_lastConflict :: "nat option"
  lx_conflictReconcileStarted :: "nat option"
  lx_lastReconcileCompleted :: "reconcile_completion option"
  lx_lastConflictProgressCheck :: "reconcile_progress option"
  lx_reconcileNoProgressCount :: nat
  lx_guidanceDeliveries :: "guidance_delivery list"

definition emptyLoop :: "nat \<Rightarrow> loop_index" where
  "emptyLoop ever =
     \<lparr>lo_maxRoundEver = ever, lo_maxRound = 0, lo_rounds = [], lo_latestRevise = None,
      lo_latestApproveSeq = 0, lo_approvedPlan = None, lo_findingsByRound = []\<rparr>"

definition empty_round :: round_record where
  "empty_round = \<lparr>ro_startedSeq = None, ro_completedSeq = None, ro_planCompletion = None,
                  ro_verdict = None\<rparr>"

text \<open>\<^verbatim>\<open>roundRecord(loop, r)\<close> followed by a write of the record it returns.\<close>

definition round_at :: "loop_index \<Rightarrow> nat \<Rightarrow> round_record" where
  "round_at l r = (case map_of (lo_rounds l) r of None \<Rightarrow> empty_round | Some x \<Rightarrow> x)"

definition update_round :: "nat \<Rightarrow> (round_record \<Rightarrow> round_record) \<Rightarrow> loop_index \<Rightarrow> loop_index" where
  "update_round r f l =
     l\<lparr>lo_maxRound := (if r > lo_maxRound l then r else lo_maxRound l),
       lo_rounds := jm_set r (f (round_at l r)) (lo_rounds l)\<rparr>"

definition record_verdict :: "loop_name \<Rightarrow> verdict_record \<Rightarrow> loop_index \<Rightarrow> loop_index" where
  "record_verdict n v l =
     (let l1 = update_round (vd_round v) (\<lambda>rec. rec\<lparr>ro_verdict := Some v\<rparr>) l;
          l2 = (if vd_verdict v = Revise then l1\<lparr>lo_latestRevise := Some v\<rparr> else l1);
          l3 = (if vd_verdict v = Approve
                then (let la = l2\<lparr>lo_latestApproveSeq := vd_seq v\<rparr>
                      in if n = PlanLoop
                         then la\<lparr>lo_approvedPlan := ro_planCompletion (round_at la (vd_round v))\<rparr>
                         else la)
                else l2)
      in l3\<lparr>lo_findingsByRound := set_round (lo_findingsByRound l3) (vd_round v) (vd_findings v)\<rparr>)"

definition on_loop :: "loop_name \<Rightarrow> (loop_index \<Rightarrow> loop_index) \<Rightarrow> log_index \<Rightarrow> log_index" where
  "on_loop n f ix =
     (case n of PlanLoop \<Rightarrow> ix\<lparr>lx_plan := f (lx_plan ix)\<rparr> | CodeLoop \<Rightarrow> ix\<lparr>lx_code := f (lx_code ix)\<rparr>)"

fun replay_one :: "candidate \<Rightarrow> log_index \<Rightarrow> log_index" where
  "replay_one (CRoundStart n s r) ix =
     on_loop n (update_round r (\<lambda>rec. rec\<lparr>ro_startedSeq := Some s\<rparr>)) ix"
| "replay_one (CPlanCompleted s r art steps) ix =
     on_loop PlanLoop (update_round r (\<lambda>rec.
       rec\<lparr>ro_completedSeq := Some s,
           ro_planCompletion := Some \<lparr>pq_seq = s, pq_artifact = art, pq_verifySteps = steps\<rparr>\<rparr>)) ix"
| "replay_one (CRoundTouch n s r) ix = on_loop n (update_round r (\<lambda>rec. rec)) ix"
| "replay_one (CRoundCompleted n s r) ix =
     on_loop n (update_round r (\<lambda>rec. rec\<lparr>ro_completedSeq := Some s\<rparr>)) ix"
| "replay_one (CVerdict n v) ix = on_loop n (record_verdict n v) ix"
| "replay_one (CImplementCompleted s) ix = ix\<lparr>lx_lastImplementCompletedSeq := s\<rparr>"
| "replay_one (CConfigSuperseded s) ix =
     ix\<lparr>lx_verifyConfigBoundary := max (lx_verifyConfigBoundary ix) s\<rparr>"
| "replay_one (CVerifyStarted v) ix = ix\<lparr>lx_verifyStarted := lx_verifyStarted ix @ [v]\<rparr>"
| "replay_one (CReconcilePolicy s p) ix = ix\<lparr>lx_reconcilePolicy := Some p\<rparr>"
| "replay_one (CVerifyCompleted v) ix = ix\<lparr>lx_verifyCompleted := lx_verifyCompleted ix @ [v]\<rparr>"
| "replay_one (CFinalizeCompleted s) ix = ix\<lparr>lx_finalizeCompleted := True\<rparr>"
| "replay_one (CFinalizeStep s step) ix =
     ix\<lparr>lx_finalizeStepsDone := set_add step (lx_finalizeStepsDone ix)\<rparr>"
| "replay_one (CReconcileCompleted s) ix = ix\<lparr>lx_lastReconcileCompletedSeq := s\<rparr>"

definition replay_step :: "nat \<Rightarrow> log_index \<Rightarrow> candidate \<Rightarrow> log_index" where
  "replay_step restart ix c = (if candidate_seq c \<le> restart then ix else replay_one c ix)"

text \<open>One completed occurrence per attempt, the latest by completion seq.\<close>

definition completed_by_attempt :: "reconcile_completion list \<Rightarrow> (nat, reconcile_completion) jsmap" where
  "completed_by_attempt cs = foldl (\<lambda>m c. jm_set (rz_attempt c) c m) [] cs"

definition completed_reconciles :: "reconcile_completion list \<Rightarrow> reconcile_completion list" where
  "completed_reconciles cs = sort_key rz_completedSeq (map snd (completed_by_attempt cs))"

definition next_start :: "reconcile_start list \<Rightarrow> reconcile_completion \<Rightarrow> reconcile_start option" where
  "next_start starts c =
     List.find (\<lambda>st. rz_seq st > rz_completedSeq c \<and> rz_attempt st > rz_attempt c) starts"

definition explicit_check ::
  "reconcile_progress list \<Rightarrow> nat list \<Rightarrow> nat option \<Rightarrow> reconcile_completion \<Rightarrow> reconcile_progress option"
where
  "explicit_check checks conflicts limit c =
     last_opt (filter (\<lambda>k.
       rg_attempt k = rz_attempt c \<and> rg_seq k > rz_completedSeq c \<and>
       (case limit of None \<Rightarrow> True | Some l \<Rightarrow> rg_seq k < l) \<and>
       rg_conflictSeq k > rz_completedSeq c \<and> rg_seq k > rg_conflictSeq k \<and>
       rg_conflictSeq k \<in> set conflicts) checks)"

definition observed_base :: "log_acc \<Rightarrow> reconcile_completion \<Rightarrow> sha option" where
  "observed_base acc c =
     (let ns = next_start (la_reconcileStarts acc) c in
      case explicit_check (la_progressChecks acc) (la_conflictSeqs acc) (map_option rz_seq ns) c of
        Some k \<Rightarrow> Some (rg_baseSha k)
      | None \<Rightarrow> map_option rz_baseSha ns)"

definition no_progress :: "log_acc \<Rightarrow> reconcile_completion \<Rightarrow> bool" where
  "no_progress acc c = (observed_base acc c = Some (rz_baseSha c))"

definition conflict_progress_check :: "log_acc \<Rightarrow> reconcile_completion option \<Rightarrow> reconcile_progress option" where
  "conflict_progress_check acc lastDone =
     (case (la_lastConflict acc, lastDone) of
        (Some c, Some r) \<Rightarrow>
          last_opt (filter (\<lambda>k. rg_conflictSeq k = c \<and> rg_attempt k = rz_attempt r \<and> rg_seq k > c)
                     (la_progressChecks acc))
      | _ \<Rightarrow> None)"

definition blank_index :: "log_acc \<Rightarrow> log_index" where
  "blank_index acc =
     (let done = completed_reconciles (la_reconcileCompletions acc) in
      \<lparr>lx_readDeferrals = ra_pending (la_readDeferrals acc), lx_restack = la_restack acc,
       lx_reconcilePolicy = None, lx_restartSeq = la_restartSeq acc,
       lx_plan = emptyLoop (la_maxRoundPlan acc), lx_code = emptyLoop (la_maxRoundCode acc),
       lx_verifyCompleted = [], lx_verifyStarted = [],
       lx_maxVerifyAttemptEver = la_maxVerifyAttempt acc, lx_verifyConfigBoundary = 0,
       lx_lastReconcileCompletedSeq = 0, lx_lastImplementCompletedSeq = 0,
       lx_finalizeCompleted = False, lx_finalizeStepsDone = [],
       lx_lastConflict = la_lastConflict acc,
       lx_conflictReconcileStarted = la_conflictReconcile acc,
       lx_lastReconcileCompleted = last_opt done,
       lx_lastConflictProgressCheck = conflict_progress_check acc (last_opt done),
       lx_reconcileNoProgressCount = length (filter (no_progress acc) done),
       lx_guidanceDeliveries = la_deliveries acc\<rparr>)"

definition finishLogIndex :: "log_acc \<Rightarrow> log_index" where
  "finishLogIndex acc = foldl (replay_step (la_restartSeq acc)) (blank_index acc) (la_candidates acc)"

definition logIndexReducer :: "(log_acc, ab_event, log_index) reducer" where
  "logIndexReducer =
     \<lparr>rd_version = 9, rd_rawEvents = False, rd_initial = initialLogIndexAcc,
      rd_fold = foldLogIndex, rd_finish = finishLogIndex\<rparr>"

definition indexLog :: "ab_event list \<Rightarrow> log_index" where
  "indexLog events = reduce_log logIndexReducer events"

section \<open>The JSON form of an index\<close>

text \<open>
  \<^verbatim>\<open>log-index-value.ts\<close>: rounds become an array of entries and the step set an array. The entry
  checks of \<open>decodeLog\<close> hold of every entry an association list can carry.
\<close>

record json_loop =
  jl_rounds :: "(nat \<times> round_record) list"
  jl_rest :: loop_index

definition encodeLoop :: "loop_index \<Rightarrow> json_loop" where
  "encodeLoop l = \<lparr>jl_rounds = lo_rounds l, jl_rest = l\<lparr>lo_rounds := []\<rparr>\<rparr>"

text \<open>\<^verbatim>\<open>new Map(entries)\<close> keeps the last value of a repeated key.\<close>

definition map_of_entries :: "('k \<times> 'v) list \<Rightarrow> ('k, 'v) jsmap" where
  "map_of_entries es = foldl (\<lambda>m (k, v). jm_set k v m) [] es"

definition decodeLoop :: "json_loop \<Rightarrow> loop_index" where
  "decodeLoop j = (jl_rest j)\<lparr>lo_rounds := map_of_entries (jl_rounds j)\<rparr>"

record json_index =
  jx_plan :: json_loop
  jx_code :: json_loop
  jx_finalizeStepsDone :: "string list"
  jx_rest :: log_index

definition encodeLog :: "log_index \<Rightarrow> json_index" where
  "encodeLog ix =
     \<lparr>jx_plan = encodeLoop (lx_plan ix), jx_code = encodeLoop (lx_code ix),
      jx_finalizeStepsDone = lx_finalizeStepsDone ix,
      jx_rest = ix\<lparr>lx_plan := emptyLoop 0, lx_code := emptyLoop 0, lx_finalizeStepsDone := []\<rparr>\<rparr>"

definition decodeLog :: "json_index \<Rightarrow> log_index" where
  "decodeLog j =
     (jx_rest j)\<lparr>lx_plan := decodeLoop (jx_plan j), lx_code := decodeLoop (jx_code j),
                 lx_finalizeStepsDone := set_of_list (jx_finalizeStepsDone j)\<rparr>"

section \<open>The incremental contract\<close>

abbreviation put_substates :: "read_deferrals \<Rightarrow> leaf_restack_state \<Rightarrow> log_acc \<Rightarrow> log_acc" where
  "put_substates d r acc \<equiv> acc\<lparr>la_readDeferrals := d, la_restack := r\<rparr>"

lemma note_round_put [simp]: "note_round l r (put_substates d x acc) = put_substates d x (note_round l r acc)"
  by (simp add: note_round_def split: loop_name.split)

lemma note_guidance_put [simp]:
  "note_guidance_start k fb s (put_substates d x acc) = put_substates d x (note_guidance_start k fb s acc)"
  by (simp add: note_guidance_start_def split: option.split feedback.split)

lemma push_candidate_put [simp]:
  "push_candidate c (put_substates d x acc) = put_substates d x (push_candidate c acc)"
  by (simp add: push_candidate_def)

lemma log_loop_put [simp]:
  "log_loop_step l s (put_substates d x acc) = put_substates d x (log_loop_step l s acc)"
  by (cases l) simp_all

lemma log_verify_put [simp]:
  "log_verify_step v s (put_substates d x acc) = put_substates d x (log_verify_step v s acc)"
  by (cases v) (simp_all add: Let_def push_candidate_def)

lemma log_session_put [simp]:
  "log_session_started p s (put_substates d x acc) = put_substates d x (log_session_started p s acc)"
  by (simp add: log_session_started_def split: option.split)

lemma log_reconcile_put [simp]:
  "log_reconcile_started p s (put_substates d x acc) = put_substates d x (log_reconcile_started p s acc)"
  "log_reconcile_completed s (put_substates d x acc) = put_substates d x (log_reconcile_completed s acc)"
  by (simp_all add: log_reconcile_started_def log_reconcile_completed_def Let_def push_candidate_def
      split: option.split)

lemma log_step_put: "log_step (put_substates d x acc) e = put_substates d x (log_step acc e)"
  unfolding log_step_def Let_def
  by (simp add: push_candidate_def
      split: event_body.split spec_ev.split session_ev.split finalize_ev.split pr_ev.split
        reconcile_ev.split)

lemma log_fold_put:
  "fold_events log_step (put_substates d x acc) es = put_substates d x (fold_events log_step acc es)"
  by (induction es arbitrary: acc) (simp_all add: log_step_put)

lemma log_step_keeps [simp]:
  "la_readDeferrals (log_step acc e) = la_readDeferrals acc"
  "la_restack (log_step acc e) = la_restack acc"
proof -
  have "log_step (put_substates (la_readDeferrals acc) (la_restack acc) acc) e
          = put_substates (la_readDeferrals acc) (la_restack acc) (log_step acc e)"
    by (rule log_step_put)
  then have eq: "log_step acc e = put_substates (la_readDeferrals acc) (la_restack acc) (log_step acc e)"
    by simp
  show "la_readDeferrals (log_step acc e) = la_readDeferrals acc"
    by (subst eq) simp
  show "la_restack (log_step acc e) = la_restack acc"
    by (subst eq) simp
qed

lemma log_fold_keeps [simp]:
  "la_readDeferrals (fold_events log_step acc es) = la_readDeferrals acc"
  "la_restack (fold_events log_step acc es) = la_restack acc"
  by (induction es arbitrary: acc) simp_all

lemma foldReadDeferrals_append:
  "foldReadDeferrals acc (xs @ ys) = foldReadDeferrals (foldReadDeferrals acc xs) ys"
  by (simp add: foldReadDeferrals_def)

lemma foldLogIndex_append: "foldLogIndex acc (xs @ ys) = foldLogIndex (foldLogIndex acc xs) ys"
  by (simp add: foldLogIndex_def log_fold_put foldReadDeferrals_append leaf_restack.advance_append)

lemma foldLogIndex_nil: "foldLogIndex acc [] = acc"
  by (simp add: foldLogIndex_def foldReadDeferrals_def leaf_restack.advance_nil)

interpretation log_index: incremental_reducer logIndexReducer
  by unfold_locales (simp_all add: logIndexReducer_def foldLogIndex_append foldLogIndex_nil)

end
