(* ===== verification/LogIndexFacts.thy ===== *)
theory LogIndexFacts
  imports LogIndex
begin

text \<open>
  Facts about the log index: what each event contributes as candidates, the bounds every loop index
  keeps, the authority of an approved plan, and the provenance of delivered guidance.
\<close>

section \<open>Candidates of an event\<close>

fun loop_candidates :: "loop_ev \<Rightarrow> nat \<Rightarrow> candidate list" where
  "loop_candidates (PlanStarted r _) s = [CRoundStart PlanLoop s r]"
| "loop_candidates (PlanCompleted r art steps) s = [CPlanCompleted s r art steps]"
| "loop_candidates (PlanReviewStarted r) s = [CRoundTouch PlanLoop s r]"
| "loop_candidates (PlanReviewVerdict p) s = [CVerdict PlanLoop (verdict_of p s)]"
| "loop_candidates (ImplementStarted r _ _) s = [CRoundStart CodeLoop s r]"
| "loop_candidates (ImplementCompleted r _ _) s = [CRoundCompleted CodeLoop s r, CImplementCompleted s]"
| "loop_candidates (CodeReviewStarted r) s = [CRoundTouch CodeLoop s r]"
| "loop_candidates (CodeReviewVerdict p) s = [CVerdict CodeLoop (verdict_of p s)]"

fun verify_candidates :: "verify_ev \<Rightarrow> nat \<Rightarrow> candidate list" where
  "verify_candidates (VerifyConfigCaptured _) s = [CConfigSuperseded s]"
| "verify_candidates VerifyConfigSuperseded s = [CConfigSuperseded s]"
| "verify_candidates (VerifyStarted p) s =
     [CVerifyStarted \<lparr>vt_seq = s, vt_attempt = vs_attempt p, vt_baseSha = vs_baseSha p,
                      vt_headSha = vs_headSha p, vt_restackId = vs_restackId p\<rparr>]"
| "verify_candidates (VerifyReconcilePolicyCaptured p) s = [CReconcilePolicy s p]"
| "verify_candidates (VerifyCompleted c) s = [CVerifyCompleted (normalizeVerifyCompletion c s)]"
| "verify_candidates (VerifyCancelled _) s = []"
| "verify_candidates (VerifyStageFailed _) s = []"

definition event_candidates :: "ab_event \<Rightarrow> candidate list" where
  "event_candidates e =
     (case ev_body e of
        ELoop l \<Rightarrow> loop_candidates l (ev_seq e)
      | EVerify v \<Rightarrow> verify_candidates v (ev_seq e)
      | EFinalize (FinalizeCompleted _) \<Rightarrow> [CFinalizeCompleted (ev_seq e)]
      | EFinalize (FinalizeStepCompleted step _ _) \<Rightarrow> [CFinalizeStep (ev_seq e) step]
      | EReconcile (ReconcileMerged _) \<Rightarrow> [CReconcileCompleted (ev_seq e)]
      | EReconcile (ReconcileRebased _ _) \<Rightarrow> [CReconcileCompleted (ev_seq e)]
      | _ \<Rightarrow> [])"

lemma pushed_frame [simp]:
  "la_candidates (note_round l r acc) = la_candidates acc"
  "la_candidates (note_guidance_start k fb s acc) = la_candidates acc"
  "la_candidates (push_candidate c acc) = la_candidates acc @ [c]"
  "la_candidates (log_session_started p s acc) = la_candidates acc"
  "la_candidates (log_reconcile_started rs s acc) = la_candidates acc"
  "la_candidates (log_reconcile_completed s acc) = la_candidates acc @ [CReconcileCompleted s]"
  by (simp_all add: note_round_def note_guidance_start_def push_candidate_def log_session_started_def
      log_reconcile_started_def log_reconcile_completed_def Let_def split: loop_name.split option.split)

lemma loop_candidates_eq: "la_candidates (log_loop_step l s acc) = la_candidates acc @ loop_candidates l s"
  by (cases l) (simp_all add: verdictCandidate_def)

lemma verify_candidates_eq: "la_candidates (log_verify_step v s acc) = la_candidates acc @ verify_candidates v s"
  by (cases v) (simp_all add: Let_def)

lemma step_candidates: "la_candidates (log_step acc e) = la_candidates acc @ event_candidates e"
  unfolding log_step_def Let_def event_candidates_def
  by (simp add: loop_candidates_eq verify_candidates_eq
      split: event_body.split spec_ev.split session_ev.split finalize_ev.split pr_ev.split
        reconcile_ev.split)

lemma fold_candidates:
  "la_candidates (fold_events log_step acc es) = la_candidates acc @ concat (map event_candidates es)"
  by (induction es arbitrary: acc) (simp_all add: step_candidates)

lemma candidates_of_log:
  "la_candidates (foldLogIndex initialLogIndexAcc es) = concat (map event_candidates es)"
  by (simp add: foldLogIndex_def fold_candidates initialLogIndexAcc_def)

lemma plan_candidate_event:
  "CPlanCompleted s r art steps \<in> set (event_candidates e) \<longleftrightarrow>
   ev_seq e = s \<and> ev_body e = ELoop (PlanCompleted r art steps)"
proof -
  have "CPlanCompleted s r art steps \<in> set (loop_candidates l n) \<longleftrightarrow>
          n = s \<and> l = PlanCompleted r art steps" for l n
    by (cases l) auto
  moreover have "CPlanCompleted s r art steps \<notin> set (verify_candidates v n)" for v n
    by (cases v) auto
  ultimately show ?thesis
    unfolding event_candidates_def
    by (simp split: event_body.split finalize_ev.split reconcile_ev.split)
qed

lemma verdict_candidate_event:
  "CVerdict n v \<in> set (event_candidates e) \<longleftrightarrow>
   (\<exists>p. v = verdict_of p (ev_seq e) \<and>
        ev_body e = ELoop (case n of PlanLoop \<Rightarrow> PlanReviewVerdict p | CodeLoop \<Rightarrow> CodeReviewVerdict p))"
proof -
  have "CVerdict n v \<in> set (loop_candidates l s) \<longleftrightarrow>
          (\<exists>p. v = verdict_of p s \<and>
             l = (case n of PlanLoop \<Rightarrow> PlanReviewVerdict p | CodeLoop \<Rightarrow> CodeReviewVerdict p))" for l s
    by (cases l; cases n) auto
  moreover have "CVerdict n v \<notin> set (verify_candidates w s)" for w s
    by (cases w) auto
  ultimately show ?thesis
    unfolding event_candidates_def
    by (simp split: event_body.split finalize_ev.split reconcile_ev.split)
qed

section \<open>The replayed loops\<close>

lemma on_loop_other [simp]:
  "lx_plan (on_loop CodeLoop f ix) = lx_plan ix" "lx_plan (on_loop PlanLoop f ix) = f (lx_plan ix)"
  "lx_code (on_loop PlanLoop f ix) = lx_code ix" "lx_code (on_loop CodeLoop f ix) = f (lx_code ix)"
  by (simp_all add: on_loop_def)

text \<open>A loop index is bounded: every record it holds is after the restart and under the maxima.\<close>

definition seq_after :: "nat \<Rightarrow> nat option \<Rightarrow> bool" where
  "seq_after b x = (case x of None \<Rightarrow> True | Some s \<Rightarrow> s > b)"

definition round_inv :: "nat \<Rightarrow> round_record \<Rightarrow> bool" where
  "round_inv b rec \<longleftrightarrow>
     seq_after b (ro_startedSeq rec) \<and> seq_after b (ro_completedSeq rec) \<and>
     seq_after b (map_option pq_seq (ro_planCompletion rec)) \<and>
     seq_after b (map_option vd_seq (ro_verdict rec))"

definition loop_inv :: "nat \<Rightarrow> loop_index \<Rightarrow> bool" where
  "loop_inv b l \<longleftrightarrow>
     distinct (map fst (lo_rounds l)) \<and>
     (\<forall>(r, rec) \<in> set (lo_rounds l). r \<le> lo_maxRound l \<and> round_inv b rec) \<and>
     lo_maxRound l \<le> lo_maxRoundEver l \<and>
     length (lo_findingsByRound l) \<le> lo_maxRound l \<and>
     (lo_latestApproveSeq l = 0 \<or> lo_latestApproveSeq l > b) \<and>
     seq_after b (map_option vd_seq (lo_latestRevise l)) \<and>
     seq_after b (map_option pq_seq (lo_approvedPlan l))"

lemma loop_inv_empty [simp]: "loop_inv b (emptyLoop n)"
  by (simp add: loop_inv_def emptyLoop_def seq_after_def)

lemma round_inv_empty [simp]: "round_inv b empty_round"
  by (simp add: round_inv_def empty_round_def seq_after_def)

lemma loop_inv_roundD: "loop_inv b l \<Longrightarrow> (r, rec) \<in> set (lo_rounds l) \<Longrightarrow> r \<le> lo_maxRound l \<and> round_inv b rec"
  by (auto simp: loop_inv_def)

lemma round_inv_at: "loop_inv b l \<Longrightarrow> round_inv b (round_at l r)"
  unfolding round_at_def
  by (cases "map_of (lo_rounds l) r") (simp_all, meson loop_inv_roundD map_of_SomeD)

lemma set_update_subset: "set (AList.update k v m) \<subseteq> insert (k, v) (set m)"
  by (induction m) auto

lemma loop_inv_update:
  assumes "loop_inv b l" and "round_inv b (f (round_at l r))" and "r \<le> lo_maxRoundEver l"
  shows "loop_inv b (update_round r f l)"
proof -
  have old: "k \<le> lo_maxRound l \<and> round_inv b x" if "(k, x) \<in> set (lo_rounds l)" for k x
    by (rule loop_inv_roundD [OF assms(1) that])
  have "k \<le> max r (lo_maxRound l) \<and> round_inv b x"
    if "(k, x) \<in> set (AList.update r (f (round_at l r)) (lo_rounds l))" for k x
    using that set_update_subset [of r "f (round_at l r)" "lo_rounds l"] old [of k x] assms(2)
    by (auto simp: max_def)
  then show ?thesis
    using assms(1,3) unfolding loop_inv_def update_round_def
    by (simp add: distinct_update max_def split_beta) (auto intro: le_trans)
qed

lemma round_at_update [simp]: "round_at (update_round r f l) r = f (round_at l r)"
  by (simp add: round_at_def update_round_def update_conv)

lemma update_round_frame [simp]:
  "lo_maxRoundEver (update_round r f l) = lo_maxRoundEver l"
  "lo_latestRevise (update_round r f l) = lo_latestRevise l"
  "lo_latestApproveSeq (update_round r f l) = lo_latestApproveSeq l"
  "lo_approvedPlan (update_round r f l) = lo_approvedPlan l"
  "lo_findingsByRound (update_round r f l) = lo_findingsByRound l"
  by (simp_all add: update_round_def)

lemma maxRound_update [simp]: "lo_maxRound (update_round r f l) = max r (lo_maxRound l)"
  by (simp add: update_round_def max_def)

lemma loop_inv_revise: "loop_inv b l \<Longrightarrow> vd_seq v > b \<Longrightarrow> loop_inv b (l\<lparr>lo_latestRevise := Some v\<rparr>)"
  by (simp add: loop_inv_def seq_after_def)

lemma loop_inv_approve:
  "loop_inv b l \<Longrightarrow> s > b \<Longrightarrow> loop_inv b (l\<lparr>lo_latestApproveSeq := s\<rparr>)"
  by (simp add: loop_inv_def)

lemma loop_inv_plan:
  "loop_inv b l \<Longrightarrow> loop_inv b (l\<lparr>lo_approvedPlan := ro_planCompletion (round_at l r)\<rparr>)"
proof -
  assume inv: "loop_inv b l"
  then have "round_inv b (round_at l r)" by (rule round_inv_at)
  with inv show ?thesis by (simp add: loop_inv_def round_inv_def)
qed

lemma loop_inv_findings:
  "loop_inv b l \<Longrightarrow> r \<le> lo_maxRound l \<Longrightarrow>
   loop_inv b (l\<lparr>lo_findingsByRound := set_round (lo_findingsByRound l) r fs\<rparr>)"
  by (simp add: loop_inv_def)

lemma record_verdict_frame [simp]:
  "lo_maxRoundEver (record_verdict n v l) = lo_maxRoundEver l"
  "lo_maxRound (record_verdict n v l) = max (vd_round v) (lo_maxRound l)"
  by (simp_all add: record_verdict_def Let_def)

lemma loop_inv_record_verdict:
  assumes "loop_inv b l" and "vd_seq v > b" and "vd_round v \<le> lo_maxRoundEver l"
  shows "loop_inv b (record_verdict n v l)"
proof -
  obtain l1 where l1: "l1 = update_round (vd_round v) (\<lambda>rec. rec\<lparr>ro_verdict := Some v\<rparr>) l" by blast
  obtain l2 where l2: "l2 = (if vd_verdict v = Revise then l1\<lparr>lo_latestRevise := Some v\<rparr> else l1)"
    by blast
  obtain la where la: "la = l2\<lparr>lo_latestApproveSeq := vd_seq v\<rparr>" by blast
  obtain l3 where l3: "l3 = (if vd_verdict v = Approve
      then if n = PlanLoop then la\<lparr>lo_approvedPlan := ro_planCompletion (round_at la (vd_round v))\<rparr>
           else la
      else l2)" by blast
  have "round_inv b ((round_at l (vd_round v))\<lparr>ro_verdict := Some v\<rparr>)"
    using round_inv_at [OF assms(1)] assms(2) by (simp add: round_inv_def seq_after_def)
  then have "loop_inv b l1" unfolding l1 by (intro loop_inv_update assms)
  then have inv2: "loop_inv b l2" using loop_inv_revise assms(2) by (simp add: l2)
  then have "loop_inv b la" using loop_inv_approve assms(2) by (simp add: la)
  then have "loop_inv b l3" using inv2 loop_inv_plan by (simp add: l3)
  moreover have "vd_round v \<le> lo_maxRound l3" by (simp add: l3 la l2 l1)
  moreover have "record_verdict n v l =
      l3\<lparr>lo_findingsByRound := set_round (lo_findingsByRound l3) (vd_round v) (vd_findings v)\<rparr>"
    by (simp only: record_verdict_def Let_def l1 l2 la l3)
  ultimately show ?thesis using loop_inv_findings by simp
qed

text \<open>The round a candidate mentions, by loop.\<close>

fun candidate_round :: "candidate \<Rightarrow> (loop_name \<times> nat) option" where
  "candidate_round (CRoundStart n _ r) = Some (n, r)"
| "candidate_round (CPlanCompleted _ r _ _) = Some (PlanLoop, r)"
| "candidate_round (CRoundTouch n _ r) = Some (n, r)"
| "candidate_round (CRoundCompleted n _ r) = Some (n, r)"
| "candidate_round (CVerdict n v) = Some (n, vd_round v)"
| "candidate_round _ = None"

definition index_inv :: "nat \<Rightarrow> log_index \<Rightarrow> bool" where
  "index_inv b ix \<longleftrightarrow>
     loop_inv b (lx_plan ix) \<and> loop_inv b (lx_code ix) \<and> distinct (lx_finalizeStepsDone ix) \<and>
     (\<forall>v \<in> set (lx_verifyCompleted ix). vr_seq v > b) \<and>
     (\<forall>v \<in> set (lx_verifyStarted ix). vt_seq v > b)"

definition loop_of :: "loop_name \<Rightarrow> log_index \<Rightarrow> loop_index" where
  "loop_of n ix = (case n of PlanLoop \<Rightarrow> lx_plan ix | CodeLoop \<Rightarrow> lx_code ix)"

lemma loop_of_on_loop: "loop_of m (on_loop n f ix) = (if m = n then f (loop_of m ix) else loop_of m ix)"
  by (cases m; cases n) (simp_all add: loop_of_def on_loop_def)

lemma on_loop_frame [simp]:
  "lx_finalizeStepsDone (on_loop n f ix) = lx_finalizeStepsDone ix"
  "lx_verifyCompleted (on_loop n f ix) = lx_verifyCompleted ix"
  "lx_verifyStarted (on_loop n f ix) = lx_verifyStarted ix"
  by (simp_all add: on_loop_def split: loop_name.split)

lemma index_inv_on_loop:
  "index_inv b ix \<Longrightarrow> loop_inv b (f (loop_of n ix)) \<Longrightarrow> index_inv b (on_loop n f ix)"
  by (cases n) (simp_all add: index_inv_def loop_of_def)

lemma index_inv_loop: "index_inv b ix \<Longrightarrow> loop_inv b (loop_of n ix)"
  by (simp add: index_inv_def loop_of_def split: loop_name.split)

lemma index_inv_replay:
  assumes "index_inv b ix" and "candidate_seq c > b"
    and "\<And>n r. candidate_round c = Some (n, r) \<Longrightarrow> r \<le> lo_maxRoundEver (loop_of n ix)"
  shows "index_inv b (replay_one c ix)"
proof -
  note loop = index_inv_loop [OF assms(1)] and at = round_inv_at [OF index_inv_loop [OF assms(1)]]
  have upd: "index_inv b (on_loop n (update_round r f) ix)"
    if "round_inv b (f (round_at (loop_of n ix) r))" "r \<le> lo_maxRoundEver (loop_of n ix)" for n r f
    by (intro index_inv_on_loop assms(1) loop_inv_update loop that)
  show ?thesis
  proof (cases c)
    case (CVerdict n v)
    then show ?thesis
      using assms loop [of n] by (simp add: index_inv_on_loop loop_inv_record_verdict)
  next
    case (CRoundStart n s r)
    then show ?thesis using assms at [of n r]
      by (simp add: upd round_inv_def seq_after_def)
  next
    case (CPlanCompleted s r art steps)
    then show ?thesis using assms at [of PlanLoop r]
      by (simp add: upd round_inv_def seq_after_def)
  next
    case (CRoundTouch n s r)
    then show ?thesis using assms at [of n r] by (simp add: upd)
  next
    case (CRoundCompleted n s r)
    then show ?thesis using assms at [of n r]
      by (simp add: upd round_inv_def seq_after_def)
  qed (use assms(1,2) in \<open>auto simp: index_inv_def\<close>)
qed

lemma maxRoundEver_replay [simp]: "lo_maxRoundEver (loop_of m (replay_one c ix)) = lo_maxRoundEver (loop_of m ix)"
  by (cases c) (simp_all add: loop_of_on_loop, simp_all add: loop_of_def split: loop_name.split)

definition rounds_bounded :: "log_index \<Rightarrow> candidate list \<Rightarrow> bool" where
  "rounds_bounded ix cs \<longleftrightarrow>
     (\<forall>c \<in> set cs. \<forall>n r. candidate_round c = Some (n, r) \<longrightarrow> r \<le> lo_maxRoundEver (loop_of n ix))"

lemma maxRoundEver_replay_step [simp]:
  "lo_maxRoundEver (loop_of n (replay_step b ix c)) = lo_maxRoundEver (loop_of n ix)"
  by (simp add: replay_step_def)

lemma index_inv_fold:
  "index_inv b ix \<Longrightarrow> rounds_bounded ix cs \<Longrightarrow> index_inv b (foldl (replay_step b) ix cs)"
proof (induction cs arbitrary: ix)
  case (Cons c cs)
  have "index_inv b (replay_step b ix c)"
  proof (cases "candidate_seq c \<le> b")
    case False
    then show ?thesis
      using index_inv_replay [OF Cons.prems(1), of c] Cons.prems(2)
      by (simp add: replay_step_def rounds_bounded_def)
  qed (simp add: replay_step_def Cons.prems)
  moreover have "rounds_bounded (replay_step b ix c) cs"
    using Cons.prems(2) by (simp add: rounds_bounded_def)
  ultimately show ?case using Cons.IH by simp
qed simp

section \<open>Round maxima cover every event\<close>

definition acc_max :: "loop_name \<Rightarrow> log_acc \<Rightarrow> nat" where
  "acc_max n acc = (case n of PlanLoop \<Rightarrow> la_maxRoundPlan acc | CodeLoop \<Rightarrow> la_maxRoundCode acc)"

definition acc_inv :: "log_acc \<Rightarrow> bool" where
  "acc_inv acc \<longleftrightarrow>
     (\<forall>c \<in> set (la_candidates acc). \<forall>n r. candidate_round c = Some (n, r) \<longrightarrow> r \<le> acc_max n acc)"

lemma acc_max_frame [simp]:
  "acc_max n (note_guidance_start k fb s acc) = acc_max n acc"
  "acc_max n (push_candidate c acc) = acc_max n acc"
  "acc_max n (log_session_started p s acc) = acc_max n acc"
  "acc_max n (log_reconcile_started rs s acc) = acc_max n acc"
  "acc_max n (log_reconcile_completed s acc) = acc_max n acc"
  by (simp_all add: acc_max_def note_guidance_start_def push_candidate_def log_session_started_def
      log_reconcile_started_def log_reconcile_completed_def Let_def split: loop_name.split option.split)

lemma acc_max_update [simp]:
  "acc_max n (acc\<lparr>la_maxVerifyAttempt := x\<rparr>) = acc_max n acc"
  "acc_max n (acc\<lparr>la_restartSeq := x\<rparr>) = acc_max n acc"
  "acc_max n (acc\<lparr>la_progressChecks := ps\<rparr>) = acc_max n acc"
  "acc_max n (acc\<lparr>la_lastConflict := lc, la_conflictSeqs := cs, la_conflictReconcile := cr\<rparr>) = acc_max n acc"
  "acc_max n (acc\<lparr>la_readDeferrals := d, la_restack := t\<rparr>) = acc_max n acc"
  by (simp_all add: acc_max_def split: loop_name.split)

lemma acc_max_note: "acc_max n (note_round l r acc) = (if n = l then max r (acc_max n acc) else acc_max n acc)"
  by (cases n; cases l) (simp_all add: acc_max_def note_round_def max_def)

lemma acc_inv_push:
  "acc_inv (push_candidate c acc) \<longleftrightarrow>
   acc_inv acc \<and> (\<forall>n r. candidate_round c = Some (n, r) \<longrightarrow> r \<le> acc_max n acc)"
  by (auto simp: acc_inv_def)

lemma acc_inv_note [simp]: "acc_inv acc \<Longrightarrow> acc_inv (note_round l r acc)"
  by (fastforce simp: acc_inv_def acc_max_note intro: le_max_iff_disj [THEN iffD2])

lemma acc_inv_frame [simp]:
  "acc_inv (note_guidance_start k fb s acc) = acc_inv acc"
  "acc_inv (log_session_started p s acc) = acc_inv acc"
  "acc_inv (log_reconcile_started rs s acc) = acc_inv acc"
  "acc_inv (log_reconcile_completed s acc) = acc_inv acc"
  by (auto simp: acc_inv_def)

lemma acc_inv_loop: "acc_inv acc \<Longrightarrow> acc_inv (log_loop_step l s acc)"
  by (cases l) (simp_all add: acc_inv_push acc_max_note verdictCandidate_def verdict_of_def)

lemma acc_inv_verify: "acc_inv acc \<Longrightarrow> acc_inv (log_verify_step v s acc)"
  by (cases v) (simp_all add: acc_inv_push Let_def, simp_all add: acc_inv_def)

lemma acc_inv_step: "acc_inv acc \<Longrightarrow> acc_inv (log_step acc e)"
  unfolding log_step_def Let_def
  by (simp add: acc_inv_loop acc_inv_verify acc_inv_push
      split: event_body.split spec_ev.split session_ev.split finalize_ev.split pr_ev.split
        reconcile_ev.split)
     (simp add: acc_inv_def)

lemma acc_inv_fold: "acc_inv acc \<Longrightarrow> acc_inv (foldLogIndex acc es)"
  unfolding foldLogIndex_def
proof (rule fold_events_invariant)
  assume "acc_inv acc"
  then show "acc_inv (acc\<lparr>la_readDeferrals := foldReadDeferrals (la_readDeferrals acc) es,
      la_restack := advance leafRestackReducer (la_restack acc) es\<rparr>)"
    by (simp add: acc_inv_def)
qed (rule acc_inv_step)

lemma acc_inv_initial [simp]: "acc_inv initialLogIndexAcc"
  by (simp add: acc_inv_def initialLogIndexAcc_def)

lemma indexLog_unfold:
  "indexLog es = finishLogIndex (foldLogIndex initialLogIndexAcc (filterKnownEvents es))"
  by (simp add: indexLog_def reduce_log_def rd_events_def logIndexReducer_def)

lemma maxRoundEver_blank [simp]: "lo_maxRoundEver (loop_of n (blank_index acc)) = acc_max n acc"
  by (cases n) (simp_all add: blank_index_def Let_def loop_of_def acc_max_def emptyLoop_def)

lemma index_inv_finish: "acc_inv acc \<Longrightarrow> index_inv (la_restartSeq acc) (finishLogIndex acc)"
  unfolding finishLogIndex_def
proof (rule index_inv_fold)
  show "index_inv (la_restartSeq acc) (blank_index acc)"
    by (simp add: index_inv_def blank_index_def Let_def)
  assume "acc_inv acc"
  then show "rounds_bounded (blank_index acc) (la_candidates acc)"
    by (simp add: acc_inv_def rounds_bounded_def)
qed

lemma restart_replay [simp]: "lx_restartSeq (replay_step b ix c) = lx_restartSeq ix"
  by (cases c) (simp_all add: replay_step_def on_loop_def split: loop_name.split)

lemma restart_finish [simp]: "lx_restartSeq (finishLogIndex acc) = la_restartSeq acc"
proof -
  have "lx_restartSeq (foldl (replay_step b) ix cs) = lx_restartSeq ix" for b ix cs
    by (induction cs arbitrary: ix) simp_all
  then show ?thesis by (simp add: finishLogIndex_def blank_index_def Let_def)
qed

lemma index_inv_log: "index_inv (lx_restartSeq (indexLog es)) (indexLog es)"
  by (simp add: indexLog_unfold index_inv_finish acc_inv_fold)

section \<open>The JSON form loses nothing\<close>

lemma map_of_entries_distinct:
  "distinct (map fst (m @ es)) \<Longrightarrow> foldl (\<lambda>m (k, v). jm_set k v m) m es = m @ es"
proof (induction es arbitrary: m)
  case (Cons e es)
  obtain k v where e: "e = (k, v)" by (cases e)
  have "k \<notin> fst ` set m" using Cons.prems e by auto
  then have "jm_set k v m = m @ [(k, v)]" by (induction m) auto
  then show ?case using Cons.IH [of "m @ [(k, v)]"] Cons.prems e by simp
qed simp

lemma decode_encodeLoop: "loop_inv b l \<Longrightarrow> decodeLoop (encodeLoop l) = l"
  using map_of_entries_distinct [of "[]" "lo_rounds l"]
  by (simp add: decodeLoop_def encodeLoop_def map_of_entries_def loop_inv_def)

lemma set_of_list_distinct: "distinct xs \<Longrightarrow> set_of_list xs = xs"
proof -
  have "distinct (ys @ xs) \<Longrightarrow> fold set_add xs ys = ys @ xs" for ys
    by (induction xs arbitrary: ys) (simp_all add: set_add_def)
  from this [of "[]"] show "distinct xs \<Longrightarrow> set_of_list xs = xs" by (simp add: set_of_list_def)
qed

lemma decode_encodeLog: "index_inv b ix \<Longrightarrow> decodeLog (encodeLog ix) = ix"
  by (simp add: decodeLog_def encodeLog_def index_inv_def decode_encodeLoop [where b = b]
      set_of_list_distinct)

section \<open>An approved plan is a snapshot\<close>

text \<open>The value a projection of a fold holds is the one its last writer wrote.\<close>

lemma foldl_last_write:
  assumes step: "\<And>x c. get (f x c) = (if writes c then value x c else get x)"
  shows "get (foldl f x0 cs) = get x0 \<and> (\<forall>c \<in> set cs. \<not> writes c) \<or>
         (\<exists>A c B. cs = A @ c # B \<and> writes c \<and> get (foldl f x0 cs) = value (foldl f x0 A) c \<and>
                  (\<forall>d \<in> set B. \<not> writes d))"
proof (induction cs rule: rev_induct)
  case (snoc c cs)
  show ?case
  proof (cases "writes c")
    case True
    then show ?thesis
      using step by (intro disjI2 exI [of _ cs] exI [of _ c] exI [of _ "[]"]) simp
  next
    case False
    have same: "get (foldl f x0 (cs @ [c])) = get (foldl f x0 cs)" using step False by simp
    from snoc show ?thesis
    proof (elim disjE exE conjE)
      fix A d B
      assume "cs = A @ d # B" "writes d" "get (foldl f x0 cs) = value (foldl f x0 A) d"
        "\<forall>d \<in> set B. \<not> writes d"
      then show ?thesis
        using same False by (intro disjI2 exI [of _ A] exI [of _ d] exI [of _ "B @ [c]"]) auto
    qed (use same False in simp)
  qed
qed simp

definition completes_round :: "nat \<Rightarrow> nat \<Rightarrow> candidate \<Rightarrow> bool" where
  "completes_round b r c = (case c of CPlanCompleted s r' _ _ \<Rightarrow> s > b \<and> r' = r | _ \<Rightarrow> False)"

definition approves :: "nat \<Rightarrow> candidate \<Rightarrow> bool" where
  "approves b c = (case c of CVerdict PlanLoop v \<Rightarrow> vd_seq v > b \<and> vd_verdict v = Approve | _ \<Rightarrow> False)"

definition completion_in :: "candidate \<Rightarrow> plan_completion option" where
  "completion_in c = (case c of
     CPlanCompleted s r a st \<Rightarrow> Some \<lparr>pq_seq = s, pq_artifact = a, pq_verifySteps = st\<rparr> | _ \<Rightarrow> None)"

lemma round_at_other: "r \<noteq> r' \<Longrightarrow> round_at (update_round r f l) r' = round_at l r'"
  by (simp add: round_at_def update_round_def update_conv)

lemma round_at_fields [simp]:
  "round_at (l\<lparr>lo_latestRevise := x\<rparr>) r = round_at l r"
  "round_at (l\<lparr>lo_latestApproveSeq := s\<rparr>) r = round_at l r"
  "round_at (l\<lparr>lo_approvedPlan := p\<rparr>) r = round_at l r"
  "round_at (l\<lparr>lo_findingsByRound := fs\<rparr>) r = round_at l r"
  by (simp_all add: round_at_def)

lemma completion_update:
  "(\<And>rec. ro_planCompletion (f rec) = ro_planCompletion rec) \<Longrightarrow>
   ro_planCompletion (round_at (update_round r' f l) r) = ro_planCompletion (round_at l r)"
  by (cases "r' = r") (simp_all add: round_at_other)

lemma completion_verdict [simp]:
  "ro_planCompletion (round_at (record_verdict n v l) r) = ro_planCompletion (round_at l r)"
  by (simp add: record_verdict_def Let_def completion_update)

lemma approved_verdict:
  "lo_approvedPlan (record_verdict n v l) =
     (if n = PlanLoop \<and> vd_verdict v = Approve then ro_planCompletion (round_at l (vd_round v))
      else lo_approvedPlan l)"
  by (simp add: record_verdict_def Let_def)

lemma lx_plan_on_loop: "lx_plan (on_loop n f ix) = (if n = PlanLoop then f (lx_plan ix) else lx_plan ix)"
  by (cases n) simp_all

lemma completion_replay:
  "ro_planCompletion (round_at (lx_plan (replay_step b ix c)) r) =
     (if completes_round b r c then completion_in c else ro_planCompletion (round_at (lx_plan ix) r))"
  by (cases c)
     (auto simp: replay_step_def completes_round_def completion_in_def lx_plan_on_loop
        completion_update round_at_other)

lemma approved_replay:
  "lo_approvedPlan (lx_plan (replay_step b ix c)) =
     (if approves b c
      then (case c of CVerdict _ v \<Rightarrow> ro_planCompletion (round_at (lx_plan ix) (vd_round v)) | _ \<Rightarrow> None)
      else lo_approvedPlan (lx_plan ix))"
  by (cases c) (auto simp: replay_step_def approves_def lx_plan_on_loop approved_verdict
        split: loop_name.split)

lemma blank_plan [simp]:
  "ro_planCompletion (round_at (lx_plan (blank_index acc)) r) = None"
  "lo_approvedPlan (lx_plan (blank_index acc)) = None"
  by (simp_all add: blank_index_def Let_def emptyLoop_def round_at_def empty_round_def)

lemma approved_plan_provenance:
  assumes "lo_approvedPlan (lx_plan (finishLogIndex acc)) = Some q"
  shows "\<exists>A B C r v. la_candidates acc =
           A @ CPlanCompleted (pq_seq q) r (pq_artifact q) (pq_verifySteps q) # B @ CVerdict PlanLoop v # C \<and>
           vd_round v = r \<and> vd_verdict v = Approve \<and>
           pq_seq q > la_restartSeq acc \<and> vd_seq v > la_restartSeq acc \<and>
           (\<forall>c \<in> set B. \<not> completes_round (la_restartSeq acc) r c) \<and>
           (\<forall>c \<in> set C. \<not> approves (la_restartSeq acc) c)"
proof -
  let ?b = "la_restartSeq acc"
  let ?f = "replay_step ?b"
  obtain D d C where D: "la_candidates acc = D @ d # C" "approves ?b d"
      "Some q = (case d of CVerdict _ v \<Rightarrow>
          ro_planCompletion (round_at (lx_plan (foldl ?f (blank_index acc) D)) (vd_round v)) | _ \<Rightarrow> None)"
      "\<forall>c \<in> set C. \<not> approves ?b c"
    using foldl_last_write [of "\<lambda>ix. lo_approvedPlan (lx_plan ix)" ?f "approves ?b", OF approved_replay,
        of "blank_index acc" "la_candidates acc"] assms
    by (auto simp: finishLogIndex_def)
  then obtain v where v: "d = CVerdict PlanLoop v" "vd_verdict v = Approve" "vd_seq v > ?b"
    by (auto simp: approves_def split: candidate.splits loop_name.splits)
  obtain A c B where A: "D = A @ c # B" "completes_round ?b (vd_round v) c" "Some q = completion_in c"
      "\<forall>c \<in> set B. \<not> completes_round ?b (vd_round v) c"
    using foldl_last_write [of "\<lambda>ix. ro_planCompletion (round_at (lx_plan ix) (vd_round v))" ?f
        "completes_round ?b (vd_round v)", OF completion_replay, of "blank_index acc" D] D(3) v(1)
    by auto
  have "c = CPlanCompleted (pq_seq q) (vd_round v) (pq_artifact q) (pq_verifySteps q) \<and> pq_seq q > ?b"
    using A(2,3) by (auto simp: completes_round_def completion_in_def split: candidate.splits)
  then show ?thesis using D(1,4) v A(1,4) by auto
qed

lemma concat_split:
  "concat (map f es) = A @ x # B \<Longrightarrow>
   \<exists>E1 e E2 P S. es = E1 @ e # E2 \<and> f e = P @ x # S \<and>
     A = concat (map f E1) @ P \<and> B = S @ concat (map f E2)"
proof (induction es arbitrary: A)
  case (Cons e es)
  obtain us where "f e @ us = A \<and> concat (map f es) = us @ x # B \<or>
      f e = A @ us \<and> us @ concat (map f es) = x # B"
    using Cons.prems by (auto simp: append_eq_append_conv2)
  then consider (later) us where "A = f e @ us" "concat (map f es) = us @ x # B"
    | (here) us where "f e = A @ x # us" "us @ concat (map f es) = B"
    by (cases us) (auto simp: Cons_eq_append_conv)
  then show ?case
  proof cases
    case later
    from Cons.IH [OF later(2)] obtain E1 e' E2 P S where
      "es = E1 @ e' # E2" "f e' = P @ x # S" "us = concat (map f E1) @ P" "B = S @ concat (map f E2)"
      by blast
    then show ?thesis using later(1)
      by (intro exI [of _ "e # E1"] exI [of _ e'] exI [of _ E2] exI [of _ P] exI [of _ S]) simp
  next
    case here
    then show ?thesis
      by (intro exI [of _ "[]"] exI [of _ e] exI [of _ es] exI [of _ A] exI [of _ us]) simp
  qed
qed simp

definition completes_plan :: "nat \<Rightarrow> nat \<Rightarrow> ab_event \<Rightarrow> bool" where
  "completes_plan b r e =
     (ev_seq e > b \<and> (case ev_body e of ELoop (PlanCompleted r' _ _) \<Rightarrow> r' = r | _ \<Rightarrow> False))"

definition approves_plan :: "nat \<Rightarrow> ab_event \<Rightarrow> bool" where
  "approves_plan b e =
     (ev_seq e > b \<and>
      (case ev_body e of ELoop (PlanReviewVerdict p) \<Rightarrow> vp_verdict p = Approve | _ \<Rightarrow> False))"

lemma completes_plan_candidate:
  "completes_plan b r e \<Longrightarrow> \<exists>c \<in> set (event_candidates e). completes_round b r c"
  by (auto simp: completes_plan_def event_candidates_def completes_round_def
      split: event_body.splits loop_ev.splits)

lemma approves_plan_candidate:
  "approves_plan b e \<Longrightarrow> \<exists>c \<in> set (event_candidates e). approves b c"
  by (auto simp: approves_plan_def event_candidates_def approves_def verdict_of_def
      split: event_body.splits loop_ev.splits)

lemma approved_plan_events:
  assumes "lo_approvedPlan (lx_plan (indexLog es)) = Some q" and "b = lx_restartSeq (indexLog es)"
  shows "\<exists>A e1 B e2 C p. filterKnownEvents es = A @ e1 # B @ e2 # C \<and>
           ev_body e1 = ELoop (PlanCompleted (vp_round p) (pq_artifact q) (pq_verifySteps q)) \<and>
           ev_seq e1 = pq_seq q \<and> pq_seq q > b \<and>
           ev_body e2 = ELoop (PlanReviewVerdict p) \<and> approves_plan b e2 \<and>
           (\<forall>e \<in> set B. \<not> completes_plan b (vp_round p) e) \<and>
           (\<forall>e \<in> set C. \<not> approves_plan b e)"
proof -
  let ?acc = "foldLogIndex initialLogIndexAcc (filterKnownEvents es)"
  have fin: "indexLog es = finishLogIndex ?acc" by (rule indexLog_unfold)
  have b: "b = la_restartSeq ?acc" using assms(2) by (simp add: fin)
  from approved_plan_provenance [of ?acc q] assms(1) obtain A B C r v where
    cs: "concat (map event_candidates (filterKnownEvents es)) =
      A @ CPlanCompleted (pq_seq q) r (pq_artifact q) (pq_verifySteps q) # (B @ CVerdict PlanLoop v # C)"
    and v: "vd_round v = r" "vd_verdict v = Approve" "pq_seq q > b" "vd_seq v > b"
    and B: "\<forall>c \<in> set B. \<not> completes_round b r c" and C: "\<forall>c \<in> set C. \<not> approves b c"
    by (auto simp: fin b candidates_of_log)
  from concat_split [OF cs] obtain E1 e1 R P S where
    e1: "filterKnownEvents es = E1 @ e1 # R"
      "event_candidates e1 = P @ CPlanCompleted (pq_seq q) r (pq_artifact q) (pq_verifySteps q) # S"
      "B @ CVerdict PlanLoop v # C = S @ concat (map event_candidates R)" by blast
  have p1: "ev_seq e1 = pq_seq q \<and> ev_body e1 = ELoop (PlanCompleted r (pq_artifact q) (pq_verifySteps q))"
    using e1(2) by (intro plan_candidate_event [THEN iffD1]) simp
  then have "S = []" using e1(2) by (simp add: event_candidates_def append_eq_Cons_conv Cons_eq_append_conv)
  with e1(3) have "concat (map event_candidates R) = B @ CVerdict PlanLoop v # C" by simp
  from concat_split [OF this] obtain E2 e2 E3 P2 S2 where
    e2: "R = E2 @ e2 # E3" "event_candidates e2 = P2 @ CVerdict PlanLoop v # S2"
      "B = concat (map event_candidates E2) @ P2" "C = S2 @ concat (map event_candidates E3)" by blast
  have "CVerdict PlanLoop v \<in> set (event_candidates e2)" using e2(2) by simp
  then obtain p where p: "v = verdict_of p (ev_seq e2)" "ev_body e2 = ELoop (PlanReviewVerdict p)"
    by (auto simp: verdict_candidate_event)
  have "\<not> completes_plan b r e" if "e \<in> set E2" for e
    using completes_plan_candidate [of b r e] B that by (auto simp: e2(3))
  moreover have "\<not> approves_plan b e" if "e \<in> set E3" for e
    using approves_plan_candidate [of b e] C that by (auto simp: e2(4))
  ultimately show ?thesis
    using e1(1) e2(1) p1 p v
    by (intro exI [of _ E1] exI [of _ e1] exI [of _ E2] exI [of _ e2] exI [of _ E3] exI [of _ p])
       (auto simp: verdict_of_def approves_plan_def)
qed

section \<open>Provenance of delivered guidance\<close>

text \<open>\<open>carries e k esc\<close>: \<open>e\<close> is a start of the occurrence \<open>k\<close> that cites the answer to \<open>esc\<close>.\<close>

definition carries :: "ab_event \<Rightarrow> phase \<times> nat \<Rightarrow> string \<Rightarrow> bool" where
  "carries e k esc =
     (case ev_body e of
        ELoop (PlanStarted r (Some (FbGuidance i _))) \<Rightarrow> k = (Core Plan, r) \<and> i = esc
      | ELoop (ImplementStarted r _ (Some (FbGuidance i _))) \<Rightarrow> k = (Core Implement, r) \<and> i = esc
      | EVerify (VerifyStarted p) \<Rightarrow>
          k = (Verify (vs_step p), vs_attempt p) \<and>
          (case vs_feedback p of Some (FbGuidance i _) \<Rightarrow> i = esc | _ \<Rightarrow> False)
      | _ \<Rightarrow> False)"

definition launches :: "ab_event \<Rightarrow> phase \<times> nat \<Rightarrow> bool" where
  "launches e k =
     (case ev_body e of
        ESession (SessionStarted p) \<Rightarrow> ss_phase p = fst k \<and> ss_round p = Some (snd k)
      | _ \<Rightarrow> False)"

definition pending_ok :: "ab_event list \<Rightarrow> log_acc \<Rightarrow> bool" where
  "pending_ok es acc \<longleftrightarrow>
     (\<forall>k g. map_of (la_pendingGuidance acc) k = Some g \<longrightarrow>
        (\<exists>e \<in> set es. carries e k (gd_escalation g) \<and> ev_seq e = gd_seq g))"

definition deliveries_ok :: "ab_event list \<Rightarrow> log_acc \<Rightarrow> bool" where
  "deliveries_ok es acc \<longleftrightarrow>
     (\<forall>d \<in> set (la_deliveries acc). \<exists>k. \<exists>e1 \<in> set es. \<exists>e2 \<in> set es.
        carries e1 k (gd_escalation d) \<and> launches e2 k \<and> ev_seq e2 = gd_seq d \<and> ev_seq e1 < ev_seq e2)"

lemma guidance_frame [simp]:
  "la_pendingGuidance (note_round l r acc) = la_pendingGuidance acc"
  "la_pendingGuidance (push_candidate c acc) = la_pendingGuidance acc"
  "la_pendingGuidance (log_reconcile_started rs s acc) = la_pendingGuidance acc"
  "la_pendingGuidance (log_reconcile_completed s acc) = la_pendingGuidance acc"
  "la_deliveries (note_round l r acc) = la_deliveries acc"
  "la_deliveries (push_candidate c acc) = la_deliveries acc"
  "la_deliveries (note_guidance_start k fb s acc) = la_deliveries acc"
  "la_deliveries (log_reconcile_started rs s acc) = la_deliveries acc"
  "la_deliveries (log_reconcile_completed s acc) = la_deliveries acc"
  by (simp_all add: note_round_def push_candidate_def note_guidance_start_def log_reconcile_started_def
      log_reconcile_completed_def Let_def split: loop_name.split option.split)

lemma deliveries_loop_verify [simp]:
  "la_deliveries (log_loop_step l s acc) = la_deliveries acc"
  "la_deliveries (log_verify_step v s acc) = la_deliveries acc"
  by (cases l, simp_all) (cases v, simp_all add: Let_def)

lemma pending_note:
  "map_of (la_pendingGuidance (note_guidance_start key fb s acc)) k = Some g \<Longrightarrow>
   (k = key \<and> gd_seq g = s \<and> (\<exists>ans. fb = Some (FbGuidance (gd_escalation g) ans))) \<or>
   (k \<noteq> key \<and> map_of (la_pendingGuidance acc) k = Some g)"
  by (auto simp: note_guidance_start_def update_conv delete_conv
      split: option.splits feedback.splits if_splits)

lemma pending_loop_step:
  "map_of (la_pendingGuidance (log_loop_step l s acc)) k = Some g \<Longrightarrow>
   (map_of (la_pendingGuidance acc) k = Some g) \<or>
   (gd_seq g = s \<and> (\<forall>e. ev_body e = ELoop l \<longrightarrow> carries e k (gd_escalation g)))"
  by (cases l) (auto simp: carries_def dest!: pending_note)

lemma pending_verify_step:
  "map_of (la_pendingGuidance (log_verify_step v s acc)) k = Some g \<Longrightarrow>
   (map_of (la_pendingGuidance acc) k = Some g) \<or>
   (gd_seq g = s \<and> (\<forall>e. ev_body e = EVerify v \<longrightarrow> carries e k (gd_escalation g)))"
  by (cases v) (auto simp: carries_def Let_def dest!: pending_note)

lemma pending_session:
  "map_of (la_pendingGuidance (log_session_started p s acc)) k = Some g \<Longrightarrow>
   map_of (la_pendingGuidance acc) k = Some g"
  by (auto simp: log_session_started_def delete_conv' split: option.splits if_splits)

lemma pending_step:
  "map_of (la_pendingGuidance (log_step acc e)) k = Some g \<Longrightarrow>
   map_of (la_pendingGuidance acc) k = Some g \<or> (gd_seq g = ev_seq e \<and> carries e k (gd_escalation g))"
  unfolding log_step_def Let_def
  by (auto dest: pending_session pending_loop_step pending_verify_step
      split: event_body.splits spec_ev.splits session_ev.splits finalize_ev.splits pr_ev.splits
        reconcile_ev.splits)

lemma deliveries_session:
  "d \<in> set (la_deliveries (log_session_started p s acc)) \<Longrightarrow>
   d \<in> set (la_deliveries acc) \<or>
   (gd_seq d = s \<and> (\<exists>r g. ss_round p = Some r \<and>
      map_of (la_pendingGuidance acc) (ss_phase p, r) = Some g \<and>
      gd_escalation g = gd_escalation d \<and> gd_seq g < s))"
  by (auto simp: log_session_started_def split: option.splits if_splits)

lemma deliveries_step:
  "d \<in> set (la_deliveries (log_step acc e)) \<Longrightarrow>
   d \<in> set (la_deliveries acc) \<or>
   (gd_seq d = ev_seq e \<and> (\<exists>k g. launches e k \<and> map_of (la_pendingGuidance acc) k = Some g \<and>
      gd_escalation g = gd_escalation d \<and> gd_seq g < ev_seq e))"
  unfolding log_step_def Let_def launches_def
  by (auto dest: deliveries_session
      split: event_body.splits spec_ev.splits session_ev.splits finalize_ev.splits pr_ev.splits
        reconcile_ev.splits)

lemma guidance_ok_step:
  assumes "pending_ok es acc" and "deliveries_ok es acc"
  shows "pending_ok (es @ [e]) (log_step acc e) \<and> deliveries_ok (es @ [e]) (log_step acc e)"
proof
  show "pending_ok (es @ [e]) (log_step acc e)"
    using assms(1) pending_step [of acc e] by (fastforce simp: pending_ok_def)
  show "deliveries_ok (es @ [e]) (log_step acc e)"
    unfolding deliveries_ok_def
  proof
    fix d assume "d \<in> set (la_deliveries (log_step acc e))"
    from deliveries_step [OF this] assms
    show "\<exists>k. \<exists>e1 \<in> set (es @ [e]). \<exists>e2 \<in> set (es @ [e]). carries e1 k (gd_escalation d) \<and>
        launches e2 k \<and> ev_seq e2 = gd_seq d \<and> ev_seq e1 < ev_seq e2"
      unfolding pending_ok_def deliveries_ok_def by fastforce
  qed
qed

lemma guidance_ok_fold:
  "pending_ok (pre @ es) (foldLogIndex initialLogIndexAcc es) \<and>
   deliveries_ok (pre @ es) (foldLogIndex initialLogIndexAcc es)"
proof -
  have "pending_ok es (fold_events log_step acc es) \<and> deliveries_ok es (fold_events log_step acc es)"
    if "la_pendingGuidance acc = []" "la_deliveries acc = []" for acc
  proof (induction es rule: rev_induct)
    case Nil
    show ?case using that by (simp add: pending_ok_def deliveries_ok_def)
  next
    case (snoc e es)
    then show ?case using guidance_ok_step by simp
  qed
  then have "pending_ok es (foldLogIndex initialLogIndexAcc es) \<and>
      deliveries_ok es (foldLogIndex initialLogIndexAcc es)"
    by (simp add: foldLogIndex_def initialLogIndexAcc_def)
  then show ?thesis by (fastforce simp: pending_ok_def deliveries_ok_def)
qed

lemma deliveries_replay [simp]: "lx_guidanceDeliveries (replay_step b ix c) = lx_guidanceDeliveries ix"
  by (cases c) (simp_all add: replay_step_def on_loop_def split: loop_name.split)

lemma deliveries_finish [simp]: "lx_guidanceDeliveries (finishLogIndex acc) = la_deliveries acc"
proof -
  have "lx_guidanceDeliveries (foldl (replay_step b) ix cs) = lx_guidanceDeliveries ix" for b ix cs
    by (induction cs arbitrary: ix) simp_all
  then show ?thesis by (simp add: finishLogIndex_def blank_index_def Let_def)
qed

lemma delivered_guidance_provenance:
  assumes "d \<in> set (lx_guidanceDeliveries (indexLog es))"
  shows "\<exists>k. \<exists>e1 \<in> set es. \<exists>e2 \<in> set es.
     carries e1 k (gd_escalation d) \<and> launches e2 k \<and> ev_seq e2 = gd_seq d \<and> ev_seq e1 < ev_seq e2"
proof -
  have "deliveries_ok ([] @ filterKnownEvents es) (foldLogIndex initialLogIndexAcc (filterKnownEvents es))"
    using guidance_ok_fold by blast
  then show ?thesis
    using assms unfolding deliveries_ok_def by (fastforce simp: indexLog_unfold filterKnownEvents_def)
qed

end
