(* ===== verification/Results.thy ===== *)
theory Results
  imports Incremental
begin

text \<open>
  Fallible folds. A \<^verbatim>\<open>throw\<close> is \<open>Inl\<close> of the error; a fold that has thrown stays thrown, which is
  how an exception leaves the whole batch in the code.
\<close>

fun bind_result :: "'x + 'a \<Rightarrow> ('a \<Rightarrow> 'x + 'b) \<Rightarrow> 'x + 'b" where
  "bind_result (Inl x) f = Inl x"
| "bind_result (Inr a) f = f a"

fun map_result :: "('a \<Rightarrow> 'b) \<Rightarrow> 'x + 'a \<Rightarrow> 'x + 'b" where
  "map_result f (Inl x) = Inl x"
| "map_result f (Inr a) = Inr (f a)"

fun guard_result :: "bool \<Rightarrow> 'x \<Rightarrow> 'x + unit" where
  "guard_result True x = Inr ()"
| "guard_result False x = Inl x"

definition try_step :: "('a \<Rightarrow> 'e \<Rightarrow> 'x + 'a) \<Rightarrow> 'x + 'a \<Rightarrow> 'e \<Rightarrow> 'x + 'a" where
  "try_step step r e = bind_result r (\<lambda>a. step a e)"

definition try_fold :: "('a \<Rightarrow> 'e \<Rightarrow> 'x + 'a) \<Rightarrow> 'x + 'a \<Rightarrow> 'e list \<Rightarrow> 'x + 'a" where
  "try_fold step r es = fold_events (try_step step) r es"

lemma try_fold_simps [simp]:
  "try_fold step r [] = r"
  "try_fold step (Inr a) (e # es) = try_fold step (step a e) es"
  "try_fold step r (xs @ ys) = try_fold step (try_fold step r xs) ys"
  by (simp_all add: try_fold_def try_step_def)

lemma try_fold_Inl [simp]: "try_fold step (Inl x) es = Inl x"
  by (induction es) (simp_all add: try_fold_def try_step_def)

lemma bind_result_Inr_iff: "bind_result r f = Inr b \<longleftrightarrow> (\<exists>a. r = Inr a \<and> f a = Inr b)"
  by (cases r) simp_all

lemma bind_guard_Inr_iff [simp]: "bind_result (guard_result c x) f = Inr b \<longleftrightarrow> c \<and> f () = Inr b"
  by (cases c) simp_all

lemma map_result_Inr_iff: "map_result f r = Inr b \<longleftrightarrow> (\<exists>a. r = Inr a \<and> b = f a)"
  by (cases r) auto

text \<open>An invariant every successful step keeps holds of every state a successful fold returns.\<close>

lemma try_fold_invariant:
  assumes "try_fold step (Inr a) es = Inr b" and "P a"
    and "\<And>a e b. P a \<Longrightarrow> step a e = Inr b \<Longrightarrow> P b"
  shows "P b"
  using assms(1,2)
proof (induction es arbitrary: a)
  case (Cons e es)
  then obtain c where c: "step a e = Inr c"
    by (cases "step a e") auto
  have "P c" using Cons.prems(2) c assms(3) by blast
  then show ?case using Cons c by simp
qed simp

end
