(* ===== verification/NodeRestack.thy ===== *)
theory NodeRestack
  imports Results "HOL-Library.List_Lexorder" "HOL-Library.Char_ord"
begin

text \<open>
  The node restack machine, \<^verbatim>\<open>kernel/node-restack-state.ts\<close>: one reserved writer at a time, its items
  replayed in order onto a growing prefix, the publication intent and the confirmed rewrite. Every
  \<^verbatim>\<open>throw\<close> is a constructor of \<open>node_error\<close>. An absent dictionary and an empty one are the same
  (\<^verbatim>\<open>??= {}\<close>). \<open>node_inv\<close> states what the throws protect.
\<close>

datatype node_error =
    WriterAlreadyReserved | NotNextChange | OutsideContribution | InvalidReplayPrefix
  | ConflictMismatch | ReceiptMismatch | DroppedMovedPrefix | IncompleteReplay
  | PublicationMismatch | RewriteMismatch | UnknownReservation | UnconfirmedCompletion

record node_restack_state =
  nrs_requests :: "(string, restack_request) jsmap"
  nrs_availability :: "availability option"
  nrs_targetRewrite :: "target_rewritten option"
  nrs_distance :: "parent_distance option"
  nrs_parentRequest :: "parent_change option"
  nrs_parentChange :: "parent_change option"
  nrs_parentReplay :: "string option"
  nrs_parentPr :: "string option"
  nrs_parentRejection :: "parent_rejected option"
  nrs_boundaries :: "(sha, sha) jsmap"
  nrs_droppedIdentities :: "string list"
  nrs_foreignAliases :: "(sha, sha) jsmap"
  nrs_contribution :: "contribution option"
  nrs_observedParent :: "target_moved option"
  nrs_reservedSeq :: "nat option"
  nrs_contributionBase :: "sha option"
  nrs_active :: "writer_reserved option"
  nrs_items :: "item_replayed list"
  nrs_prepared :: "item_prepared option"
  nrs_conflict :: "item_prepared option"
  nrs_intent :: "publish_intended option"
  nrs_rewritten :: "node_rewritten option"
  nrs_inventory :: "node_inventory option"

definition initialNodeRestack :: node_restack_state where
  "initialNodeRestack =
     \<lparr>nrs_requests = [], nrs_availability = None, nrs_targetRewrite = None, nrs_distance = None,
      nrs_parentRequest = None, nrs_parentChange = None, nrs_parentReplay = None, nrs_parentPr = None,
      nrs_parentRejection = None, nrs_boundaries = [], nrs_droppedIdentities = [],
      nrs_foreignAliases = [], nrs_contribution = None, nrs_observedParent = None,
      nrs_reservedSeq = None, nrs_contributionBase = None, nrs_active = None, nrs_items = [],
      nrs_prepared = None, nrs_conflict = None, nrs_intent = None, nrs_rewritten = None,
      nrs_inventory = None\<rparr>"

definition sameParentRejection :: "parent_rejected option \<Rightarrow> parent_rejected \<Rightarrow> bool" where
  "sameParentRejection previous nxt =
     (case previous of None \<Rightarrow> False
      | Some p \<Rightarrow> pj_revision p = pj_revision nxt \<and> pj_target p = pj_target nxt \<and>
                  pj_reason p = pj_reason nxt)"

text \<open>\<^verbatim>\<open>state.active?.id\<close> and \<^verbatim>\<open>state.items.at(-1)?.head ?? state.active.parent\<close>.\<close>

definition reserved_is :: "node_restack_state \<Rightarrow> string \<Rightarrow> bool" where
  "reserved_is st i = (map_option wr_id (nrs_active st) = Some i)"

definition chain_head :: "sha \<Rightarrow> item_replayed list \<Rightarrow> sha" where
  "chain_head parent items = (case last_opt items of None \<Rightarrow> parent | Some i \<Rightarrow> ir_head i)"

definition replay_head :: "node_restack_state \<Rightarrow> sha" where
  "replay_head st = chain_head (case nrs_active st of None \<Rightarrow> [] | Some a \<Rightarrow> wr_parent a) (nrs_items st)"

definition reserved_changes :: "node_restack_state \<Rightarrow> reserved_change list" where
  "reserved_changes st = (case nrs_active st of None \<Rightarrow> [] | Some a \<Rightarrow> wr_changes a)"

definition nr_reserved :: "node_restack_state \<Rightarrow> writer_reserved \<Rightarrow> nat \<Rightarrow> node_error + node_restack_state" where
  "nr_reserved st p seq =
     (if nrs_active st \<noteq> None then Inl WriterAlreadyReserved
      else Inr (st\<lparr>nrs_reservedSeq := Some seq, nrs_active := Some p,
                   nrs_boundaries := jm_set (wr_expected p) (wr_oldBase p) (nrs_boundaries st),
                   nrs_items := []\<rparr>))"

definition nr_prepared :: "node_restack_state \<Rightarrow> item_prepared \<Rightarrow> node_error + node_restack_state" where
  "nr_prepared st p =
     (if \<not> reserved_is st (ip_id p) \<or> ip_index p \<noteq> length (nrs_items st) then Inl NotNextChange
      else if ip_index p \<ge> length (reserved_changes st) then Inl OutsideContribution
      else if ip_base p \<noteq> replay_head st then Inl InvalidReplayPrefix
      else Inr (st\<lparr>nrs_prepared := Some p\<rparr>))"

definition matches_prepared :: "node_restack_state \<Rightarrow> string \<Rightarrow> nat \<Rightarrow> sha \<Rightarrow> bool" where
  "matches_prepared st i n base =
     (case nrs_prepared st of None \<Rightarrow> False
      | Some p \<Rightarrow> ip_id p = i \<and> ip_index p = n \<and> ip_base p = base)"

definition nr_conflicted :: "node_restack_state \<Rightarrow> item_prepared \<Rightarrow> node_error + node_restack_state" where
  "nr_conflicted st p =
     (if \<not> matches_prepared st (ip_id p) (ip_index p) (ip_base p) then Inl ConflictMismatch
      else Inr (st\<lparr>nrs_conflict := Some p\<rparr>))"

definition nr_replayed :: "node_restack_state \<Rightarrow> item_replayed \<Rightarrow> node_error + node_restack_state" where
  "nr_replayed st p =
     (if \<not> reserved_is st (ir_id p) \<or> ir_index p < length (nrs_items st) then Inr st
      else if \<not> matches_prepared st (ir_id p) (ir_index p) (ir_base p) then Inl ReceiptMismatch
      else if ir_dropped p \<and> ir_head p \<noteq> ir_base p then Inl DroppedMovedPrefix
      else Inr (st\<lparr>nrs_items := nrs_items st @ [p], nrs_prepared := None, nrs_conflict := None\<rparr>))"

definition nr_intended :: "node_restack_state \<Rightarrow> publish_intended \<Rightarrow> node_error + node_restack_state" where
  "nr_intended st p =
     (if \<not> reserved_is st (pi_id p) \<or> nrs_prepared st \<noteq> None \<or>
         length (nrs_items st) \<noteq> length (reserved_changes st) then Inl IncompleteReplay
      else if pi_head p \<noteq> replay_head st then Inl PublicationMismatch
      else Inr (st\<lparr>nrs_intent := Some p\<rparr>))"

text \<open>The identity an alias table gives a foreign change.\<close>

definition alias_of :: "(sha, sha) jsmap \<Rightarrow> sha \<Rightarrow> sha" where
  "alias_of aliases s = (case map_of aliases s of None \<Rightarrow> s | Some t \<Rightarrow> t)"

definition restack_item ::
  "reserved_change list \<Rightarrow> (string list \<times> (sha, sha) jsmap) \<Rightarrow> item_replayed \<Rightarrow> string list \<times> (sha, sha) jsmap"
where
  "restack_item chgs acc item =
     (if ir_index item < length chgs
      then (let change = chgs ! ir_index item;
                (dropped, aliases) = acc;
                identity = (case ch_build change of
                              None \<Rightarrow> ''foreign:'' @ alias_of aliases (ch_sha change)
                            | Some b \<Rightarrow> ''build:'' @ b)
            in (if ir_dropped item then set_add identity dropped else dropped,
                if ch_build change = None \<and> \<not> ir_dropped item
                then jm_set (ir_head item) (alias_of aliases (ch_sha change)) aliases else aliases))
      else acc)"

definition nr_rewritten :: "node_restack_state \<Rightarrow> node_rewritten \<Rightarrow> node_error + node_restack_state" where
  "nr_rewritten st p =
     (case (nrs_intent st, nrs_active st) of
        (Some i, Some a) \<Rightarrow>
          (if nw_id p \<noteq> pi_id i \<or> nw_head p \<noteq> pi_head i \<or> nw_previous p \<noteq> wr_expected a
           then Inl RewriteMismatch
           else (let base = (if wr_restack a then wr_parent a
                             else (case nrs_contributionBase st of Some b \<Rightarrow> b | None \<Rightarrow> wr_oldBase a));
                     st1 = st\<lparr>nrs_boundaries := jm_set (nw_head p) base (nrs_boundaries st)\<rparr>;
                     st2 = (if wr_restack a
                            then (let (dropped, aliases) =
                                        foldl (restack_item (wr_changes a))
                                          (set_of_list (nrs_droppedIdentities st1), nrs_foreignAliases st1)
                                          (nrs_items st1)
                                  in st1\<lparr>nrs_foreignAliases := aliases,
                                         nrs_droppedIdentities := sort dropped\<rparr>)
                            else st1)
                 in Inr (st2\<lparr>nrs_rewritten := Some p\<rparr>)))
      | _ \<Rightarrow> Inl RewriteMismatch)"

text \<open>Settlement: what a completed restack acknowledges, then the writer's fields are cleared.\<close>

definition settle_restack :: "node_restack_state \<Rightarrow> writer_reserved \<Rightarrow> node_restack_state" where
  "settle_restack st a =
     (let st1 = (case nrs_parentChange st of
                   Some c \<Rightarrow> st\<lparr>nrs_parentReplay := Some (px_id c)\<rparr> | None \<Rightarrow> st)
      in st1\<lparr>nrs_requests := fold jm_del (case wr_requests a of None \<Rightarrow> [] | Some ids \<Rightarrow> ids)
                               (nrs_requests st1),
             nrs_contributionBase := Some (wr_parent a), nrs_distance := None\<rparr>)"

definition clear_writer :: "node_restack_state \<Rightarrow> node_restack_state" where
  "clear_writer st =
     st\<lparr>nrs_active := None, nrs_prepared := None, nrs_conflict := None, nrs_intent := None,
        nrs_rewritten := None, nrs_items := []\<rparr>"

definition nr_settled :: "node_restack_state \<Rightarrow> string \<Rightarrow> settle_outcome \<Rightarrow> node_error + node_restack_state" where
  "nr_settled st i outcome =
     (case nrs_active st of
        None \<Rightarrow> Inl UnknownReservation
      | Some a \<Rightarrow>
          (if wr_id a \<noteq> i then Inl UnknownReservation
           else if outcome = Completed
           then (if nrs_rewritten st = None then Inl UnconfirmedCompletion
                 else Inr (clear_writer (if wr_restack a then settle_restack st a else st)))
           else Inr (clear_writer st)))"

definition nr_inventory :: "node_restack_state \<Rightarrow> node_inventory \<Rightarrow> node_restack_state" where
  "nr_inventory st p =
     (let st1 = (case nrs_contributionBase st of
                   None \<Rightarrow> st
                 | Some cb \<Rightarrow>
                     st\<lparr>nrs_boundaries := jm_set (ni_head p)
                         (case ni_base p of
                            Some b \<Rightarrow> b
                          | None \<Rightarrow>
                              (case (nrs_active st, nrs_rewritten st) of
                                 (Some a, Some r) \<Rightarrow>
                                   if wr_restack a \<and> nw_head r = ni_head p then wr_parent a else cb
                               | _ \<Rightarrow> cb)) (nrs_boundaries st)\<rparr>)
      in st1\<lparr>nrs_inventory := Some p\<rparr>)"

text \<open>The steps that cannot throw.\<close>

definition nr_accepted :: "node_restack_state \<Rightarrow> parent_change \<Rightarrow> node_restack_state" where
  "nr_accepted st p =
     st\<lparr>nrs_targetRewrite := None, nrs_parentChange := Some p, nrs_parentRequest := None,
        nrs_parentReplay := None, nrs_parentPr := None, nrs_parentRejection := None,
        nrs_distance := None, nrs_observedParent := None\<rparr>"

definition drop_if_id :: "string \<Rightarrow> parent_change option \<Rightarrow> parent_change option" where
  "drop_if_id i c = (if map_option px_id c = Some i then None else c)"

definition nr_opened :: "node_restack_state \<Rightarrow> sha \<Rightarrow> node_restack_state" where
  "nr_opened st s =
     st\<lparr>nrs_contributionBase := (case nrs_contributionBase st of None \<Rightarrow> Some s | Some b \<Rightarrow> Some b),
        nrs_boundaries := jm_set s s (nrs_boundaries st)\<rparr>"

fun nr_node_step :: "node_restack_state \<Rightarrow> node_ev \<Rightarrow> nat \<Rightarrow> node_error + node_restack_state" where
  "nr_node_step st (NodeRestackRequested p) seq =
     Inr (st\<lparr>nrs_requests := jm_set (rq_id p) p (nrs_requests st)\<rparr>)"
| "nr_node_step st (NodeRestackSatisfied i) seq = Inr (st\<lparr>nrs_requests := jm_del i (nrs_requests st)\<rparr>)"
| "nr_node_step st (NodeAvailability p) seq = Inr (st\<lparr>nrs_availability := Some p\<rparr>)"
| "nr_node_step st (NodeParentDistance p) seq = Inr (st\<lparr>nrs_distance := Some p\<rparr>)"
| "nr_node_step st (NodeParentRequested p) seq = Inr (st\<lparr>nrs_parentRequest := Some p\<rparr>)"
| "nr_node_step st (NodeParentAccepted p) seq = Inr (nr_accepted st p)"
| "nr_node_step st (NodeParentCancelled i) seq =
     Inr (st\<lparr>nrs_parentRequest := drop_if_id i (nrs_parentRequest st)\<rparr>)"
| "nr_node_step st NodeParentRejectionCleared seq = Inr (st\<lparr>nrs_parentRejection := None\<rparr>)"
| "nr_node_step st (NodeParentRejected p) seq = Inr (st\<lparr>nrs_parentRejection := Some p\<rparr>)"
| "nr_node_step st (NodeParentPrRetargeted i) seq = Inr (st\<lparr>nrs_parentPr := Some i\<rparr>)"
| "nr_node_step st (NodeParentCompleted i) seq =
     Inr (st\<lparr>nrs_parentChange := drop_if_id i (nrs_parentChange st)\<rparr>)"
| "nr_node_step st (NodeOpened s) seq = Inr (nr_opened st s)"
| "nr_node_step st (NodeWriterReserved p) seq = nr_reserved st p seq"
| "nr_node_step st (NodeItemPrepared p) seq = nr_prepared st p"
| "nr_node_step st (NodeItemConflicted p) seq = nr_conflicted st p"
| "nr_node_step st (NodeItemReplayed p) seq = nr_replayed st p"
| "nr_node_step st (NodePublishIntended p) seq = nr_intended st p"
| "nr_node_step st (NodeRewritten p) seq = nr_rewritten st p"
| "nr_node_step st (NodeWriterSettled i outcome) seq = nr_settled st i outcome"
| "nr_node_step st (NodeContributionRecorded p) seq = Inr (st\<lparr>nrs_contribution := Some p\<rparr>)"
| "nr_node_step st (NodeInventory p) seq = Inr (nr_inventory st p)"
| "nr_node_step st _ seq = Inr st"

definition nr_target_cleared ::
  "node_restack_state \<Rightarrow> string \<Rightarrow> sha \<Rightarrow> lineage_entry list option \<Rightarrow> node_restack_state" where
  "nr_target_cleared st branch s lineage =
     (let st1 = (case (lineage, nrs_observedParent st) of
                   (Some l, Some t) \<Rightarrow>
                     if tm_branch t = branch \<and> tm_sha t = s
                     then st\<lparr>nrs_observedParent := Some (t\<lparr>tm_lineage := Some l\<rparr>)\<rparr> else st
                 | _ \<Rightarrow> st)
      in st1\<lparr>nrs_targetRewrite := None\<rparr>)"

definition nr_target_moved :: "node_restack_state \<Rightarrow> target_moved \<Rightarrow> node_restack_state" where
  "nr_target_moved st t =
     (let st1 = st\<lparr>nrs_targetRewrite := None\<rparr>
      in if nrs_contributionBase st1 \<noteq> None then st1\<lparr>nrs_observedParent := Some t\<rparr> else st1)"

definition nr_step :: "node_restack_state \<Rightarrow> ab_event \<Rightarrow> node_error + node_restack_state" where
  "nr_step st e =
     (case ev_body e of
        ENode n \<Rightarrow> nr_node_step st n (ev_seq e)
      | ETarget (TargetRewritten t) \<Rightarrow> Inr (st\<lparr>nrs_targetRewrite := Some t\<rparr>)
      | ETarget (TargetRewriteCleared branch s lineage) \<Rightarrow> Inr (nr_target_cleared st branch s lineage)
      | ETarget (TargetMoved t) \<Rightarrow> Inr (nr_target_moved st t)
      | _ \<Rightarrow> Inr st)"

definition advanceNodeRestack ::
  "node_error + node_restack_state \<Rightarrow> ab_event list \<Rightarrow> node_error + node_restack_state" where
  "advanceNodeRestack = try_fold nr_step"

definition nodeRestackReducer ::
  "(node_error + node_restack_state, ab_event, node_error + node_restack_state) reducer" where
  "nodeRestackReducer =
     \<lparr>rd_version = 9, rd_rawEvents = False, rd_initial = Inr initialNodeRestack,
      rd_fold = advanceNodeRestack, rd_finish = (\<lambda>st. st)\<rparr>"

interpretation node_restack: incremental_reducer nodeRestackReducer
  by unfold_locales (simp_all add: nodeRestackReducer_def advanceNodeRestack_def)

section \<open>What the throws protect\<close>

text \<open>
  The replayed items of a reservation: item \<open>k\<close> is change \<open>k\<close> of the reservation, replayed onto the
  head of item \<open>k - 1\<close>, and a dropped item leaves that head where it was.
\<close>

fun replay_chain :: "string \<Rightarrow> nat \<Rightarrow> sha \<Rightarrow> item_replayed list \<Rightarrow> bool" where
  "replay_chain i n base [] = True"
| "replay_chain i n base (x # xs) =
     (ir_id x = i \<and> ir_index x = n \<and> ir_base x = base \<and> (ir_dropped x \<longrightarrow> ir_head x = base) \<and>
      replay_chain i (Suc n) (ir_head x) xs)"

lemma chain_head_simps [simp]:
  "chain_head base [] = base" "chain_head base (xs @ [x]) = ir_head x"
  "chain_head base (x # xs) = chain_head (ir_head x) xs"
  by (simp_all add: chain_head_def last_opt_def)

lemma replay_chain_snoc:
  "replay_chain i n base (xs @ [x]) \<longleftrightarrow>
   replay_chain i n base xs \<and> ir_id x = i \<and> ir_index x = n + length xs \<and>
   ir_base x = chain_head base xs \<and> (ir_dropped x \<longrightarrow> ir_head x = chain_head base xs)"
  by (induction xs arbitrary: n base) auto

definition writer_inv :: "node_restack_state \<Rightarrow> writer_reserved \<Rightarrow> bool" where
  "writer_inv st a \<longleftrightarrow>
     replay_chain (wr_id a) 0 (wr_parent a) (nrs_items st) \<and>
     length (nrs_items st) \<le> length (wr_changes a) \<and>
     (\<forall>p. nrs_prepared st = Some p \<longrightarrow>
        ip_id p = wr_id a \<and> ip_index p = length (nrs_items st) \<and>
        ip_index p < length (wr_changes a) \<and> ip_base p = chain_head (wr_parent a) (nrs_items st)) \<and>
     (\<forall>c. nrs_conflict st = Some c \<longrightarrow> (\<exists>p. nrs_prepared st = Some p \<and>
        ip_id c = ip_id p \<and> ip_index c = ip_index p \<and> ip_base c = ip_base p)) \<and>
     (\<forall>i. nrs_intent st = Some i \<longrightarrow>
        pi_id i = wr_id a \<and> nrs_prepared st = None \<and>
        length (nrs_items st) = length (wr_changes a) \<and>
        pi_head i = chain_head (wr_parent a) (nrs_items st)) \<and>
     (\<forall>r. nrs_rewritten st = Some r \<longrightarrow>
        (\<exists>i. nrs_intent st = Some i \<and> nw_id r = pi_id i \<and> nw_head r = pi_head i) \<and>
        nw_previous r = wr_expected a)"

definition node_inv :: "node_restack_state \<Rightarrow> bool" where
  "node_inv st =
     (case nrs_active st of
        None \<Rightarrow> nrs_items st = [] \<and> nrs_prepared st = None \<and> nrs_conflict st = None \<and>
                nrs_intent st = None \<and> nrs_rewritten st = None
      | Some a \<Rightarrow> writer_inv st a)"

lemma node_inv_initial [simp]: "node_inv initialNodeRestack"
  by (simp add: node_inv_def initialNodeRestack_def)

text \<open>The invariant reads six fields only.\<close>

definition writer_fields where
  "writer_fields st = (nrs_active st, nrs_items st, nrs_prepared st, nrs_conflict st, nrs_intent st,
                       nrs_rewritten st)"

lemma node_inv_fields: "writer_fields st = writer_fields st' \<Longrightarrow> node_inv st = node_inv st'"
  by (simp add: writer_fields_def node_inv_def writer_inv_def split: option.split)

lemma node_inv_activeI: "nrs_active st = Some a \<Longrightarrow> node_inv st = writer_inv st a"
  by (simp add: node_inv_def)

lemma node_inv_cleared [simp]: "node_inv (clear_writer st)"
  by (simp add: node_inv_def clear_writer_def)

lemma node_inv_reserved: "node_inv st \<Longrightarrow> nr_reserved st p seq = Inr st' \<Longrightarrow> node_inv st'"
  by (auto simp: nr_reserved_def node_inv_def writer_inv_def split: if_splits)

lemma node_inv_conflicted: "node_inv st \<Longrightarrow> nr_conflicted st p = Inr st' \<Longrightarrow> node_inv st'"
  by (auto simp: nr_conflicted_def node_inv_def writer_inv_def matches_prepared_def
      split: if_splits option.splits)

lemma node_inv_replayed: "node_inv st \<Longrightarrow> nr_replayed st p = Inr st' \<Longrightarrow> node_inv st'"
  by (auto simp: nr_replayed_def node_inv_def writer_inv_def matches_prepared_def reserved_is_def
      replay_chain_snoc split: if_splits option.splits)

text \<open>A successful step names the reservation it belongs to and its result.\<close>

lemma nr_intended_InrD:
  assumes "nr_intended st p = Inr st'"
  shows "\<exists>a. nrs_active st = Some a \<and> pi_id p = wr_id a \<and> nrs_prepared st = None \<and>
     length (nrs_items st) = length (wr_changes a) \<and>
     pi_head p = chain_head (wr_parent a) (nrs_items st) \<and> st' = st\<lparr>nrs_intent := Some p\<rparr>"
proof -
  have "reserved_is st (pi_id p) \<and> nrs_prepared st = None \<and>
      length (nrs_items st) = length (reserved_changes st) \<and> pi_head p = replay_head st \<and>
      st' = st\<lparr>nrs_intent := Some p\<rparr>"
    using assms by (simp add: nr_intended_def split: if_splits)
  then show ?thesis by (cases "nrs_active st") (auto simp: reserved_is_def reserved_changes_def replay_head_def)
qed

lemma nr_prepared_InrD:
  assumes "nr_prepared st p = Inr st'"
  shows "\<exists>a. nrs_active st = Some a \<and> ip_id p = wr_id a \<and> ip_index p = length (nrs_items st) \<and>
     ip_index p < length (wr_changes a) \<and> ip_base p = chain_head (wr_parent a) (nrs_items st) \<and>
     st' = st\<lparr>nrs_prepared := Some p\<rparr>"
proof -
  have "reserved_is st (ip_id p) \<and> ip_index p = length (nrs_items st) \<and>
      ip_index p < length (reserved_changes st) \<and> ip_base p = replay_head st \<and>
      st' = st\<lparr>nrs_prepared := Some p\<rparr>"
    using assms by (simp add: nr_prepared_def split: if_splits)
  then show ?thesis by (cases "nrs_active st") (auto simp: reserved_is_def reserved_changes_def replay_head_def)
qed

lemma node_inv_prepared:
  assumes inv: "node_inv st" and step: "nr_prepared st p = Inr st'"
  shows "node_inv st'"
proof -
  obtain a where a: "nrs_active st = Some a" "ip_id p = wr_id a" "ip_index p = length (nrs_items st)"
    "ip_index p < length (wr_changes a)" "ip_base p = chain_head (wr_parent a) (nrs_items st)"
    and st': "st' = st\<lparr>nrs_prepared := Some p\<rparr>"
    using nr_prepared_InrD [OF step] by blast
  have old: "writer_inv st a" using inv a(1) by (simp add: node_inv_activeI)
  then have "nrs_intent st = None" using a unfolding writer_inv_def by auto
  with old have "writer_inv st' a" using a unfolding writer_inv_def st' by auto
  then show ?thesis using a(1) by (simp add: st' node_inv_activeI)
qed

lemma node_inv_intended:
  assumes inv: "node_inv st" and step: "nr_intended st p = Inr st'"
  shows "node_inv st'"
proof -
  obtain a where a: "nrs_active st = Some a" "pi_id p = wr_id a" "nrs_prepared st = None"
    "length (nrs_items st) = length (wr_changes a)"
    "pi_head p = chain_head (wr_parent a) (nrs_items st)" and st': "st' = st\<lparr>nrs_intent := Some p\<rparr>"
    using nr_intended_InrD [OF step] by blast
  have old: "writer_inv st a" using inv a(1) by (simp add: node_inv_activeI)
  have "writer_inv st' a"
    unfolding writer_inv_def st'
  proof (intro conjI allI impI)
    fix r assume "nrs_rewritten (st\<lparr>nrs_intent := Some p\<rparr>) = Some r"
    then show "\<exists>i. nrs_intent (st\<lparr>nrs_intent := Some p\<rparr>) = Some i \<and> nw_id r = pi_id i \<and> nw_head r = pi_head i"
      and "nw_previous r = wr_expected a"
      using old a unfolding writer_inv_def by auto
  qed (use old a in \<open>simp_all add: writer_inv_def\<close>)
  then show ?thesis using a(1) by (simp add: st' node_inv_activeI)
qed

lemma node_inv_settled: "node_inv st \<Longrightarrow> nr_settled st i outcome = Inr st' \<Longrightarrow> node_inv st'"
  by (auto simp: nr_settled_def split: if_splits option.splits)

lemma nr_rewritten_InrD:
  assumes "nr_rewritten st p = Inr st'"
  shows "\<exists>i a. nrs_intent st = Some i \<and> nrs_active st = Some a \<and> nw_id p = pi_id i \<and>
     nw_head p = pi_head i \<and> nw_previous p = wr_expected a \<and> nrs_rewritten st' = Some p \<and>
     writer_fields st' = writer_fields (st\<lparr>nrs_rewritten := Some p\<rparr>)"
  using assms
  by (cases "nrs_intent st"; cases "nrs_active st")
     (auto simp: nr_rewritten_def Let_def writer_fields_def split: if_splits prod.splits)

lemma node_inv_rewritten:
  assumes inv: "node_inv st" and step: "nr_rewritten st p = Inr st'"
  shows "node_inv st'"
proof -
  obtain i a where a: "nrs_intent st = Some i" "nrs_active st = Some a" "nw_id p = pi_id i"
    "nw_head p = pi_head i" "nw_previous p = wr_expected a"
    and st': "writer_fields st' = writer_fields (st\<lparr>nrs_rewritten := Some p\<rparr>)"
    using nr_rewritten_InrD [OF step] by blast
  have "writer_inv st a" using inv a(2) by (simp add: node_inv_activeI)
  then have "writer_inv (st\<lparr>nrs_rewritten := Some p\<rparr>) a"
    using a unfolding writer_inv_def by auto
  then have "node_inv (st\<lparr>nrs_rewritten := Some p\<rparr>)" using a(2) by (simp add: node_inv_activeI)
  then show ?thesis using node_inv_fields [OF st'] by simp
qed

lemma nr_frame:
  "writer_fields (nr_accepted st c) = writer_fields st"
  "writer_fields (nr_opened st s) = writer_fields st"
  "writer_fields (nr_inventory st n) = writer_fields st"
  "writer_fields (nr_target_cleared st b s l) = writer_fields st"
  "writer_fields (nr_target_moved st t) = writer_fields st"
  by (simp_all add: writer_fields_def nr_accepted_def nr_opened_def nr_inventory_def
      nr_target_cleared_def nr_target_moved_def Let_def split: option.split)

lemma nr_frame_inv [simp]:
  "node_inv (nr_accepted st c) = node_inv st"
  "node_inv (nr_opened st s) = node_inv st"
  "node_inv (nr_inventory st n) = node_inv st"
  "node_inv (nr_target_cleared st b s l) = node_inv st"
  "node_inv (nr_target_moved st t) = node_inv st"
  by (rule node_inv_fields, rule nr_frame)+

lemma node_inv_updates [simp]:
  "node_inv (st\<lparr>nrs_requests := a\<rparr>) = node_inv st"
  "node_inv (st\<lparr>nrs_availability := b\<rparr>) = node_inv st"
  "node_inv (st\<lparr>nrs_distance := c\<rparr>) = node_inv st"
  "node_inv (st\<lparr>nrs_parentRequest := d\<rparr>) = node_inv st"
  "node_inv (st\<lparr>nrs_parentRejection := e\<rparr>) = node_inv st"
  "node_inv (st\<lparr>nrs_parentPr := f\<rparr>) = node_inv st"
  "node_inv (st\<lparr>nrs_parentChange := g\<rparr>) = node_inv st"
  "node_inv (st\<lparr>nrs_contribution := h\<rparr>) = node_inv st"
  "node_inv (st\<lparr>nrs_targetRewrite := i\<rparr>) = node_inv st"
  by (rule node_inv_fields, simp add: writer_fields_def)+

lemmas node_inv_steps =
  node_inv_reserved node_inv_prepared node_inv_conflicted node_inv_replayed node_inv_intended
  node_inv_rewritten node_inv_settled

lemma node_inv_node_step: "node_inv st \<Longrightarrow> nr_node_step st n seq = Inr st' \<Longrightarrow> node_inv st'"
  by (cases n) (auto dest: node_inv_steps)

lemma node_inv_step: "node_inv st \<Longrightarrow> nr_step st e = Inr st' \<Longrightarrow> node_inv st'"
  unfolding nr_step_def
  by (auto intro: node_inv_node_step split: event_body.splits target_ev.splits)

lemma node_inv_advance:
  "node_inv st \<Longrightarrow> advanceNodeRestack (Inr st) es = Inr st' \<Longrightarrow> node_inv st'"
  unfolding advanceNodeRestack_def
  by (rule try_fold_invariant [where P = node_inv]) (auto intro: node_inv_step)

text \<open>A confirmed rewrite published the complete replay of the reservation.\<close>

lemma rewritten_complete:
  assumes "node_inv st" and "nrs_rewritten st = Some r"
  shows "\<exists>a. nrs_active st = Some a \<and> nw_previous r = wr_expected a \<and>
     length (nrs_items st) = length (wr_changes a) \<and>
     replay_chain (wr_id a) 0 (wr_parent a) (nrs_items st) \<and>
     nw_head r = chain_head (wr_parent a) (nrs_items st)"
  using assms by (auto simp: node_inv_def writer_inv_def split: option.splits)

end
