(* ===== verification/NodeIssueLinks.thy ===== *)
theory NodeIssueLinks
  imports Events
begin

text \<open>
  A node's issue-link union, \<^verbatim>\<open>kernel/node-issue-links.ts\<close>. The abstract view of a link list is what it
  says per issue: whether some link closes it and whether some link downgraded it. The merge is the
  join of these views in one canonical list, which makes it commutative, associative and idempotent.
\<close>

definition merge_entry ::
  "(nat, bool \<times> bool) jsmap \<Rightarrow> node_issue_link \<Rightarrow> (nat, bool \<times> bool) jsmap" where
  "merge_entry m l =
     (let (closes, downgraded) = (case map_of m (il_issue l) of None \<Rightarrow> (False, False) | Some e \<Rightarrow> e)
      in jm_set (il_issue l) (closes \<or> il_intent l = Closes, downgraded \<or> il_downgraded l) m)"

fun link_of_entry :: "nat \<times> bool \<times> bool \<Rightarrow> node_issue_link" where
  "link_of_entry (issue, closes, downgraded) =
     (if downgraded then \<lparr>il_issue = issue, il_intent = Refs, il_downgraded = True\<rparr>
      else \<lparr>il_issue = issue, il_intent = (if closes then Closes else Refs), il_downgraded = False\<rparr>)"

definition mergeNodeIssueLinks :: "node_issue_link list \<Rightarrow> node_issue_link list \<Rightarrow> node_issue_link list" where
  "mergeNodeIssueLinks current contributed =
     map link_of_entry (sort_key fst (foldl merge_entry [] (current @ contributed)))"

section \<open>The view of a link list\<close>

fun join_view :: "(bool \<times> bool) option \<Rightarrow> (bool \<times> bool) option \<Rightarrow> (bool \<times> bool) option" where
  "join_view None y = y"
| "join_view x None = x"
| "join_view (Some (a, b)) (Some (c, d)) = Some (a \<or> c, b \<or> d)"

definition link_view :: "node_issue_link \<Rightarrow> nat \<Rightarrow> (bool \<times> bool) option" where
  "link_view l i = (if il_issue l = i then Some (il_intent l = Closes, il_downgraded l) else None)"

definition links_view :: "node_issue_link list \<Rightarrow> nat \<Rightarrow> (bool \<times> bool) option" where
  "links_view ls i = foldr (\<lambda>l v. join_view (link_view l i) v) ls None"

lemma join_view_laws:
  "join_view x None = x" "join_view x y = join_view y x"
  "join_view (join_view x y) z = join_view x (join_view y z)" "join_view x x = x"
proof -
  show "join_view x None = x" by (cases x) auto
  show "join_view x y = join_view y x" by (cases x; cases y) auto
  show "join_view (join_view x y) z = join_view x (join_view y z)" by (cases x; cases y; cases z) auto
  show "join_view x x = x" by (cases x) auto
qed

lemma links_view_simps [simp]:
  "links_view [] i = None"
  "links_view (l # ls) i = join_view (link_view l i) (links_view ls i)"
  by (simp_all add: links_view_def)

lemma links_view_append [simp]: "links_view (xs @ ys) i = join_view (links_view xs i) (links_view ys i)"
  by (induction xs) (simp_all add: join_view_laws(3))

lemma map_of_merge_entry: "map_of (merge_entry m l) i = join_view (map_of m i) (link_view l i)"
proof (cases "il_issue l = i")
  case True
  then show ?thesis
    by (cases "map_of m i") (auto simp: merge_entry_def link_view_def update_conv)
next
  case False
  then show ?thesis
    by (cases "map_of m i") (auto simp: merge_entry_def link_view_def update_conv split: prod.split)
qed

lemma map_of_merge_entries:
  "map_of (foldl merge_entry m ls) i = join_view (map_of m i) (links_view ls i)"
  by (induction ls arbitrary: m) (simp_all add: map_of_merge_entry join_view_laws(1,3))

lemma distinct_merge_entries: "distinct (map fst m) \<Longrightarrow> distinct (map fst (foldl merge_entry m ls))"
  by (induction ls arbitrary: m) (simp_all add: merge_entry_def distinct_update split_beta Let_def)

text \<open>Two maps in key order with the same lookups are the same list.\<close>

lemma sorted_map_unique:
  assumes "distinct (map fst xs)" "distinct (map fst ys)" "sorted (map fst xs)" "sorted (map fst ys)"
    and "\<And>i. map_of xs i = map_of ys i"
  shows "xs = ys"
proof -
  have "p \<in> set xs \<longleftrightarrow> p \<in> set ys" for p
    using map_of_eq_Some_iff [OF assms(1), of "fst p" "snd p"]
      map_of_eq_Some_iff [OF assms(2), of "fst p" "snd p"] assms(5) by simp
  then have "set xs = set ys" by blast
  moreover from this have "inj_on fst (set xs \<union> set ys)" using assms(1) by (simp add: distinct_map)
  ultimately show ?thesis using assms(1-4) map_sorted_distinct_set_unique by blast
qed

definition merged_entries :: "node_issue_link list \<Rightarrow> (nat \<times> bool \<times> bool) list" where
  "merged_entries ls = sort_key fst (foldl merge_entry [] ls)"

lemma map_of_sorted: "distinct (map fst m) \<Longrightarrow> map_of (sort_key fst m) i = map_of m i"
proof -
  assume d: "distinct (map fst m)"
  have "distinct (map fst (sort_key fst m))"
    using d by (simp add: distinct_map)
  then have "map_of (sort_key fst m) i = Some v \<longleftrightarrow> map_of m i = Some v" for v
    using d by (simp add: map_of_eq_Some_iff)
  then show ?thesis by (metis option.exhaust)
qed

lemma merged_entries_facts:
  "distinct (map fst (merged_entries ls))" "sorted (map fst (merged_entries ls))"
  "map_of (merged_entries ls) i = links_view ls i"
proof -
  have d: "distinct (map fst (foldl merge_entry [] ls))" by (rule distinct_merge_entries) simp
  then show "distinct (map fst (merged_entries ls))" by (simp add: merged_entries_def distinct_map)
  show "sorted (map fst (merged_entries ls))" by (simp add: merged_entries_def)
  show "map_of (merged_entries ls) i = links_view ls i"
    using d by (simp add: merged_entries_def map_of_sorted map_of_merge_entries)
qed

text \<open>The downgrade of an entry makes it \<open>refs\<close>: the view a canonical list has of one issue.\<close>

fun settled_view :: "bool \<times> bool \<Rightarrow> bool \<times> bool" where
  "settled_view (closes, downgraded) = (closes \<and> \<not> downgraded, downgraded)"

lemma link_of_entry_view: "link_of_entry (i, settled_view v) = link_of_entry (i, v)"
  by (cases v) simp

lemma link_of_entry_issue [simp]: "il_issue (link_of_entry e) = fst e"
  by (cases e) simp

lemma merge_unfold: "mergeNodeIssueLinks xs ys = map link_of_entry (merged_entries (xs @ ys))"
  by (simp add: mergeNodeIssueLinks_def merged_entries_def)

definition settle_entry :: "nat \<times> bool \<times> bool \<Rightarrow> nat \<times> bool \<times> bool" where
  "settle_entry e = (fst e, settled_view (snd e))"

lemma merge_settled: "mergeNodeIssueLinks xs ys = map link_of_entry (map settle_entry (merged_entries (xs @ ys)))"
  by (simp add: merge_unfold settle_entry_def link_of_entry_view)

lemma map_of_settled: "map_of (map settle_entry es) i = map_option settled_view (map_of es i)"
  by (induction es) (auto simp: settle_entry_def)

lemma merge_eqI:
  assumes "\<And>i. map_option settled_view (links_view (xs @ ys) i) = map_option settled_view (links_view (us @ vs) i)"
  shows "mergeNodeIssueLinks xs ys = mergeNodeIssueLinks us vs"
proof -
  have fst_eq: "map fst (map settle_entry es) = map fst es" for es
    by (induction es) (simp_all add: settle_entry_def)
  have "map settle_entry (merged_entries (xs @ ys)) = map settle_entry (merged_entries (us @ vs))"
    by (rule sorted_map_unique; (simp only: fst_eq)?)
       (use assms in \<open>simp_all add: merged_entries_facts map_of_settled del: links_view_append\<close>)
  then show ?thesis by (simp add: merge_settled)
qed

text \<open>The view of a merge is the settled join of the views.\<close>

lemma links_view_of_entries:
  "distinct (map fst es) \<Longrightarrow>
   links_view (map link_of_entry es) i = map_option settled_view (map_of es i)"
proof (induction es)
  case (Cons e es)
  obtain j c d where e: "e = (j, c, d)" by (cases e) auto
  show ?case
  proof (cases "j = i")
    case True
    then have "map_of es i = None" using Cons.prems e by (simp add: map_of_eq_None_iff)
    then show ?thesis using Cons e True by (simp add: link_view_def join_view_laws(1))
  qed (use Cons e in \<open>simp add: link_view_def\<close>)
qed simp

lemma merge_view: "links_view (mergeNodeIssueLinks xs ys) i = map_option settled_view (links_view (xs @ ys) i)"
  by (simp add: merge_unfold links_view_of_entries merged_entries_facts del: links_view_append)

lemma settled_join:
  "map_option settled_view (join_view (map_option settled_view x) y) = map_option settled_view (join_view x y)"
  "map_option settled_view (join_view y (map_option settled_view x)) = map_option settled_view (join_view y x)"
  by (cases x; cases y; auto)+

lemma settled_settled: "map_option settled_view (map_option settled_view x) = map_option settled_view x"
  by (cases x) auto

lemma merge_commute: "mergeNodeIssueLinks xs ys = mergeNodeIssueLinks ys xs"
  by (rule merge_eqI) (simp add: join_view_laws(2))

lemma merge_assoc:
  "mergeNodeIssueLinks (mergeNodeIssueLinks xs ys) zs = mergeNodeIssueLinks xs (mergeNodeIssueLinks ys zs)"
  by (rule merge_eqI) (simp add: merge_view settled_join join_view_laws(3))

lemma merge_idempotent:
  "mergeNodeIssueLinks (mergeNodeIssueLinks xs ys) (mergeNodeIssueLinks xs ys) = mergeNodeIssueLinks xs ys"
  by (rule merge_eqI) (simp add: merge_view join_view_laws(4) settled_settled)

lemma merge_absorb: "mergeNodeIssueLinks (mergeNodeIssueLinks xs ys) ys = mergeNodeIssueLinks xs ys"
  by (rule merge_eqI) (simp add: merge_view settled_join join_view_laws(3) join_view_laws(4))

lemma merge_sorted: "sorted (map il_issue (mergeNodeIssueLinks xs ys)) \<and> distinct (map il_issue (mergeNodeIssueLinks xs ys))"
proof -
  have "map il_issue (mergeNodeIssueLinks xs ys) = map fst (merged_entries (xs @ ys))"
    by (simp add: merge_unfold)
  then show ?thesis by (simp add: merged_entries_facts)
qed

section \<open>Contribution and publication\<close>

text \<open>
  The reduced fields this module reads. A link of a build is its issue, its intent and whether a
  downgrade is recorded. The forge is its two capabilities: \<^verbatim>\<open>closesIssues\<close> and the presence of
  \<^verbatim>\<open>updatePrIssueLinks\<close>.
\<close>

type_synonym plain_link = "nat \<times> link_intent"

record issue_link_state =
  ns_node :: bool
  ns_target :: bool
  ns_pr :: "nat option"
  ns_open :: bool
  ns_issueLinks :: "(nat \<times> link_intent \<times> bool) list"
  ns_union :: "node_issue_link list"
  ns_published :: "(nat \<times> plain_link list) option"

definition contributedIssueLinks :: "issue_link_state \<Rightarrow> node_issue_link list" where
  "contributedIssueLinks st =
     (if ns_node st then ns_union st
      else map (\<lambda>(i, intent, down). \<lparr>il_issue = i, il_intent = intent, il_downgraded = down\<rparr>)
             (sort_key fst (ns_issueLinks st)))"

definition plain_links :: "node_issue_link list \<Rightarrow> plain_link list" where
  "plain_links ls = map (\<lambda>l. (il_issue l, il_intent l)) ls"

definition nodeIssueLinksForForge :: "issue_link_state \<Rightarrow> bool \<Rightarrow> bool \<Rightarrow> plain_link list option" where
  "nodeIssueLinksForForge st closesIssues canUpdate =
     (if \<not> ns_node st \<or> ns_target st \<or> \<not> closesIssues \<or> \<not> canUpdate then None
      else if ns_union st \<noteq> [] then Some (plain_links (ns_union st)) else None)"

definition canonical_links :: "plain_link list \<Rightarrow> plain_link list" where
  "canonical_links ls = sort_key fst ls"

definition nodeIssueLinksPublished :: "issue_link_state \<Rightarrow> nat \<Rightarrow> plain_link list \<Rightarrow> bool" where
  "nodeIssueLinksPublished st pr ls =
     (case ns_published st of None \<Rightarrow> False
      | Some (p, pub) \<Rightarrow> p = pr \<and> canonical_links pub = canonical_links ls)"

definition nodeIssueLinksSyncPending :: "issue_link_state \<Rightarrow> bool \<Rightarrow> bool \<Rightarrow> plain_link list option" where
  "nodeIssueLinksSyncPending st closesIssues canUpdate =
     (case (nodeIssueLinksForForge st closesIssues canUpdate, ns_pr st) of
        (Some ls, Some pr) \<Rightarrow>
          (if \<not> ns_open st then None
           else (case ns_published st of
                   None \<Rightarrow> Some ls
                 | Some (p, pub) \<Rightarrow>
                     if p \<noteq> pr \<or> canonical_links pub \<noteq> canonical_links ls then Some ls else None))
      | _ \<Rightarrow> None)"

lemma sync_settles:
  assumes "nodeIssueLinksSyncPending st c u = Some ls" and "ns_pr st = Some pr"
  shows "nodeIssueLinksSyncPending (st\<lparr>ns_published := Some (pr, ls)\<rparr>) c u = None \<and>
         nodeIssueLinksPublished (st\<lparr>ns_published := Some (pr, ls)\<rparr>) pr ls"
  using assms
  by (auto simp: nodeIssueLinksSyncPending_def nodeIssueLinksForForge_def nodeIssueLinksPublished_def
      split: option.splits if_splits)

lemma sync_pending_iff:
  "nodeIssueLinksSyncPending st c u = Some ls \<longleftrightarrow>
   (\<exists>pr. ns_pr st = Some pr \<and> ns_open st \<and> nodeIssueLinksForForge st c u = Some ls \<and>
         \<not> nodeIssueLinksPublished st pr ls)"
  by (auto simp: nodeIssueLinksSyncPending_def nodeIssueLinksPublished_def split: option.splits)

end
