(* ===== verification/Landing.thy ===== *)
theory Landing
  imports Events
begin

text \<open>
  Landing, \<^verbatim>\<open>kernel/landing-state.ts\<close> and \<^verbatim>\<open>kernel/landing-policy.ts\<close>: the first matching policy rule,
  the folded decision, command and native receipts of a build, and what authorises a landing.
\<close>

section \<open>Policy\<close>

definition into_matches :: "string option \<Rightarrow> landing_target \<Rightarrow> bool" where
  "into_matches rule target =
     (case rule of
        None \<Rightarrow> True
      | Some r \<Rightarrow>
          (if r = ''root'' then target = ToRoot
           else if r = ''node'' then (case target of ToNode _ \<Rightarrow> True | ToRoot \<Rightarrow> False)
           else (case target of ToNode t \<Rightarrow> r = t | ToRoot \<Rightarrow> False)))"

definition rule_matches :: "landing_rule \<Rightarrow> build_kind \<Rightarrow> landing_target \<Rightarrow> string list \<Rightarrow> bool" where
  "rule_matches rule from_kind target labels \<longleftrightarrow>
     (case rule_from rule of None \<Rightarrow> True | Some f \<Rightarrow> f = from_kind) \<and>
     (case rule_label rule of None \<Rightarrow> True | Some l \<Rightarrow> l \<in> set labels) \<and>
     into_matches (rule_into rule) target"

fun evaluate_rules ::
  "nat \<Rightarrow> landing_rule list \<Rightarrow> build_kind \<Rightarrow> landing_target \<Rightarrow> string list \<Rightarrow> landing_mode \<times> rule_match"
where
  "evaluate_rules n [] from_kind target labels =
     ((if from_kind = Work then Auto else Consent), DefaultRule)"
| "evaluate_rules n (rule # rules) from_kind target labels =
     (if rule_matches rule from_kind target labels then (rule_mode rule, MatchedRule n rule)
      else evaluate_rules (Suc n) rules from_kind target labels)"

definition evaluateLandingPolicy ::
  "landing_rule list \<Rightarrow> build_kind \<Rightarrow> landing_target \<Rightarrow> string list \<Rightarrow> landing_mode \<times> rule_match" where
  "evaluateLandingPolicy rules from_kind target labels = evaluate_rules 0 rules from_kind target labels"

lemma evaluate_rules_cases:
  "(evaluate_rules n rules f t ls = ((if f = Work then Auto else Consent), DefaultRule) \<and>
    (\<forall>r \<in> set rules. \<not> rule_matches r f t ls)) \<or>
   (\<exists>i < length rules. evaluate_rules n rules f t ls = (rule_mode (rules ! i), MatchedRule (n + i) (rules ! i)) \<and>
      rule_matches (rules ! i) f t ls \<and> (\<forall>j < i. \<not> rule_matches (rules ! j) f t ls))"
proof (induction rules arbitrary: n)
  case (Cons r rs)
  show ?case
  proof (cases "rule_matches r f t ls")
    case False
    from Cons [of "Suc n"] show ?thesis
    proof (elim disjE exE conjE)
      fix i assume "i < length rs" "evaluate_rules (Suc n) rs f t ls = (rule_mode (rs ! i), MatchedRule (Suc n + i) (rs ! i))"
        "rule_matches (rs ! i) f t ls" "\<forall>j < i. \<not> rule_matches (rs ! j) f t ls"
      then show ?thesis using False
        by (intro disjI2 exI [of _ "Suc i"]) (auto simp: less_Suc_eq_0_disj)
    qed (use False in simp)
  qed (intro disjI2 exI [of _ 0], simp)
qed simp

text \<open>\<^verbatim>\<open>landingCandidateId\<close> is JSON of three strings: it separates candidates, so it is the triple.\<close>

definition landingCandidateId :: "landing_candidate \<Rightarrow> sha \<times> sha \<times> string" where
  "landingCandidateId c = (lc_head c, lc_parent c, lc_cycle c)"

lemma landingCandidateId_inj: "landingCandidateId c = landingCandidateId d \<longleftrightarrow> c = d"
  by (cases c; cases d) (simp add: landingCandidateId_def)

section \<open>Folded landing state\<close>

datatype command_kind = Hold | Land

record landing_command =
  cm_kind :: command_kind
  cm_seq :: nat
  cm_decisionSeq :: "nat option"
  cm_legacy :: bool

record landing_state =
  ln_applicationFailure :: "application_failed option"
  ln_nativeEnablePending :: "nat option"
  ln_forgeMerge :: "(bool \<times> bool) option"
  ln_decision :: "(landing_decision \<times> nat) option"
  ln_command :: "landing_command option"
  ln_acknowledgedSeq :: "nat option"
  ln_native :: "(native_applied \<times> nat) option"

definition initialLanding :: landing_state where
  "initialLanding =
     \<lparr>ln_applicationFailure = None, ln_nativeEnablePending = None, ln_forgeMerge = None,
      ln_decision = None, ln_command = None, ln_acknowledgedSeq = None, ln_native = None\<rparr>"

definition bare_native :: "bool \<Rightarrow> native_applied" where
  "bare_native on =
     \<lparr>na_enableSeq = None, na_enabled = on, na_candidate = None, na_decisionSeq = None,
      na_commandSeq = None, na_operation = None, na_publicationHead = None\<rparr>"

definition acknowledge :: "nat \<Rightarrow> landing_state \<Rightarrow> landing_state" where
  "acknowledge s st =
     (if map_option cm_seq (ln_command st) = Some s then st\<lparr>ln_acknowledgedSeq := Some s\<rparr> else st)"

definition legacy_command :: "command_kind \<Rightarrow> nat \<Rightarrow> landing_command" where
  "legacy_command k s = \<lparr>cm_kind = k, cm_seq = s, cm_decisionSeq = None, cm_legacy = True\<rparr>"

text \<open>A legacy control is ignored when it was a default, or when a new-style command exists.\<close>

definition legacy_ignored :: "nat option \<Rightarrow> landing_state \<Rightarrow> bool" where
  "legacy_ignored defaultSeq st \<longleftrightarrow>
     defaultSeq \<noteq> None \<or> (case ln_command st of None \<Rightarrow> False | Some c \<Rightarrow> \<not> cm_legacy c)"

definition landing_parent_accepted :: "landing_state \<Rightarrow> landing_state" where
  "landing_parent_accepted st =
     (let st1 = (if map_option cm_kind (ln_command st) = Some Land
                 then st\<lparr>ln_command := None, ln_acknowledgedSeq := None\<rparr> else st)
      in st1\<lparr>ln_decision := None, ln_native := None\<rparr>)"

definition advanceLanding :: "landing_state \<Rightarrow> ab_event \<Rightarrow> landing_state" where
  "advanceLanding st e =
     (let s = ev_seq e in
      case ev_body e of
        ENode (NodeParentAccepted _) \<Rightarrow> landing_parent_accepted st
      | ELanding (LandingDecided d) \<Rightarrow>
          st\<lparr>ln_applicationFailure := None, ln_decision := Some (d, s)\<rparr>
      | EBuild HoldRequested \<Rightarrow>
          st\<lparr>ln_applicationFailure := None,
             ln_command := Some \<lparr>cm_kind = Hold, cm_seq = s, cm_decisionSeq = None, cm_legacy = False\<rparr>\<rparr>
      | EBuild (LandRequested d) \<Rightarrow>
          st\<lparr>ln_command := Some \<lparr>cm_kind = Land, cm_seq = s, cm_decisionSeq = Some d, cm_legacy = False\<rparr>\<rparr>
      | ELanding (LandingCommandAcknowledged c) \<Rightarrow> acknowledge c st
      | EPr (PrAutoMergeEnabled _) \<Rightarrow> st\<lparr>ln_native := Some (bare_native True, s)\<rparr>
      | EPr (PrAutoMergeDisabled c) \<Rightarrow> acknowledge c (st\<lparr>ln_native := Some (bare_native False, s)\<rparr>)
      | ELanding LandingNativeEnableStarted \<Rightarrow> st\<lparr>ln_nativeEnablePending := Some s\<rparr>
      | ELanding (LandingForgeMerged a b) \<Rightarrow> st\<lparr>ln_forgeMerge := Some (a, b)\<rparr>
      | ELanding (LandingApplicationFailed p) \<Rightarrow> st\<lparr>ln_applicationFailure := Some p\<rparr>
      | ELanding (LandingNativeApplied p) \<Rightarrow>
          st\<lparr>ln_applicationFailure := None,
             ln_nativeEnablePending := (if na_enableSeq p = ln_nativeEnablePending st then None
                                        else ln_nativeEnablePending st),
             ln_native := Some (p, s)\<rparr>
      | EBuild (AutoMergeRequested _ d) \<Rightarrow>
          (if legacy_ignored d st then st
           else st\<lparr>ln_command := Some (legacy_command Land s), ln_acknowledgedSeq := Some s\<rparr>)
      | EBuild (AutoMergeCancelled d) \<Rightarrow>
          (if legacy_ignored d st then st else st\<lparr>ln_command := Some (legacy_command Hold s)\<rparr>)
      | _ \<Rightarrow> st)"

definition landingAuthorized :: "landing_state \<Rightarrow> bool" where
  "landingAuthorized st =
     (let kind = map_option cm_kind (ln_command st) in
      if kind = Some Hold then False
      else if (case ln_command st of Some c \<Rightarrow> cm_legacy c \<and> cm_kind c = Land | None \<Rightarrow> False) then True
      else (case ln_decision st of
              None \<Rightarrow> False
            | Some (d, _) \<Rightarrow> kind = Some Land \<or> ld_mode d = Auto))"

definition sameLandingCandidate :: "landing_candidate option \<Rightarrow> landing_candidate option \<Rightarrow> bool" where
  "sameLandingCandidate l r =
     (case (l, r) of (Some a, Some b) \<Rightarrow> landingCandidateId a = landingCandidateId b | _ \<Rightarrow> False)"

definition nativeLandingApplied :: "landing_state \<Rightarrow> bool" where
  "nativeLandingApplied st =
     (case ln_native st of
        None \<Rightarrow> False
      | Some (n, _) \<Rightarrow>
          na_enabled n \<and> na_decisionSeq n = map_option snd (ln_decision st) \<and>
          na_commandSeq n = map_option cm_seq (ln_command st) \<and>
          sameLandingCandidate (na_candidate n) (map_option (\<lambda>(d, _). ld_candidate d) (ln_decision st)))"

section \<open>What authorises a landing\<close>

lemmas landing_splits =
  event_body.split node_ev.split landing_ev.split build_ev.split pr_ev.split

text \<open>An operator's hold outlives everything but a new command.\<close>

definition land_command :: "ab_event \<Rightarrow> bool" where
  "land_command e = (case ev_body e of EBuild (LandRequested _) \<Rightarrow> True | _ \<Rightarrow> False)"

definition held :: "landing_state \<Rightarrow> bool" where
  "held st = (case ln_command st of None \<Rightarrow> False | Some c \<Rightarrow> cm_kind c = Hold \<and> \<not> cm_legacy c)"

lemma held_not_authorized: "held st \<Longrightarrow> \<not> landingAuthorized st"
  by (auto simp: held_def landingAuthorized_def split: option.splits)

lemma held_hold: "ev_body e = EBuild HoldRequested \<Longrightarrow> held (advanceLanding st e)"
  by (simp add: held_def advanceLanding_def)

lemma acknowledge_command [simp]: "ln_command (acknowledge s st) = ln_command st"
  by (simp add: acknowledge_def)

lemma acknowledge_decision [simp]: "ln_decision (acknowledge s st) = ln_decision st"
  by (simp add: acknowledge_def)

lemma parent_accepted_command:
  "ln_command (landing_parent_accepted st) =
     (if map_option cm_kind (ln_command st) = Some Land then None else ln_command st)"
  "ln_decision (landing_parent_accepted st) = None"
  by (auto simp: landing_parent_accepted_def Let_def)

lemma held_step:
  assumes "held st" and "\<not> land_command e"
  shows "held (advanceLanding st e)"
proof -
  obtain c where c: "ln_command st = Some c" "cm_kind c = Hold" "\<not> cm_legacy c"
    using assms(1) by (auto simp: held_def split: option.splits)
  then have "legacy_ignored d st" for d by (simp add: legacy_ignored_def)
  then show ?thesis
    using c assms(2) unfolding advanceLanding_def Let_def land_command_def held_def
    by (auto simp: parent_accepted_command split: landing_splits)
qed

lemma held_fold:
  "held st \<Longrightarrow> \<forall>e \<in> set es. \<not> land_command e \<Longrightarrow> held (foldl advanceLanding st es)"
  by (induction es arbitrary: st) (simp_all add: held_step)

text \<open>An accepted new parent revokes the decision and any consent.\<close>

definition grants :: "ab_event \<Rightarrow> bool" where
  "grants e = (case ev_body e of
     ELanding (LandingDecided _) \<Rightarrow> True | EBuild (LandRequested _) \<Rightarrow> True
   | EBuild (AutoMergeRequested _ _) \<Rightarrow> True | _ \<Rightarrow> False)"

definition revoked :: "landing_state \<Rightarrow> bool" where
  "revoked st \<longleftrightarrow> ln_decision st = None \<and> map_option cm_kind (ln_command st) \<noteq> Some Land"

lemma revoked_not_authorized: "revoked st \<Longrightarrow> \<not> landingAuthorized st"
  by (auto simp: revoked_def landingAuthorized_def split: option.splits)

lemma revoked_accepted: "ev_body e = ENode (NodeParentAccepted p) \<Longrightarrow> revoked (advanceLanding st e)"
  by (simp add: revoked_def advanceLanding_def parent_accepted_command)

lemma revoked_step: "revoked st \<Longrightarrow> \<not> grants e \<Longrightarrow> revoked (advanceLanding st e)"
  unfolding advanceLanding_def Let_def grants_def revoked_def
  by (auto simp: parent_accepted_command legacy_command_def split: landing_splits)

lemma revoked_fold:
  "revoked st \<Longrightarrow> \<forall>e \<in> set es. \<not> grants e \<Longrightarrow> revoked (foldl advanceLanding st es)"
  by (induction es arbitrary: st) (simp_all add: revoked_step)

text \<open>The command an acknowledgement names is the current one or an earlier one.\<close>

definition ack_inv :: "nat \<Rightarrow> landing_state \<Rightarrow> bool" where
  "ack_inv n st \<longleftrightarrow>
     (\<forall>c. ln_command st = Some c \<longrightarrow> cm_seq c \<le> n) \<and>
     (\<forall>a. ln_acknowledgedSeq st = Some a \<longrightarrow> a \<le> n) \<and>
     (\<forall>d s. ln_decision st = Some (d, s) \<longrightarrow> s \<le> n) \<and>
     (\<forall>a c. ln_acknowledgedSeq st = Some a \<longrightarrow> ln_command st = Some c \<longrightarrow> a \<le> cm_seq c)"

lemma ack_inv_acknowledge: "ack_inv n st \<Longrightarrow> ack_inv n (acknowledge s st)"
  by (auto simp: ack_inv_def acknowledge_def)

lemma ack_inv_mono: "ack_inv n st \<Longrightarrow> n \<le> m \<Longrightarrow> ack_inv m st"
  unfolding ack_inv_def by (meson le_trans)

lemma ack_inv_accepted: "ack_inv n st \<Longrightarrow> ack_inv n (landing_parent_accepted st)"
  by (auto simp: ack_inv_def landing_parent_accepted_def Let_def)

lemma ack_inv_step:
  assumes "ack_inv n st" and "n \<le> ev_seq e"
  shows "ack_inv (ev_seq e) (advanceLanding st e)"
proof -
  have inv: "ack_inv (ev_seq e) st" using assms by (rule ack_inv_mono)
  have other: "ack_inv (ev_seq e) (st\<lparr>ln_native := x\<rparr>)" for x using inv by (simp add: ack_inv_def)
  show ?thesis
    using inv unfolding advanceLanding_def Let_def
    by (simp add: ack_inv_acknowledge ack_inv_accepted other split: landing_splits)
       (simp add: ack_inv_def legacy_command_def)
qed

end
