(* ===== verification/Compatibility.thy ===== *)
theory Compatibility
  imports EventTypes Incremental
begin

text \<open>
  Mixed-version safety, \<^verbatim>\<open>events/compatibility.ts\<close> and \<^verbatim>\<open>kernel/mixed-version.ts\<close>: facts of a type
  this build does not know are counted, and the ones their writer did not classify as advisory are
  decisive: they defer every kernel decision until a build that knows them runs.
\<close>

record compatibility_state =
  cs_unknownFacts :: nat
  cs_decisiveFacts :: nat
  cs_lastSeq :: nat
  cs_decisiveBoundary :: nat
  cs_types :: "string list"
  cs_writerVersions :: "string list"
  cs_legacyVersionUnavailable :: bool
  cs_decisiveTypes :: "string list"
  cs_decisiveWriterVersions :: "string list"
  cs_decisiveLegacyVersionUnavailable :: bool

definition initialCompatibility :: compatibility_state where
  "initialCompatibility =
     \<lparr>cs_unknownFacts = 0, cs_decisiveFacts = 0, cs_lastSeq = 0, cs_decisiveBoundary = 0,
      cs_types = [], cs_writerVersions = [], cs_legacyVersionUnavailable = False,
      cs_decisiveTypes = [], cs_decisiveWriterVersions = [],
      cs_decisiveLegacyVersionUnavailable = False\<rparr>"

definition add_version :: "(string \<times> bool) option \<Rightarrow> string list \<Rightarrow> string list" where
  "add_version meta vs = (case meta of None \<Rightarrow> vs | Some (v, _) \<Rightarrow> set_add v vs)"

definition advisory :: "(string \<times> bool) option \<Rightarrow> bool" where
  "advisory meta = (case meta of None \<Rightarrow> False | Some (_, adv) \<Rightarrow> adv)"

definition note_decisive ::
  "string \<Rightarrow> (string \<times> bool) option \<Rightarrow> nat \<Rightarrow> compatibility_state \<Rightarrow> compatibility_state" where
  "note_decisive name meta seq st =
     st\<lparr>cs_decisiveTypes := set_add name (cs_decisiveTypes st),
        cs_decisiveWriterVersions := add_version meta (cs_decisiveWriterVersions st),
        cs_decisiveLegacyVersionUnavailable :=
          cs_decisiveLegacyVersionUnavailable st \<or> meta = None,
        cs_decisiveFacts := cs_decisiveFacts st + 1,
        cs_decisiveBoundary := seq\<rparr>"

definition compatibility_step :: "compatibility_state \<Rightarrow> ab_event \<Rightarrow> compatibility_state" where
  "compatibility_step st e =
     (case ev_body e of
        EUnknown name meta \<Rightarrow>
          (let st1 = st\<lparr>cs_lastSeq := max (cs_lastSeq st) (ev_seq e),
                        cs_unknownFacts := cs_unknownFacts st + 1,
                        cs_types := set_add name (cs_types st),
                        cs_writerVersions := add_version meta (cs_writerVersions st),
                        cs_legacyVersionUnavailable := cs_legacyVersionUnavailable st \<or> meta = None\<rparr>
           in if advisory meta then st1 else note_decisive name meta (ev_seq e) st1)
      | _ \<Rightarrow> st)"

definition advanceCompatibility :: "compatibility_state \<Rightarrow> ab_event list \<Rightarrow> compatibility_state" where
  "advanceCompatibility = fold_events compatibility_step"

definition compatibilityDiagnostic :: "compatibility_state \<Rightarrow> string option" where
  "compatibilityDiagnostic facts =
     (if cs_decisiveFacts facts = 0 then None
      else (let versions = (if cs_decisiveWriterVersions facts \<noteq> []
                            then ''written by version '' @ join '', '' (cs_decisiveWriterVersions facts)
                            else []);
                legacy = (if cs_decisiveLegacyVersionUnavailable facts
                          then ''writer version unavailable for legacy facts'' else [])
            in Some (''Kernel decisions deferred: restart with a build that understands '' @
                     join '', '' (cs_decisiveTypes facts) @ '' ('' @
                     join ''; '' (filter (\<lambda>t. t \<noteq> []) [versions, legacy]) @ '').'')))"

definition mixedVersionDeferred :: "compatibility_state \<Rightarrow> bool" where
  "mixedVersionDeferred facts = (cs_decisiveFacts facts > 0)"

section \<open>What the counters mean\<close>

definition decisive :: "ab_event \<Rightarrow> bool" where
  "decisive e = (case ev_body e of EUnknown _ meta \<Rightarrow> \<not> advisory meta | _ \<Rightarrow> False)"

lemma step_counts:
  "cs_decisiveFacts (compatibility_step st e) = cs_decisiveFacts st + (if decisive e then 1 else 0)"
  "cs_unknownFacts (compatibility_step st e) = cs_unknownFacts st + (if known_event e then 0 else 1)"
  "set (cs_decisiveTypes (compatibility_step st e)) =
     set (cs_decisiveTypes st) \<union> (if decisive e then {event_type (ev_body e)} else {})"
  by (auto simp: compatibility_step_def decisive_def known_event_def note_decisive_def Let_def
      split: event_body.split)

lemma advance_counts:
  "cs_decisiveFacts (advanceCompatibility st es) = cs_decisiveFacts st + length (filter decisive es)"
  "cs_unknownFacts (advanceCompatibility st es) = cs_unknownFacts st + length (filter (\<lambda>e. \<not> known_event e) es)"
  "set (cs_decisiveTypes (advanceCompatibility st es)) =
     set (cs_decisiveTypes st) \<union> (\<lambda>e. event_type (ev_body e)) ` set (filter decisive es)"
  unfolding advanceCompatibility_def
  by (induction es arbitrary: st) (auto simp: step_counts)

lemma deferred_iff:
  "mixedVersionDeferred (advanceCompatibility initialCompatibility es) \<longleftrightarrow> (\<exists>e \<in> set es. decisive e)"
  by (auto simp: mixedVersionDeferred_def advance_counts initialCompatibility_def filter_empty_conv)

lemma compatibility_known [simp]: "known_event e \<Longrightarrow> compatibility_step st e = st"
  by (simp add: compatibility_step_def known_event_def split: event_body.splits)

lemma diagnostic_iff_deferred: "compatibilityDiagnostic facts \<noteq> None \<longleftrightarrow> mixedVersionDeferred facts"
  by (simp add: compatibilityDiagnostic_def mixedVersionDeferred_def Let_def)

end
