(* ===== verification/IntegrationState.thy ===== *)
theory IntegrationState
  imports Incremental
begin

text \<open>
  The folded integration transaction of a node, \<^verbatim>\<open>IntegrationState\<close> and \<^verbatim>\<open>advanceIntegration\<close> of
  \<^verbatim>\<open>kernel/integration-state.ts\<close>. The predicates over a whole build are in \<^verbatim>\<open>Integration\<close>.
\<close>

record integration_state =
  is_cycles :: "(integration_prepared \<times> nat) list option"
  is_failures :: "(verification_failed \<times> nat) list"
  is_observation :: "integration_observed option"
  is_cycle :: "(integration_prepared \<times> nat) option"
  is_intent :: "landing_intended option"
  is_landing :: "integration_landed option"
  is_audit :: "integration_audited option"

definition initialIntegration :: integration_state where
  "initialIntegration =
     \<lparr>is_cycles = None, is_failures = [], is_observation = None, is_cycle = None, is_intent = None,
      is_landing = None, is_audit = None\<rparr>"

definition push_cycle ::
  "(integration_prepared \<times> nat) \<Rightarrow> (integration_prepared \<times> nat) list option \<Rightarrow>
   (integration_prepared \<times> nat) list option" where
  "push_cycle c cs = Some ((case cs of None \<Rightarrow> [] | Some l \<Rightarrow> l) @ [c])"

fun advanceIntegration :: "integration_state \<Rightarrow> integration_ev \<Rightarrow> nat \<Rightarrow> integration_state" where
  "advanceIntegration st (IntegrationVerificationFailed p) seq =
     st\<lparr>is_failures := is_failures st @ [(p, seq)]\<rparr>"
| "advanceIntegration st (IntegrationObserved p) seq = st\<lparr>is_observation := Some p\<rparr>"
| "advanceIntegration st (IntegrationPrepared p) seq =
     st\<lparr>is_cycle := Some (p, seq), is_cycles := push_cycle (p, seq) (is_cycles st)\<rparr>"
| "advanceIntegration st (IntegrationAbandoned i) seq =
     (if map_option li_id (is_intent st) = Some i then st\<lparr>is_intent := None\<rparr> else st)"
| "advanceIntegration st (IntegrationLandingIntended p) seq = st\<lparr>is_intent := Some p\<rparr>"
| "advanceIntegration st (IntegrationLanded p) seq = st\<lparr>is_landing := Some p\<rparr>"
| "advanceIntegration st (IntegrationAudited p) seq = st\<lparr>is_audit := Some p\<rparr>"

text \<open>Abandoning names an intent: another intent in flight survives it.\<close>

lemma abandon_other:
  "is_intent st = Some p \<Longrightarrow> li_id p \<noteq> i \<Longrightarrow> advanceIntegration st (IntegrationAbandoned i) seq = st"
  by simp

text \<open>The current cycle is always the last of the receipts.\<close>

definition cycle_inv :: "integration_state \<Rightarrow> bool" where
  "cycle_inv st \<longleftrightarrow>
     (\<forall>c. is_cycle st = Some c \<longrightarrow> (\<exists>cs. is_cycles st = Some (cs @ [c])))"

lemma cycle_inv_initial [simp]: "cycle_inv initialIntegration"
  by (simp add: cycle_inv_def initialIntegration_def)

lemma cycle_inv_advance: "cycle_inv st \<Longrightarrow> cycle_inv (advanceIntegration st e seq)"
  by (cases e) (auto simp: cycle_inv_def push_cycle_def)

end
