(* ===== verification/PollingActivity.thy ===== *)
theory PollingActivity
  imports EventTypes Incremental
begin

text \<open>
  The activity map of \<^verbatim>\<open>advancePollingActivity\<close> (\<^verbatim>\<open>kernel/node-polling.ts\<close>): one entry per event type.
  An observation's entry is its meaning, the canonical text of its payload, which here is the payload
  itself; any other entry is the text of its seq, so a repeated command always changes it.
\<close>

datatype activity = Meaning event_body | AtSeq nat

fun polling_ignored :: "event_body \<Rightarrow> bool" where
  "polling_ignored (ENode (NodePollChecked _)) = True"
| "polling_ignored (EObservation _) = True"
| "polling_ignored (ESession _) = True"
| "polling_ignored (ERunner _) = True"
| "polling_ignored (EWorkspace _) = True"
| "polling_ignored (EBuild (JanitorAttemptFailed _)) = True"
| "polling_ignored (EBuild JanitorFailing) = True"
| "polling_ignored (EBuild JanitorRecovered) = True"
| "polling_ignored _ = False"

text \<open>\<^verbatim>\<open>observations\<close>, the set of type names kept by meaning.\<close>

fun polling_observation :: "event_body \<Rightarrow> bool" where
  "polling_observation (ENode (NodeCompared _)) = True"
| "polling_observation (ENode (NodeParentDistance _)) = True"
| "polling_observation (EIntegration (IntegrationObserved _)) = True"
| "polling_observation (ETarget (TargetMoved _)) = True"
| "polling_observation (ENode (NodeInventory _)) = True"
| "polling_observation (ELanding (LandingDecided _)) = True"
| "polling_observation (ENode (NodeParentRejected _)) = True"
| "polling_observation _ = False"

definition advancePollingActivity :: "(string, activity) jsmap \<Rightarrow> ab_event \<Rightarrow> (string, activity) jsmap" where
  "advancePollingActivity act e =
     (if polling_ignored (ev_body e) then act
      else jm_set (event_type (ev_body e))
             (if polling_observation (ev_body e) then Meaning (ev_body e) else AtSeq (ev_seq e)) act)"

text \<open>A repeated observation of the same meaning is no activity; the map keeps one entry per type.\<close>

lemma update_same: "map_of m k = Some v \<Longrightarrow> AList.update k v m = m"
  by (induction m) auto

lemma repeated_observation_quiet:
  assumes "ev_body e' = ev_body e" and "polling_observation (ev_body e)"
  shows "advancePollingActivity (advancePollingActivity act e) e' = advancePollingActivity act e"
  using assms by (simp add: advancePollingActivity_def update_same update_conv)

lemma polling_one_entry:
  "distinct (map fst act) \<Longrightarrow> distinct (map fst (advancePollingActivity act e))"
  by (simp add: advancePollingActivity_def distinct_update)

end
