(* ===== verification/LogProperties.thy ===== *)
theory LogProperties
  imports LeafRestack ReadDeferrals LogIndexFacts NodeRestack NodeIssueLinks Landing Compatibility
    IntegrationState PollingActivity
begin

text \<open>
  The properties of the log folds beside the build reducer: the engine's log index, the leaf and node
  restack states, read deferrals, issue links, landing, compatibility and polling activity.
\<close>

abbreviation sample_event :: "nat \<Rightarrow> event_body \<Rightarrow> ab_event" where
  "sample_event n b \<equiv> \<lparr>ev_seq = n, ev_ts = 0, ev_actor = Kernel, ev_body = b\<rparr>"

section \<open>The log index\<close>




text \<open>C6: authority of the approved plan. The plan the index calls approved was completed after the
  restart boundary and before the last approving verdict of its round, and no other completion of
  that round came between: a plan completed after the verdict has no authority.\<close>

theorem approved_plan_was_reviewed:
  assumes "lo_approvedPlan (lx_plan (indexLog es)) = Some q"
  shows "\<exists>A e1 B e2 C p. filterKnownEvents es = A @ e1 # B @ e2 # C \<and>
           ev_body e1 = ELoop (PlanCompleted (vp_round p) (pq_artifact q) (pq_verifySteps q)) \<and>
           ev_seq e1 = pq_seq q \<and> pq_seq q > lx_restartSeq (indexLog es) \<and>
           ev_body e2 = ELoop (PlanReviewVerdict p) \<and>
           approves_plan (lx_restartSeq (indexLog es)) e2 \<and>
           (\<forall>e \<in> set B. \<not> completes_plan (lx_restartSeq (indexLog es)) (vp_round p) e) \<and>
           (\<forall>e \<in> set C. \<not> approves_plan (lx_restartSeq (indexLog es)) e)"
  by (rule approved_plan_events [OF assms refl])

abbreviation sample_artifact :: "nat \<Rightarrow> artifact_ref" where
  "sample_artifact n \<equiv> \<lparr>art_kind = ''plan'', art_rev = n\<rparr>"

abbreviation sample_verdict :: "nat \<Rightarrow> review_verdict_kind \<Rightarrow> verdict_payload" where
  "sample_verdict r v \<equiv> \<lparr>vp_round = r, vp_verdict = v, vp_findings = [],
     vp_artifact = sample_artifact r, vp_reason = None\<rparr>"

abbreviation plan_log :: "ab_event list" where
  "plan_log \<equiv>
     [sample_event 1 (ELoop (PlanStarted 1 None)),
      sample_event 2 (ELoop (PlanCompleted 1 (sample_artifact 1) None)),
      sample_event 3 (ELoop (PlanReviewVerdict (sample_verdict 1 Approve))),
      sample_event 4 (ELoop (PlanCompleted 1 (sample_artifact 2) None))]"

theorem approved_plan_was_reviewed_witness:
  "\<exists>A e1 B e2 C p. filterKnownEvents plan_log = A @ e1 # B @ e2 # C \<and>
     ev_body e1 = ELoop (PlanCompleted (vp_round p) (sample_artifact 1) None) \<and> ev_seq e1 = 2 \<and>
     ev_body e2 = ELoop (PlanReviewVerdict p)"
proof -
  have "lo_approvedPlan (lx_plan (indexLog plan_log)) =
      Some \<lparr>pq_seq = 2, pq_artifact = sample_artifact 1, pq_verifySteps = None\<rparr>"
    by code_simp
  from approved_plan_was_reviewed [OF this, unfolded plan_completion.simps] show ?thesis by blast
qed

text \<open>guidance counts as delivered only when it was. Every delivery the index reports is a
  session start whose phase and round had, earlier in the log, a start carrying that escalation's
  guidance.\<close>

lemma guidance_delivery_has_carrier:
  assumes "d \<in> set (lx_guidanceDeliveries (indexLog es))"
  shows "\<exists>k. \<exists>e1 \<in> set es. \<exists>e2 \<in> set es.
     carries e1 k (gd_escalation d) \<and> launches e2 k \<and> ev_seq e2 = gd_seq d \<and> ev_seq e1 < ev_seq e2"
  by (rule delivered_guidance_provenance [OF assms])

abbreviation guided_session :: session_started where
  "guided_session \<equiv> \<lparr>ss_continuation = None, ss_budgetMs = None, ss_session = ''s'', ss_role = ''plan'',
     ss_runner = ''r'', ss_model = None, ss_args = None, ss_account = None, ss_phase = Core Plan,
     ss_round = Some 1, ss_stream = None, ss_prompt = None\<rparr>"

abbreviation guided_log :: "ab_event list" where
  "guided_log \<equiv>
     [sample_event 1 (ELoop (PlanStarted 1 (Some (FbGuidance ''e'' ''do it'')))),
      sample_event 2 (ESession (SessionStarted guided_session))]"

lemma guidance_delivery_has_carrier_witness:
  "\<exists>k. \<exists>e1 \<in> set guided_log. \<exists>e2 \<in> set guided_log.
     carries e1 k ''e'' \<and> launches e2 k \<and> ev_seq e2 = 2 \<and> ev_seq e1 < ev_seq e2"
proof -
  let ?d = "\<lparr>gd_escalation = ''e'', gd_seq = 2\<rparr>"
  have "?d \<in> set (lx_guidanceDeliveries (indexLog guided_log))" by code_simp
  from guidance_delivery_has_carrier [OF this] show ?thesis
    by (simp only: guidance_delivery.simps)
qed

section \<open>Restacks\<close>

text \<open>C14: a node writer never publishes an incomplete or reordered replay. In any log the node fold
  accepts, a confirmed rewrite belongs to the active reservation, replaced the head the reservation
  expected, replayed every reserved change once and in order on top of the reserved parent, and its
  head is the head of that chain.\<close>

theorem node_rewrite_complete:
  assumes "advanceNodeRestack (Inr initialNodeRestack) es = Inr st" and "nrs_rewritten st = Some r"
  shows "\<exists>a. nrs_active st = Some a \<and> nw_previous r = wr_expected a \<and>
     length (nrs_items st) = length (wr_changes a) \<and>
     replay_chain (wr_id a) 0 (wr_parent a) (nrs_items st) \<and>
     nw_head r = chain_head (wr_parent a) (nrs_items st)"
proof -
  have "node_inv initialNodeRestack" by (simp add: node_inv_def initialNodeRestack_def)
  from node_inv_advance [OF this assms(1)] show ?thesis using assms(2) by (rule rewritten_complete)
qed

abbreviation rewrite_log :: "ab_event list" where
  "rewrite_log \<equiv> map (sample_event 1 \<circ> ENode)
     [NodeWriterReserved \<lparr>wr_id = ''w'', wr_restack = True, wr_requests = None, wr_expected = ''h0'',
        wr_parent = ''p1'', wr_oldBase = ''p0'',
        wr_changes = [\<lparr>ch_sha = ''c'', ch_build = None\<rparr>]\<rparr>,
      NodeItemPrepared \<lparr>ip_id = ''w'', ip_index = 0, ip_base = ''p1''\<rparr>,
      NodeItemReplayed \<lparr>ir_id = ''w'', ir_index = 0, ir_base = ''p1'', ir_head = ''h1'', ir_dropped = False\<rparr>,
      NodePublishIntended \<lparr>pi_id = ''w'', pi_head = ''h1''\<rparr>,
      NodeRewritten \<lparr>nw_id = ''w'', nw_previous = ''h0'', nw_head = ''h1''\<rparr>]"

theorem node_rewrite_complete_witness:
  "\<exists>st r a. advanceNodeRestack (Inr initialNodeRestack) rewrite_log = Inr st \<and>
     nrs_rewritten st = Some r \<and> nrs_active st = Some a \<and>
     nw_head r = chain_head (wr_parent a) (nrs_items st)"
proof -
  have "case advanceNodeRestack (Inr initialNodeRestack) rewrite_log of
      Inr st \<Rightarrow> nrs_rewritten st \<noteq> None | Inl _ \<Rightarrow> False"
    by code_simp
  then obtain st r where "advanceNodeRestack (Inr initialNodeRestack) rewrite_log = Inr st"
    and "nrs_rewritten st = Some r"
    by (auto split: sum.splits)
  from this node_rewrite_complete [OF this] show ?thesis by blast
qed

section \<open>Issue links\<close>

text \<open>publishing settles the sync: after the pending links of an open pull request are recorded as
  published, nothing is pending.\<close>

lemma publishing_settles_sync:
  assumes "nodeIssueLinksSyncPending st c u = Some ls" and "ns_pr st = Some pr"
  shows "nodeIssueLinksSyncPending (st\<lparr>ns_published := Some (pr, ls)\<rparr>) c u = None"
  using sync_settles [OF assms] by blast

lemma publishing_settles_sync_witness:
  "nodeIssueLinksSyncPending
     \<lparr>ns_node = True, ns_target = False, ns_pr = Some 7, ns_open = True, ns_issueLinks = [],
      ns_union = [\<lparr>il_issue = 3, il_intent = Closes, il_downgraded = False\<rparr>],
      ns_published = Some (7, [(3, Closes)])\<rparr> True True = None"
  using publishing_settles_sync [of
     "\<lparr>ns_node = True, ns_target = False, ns_pr = Some 7, ns_open = True, ns_issueLinks = [],
      ns_union = [\<lparr>il_issue = 3, il_intent = Closes, il_downgraded = False\<rparr>],
      ns_published = None\<rparr>" True True "[(3, Closes)]" 7]
  by (simp add: nodeIssueLinksSyncPending_def nodeIssueLinksForForge_def plain_links_def)

section \<open>Landing\<close>

text \<open>the first matching rule decides. The landing policy answers with the first rule whose
  predicates all match; with none, a leaf lands automatically and a node needs consent.\<close>

lemma first_rule_decides:
  "(evaluateLandingPolicy rules f t ls = ((if f = Work then Auto else Consent), DefaultRule) \<and>
    filter (\<lambda>r. rule_matches r f t ls) rules = []) \<or>
   (\<exists>i < length rules.
      evaluateLandingPolicy rules f t ls = (rule_mode (rules ! i), MatchedRule i (rules ! i)) \<and>
      rule_matches (rules ! i) f t ls \<and> filter (\<lambda>r. rule_matches r f t ls) (take i rules) = [])"
  using evaluate_rules_cases [of 0 rules f t ls]
  by (force simp: evaluateLandingPolicy_def filter_empty_conv in_set_conv_nth)

text \<open>a hold holds. After an operator's hold, landing stays unauthorized whatever follows, until a
  landing command is given.\<close>

lemma hold_blocks_landing:
  assumes "ev_body h = EBuild HoldRequested" and "\<forall>e \<in> set es. \<not> land_command e"
  shows "\<not> landingAuthorized (foldl advanceLanding st (h # es))"
  using held_not_authorized [OF held_fold [OF held_hold [OF assms(1)] assms(2)]] by simp

lemma hold_blocks_landing_witness:
  "\<not> landingAuthorized (foldl advanceLanding initialLanding
     (sample_event 1 (EBuild HoldRequested) # [sample_event 2 (EBuild (AutoMergeRequested True None))]))"
  by (rule hold_blocks_landing) (simp_all add: land_command_def)

text \<open>a new parent revokes consent. Once a node's parent change is accepted, neither an earlier
  decision nor an earlier landing command authorizes landing: only a later decision, landing command
  or legacy auto-merge command can.\<close>

lemma new_parent_revokes_consent:
  assumes "ev_body a = ENode (NodeParentAccepted p)" and "\<forall>e \<in> set es. \<not> grants e"
  shows "\<not> landingAuthorized (foldl advanceLanding st (a # es))"
  using revoked_not_authorized [OF revoked_fold [OF revoked_accepted [OF assms(1)] assms(2)]] by simp

abbreviation sample_parent :: node_parent where
  "sample_parent \<equiv> \<lparr>np_target = None, np_branch = ''main''\<rparr>"

lemma new_parent_revokes_consent_witness:
  "\<not> landingAuthorized (foldl advanceLanding
     (initialLanding\<lparr>ln_command := Some \<lparr>cm_kind = Land, cm_seq = 1, cm_decisionSeq = None, cm_legacy = True\<rparr>\<rparr>)
     (sample_event 2 (ENode (NodeParentAccepted
        \<lparr>px_id = ''i'', px_old = sample_parent, px_next = sample_parent, px_revision = ''r''\<rparr>)) #
      [sample_event 3 (EBuild HoldRequested)]))"
  by (rule new_parent_revokes_consent) (simp_all add: grants_def)

section \<open>Compatibility\<close>

text \<open>kernel decisions are deferred exactly when the log holds a decisive fact this build does not
  know; an advisory unknown fact never defers, and a deferral always has a diagnostic.\<close>

lemma deferred_exactly_when_decisive:
  "mixedVersionDeferred (advanceCompatibility initialCompatibility es) = list_ex decisive es \<and>
   (compatibilityDiagnostic (advanceCompatibility initialCompatibility es) \<noteq> None) = list_ex decisive es"
  by (simp only: diagnostic_iff_deferred deferred_iff list_ex_iff)

end
