(* ===== verification/BuildAcc.thy ===== *)
theory BuildAcc
  imports Compatibility PollingActivity IntegrationState NodeRestack NodeIssueLinks Landing VerifyStage
begin

text \<open>
  The accumulator of the build reducer, \<^verbatim>\<open>BuildAcc\<close> of \<^verbatim>\<open>kernel/reducer.ts\<close>, and the records of its
  fields. An id-keyed \<^verbatim>\<open>Map\<close> the fold rebuilds from an entry array is the association list itself.
  \<^verbatim>\<open>BuildState\<close> repeats these fields; \<open>build_state\<close> is the accumulator with the derived ones.
\<close>

record build_issue_link =
  bl_issue :: nat
  bl_intent :: link_intent
  bl_downgrade :: "(string \<times> nat) option"

record node_links_state =
  nl_builds :: "string list"
  nl_links :: "node_issue_link list"
  nl_published :: "(nat \<times> plain_link list \<times> nat) option"

record phase_context =
  pt_phase :: phase
  pt_round :: "nat option"
  pt_attempt :: "nat option"
  pt_seq :: nat

datatype command = Pause | Resume | AbortCommand

record pending_command =
  pd_command :: command
  pd_seq :: nat
  pd_reason :: "string option"
  pd_actor :: actor

record open_session =
  os_nativeHandle :: "native_handle option"
  os_continuation :: "continuation option"
  os_budgetMs :: "nat option"
  os_account :: "account option"
  os_args :: "string list option"
  os_startedAt :: timestamp
  os_resumeFallback :: bool
  os_resumed :: bool
  os_suspensionCause :: "suspension_cause option"
  os_suspendedActiveMs :: "nat option"
  os_session :: string
  os_role :: string
  os_runner :: string
  os_model :: "string option"
  os_phase :: phase
  os_round :: "nat option"
  os_stream :: "string option"
  os_prompt :: "string option"
  os_seq :: nat

record session_totals =
  to_activeMs :: nat
  to_usage :: "usage option"
  to_transcripts :: "artifact_ref list"

datatype pr_lifecycle = PrIsOpen | PrIsMerged | PrIsClosed | PrIsConflicted

record auto_merge =
  am_explicitCommandSeq :: "nat option"
  am_requested :: bool
  am_commandSeq :: "nat option"
  am_defaultSeq :: "nat option"
  am_applied :: "(bool \<times> nat) option"

record drain_execution =
  dx_correlations :: "string list"
  dx_relaunch :: "relaunch_requested option"
  dx_authorization :: "drain_authorized option"
  dx_correlation :: string
  dx_ended :: bool
  dx_suspended :: bool

record plan_progress =
  pp_round :: nat
  pp_approved :: bool
  pp_artifactRev :: "nat option"
  pp_approval :: "(nat \<times> nat) option"

record implement_progress =
  im_round :: nat
  im_commits :: "commit_range option"
  im_artifactRev :: "nat option"

record verify_progress =
  vg_maxAttemptSeen :: nat
  vg_results :: "verify_record list"
  vg_currentStep :: "string option"
  vg_running :: "string list option"
  vg_configPin :: "(config_captured \<times> nat) option"
  vg_cycleSince :: nat

datatype terminal_status = TDone | TAborted

record build_acc =
  ba_endedInstances :: "string list"
  ba_draining :: "(string, drain_execution) jsmap"
  ba_compatibility :: compatibility_state
  ba_deferredBoundary :: nat
  ba_kind :: "build_kind option"
  ba_target :: "node_target option"
  ba_baseBranch :: "string option"
  ba_mergedSha :: "sha option"
  ba_nodeOpening :: "node_opening option"
  ba_nodeOpened :: "sha option"
  ba_nodeRestack :: "node_restack_state option"
  ba_integration :: "integration_state option"
  ba_pollingActivity :: "(string, activity) jsmap"
  ba_nodePolling :: "(poll_checked \<times> timestamp) option"
  ba_nodeComparison :: "node_compared option"
  ba_nodeIssueLinks :: "node_links_state option"
  ba_attached :: bool
  ba_pausedFlag :: bool
  ba_terminal :: "terminal_status option"
  ba_outcome :: "build_outcome option"
  ba_round :: nat
  ba_currentPhase :: "phase_context option"
  ba_lastCompletedPhase :: "phase_context option"
  ba_openEscalations :: "(string, open_escalation) jsmap"
  ba_answered :: "answered_escalation list"
  ba_planCeiling :: "nat option"
  ba_codeCeiling :: "nat option"
  ba_pr :: "pr_ref option"
  ba_prState :: "pr_lifecycle option"
  ba_targetRewrite :: "(target_rewritten \<times> nat) option"
  ba_janitor :: "(janitor_failure \<times> bool) option"
  ba_landing :: landing_state
  ba_autoMerge :: auto_merge
  ba_specRev :: "nat option"
  ba_restartSince :: nat
  ba_pinnedAssets :: "pinned_asset list"
  ba_issueLinks :: "build_issue_link list"
  ba_linksSealedSeq :: "nat option"
  ba_finalizeCompletedSeq :: nat
  ba_finalizeSteps :: "(string \<times> bool \<times> nat) list"
  ba_plan :: plan_progress
  ba_implement :: implement_progress
  ba_codeReviewApproved :: bool
  ba_codeReviewApproval :: "(nat \<times> nat) option"
  ba_planFindings :: "finding list list"
  ba_codeFindings :: "finding list list"
  ba_verifyStage :: verify_stage_state
  ba_verify :: verify_progress
  ba_reconcileAttempts :: nat
  ba_observations :: "observation list"
  ba_setupFailures :: "(setup_failed \<times> nat) list"
  ba_setupFailure :: "(setup_failed \<times> nat) option"
  ba_dispatchFailures :: "(dispatch_failed \<times> nat) list"
  ba_executions :: "(execution_started \<times> nat) list"
  ba_infraFailures :: "(infrastructure_failed \<times> nat) list"
  ba_infraFailure :: "(infrastructure_failed \<times> nat) option"
  ba_cleanups :: "(cleanup_attempted \<times> nat) list"
  ba_discard :: "(nat \<times> actor) option"
  ba_pausePending :: "pending_command list"
  ba_resumePending :: "pending_command list"
  ba_abortPending :: "pending_command list"
  ba_nativeHandles :: "(string, native_handle) jsmap"
  ba_sessionTotals :: "(string, session_totals) jsmap"
  ba_suspended :: "(string, open_session) jsmap"
  ba_openSessions :: "(string, open_session) jsmap"
  ba_failures :: "(phase, nat) jsmap"
  ba_lastEvent :: "ab_event option"

definition initialBuildAcc :: build_acc where
  "initialBuildAcc =
     \<lparr>ba_endedInstances = [], ba_draining = [], ba_compatibility = initialCompatibility,
      ba_deferredBoundary = 0, ba_kind = None, ba_target = None, ba_baseBranch = None,
      ba_mergedSha = None, ba_nodeOpening = None, ba_nodeOpened = None, ba_nodeRestack = None,
      ba_integration = None, ba_pollingActivity = [], ba_nodePolling = None, ba_nodeComparison = None,
      ba_nodeIssueLinks = None, ba_attached = False, ba_pausedFlag = False, ba_terminal = None,
      ba_outcome = None, ba_round = 0, ba_currentPhase = None, ba_lastCompletedPhase = None,
      ba_openEscalations = [], ba_answered = [], ba_planCeiling = None, ba_codeCeiling = None,
      ba_pr = None, ba_prState = None, ba_targetRewrite = None, ba_janitor = None,
      ba_landing = initialLanding,
      ba_autoMerge = \<lparr>am_explicitCommandSeq = None, am_requested = False, am_commandSeq = None,
                      am_defaultSeq = None, am_applied = None\<rparr>,
      ba_specRev = None, ba_restartSince = 0, ba_pinnedAssets = [], ba_issueLinks = [],
      ba_linksSealedSeq = None, ba_finalizeCompletedSeq = 0, ba_finalizeSteps = [],
      ba_plan = \<lparr>pp_round = 0, pp_approved = False, pp_artifactRev = None, pp_approval = None\<rparr>,
      ba_implement = \<lparr>im_round = 0, im_commits = None, im_artifactRev = None\<rparr>,
      ba_codeReviewApproved = False, ba_codeReviewApproval = None, ba_planFindings = [],
      ba_codeFindings = [], ba_verifyStage = initialVerifyStageState,
      ba_verify = \<lparr>vg_maxAttemptSeen = 0, vg_results = [], vg_currentStep = None, vg_running = None,
                   vg_configPin = None, vg_cycleSince = 0\<rparr>,
      ba_reconcileAttempts = 0, ba_observations = [], ba_setupFailures = [], ba_setupFailure = None,
      ba_dispatchFailures = [], ba_executions = [], ba_infraFailures = [], ba_infraFailure = None,
      ba_cleanups = [], ba_discard = None, ba_pausePending = [], ba_resumePending = [],
      ba_abortPending = [], ba_nativeHandles = [], ba_sessionTotals = [], ba_suspended = [],
      ba_openSessions = [], ba_failures = [], ba_lastEvent = None\<rparr>"

end
