(* ===== verification/Drain.thy ===== *)
theory Drain
  imports BuildAcc
begin

text \<open>
  The first pass of \<^verbatim>\<open>foldBuild\<close>: compatibility boundaries and the draining executions of an upgrade.
  Authority belongs to one correlation at a time; an ended execution never gets it back.
\<close>

definition drain_authorized_step :: "build_acc \<Rightarrow> drain_authorized \<Rightarrow> build_acc" where
  "drain_authorized_step acc p =
     (let previous = map_of (ba_draining acc) (da_instance p) in
      if (case previous of None \<Rightarrow> False
          | Some d \<Rightarrow> dx_correlation d = da_correlation p \<or> da_correlation p \<in> set (dx_correlations d))
      then acc
      else (let ended = da_instance p \<in> set (ba_endedInstances acc);
                entry = (case previous of
                   None \<Rightarrow> \<lparr>dx_correlations = [], dx_relaunch = None,
                            dx_authorization = (if ended then None else Some p),
                            dx_correlation = da_correlation p, dx_ended = ended,
                            dx_suspended = False\<rparr>
                 | Some d \<Rightarrow> d\<lparr>dx_correlations := dx_correlations d @ [dx_correlation d],
                               dx_correlation := da_correlation p,
                               dx_authorization := (if ended then dx_authorization d else Some p),
                               dx_ended := dx_ended d \<or> ended\<rparr>)
            in acc\<lparr>ba_draining := jm_set (da_instance p) entry (ba_draining acc)\<rparr>))"

definition relaunch_step :: "build_acc \<Rightarrow> relaunch_requested \<Rightarrow> build_acc" where
  "relaunch_step acc p =
     (case map_of (ba_draining acc) (rr_instance p) of
        None \<Rightarrow> acc
      | Some d \<Rightarrow>
          if map_option da_correlation (dx_authorization d) = Some (rr_correlation p) \<and> \<not> dx_ended d
          then acc\<lparr>ba_draining := jm_set (rr_instance p) (d\<lparr>dx_relaunch := Some p\<rparr>) (ba_draining acc)\<rparr>
          else acc)"

definition shutdown_step :: "build_acc \<Rightarrow> build_acc" where
  "shutdown_step acc =
     acc\<lparr>ba_draining := map (\<lambda>(k, d). (k, if dx_authorization d \<noteq> None \<and> \<not> dx_ended d
                                             then d\<lparr>dx_suspended := True\<rparr> else d)) (ba_draining acc)\<rparr>"

definition execution_ended_step :: "build_acc \<Rightarrow> string \<Rightarrow> build_acc" where
  "execution_ended_step acc i =
     (let acc1 = acc\<lparr>ba_endedInstances := set_add i (ba_endedInstances acc)\<rparr> in
      case map_of (ba_draining acc1) i of
        None \<Rightarrow> acc1
      | Some d \<Rightarrow> acc1\<lparr>ba_draining := jm_set i (d\<lparr>dx_ended := True, dx_authorization := None\<rparr>)
                                      (ba_draining acc1)\<rparr>)"

definition drain_settled_step :: "build_acc \<Rightarrow> string \<Rightarrow> string \<Rightarrow> build_acc" where
  "drain_settled_step acc i corr =
     (case map_of (ba_draining acc) i of
        None \<Rightarrow> acc
      | Some d \<Rightarrow>
          if dx_correlation d = corr
          then acc\<lparr>ba_draining := jm_set i (d\<lparr>dx_authorization := None\<rparr>) (ba_draining acc)\<rparr> else acc)"

definition drain_step :: "build_acc \<Rightarrow> ab_event \<Rightarrow> build_acc" where
  "drain_step acc e =
     (case ev_body e of
        EBuild (CompatibilityDeferred b) \<Rightarrow> acc\<lparr>ba_deferredBoundary := b\<rparr>
      | EExecution (DrainAuthorized p) \<Rightarrow> drain_authorized_step acc p
      | EExecution (RelaunchRequested p) \<Rightarrow> relaunch_step acc p
      | ESession (SessionSuspended p) \<Rightarrow> if su_cause p = Shutdown then shutdown_step acc else acc
      | EExecution (ExecutionEnded i _ _) \<Rightarrow> execution_ended_step acc i
      | EExecution (DrainSettled i corr) \<Rightarrow> drain_settled_step acc i corr
      | _ \<Rightarrow> acc)"

section \<open>An ended execution has no authority\<close>

declare map_of_eq_Some_iff [simp del]

definition entry_inv :: "string list \<Rightarrow> string \<Rightarrow> drain_execution \<Rightarrow> bool" where
  "entry_inv ended i d \<longleftrightarrow>
     (dx_ended d \<longleftrightarrow> i \<in> set ended) \<and> (dx_ended d \<longrightarrow> dx_authorization d = None) \<and>
     (\<forall>p. dx_authorization d = Some p \<longrightarrow> da_instance p = i \<and> da_correlation p = dx_correlation d) \<and>
     dx_correlation d \<notin> set (dx_correlations d) \<and> distinct (dx_correlations d)"

definition drain_inv :: "build_acc \<Rightarrow> bool" where
  "drain_inv acc \<longleftrightarrow> distinct (map fst (ba_draining acc)) \<and>
     (\<forall>i d. map_of (ba_draining acc) i = Some d \<longrightarrow> entry_inv (ba_endedInstances acc) i d)"

lemma drain_inv_set:
  assumes "drain_inv acc" and "entry_inv (ba_endedInstances acc) i d"
  shows "drain_inv (acc\<lparr>ba_draining := jm_set i d (ba_draining acc)\<rparr>)"
  using assms by (simp add: drain_inv_def distinct_update update_conv)

lemma entry_inv_cleared: "entry_inv ended i d \<Longrightarrow> entry_inv ended i (d\<lparr>dx_authorization := None\<rparr>)"
  by (simp add: entry_inv_def)

lemma drain_inv_get: "drain_inv acc \<Longrightarrow> map_of (ba_draining acc) i = Some d \<Longrightarrow> entry_inv (ba_endedInstances acc) i d"
  by (simp add: drain_inv_def)

lemma drain_inv_authorized: "drain_inv acc \<Longrightarrow> drain_inv (drain_authorized_step acc p)"
proof -
  assume inv: "drain_inv acc"
  show ?thesis
  proof (cases "map_of (ba_draining acc) (da_instance p)")
    case None
    then show ?thesis
      using inv by (auto simp: drain_authorized_step_def Let_def entry_inv_def intro!: drain_inv_set)
  next
    case (Some d)
    then have "entry_inv (ba_endedInstances acc) (da_instance p) d" using inv drain_inv_get by blast
    then show ?thesis
      using inv Some
      by (auto simp: drain_authorized_step_def Let_def entry_inv_def intro!: drain_inv_set)
  qed
qed

lemma map_of_map_values: "map_of (map (\<lambda>(k, d). (k, f d)) m) i = map_option f (map_of m i)"
  by (induction m) auto

lemma fst_map_values: "map fst (map (\<lambda>(k, d). (k, f d)) m) = map fst m"
  by (induction m) auto

definition mark_suspended :: "drain_execution \<Rightarrow> drain_execution" where
  "mark_suspended d = (if dx_authorization d \<noteq> None \<and> \<not> dx_ended d then d\<lparr>dx_suspended := True\<rparr> else d)"

lemma entry_inv_suspended [simp]: "entry_inv ended i (mark_suspended d) = entry_inv ended i d"
  by (simp add: entry_inv_def mark_suspended_def)

lemma drain_inv_shutdown: "drain_inv acc \<Longrightarrow> drain_inv (shutdown_step acc)"
proof -
  have "shutdown_step acc = acc\<lparr>ba_draining := map (\<lambda>(k, d). (k, mark_suspended d)) (ba_draining acc)\<rparr>"
    by (simp add: shutdown_step_def mark_suspended_def)
  moreover assume "drain_inv acc"
  ultimately show ?thesis
    by (auto simp: drain_inv_def fst_map_values map_of_map_values simp del: map_map)
qed

lemma drain_inv_ended: "drain_inv acc \<Longrightarrow> drain_inv (execution_ended_step acc i)"
  by (auto simp: drain_inv_def execution_ended_step_def Let_def entry_inv_def distinct_update update_conv
      split: option.split)

lemma drain_inv_relaunch: "drain_inv acc \<Longrightarrow> drain_inv (relaunch_step acc p)"
  by (auto simp: relaunch_step_def entry_inv_def dest: drain_inv_get intro!: drain_inv_set split: option.split)

lemma drain_inv_settled: "drain_inv acc \<Longrightarrow> drain_inv (drain_settled_step acc i c)"
  by (auto simp: drain_settled_step_def dest: drain_inv_get intro!: drain_inv_set entry_inv_cleared
      split: option.split)

lemma drain_inv_deferred: "drain_inv acc \<Longrightarrow> drain_inv (acc\<lparr>ba_deferredBoundary := b\<rparr>)"
  by (simp add: drain_inv_def)

lemma drain_inv_step: "drain_inv acc \<Longrightarrow> drain_inv (drain_step acc e)"
  unfolding drain_step_def
  by (simp add: drain_inv_deferred drain_inv_authorized drain_inv_shutdown drain_inv_ended
      drain_inv_relaunch drain_inv_settled
      split: event_body.split build_ev.split execution_ev.split session_ev.split)

lemma drain_inv_fold: "drain_inv acc \<Longrightarrow> drain_inv (fold_events drain_step acc es)"
  by (rule fold_events_invariant) (auto intro: drain_inv_step)

lemma drain_inv_initial [simp]: "drain_inv initialBuildAcc"
  by (simp add: drain_inv_def initialBuildAcc_def)

text \<open>Once an execution ended, no later fact authorises it again.\<close>

lemma ended_step: "i \<in> set (ba_endedInstances acc) \<Longrightarrow> i \<in> set (ba_endedInstances (drain_step acc e))"
  by (auto simp: drain_step_def drain_authorized_step_def relaunch_step_def shutdown_step_def
      execution_ended_step_def drain_settled_step_def Let_def
      split: event_body.split build_ev.split execution_ev.split session_ev.split option.split)

lemma ended_fold:
  "i \<in> set (ba_endedInstances acc) \<Longrightarrow> i \<in> set (ba_endedInstances (fold_events drain_step acc es))"
  by (rule fold_events_invariant [where P = "\<lambda>a. i \<in> set (ba_endedInstances a)"]) (auto intro: ended_step)

lemma ended_no_authority:
  assumes "drain_inv acc" and "i \<in> set (ba_endedInstances acc)"
    and "map_of (ba_draining (fold_events drain_step acc es)) i = Some d"
  shows "dx_authorization d = None"
  using drain_inv_get [OF drain_inv_fold [OF assms(1)] assms(3)] ended_fold [OF assms(2)]
  by (simp add: entry_inv_def)

end
