(* ===== verification/SessionFold.thy ===== *)
theory SessionFold
  imports Drain Results
begin

text \<open>
  The \<^verbatim>\<open>session.*\<close> cases of \<^verbatim>\<open>foldBuild\<close>: open, suspended and native sessions, and the logical totals a
  continuation chain accumulates under its root. The code reads \<^verbatim>\<open>sessionTotals[root]!\<close>; a missing
  entry would throw, which is the error \<open>MissingTotals\<close>, and \<open>session_inv\<close> rules it out.
\<close>

datatype build_error = NodeFault node_error | MissingTotals

definition root_of :: "open_session \<Rightarrow> string" where
  "root_of s = (case os_continuation s of None \<Rightarrow> os_session s | Some c \<Rightarrow> co_root c)"

definition empty_totals :: session_totals where
  "empty_totals = \<lparr>to_activeMs = 0, to_usage = None, to_transcripts = []\<rparr>"

definition opened_session :: "session_started \<Rightarrow> timestamp \<Rightarrow> nat \<Rightarrow> open_session" where
  "opened_session p ts seq =
     \<lparr>os_nativeHandle = map_option co_handle (ss_continuation p),
      os_continuation = ss_continuation p, os_budgetMs = ss_budgetMs p, os_account = ss_account p,
      os_args = ss_args p, os_startedAt = ts, os_resumeFallback = False, os_resumed = False,
      os_suspensionCause = None, os_suspendedActiveMs = None, os_session = ss_session p,
      os_role = ss_role p, os_runner = ss_runner p, os_model = ss_model p, os_phase = ss_phase p,
      os_round = ss_round p, os_stream = ss_stream p, os_prompt = ss_prompt p, os_seq = seq\<rparr>"

definition session_started_step :: "build_acc \<Rightarrow> session_started \<Rightarrow> timestamp \<Rightarrow> nat \<Rightarrow> build_acc" where
  "session_started_step acc p ts seq =
     (let root = (case ss_continuation p of None \<Rightarrow> ss_session p | Some c \<Rightarrow> co_root c);
          totals = (case map_of (ba_sessionTotals acc) root of None \<Rightarrow> empty_totals | Some t \<Rightarrow> t);
          carried = (case ss_continuation p of None \<Rightarrow> 0 | Some c \<Rightarrow> co_activeMs c);
          acc1 = acc\<lparr>ba_sessionTotals := jm_set root
                       (totals\<lparr>to_activeMs := max (to_activeMs totals) carried\<rparr>) (ba_sessionTotals acc)\<rparr>;
          acc2 = (case ss_continuation p of
                    None \<Rightarrow> acc1
                  | Some c \<Rightarrow>
                      acc1\<lparr>ba_nativeHandles := jm_set (ss_session p) (co_handle c) (ba_nativeHandles acc1),
                           ba_suspended := jm_del (co_predecessor c) (ba_suspended acc1),
                           ba_openSessions := jm_del (co_predecessor c) (ba_openSessions acc1)\<rparr>)
      in acc2\<lparr>ba_openSessions := jm_set (ss_session p) (opened_session p ts seq) (ba_openSessions acc2)\<rparr>)"

definition handle_recorded_step ::
  "build_acc \<Rightarrow> string \<Rightarrow> phase \<Rightarrow> nat option \<Rightarrow> native_handle \<Rightarrow> build_acc" where
  "handle_recorded_step acc session phase round handle =
     (case map_of (ba_openSessions acc) session of
        None \<Rightarrow> acc
      | Some s \<Rightarrow>
          if os_phase s = phase \<and> os_round s = round \<and> os_nativeHandle s = None
          then acc\<lparr>ba_openSessions := jm_set session (s\<lparr>os_nativeHandle := Some handle\<rparr>) (ba_openSessions acc),
                   ba_nativeHandles := jm_set session handle (ba_nativeHandles acc)\<rparr>
          else acc)"

definition add_usage :: "usage \<Rightarrow> session_totals \<Rightarrow> session_totals" where
  "add_usage u t =
     (let old = (case to_usage t of
                   None \<Rightarrow> \<lparr>us_inputTokens = 0, us_outputTokens = 0, us_turns = 0\<rparr> | Some x \<Rightarrow> x)
      in t\<lparr>to_usage := Some \<lparr>us_inputTokens = us_inputTokens old + us_inputTokens u,
                             us_outputTokens = us_outputTokens old + us_outputTokens u,
                             us_turns = us_turns old + us_turns u\<rparr>\<rparr>)"

text \<open>Spend of one bracket, added to the totals of its root.\<close>

definition charge ::
  "build_acc \<Rightarrow> open_session \<Rightarrow> nat \<Rightarrow> artifact_ref \<Rightarrow> usage option \<Rightarrow> build_error + build_acc" where
  "charge acc s ms transcript u =
     (case map_of (ba_sessionTotals acc) (root_of s) of
        None \<Rightarrow> Inl MissingTotals
      | Some t \<Rightarrow>
          (let t1 = t\<lparr>to_activeMs := to_activeMs t + ms, to_transcripts := to_transcripts t @ [transcript]\<rparr>;
               t2 = (case u of None \<Rightarrow> t1 | Some x \<Rightarrow> add_usage x t1)
           in Inr (acc\<lparr>ba_sessionTotals := jm_set (root_of s) t2 (ba_sessionTotals acc)\<rparr>)))"

text \<open>The phase of an open session already completed after the session started.\<close>

definition phase_done_since :: "build_acc \<Rightarrow> open_session \<Rightarrow> bool" where
  "phase_done_since acc s =
     (case ba_lastCompletedPhase acc of
        None \<Rightarrow> False | Some c \<Rightarrow> pt_phase c = os_phase s \<and> pt_seq c > os_seq s)"

definition session_suspended_step :: "build_acc \<Rightarrow> session_suspended \<Rightarrow> build_error + build_acc" where
  "session_suspended_step acc p =
     (case map_of (ba_openSessions acc) (su_session p) of
        None \<Rightarrow> Inr acc
      | Some s \<Rightarrow>
          if os_phase s = su_phase p \<and> os_round s = su_round p \<and> \<not> phase_done_since acc s
          then map_result (\<lambda>acc1.
                 acc1\<lparr>ba_suspended := jm_set (os_session s)
                        (s\<lparr>os_nativeHandle := (case su_handle p of None \<Rightarrow> os_nativeHandle s | Some h \<Rightarrow> Some h),
                           os_suspensionCause := Some (su_cause p),
                           os_suspendedActiveMs := Some (su_activeMs p)\<rparr>) (ba_suspended acc1),
                      ba_openSessions := jm_del (os_session s) (ba_openSessions acc1)\<rparr>)
                 (charge acc s (su_activeMs p) (su_transcript p) (su_usage p))
          else Inr acc)"

definition resume_fallback_step :: "build_acc \<Rightarrow> string \<Rightarrow> bool \<Rightarrow> build_acc" where
  "resume_fallback_step acc session stale =
     (if stale then acc
      else (let acc1 = acc\<lparr>ba_suspended := jm_del session (ba_suspended acc)\<rparr> in
            case map_of (ba_openSessions acc1) session of
              None \<Rightarrow> acc1
            | Some s \<Rightarrow> acc1\<lparr>ba_openSessions := jm_set (os_session s)
                          (s\<lparr>os_nativeHandle := None, os_resumed := False, os_resumeFallback := True\<rparr>)
                          (ba_openSessions acc1)\<rparr>))"

definition session_resumed_step :: "build_acc \<Rightarrow> session_resumed \<Rightarrow> build_acc" where
  "session_resumed_step acc p =
     (case map_of (ba_openSessions acc) (sr_session p) of
        None \<Rightarrow> acc
      | Some s \<Rightarrow>
          (case os_continuation s of
             None \<Rightarrow> acc
           | Some c \<Rightarrow>
               if \<not> sr_stale p \<and> \<not> os_resumeFallback s \<and> co_predecessor c = sr_predecessor p \<and>
                  co_root c = sr_root p \<and> os_nativeHandle s = Some (sr_handle p)
               then acc\<lparr>ba_openSessions := jm_set (os_session s) (s\<lparr>os_resumed := True\<rparr>) (ba_openSessions acc)\<rparr>
               else acc))"

definition close_session :: "string \<Rightarrow> build_acc \<Rightarrow> build_acc" where
  "close_session session acc =
     acc\<lparr>ba_suspended := jm_del session (ba_suspended acc),
         ba_openSessions := jm_del session (ba_openSessions acc)\<rparr>"

definition session_ended_step ::
  "build_acc \<Rightarrow> string \<Rightarrow> nat option \<Rightarrow> artifact_ref \<Rightarrow> usage \<Rightarrow> timestamp \<Rightarrow> build_error + build_acc" where
  "session_ended_step acc session activeMs transcript u ts =
     map_result (close_session session)
       (case map_of (ba_openSessions acc) session of
          None \<Rightarrow> Inr acc
        | Some s \<Rightarrow>
            charge acc s (case activeMs of Some ms \<Rightarrow> ms | None \<Rightarrow> nat (max 0 (ts - os_startedAt s)))
              transcript (Some u))"

fun session_step :: "build_acc \<Rightarrow> session_ev \<Rightarrow> timestamp \<Rightarrow> nat \<Rightarrow> build_error + build_acc" where
  "session_step acc (SessionStarted p) ts seq = Inr (session_started_step acc p ts seq)"
| "session_step acc (SessionHandleRecorded s ph r h) ts seq = Inr (handle_recorded_step acc s ph r h)"
| "session_step acc (SessionSuspended p) ts seq = session_suspended_step acc p"
| "session_step acc (SessionResumeFallback s stale) ts seq = Inr (resume_fallback_step acc s stale)"
| "session_step acc (SessionResumed p) ts seq = Inr (session_resumed_step acc p)"
| "session_step acc (SessionEnded s ms tr u) ts seq = session_ended_step acc s ms tr u ts"
| "session_step acc (SessionReclaimed s) ts seq = Inr (close_session s acc)"
| "session_step acc (SessionBuildReadFailed _) ts seq = Inr acc"
| "session_step acc (SessionBuildReadRecovered _) ts seq = Inr acc"

section \<open>Every open session has totals\<close>

definition session_ok :: "build_acc \<Rightarrow> string \<Rightarrow> open_session \<Rightarrow> bool" where
  "session_ok acc i s \<longleftrightarrow> os_session s = i \<and> jm_has (ba_sessionTotals acc) (root_of s)"

definition session_inv :: "build_acc \<Rightarrow> bool" where
  "session_inv acc \<longleftrightarrow>
     distinct (map fst (ba_openSessions acc)) \<and> distinct (map fst (ba_suspended acc)) \<and>
     (\<forall>i s. map_of (ba_openSessions acc) i = Some s \<longrightarrow> session_ok acc i s) \<and>
     (\<forall>i s. map_of (ba_suspended acc) i = Some s \<longrightarrow> session_ok acc i s \<and>
        os_suspensionCause s \<noteq> None)"

text \<open>The invariant only needs the three session tables; totals only grow.\<close>

lemma session_inv_fields:
  "ba_openSessions acc = ba_openSessions acc' \<Longrightarrow> ba_suspended acc = ba_suspended acc' \<Longrightarrow>
   ba_sessionTotals acc = ba_sessionTotals acc' \<Longrightarrow> session_inv acc = session_inv acc'"
  by (simp add: session_inv_def session_ok_def)

lemma session_invI:
  assumes inv: "session_inv acc"
    and totals: "\<And>r. jm_has (ba_sessionTotals acc) r \<Longrightarrow> jm_has (ba_sessionTotals acc') r"
    and opens: "distinct (map fst (ba_openSessions acc'))"
      "\<And>i s. map_of (ba_openSessions acc') i = Some s \<Longrightarrow>
         session_ok acc' i s \<or> map_of (ba_openSessions acc) i = Some s"
    and susp: "distinct (map fst (ba_suspended acc'))"
      "\<And>i s. map_of (ba_suspended acc') i = Some s \<Longrightarrow>
         (session_ok acc' i s \<and> os_suspensionCause s \<noteq> None) \<or> map_of (ba_suspended acc) i = Some s"
  shows "session_inv acc'"
proof -
  have mono: "session_ok acc i s \<Longrightarrow> session_ok acc' i s" for i s
    using totals by (simp add: session_ok_def)
  show ?thesis
    unfolding session_inv_def
  proof (intro conjI allI impI)
    fix i s assume "map_of (ba_openSessions acc') i = Some s"
    with opens(2) show "session_ok acc' i s" using inv mono unfolding session_inv_def by blast
  next
    fix i s assume "map_of (ba_suspended acc') i = Some s"
    with susp(2) show "session_ok acc' i s" and "os_suspensionCause s \<noteq> None"
      using inv mono unfolding session_inv_def by blast+
  qed (rule opens(1), rule susp(1))
qed

lemma session_inv_openD:
  "session_inv acc \<Longrightarrow> map_of (ba_openSessions acc) i = Some s \<Longrightarrow> session_ok acc i s"
  by (simp add: session_inv_def)

lemma session_inv_distinct:
  "session_inv acc \<Longrightarrow> distinct (map fst (ba_openSessions acc)) \<and> distinct (map fst (ba_suspended acc))"
  by (simp add: session_inv_def)

lemma has_update [simp]: "jm_has m k \<Longrightarrow> jm_has (AList.update j v m) k"
  by (simp add: update_conv)

lemma session_inv_started: "session_inv acc \<Longrightarrow> session_inv (session_started_step acc p ts seq)"
proof (rule session_invI)
  assume inv: "session_inv acc"
  show "distinct (map fst (ba_openSessions (session_started_step acc p ts seq)))"
    "distinct (map fst (ba_suspended (session_started_step acc p ts seq)))"
    using session_inv_distinct [OF inv]
    by (simp_all add: session_started_step_def Let_def distinct_update distinct_delete split: option.split)
  show "jm_has (ba_sessionTotals acc) r \<Longrightarrow>
      jm_has (ba_sessionTotals (session_started_step acc p ts seq)) r" for r
    by (auto simp: session_started_step_def Let_def update_conv split: option.split)
  have root: "jm_has (ba_sessionTotals (session_started_step acc p ts seq)) (root_of (opened_session p ts seq))"
    by (simp add: session_started_step_def Let_def update_conv root_of_def opened_session_def split: option.split)
  show "session_ok (session_started_step acc p ts seq) i s \<or> map_of (ba_openSessions acc) i = Some s"
    if "map_of (ba_openSessions (session_started_step acc p ts seq)) i = Some s" for i s
  proof (cases "i = ss_session p")
    case True
    with that have "s = opened_session p ts seq"
      by (simp add: session_started_step_def Let_def update_conv)
    then show ?thesis using root True by (simp add: session_ok_def opened_session_def)
  next
    case False
    with that show ?thesis
      by (auto simp: session_started_step_def Let_def update_conv delete_conv' split: option.splits if_splits)
  qed
  show "(session_ok (session_started_step acc p ts seq) i s \<and> os_suspensionCause s \<noteq> None) \<or>
      map_of (ba_suspended acc) i = Some s"
    if "map_of (ba_suspended (session_started_step acc p ts seq)) i = Some s" for i s
    using that by (auto simp: session_started_step_def Let_def delete_conv' split: option.splits if_splits)
qed

lemma root_of_frame [simp]:
  "root_of (s\<lparr>os_nativeHandle := h\<rparr>) = root_of s" "root_of (s\<lparr>os_resumed := b\<rparr>) = root_of s"
  "root_of (s\<lparr>os_resumeFallback := b\<rparr>) = root_of s"
  "root_of (s\<lparr>os_suspensionCause := c\<rparr>) = root_of s"
  "root_of (s\<lparr>os_suspendedActiveMs := n\<rparr>) = root_of s"
  by (simp_all add: root_of_def split: option.split)

text \<open>Replacing an open session by one of the same identity.\<close>

lemma session_inv_replace:
  assumes "session_inv acc" and "map_of (ba_openSessions acc) i = Some s"
    and "os_session t = i" and "root_of t = root_of s"
  shows "session_inv (acc\<lparr>ba_openSessions := jm_set i t (ba_openSessions acc)\<rparr>)"
proof -
  have "session_ok acc i t"
    using session_inv_openD [OF assms(1,2)] assms(3,4) by (simp add: session_ok_def)
  then show ?thesis
    using assms(1) by (auto simp: session_inv_def session_ok_def distinct_update update_conv)
qed

lemma session_inv_close:
  "session_inv acc \<Longrightarrow> session_inv (acc\<lparr>ba_suspended := jm_del i (ba_suspended acc)\<rparr>)"
  "session_inv acc \<Longrightarrow> session_inv (acc\<lparr>ba_openSessions := jm_del i (ba_openSessions acc)\<rparr>)"
  by (auto simp: session_inv_def session_ok_def distinct_delete delete_conv')

lemma session_inv_handles [simp]:
  "session_inv (acc\<lparr>ba_nativeHandles := h\<rparr>) = session_inv acc"
  by (rule session_inv_fields) simp_all

lemma session_inv_recorded: "session_inv acc \<Longrightarrow> session_inv (handle_recorded_step acc s ph r h)"
proof -
  assume inv: "session_inv acc"
  have "session_inv (acc\<lparr>ba_openSessions := jm_set s (o1\<lparr>os_nativeHandle := Some h\<rparr>) (ba_openSessions acc)\<rparr>)"
    if "map_of (ba_openSessions acc) s = Some o1" for o1
    using session_inv_replace [OF inv that, of "o1\<lparr>os_nativeHandle := Some h\<rparr>"]
      session_inv_openD [OF inv that] by (simp add: session_ok_def)
  then have "session_inv (acc\<lparr>ba_openSessions := jm_set s (o1\<lparr>os_nativeHandle := Some h\<rparr>) (ba_openSessions acc),
        ba_nativeHandles := nh\<rparr>)"
    if "map_of (ba_openSessions acc) s = Some o1" for o1 nh
    using that session_inv_fields [of "acc\<lparr>ba_openSessions := jm_set s (o1\<lparr>os_nativeHandle := Some h\<rparr>) (ba_openSessions acc),
        ba_nativeHandles := nh\<rparr>" "acc\<lparr>ba_openSessions := jm_set s (o1\<lparr>os_nativeHandle := Some h\<rparr>) (ba_openSessions acc)\<rparr>"]
    by simp
  then show ?thesis using inv by (auto simp: handle_recorded_step_def split: option.split)
qed

lemma session_inv_resumed: "session_inv acc \<Longrightarrow> session_inv (session_resumed_step acc p)"
proof -
  assume inv: "session_inv acc"
  have "session_inv (acc\<lparr>ba_openSessions := jm_set (os_session s) (s\<lparr>os_resumed := True\<rparr>) (ba_openSessions acc)\<rparr>)"
    if open1: "map_of (ba_openSessions acc) (sr_session p) = Some s" for s
    using session_inv_replace [OF inv open1, of "s\<lparr>os_resumed := True\<rparr>"] session_inv_openD [OF inv open1]
    by (simp add: session_ok_def)
  then show ?thesis using inv by (auto simp: session_resumed_step_def split: option.split)
qed

lemma session_inv_fallback: "session_inv acc \<Longrightarrow> session_inv (resume_fallback_step acc i stale)"
proof -
  assume "session_inv acc"
  then have inv: "session_inv (acc\<lparr>ba_suspended := jm_del i (ba_suspended acc)\<rparr>)" (is "session_inv ?acc1")
    by (rule session_inv_close)
  have "session_inv (?acc1\<lparr>ba_openSessions := jm_set (os_session s)
          (s\<lparr>os_nativeHandle := None, os_resumed := False, os_resumeFallback := True\<rparr>) (ba_openSessions ?acc1)\<rparr>)"
    if open1: "map_of (ba_openSessions ?acc1) i = Some s" for s
    using session_inv_replace [OF inv open1, of "s\<lparr>os_nativeHandle := None, os_resumed := False, os_resumeFallback := True\<rparr>"]
      session_inv_openD [OF inv open1] by (simp add: session_ok_def)
  then show ?thesis
    using inv \<open>session_inv acc\<close> by (auto simp: resume_fallback_step_def Let_def split: option.split)
qed

lemma charge_frame:
  "charge acc s ms tr u = Inr acc' \<Longrightarrow>
   ba_openSessions acc' = ba_openSessions acc \<and> ba_suspended acc' = ba_suspended acc \<and>
   (\<forall>r. jm_has (ba_sessionTotals acc) r \<longrightarrow> jm_has (ba_sessionTotals acc') r)"
  by (auto simp: charge_def Let_def update_conv split: option.splits if_splits)

lemma session_inv_charge:
  assumes inv: "session_inv acc" and step: "charge acc s ms tr u = Inr acc'"
  shows "session_inv acc'"
  using inv
proof (rule session_invI)
  note frame = charge_frame [OF step]
  show "jm_has (ba_sessionTotals acc) r \<Longrightarrow> jm_has (ba_sessionTotals acc') r" for r using frame by blast
  show "distinct (map fst (ba_openSessions acc'))" "distinct (map fst (ba_suspended acc'))"
    using frame session_inv_distinct [OF inv] by simp_all
qed (use charge_frame [OF step] in auto)

text \<open>The totals of an open session are there, so a charge never throws.\<close>

lemma charge_ok:
  assumes "session_inv acc" and "map_of (ba_openSessions acc) i = Some s"
  shows "\<exists>acc'. charge acc s ms tr u = Inr acc'"
  using session_inv_openD [OF assms] by (auto simp: session_ok_def charge_def Let_def)

lemma session_suspended_ok:
  assumes "session_inv acc"
  shows "\<exists>acc'. session_suspended_step acc p = Inr acc'"
proof (cases "map_of (ba_openSessions acc) (su_session p)")
  case (Some s)
  obtain acc1 where "charge acc s (su_activeMs p) (su_transcript p) (su_usage p) = Inr acc1"
    using charge_ok [OF assms Some] by blast
  then show ?thesis by (simp add: session_suspended_step_def Some)
qed (simp add: session_suspended_step_def)

lemma session_ended_ok:
  assumes "session_inv acc"
  shows "\<exists>acc'. session_ended_step acc i ms tr u ts = Inr acc'"
proof (cases "map_of (ba_openSessions acc) i")
  case (Some s)
  obtain acc1 where
    "charge acc s (case ms of Some n \<Rightarrow> n | None \<Rightarrow> nat (max 0 (ts - os_startedAt s))) tr (Some u) = Inr acc1"
    using charge_ok [OF assms Some] by blast
  then show ?thesis by (simp add: session_ended_step_def Some)
qed (simp add: session_ended_step_def)

lemma session_inv_suspend:
  assumes "session_inv acc" and "session_ok acc i s" and "os_suspensionCause s \<noteq> None"
  shows "session_inv (acc\<lparr>ba_suspended := jm_set i s (ba_suspended acc),
           ba_openSessions := jm_del i (ba_openSessions acc)\<rparr>)"
  using assms
  by (auto simp: session_inv_def session_ok_def distinct_update distinct_delete update_conv delete_conv'
      split: if_splits)

lemma session_inv_suspended:
  assumes inv: "session_inv acc" and step: "session_suspended_step acc p = Inr acc'"
  shows "session_inv acc'"
proof (cases "acc' = acc")
  case False
  then obtain s acc1 where s: "map_of (ba_openSessions acc) (su_session p) = Some s"
    "charge acc s (su_activeMs p) (su_transcript p) (su_usage p) = Inr acc1"
    "acc' = acc1\<lparr>ba_suspended := jm_set (os_session s)
        (s\<lparr>os_nativeHandle := (case su_handle p of None \<Rightarrow> os_nativeHandle s | Some h \<Rightarrow> Some h),
           os_suspensionCause := Some (su_cause p), os_suspendedActiveMs := Some (su_activeMs p)\<rparr>)
        (ba_suspended acc1), ba_openSessions := jm_del (os_session s) (ba_openSessions acc1)\<rparr>"
    using step by (auto simp: session_suspended_step_def map_result_Inr_iff split: option.splits if_splits)
  have inv1: "session_inv acc1" using session_inv_charge [OF inv s(2)] .
  have "session_ok acc1 (os_session s) s"
    using session_inv_openD [OF inv s(1)] charge_frame [OF s(2)] by (simp add: session_ok_def)
  then show ?thesis
    unfolding s(3) by (intro session_inv_suspend inv1) (simp_all add: session_ok_def)
qed (use inv in simp)

lemma session_inv_closed: "session_inv acc \<Longrightarrow> session_inv (close_session i acc)"
proof -
  assume "session_inv acc"
  then have "session_inv ((acc\<lparr>ba_suspended := jm_del i (ba_suspended acc)\<rparr>)
      \<lparr>ba_openSessions := jm_del i (ba_openSessions (acc\<lparr>ba_suspended := jm_del i (ba_suspended acc)\<rparr>))\<rparr>)"
    by (intro session_inv_close)
  then show ?thesis by (simp add: close_session_def)
qed

lemma session_inv_ended:
  "session_inv acc \<Longrightarrow> session_ended_step acc i ms tr u ts = Inr acc' \<Longrightarrow> session_inv acc'"
  by (auto simp: session_ended_step_def map_result_Inr_iff intro: session_inv_closed session_inv_charge
      split: option.splits)

lemma session_step_inv: "session_inv acc \<Longrightarrow> session_step acc ev ts seq = Inr acc' \<Longrightarrow> session_inv acc'"
  by (cases ev) (auto intro: session_inv_started session_inv_recorded session_inv_suspended
      session_inv_fallback session_inv_resumed session_inv_ended session_inv_closed)

lemma session_step_ok: "session_inv acc \<Longrightarrow> \<exists>acc'. session_step acc ev ts seq = Inr acc'"
  by (cases ev) (auto intro: session_suspended_ok session_ended_ok)

end
