(* ===== verification/EscalationFold.thy ===== *)
theory EscalationFold
  imports Drain
begin

text \<open>
  The escalation cases of \<^verbatim>\<open>foldBuild\<close>: raises, answers and deferral raises, and the supersession of the
  escalations a cancelled verify member's sessions raised. \<open>escalation_inv\<close>: an escalation is keyed by
  its id, and an accepted abort answer waits as a pending abort until \<^verbatim>\<open>build.aborted\<close>.
\<close>

fun remove_first :: "('a \<Rightarrow> bool) \<Rightarrow> 'a list \<Rightarrow> 'a list" where
  "remove_first p [] = []"
| "remove_first p (x # xs) = (if p x then xs else x # remove_first p xs)"

text \<open>The cancellation of the member that owns a session, when there is one.\<close>

definition owner_cancellation :: "verify_stage_state \<Rightarrow> string option \<Rightarrow> verify_cancellation option" where
  "owner_cancellation st session =
     (case session of
        None \<Rightarrow> None
      | Some s \<Rightarrow>
          (case map_of (vss_owners st) s of
             None \<Rightarrow> None
           | Some key \<Rightarrow> map_of (vss_cancellations st) key))"

definition note_superseded :: "any_escalation \<Rightarrow> verify_cancellation \<Rightarrow> verify_stage_state \<Rightarrow> verify_stage_state" where
  "note_superseded e c st =
     (if list_ex (\<lambda>(x, _). oe_id (any_open x) = oe_id (any_open e)) (vss_superseded st) then st
      else st\<lparr>vss_superseded := vss_superseded st @ [(e, c)]\<rparr>)"

definition supersede_one :: "build_acc \<Rightarrow> any_escalation \<Rightarrow> build_acc" where
  "supersede_one acc e =
     (let o1 = any_open e in
      case owner_cancellation (ba_verifyStage acc) (oe_session o1) of
        None \<Rightarrow> acc
      | Some c \<Rightarrow>
          (let acc1 = (case e of
                 Answered a \<Rightarrow>
                   if an_resolution a = Abort
                   then acc\<lparr>ba_abortPending := filter (\<lambda>p. pd_seq p \<noteq> an_answeredSeq a) (ba_abortPending acc)\<rparr>
                   else acc
               | StillOpen _ \<Rightarrow> acc)
           in acc1\<lparr>ba_openEscalations := jm_del (oe_id o1) (ba_openEscalations acc1),
                   ba_answered := remove_first (\<lambda>a. oe_id (an_open a) = oe_id o1) (ba_answered acc1),
                   ba_verifyStage := note_superseded e c (ba_verifyStage acc1)\<rparr>))"

definition supersede_cancelled :: "build_acc \<Rightarrow> build_acc" where
  "supersede_cancelled acc =
     foldl supersede_one acc
       (map (\<lambda>(_, e). StillOpen e) (ba_openEscalations acc) @ map Answered (ba_answered acc))"

definition deferral_escalated_step :: "build_acc \<Rightarrow> deferral_escalated \<Rightarrow> nat \<Rightarrow> build_acc" where
  "deferral_escalated_step acc p seq =
     acc\<lparr>ba_openEscalations := jm_set (de_id p)
           \<lparr>oe_id = de_id p, oe_phase = OnPhase (de_phase p), oe_round = Some (de_round p),
            oe_source = SrcPolicy, oe_session = None, oe_policyCause = None, oe_deferral = True,
            oe_question = de_question p, oe_refs = Some (de_refs p), oe_seq = seq\<rparr>
           (ba_openEscalations acc)\<rparr>"

fun actor_session :: "actor \<Rightarrow> string option" where
  "actor_session (Agent _ s) = Some s"
| "actor_session _ = None"

definition raised_of :: "escalation_raised \<Rightarrow> actor \<Rightarrow> nat \<Rightarrow> open_escalation" where
  "raised_of p by_whom seq =
     \<lparr>oe_id = er_id p, oe_phase = er_phase p, oe_round = er_round p, oe_source = er_source p,
      oe_session = actor_session by_whom, oe_policyCause = er_policyCause p, oe_deferral = False,
      oe_question = er_question p, oe_refs = er_refs p, oe_seq = seq\<rparr>"

definition raised_step :: "build_acc \<Rightarrow> escalation_raised \<Rightarrow> actor \<Rightarrow> nat \<Rightarrow> build_acc" where
  "raised_step acc p by_whom seq =
     (let e = raised_of p by_whom seq; st = ba_verifyStage acc in
      case owner_cancellation st (oe_session e) of
        Some c \<Rightarrow> acc\<lparr>ba_verifyStage := st\<lparr>vss_superseded := vss_superseded st @ [(StillOpen e, c)]\<rparr>\<rparr>
      | None \<Rightarrow> acc\<lparr>ba_openEscalations := jm_set (oe_id e) e (ba_openEscalations acc)\<rparr>)"

definition accept_ceiling :: "open_escalation \<Rightarrow> nat option \<Rightarrow> build_acc \<Rightarrow> build_acc" where
  "accept_ceiling e ceiling acc =
     (if ceiling \<noteq> None \<and> oe_source e = SrcPolicy \<and> oe_policyCause e = Some ReviewRoundLimit
      then (if oe_phase e = OnPhase (Core PlanReview) then acc\<lparr>ba_planCeiling := ceiling\<rparr>
            else if oe_phase e = OnPhase (Core CodeReview) then acc\<lparr>ba_codeCeiling := ceiling\<rparr>
            else acc)
      else acc)"

definition answer_of :: "open_escalation \<Rightarrow> escalation_answered \<Rightarrow> nat \<Rightarrow> answered_escalation" where
  "answer_of e p seq =
     \<lparr>an_open = e, an_answer = ea_answer p, an_resolution = ea_resolution p, an_artifact = ea_artifact p,
      an_assets = ea_assets p, an_reviewRoundCeiling = ea_reviewRoundCeiling p, an_answeredSeq = seq\<rparr>"

definition answered_step :: "build_acc \<Rightarrow> escalation_answered \<Rightarrow> actor \<Rightarrow> nat \<Rightarrow> build_acc" where
  "answered_step acc p by_whom seq =
     (case map_of (ba_openEscalations acc) (ea_id p) of
        None \<Rightarrow> acc
      | Some e \<Rightarrow>
          (let acc1 = acc\<lparr>ba_openEscalations := jm_del (ea_id p) (ba_openEscalations acc),
                         ba_answered := ba_answered acc @ [answer_of e p seq]\<rparr>;
               acc2 = accept_ceiling e (ea_reviewRoundCeiling p) acc1
           in if ea_resolution p = Abort
              then acc2\<lparr>ba_abortPending := ba_abortPending acc2 @
                     [\<lparr>pd_command = AbortCommand, pd_seq = seq, pd_reason = Some (ea_answer p),
                       pd_actor = by_whom\<rparr>]\<rparr>
              else acc2))"

section \<open>Escalations are keyed by id and bounded by the log\<close>

definition escalation_inv :: "nat \<Rightarrow> build_acc \<Rightarrow> bool" where
  "escalation_inv n acc \<longleftrightarrow>
     distinct (map fst (ba_openEscalations acc)) \<and>
     (\<forall>i e. map_of (ba_openEscalations acc) i = Some e \<longrightarrow> oe_id e = i \<and> oe_seq e \<le> n) \<and>
     (\<forall>a \<in> set (ba_answered acc). oe_seq (an_open a) \<le> an_answeredSeq a \<and> an_answeredSeq a \<le> n)"

lemma set_remove_first: "set (remove_first p xs) \<subseteq> set xs"
  by (induction xs) auto

lemma escalation_inv_mono: "escalation_inv n acc \<Longrightarrow> n \<le> m \<Longrightarrow> escalation_inv m acc"
  unfolding escalation_inv_def by (meson le_trans)

lemma escalation_inv_shrink:
  assumes "escalation_inv n acc"
    and "ba_openEscalations acc' = jm_del i (ba_openEscalations acc)"
    and "set (ba_answered acc') \<subseteq> set (ba_answered acc)"
  shows "escalation_inv n acc'"
  using assms by (auto simp: escalation_inv_def distinct_delete delete_conv')

lemma supersede_one_some:
  assumes "owner_cancellation (ba_verifyStage acc) (oe_session (any_open e)) = Some c"
  shows "ba_openEscalations (supersede_one acc e) = jm_del (oe_id (any_open e)) (ba_openEscalations acc)"
    and "ba_answered (supersede_one acc e) =
           remove_first (\<lambda>a. oe_id (an_open a) = oe_id (any_open e)) (ba_answered acc)"
  using assms by (cases e; simp add: supersede_one_def Let_def)+

lemma escalation_inv_supersede_one: "escalation_inv n acc \<Longrightarrow> escalation_inv n (supersede_one acc e)"
proof (cases "owner_cancellation (ba_verifyStage acc) (oe_session (any_open e))")
  case (Some c)
  assume "escalation_inv n acc"
  then show ?thesis
    by (rule escalation_inv_shrink [OF _ supersede_one_some(1) [OF Some]])
       (simp add: supersede_one_some(2) [OF Some] set_remove_first)
qed (simp add: supersede_one_def)

lemma escalation_inv_supersede: "escalation_inv n acc \<Longrightarrow> escalation_inv n (supersede_cancelled acc)"
proof -
  have "escalation_inv n a \<Longrightarrow> escalation_inv n (foldl supersede_one a xs)" for a xs
    by (induction xs arbitrary: a) (simp_all add: escalation_inv_supersede_one)
  then show "escalation_inv n acc \<Longrightarrow> ?thesis" by (simp add: supersede_cancelled_def)
qed

lemma escalation_inv_deferral:
  "escalation_inv n acc \<Longrightarrow> escalation_inv n (deferral_escalated_step acc p n)"
  by (auto simp: escalation_inv_def deferral_escalated_step_def distinct_update update_conv)

lemma escalation_inv_raised: "escalation_inv n acc \<Longrightarrow> escalation_inv n (raised_step acc p who n)"
  by (auto simp: escalation_inv_def raised_step_def Let_def raised_of_def distinct_update update_conv
      split: option.split)

lemma accept_ceiling_frame [simp]:
  "ba_openEscalations (accept_ceiling e c acc) = ba_openEscalations acc"
  "ba_answered (accept_ceiling e c acc) = ba_answered acc"
  "ba_abortPending (accept_ceiling e c acc) = ba_abortPending acc"
  "ba_verifyStage (accept_ceiling e c acc) = ba_verifyStage acc"
  by (simp_all add: accept_ceiling_def)

lemma escalation_inv_answered: "escalation_inv n acc \<Longrightarrow> escalation_inv n (answered_step acc p who n)"
proof (cases "map_of (ba_openEscalations acc) (ea_id p)")
  case (Some e)
  assume inv: "escalation_inv n acc"
  then have "oe_seq e \<le> n" using Some by (simp add: escalation_inv_def)
  then show ?thesis
    using inv by (auto simp: escalation_inv_def answered_step_def Some Let_def answer_of_def
        distinct_delete delete_conv')
qed (simp add: answered_step_def)

text \<open>An answer closes its escalation and records it; an abort answer becomes a pending command.\<close>

lemma answered_step_spec:
  assumes "map_of (ba_openEscalations acc) (ea_id p) = Some e"
  shows "map_of (ba_openEscalations (answered_step acc p who seq)) (ea_id p) = None"
    and "ba_answered (answered_step acc p who seq) = ba_answered acc @ [answer_of e p seq]"
    and "ea_resolution p = Abort \<Longrightarrow>
         \<exists>c \<in> set (ba_abortPending (answered_step acc p who seq)). pd_seq c = seq"
  using assms by (simp_all add: answered_step_def Let_def delete_conv')

end
