(* ===== verification/Integration.thy ===== *)
theory Integration
  imports BuildAcc Results
begin

text \<open>
  Eligibility of a node's integration cycle, the predicates of \<^verbatim>\<open>kernel/integration-state.ts\<close> over the
  reduced build. A cycle freezes the serialised verify configuration; reading the steps back from a
  text that is not one throws, which is \<open>UnparsableConfig\<close>.
\<close>

datatype config_error = UnparsableConfig

definition cycle_of :: "build_acc \<Rightarrow> (integration_prepared \<times> nat) option" where
  "cycle_of acc = Option.bind (ba_integration acc) is_cycle"

definition integrationComplete :: "build_acc \<Rightarrow> bool" where
  "integrationComplete acc =
     (case Option.bind (ba_integration acc) is_observation of
        None \<Rightarrow> False
      | Some ob \<Rightarrow> io_openChildren ob = [] \<and> io_diagnostics ob = [] \<and> io_contributions ob \<noteq> [])"

definition integrationCycleCurrent :: "build_acc \<Rightarrow> bool" where
  "integrationCycleCurrent acc =
     (case cycle_of acc of None \<Rightarrow> False | Some (_, seq) \<Rightarrow> seq > ba_restartSince acc)"

text \<open>The observed heads are the cycle's heads.\<close>

definition heads_match :: "build_acc \<Rightarrow> integration_prepared \<Rightarrow> bool" where
  "heads_match acc c =
     (case ba_nodeComparison acc of None \<Rightarrow> False
      | Some n \<Rightarrow> nc_headSha n = gp_head c \<and> nc_parentSha n = gp_parent c)"

definition restack_settled :: "build_acc \<Rightarrow> integration_prepared \<Rightarrow> bool" where
  "restack_settled acc c =
     (case ba_nodeRestack acc of None \<Rightarrow> False
      | Some r \<Rightarrow>
          nrs_parentRequest r = None \<and> nrs_parentChange r = None \<and> nrs_active r = None \<and>
          (case nrs_observedParent r of None \<Rightarrow> True | Some t \<Rightarrow> tm_sha t = gp_parent c) \<and>
          nrs_contributionBase r = Some (gp_parent c))"

definition integrationCurrent :: "build_acc \<Rightarrow> bool" where
  "integrationCurrent acc =
     (case cycle_of acc of
        None \<Rightarrow> False
      | Some (c, _) \<Rightarrow>
          integrationCycleCurrent acc \<and> integrationComplete acc \<and> heads_match acc c \<and>
          restack_settled acc c)"

definition integrationConfig :: "config \<Rightarrow> config_text" where
  "integrationConfig c = SerializedConfig (cf_verify c) (cf_commands c)"

fun usesVerifyStages :: "config_text \<Rightarrow> bool" where
  "usesVerifyStages (SerializedConfig v _) = (vy_stages v \<noteq> None)"
| "usesVerifyStages (OtherText _) = False"

definition stage_failure_of :: "build_acc \<Rightarrow> integration_prepared \<Rightarrow> nat \<Rightarrow> bool" where
  "stage_failure_of acc c seq =
     list_ex (\<lambda>(f, _). sg_restackId f = Some (gp_id c) \<and> sg_cycle f = seq) (vss_failures (ba_verifyStage acc))"

text \<open>A receipt of the cycle: newer than the cycle and the current verify cycle.\<close>

definition fresh_receipt :: "build_acc \<Rightarrow> nat \<Rightarrow> verify_record \<Rightarrow> bool" where
  "fresh_receipt acc seq r = (vr_seq r > max seq (vg_cycleSince (ba_verify acc)))"

definition integrationFailed :: "build_acc \<Rightarrow> bool" where
  "integrationFailed acc =
     (case cycle_of acc of
        None \<Rightarrow> False
      | Some (c, seq) \<Rightarrow>
          integrationCycleCurrent acc \<and> heads_match acc c \<and>
          (\<not> usesVerifyStages (gp_config c) \<or> stage_failure_of acc c seq) \<and>
          list_ex (\<lambda>r. fresh_receipt acc seq r \<and> vr_restackId r = Some (gp_id c) \<and> vr_outcome r = Fail)
            (vg_results (ba_verify acc)))"

definition settles_step :: "integration_prepared \<Rightarrow> string \<Rightarrow> verify_record \<Rightarrow> bool" where
  "settles_step c step r \<longleftrightarrow>
     vr_restackId r = Some (gp_id c) \<and> vr_headSha r = Some (gp_head c) \<and>
     vr_baseSha r = Some (gp_parent c) \<and> vr_step r = step \<and> satisfied r"

definition integrationVerified :: "build_acc \<Rightarrow> config \<Rightarrow> bool" where
  "integrationVerified acc cfg =
     (case cycle_of acc of
        None \<Rightarrow> False
      | Some (c, seq) \<Rightarrow>
          integrationCurrent acc \<and> gp_config c = integrationConfig cfg \<and> \<not> integrationFailed acc \<and>
          list_all (\<lambda>step. list_ex (\<lambda>r. fresh_receipt acc seq r \<and> settles_step c step r)
                             (vg_results (ba_verify acc))) (vy_steps (cf_verify cfg)))"

fun selected_steps :: "config_text \<Rightarrow> config_error + string list" where
  "selected_steps (SerializedConfig v _) = Inr (vy_steps v)"
| "selected_steps (OtherText _) = Inl UnparsableConfig"

text \<open>\<^verbatim>\<open>cycles.some(...)\<close> with its callback for one cycle; a cycle of another head is skipped unread.\<close>

definition cycle_receipts :: "verify_record list \<Rightarrow> integration_prepared \<Rightarrow> verify_record list" where
  "cycle_receipts results c =
     filter (\<lambda>r. vr_restackId r = Some (gp_id c) \<and> vr_headSha r = Some (gp_head c) \<and>
                 vr_baseSha r = Some (gp_parent c)) results"

definition receipts_pass :: "verify_record list \<Rightarrow> string list \<Rightarrow> bool" where
  "receipts_pass receipts steps \<longleftrightarrow>
     \<not> list_ex (\<lambda>r. vr_outcome r = Fail) receipts \<and>
     list_all (\<lambda>step. list_ex (\<lambda>r. vr_step r = step \<and> satisfied r) receipts) steps"

definition cycle_verified_at ::
  "verify_record list \<Rightarrow> sha \<Rightarrow> integration_prepared \<Rightarrow> config_error + bool" where
  "cycle_verified_at results head c =
     (if gp_head c \<noteq> head then Inr False
      else map_result (receipts_pass (cycle_receipts results c)) (selected_steps (gp_config c)))"

fun some_cycle :: "(integration_prepared \<Rightarrow> config_error + bool) \<Rightarrow> integration_prepared list \<Rightarrow> config_error + bool" where
  "some_cycle f [] = Inr False"
| "some_cycle f (c # cs) = bind_result (f c) (\<lambda>b. if b then Inr True else some_cycle f cs)"

definition head_verified ::
  "verify_record list \<Rightarrow> (integration_prepared \<times> nat) list \<Rightarrow> sha \<Rightarrow> config_error + bool" where
  "head_verified results cycles head = some_cycle (cycle_verified_at results head) (map fst cycles)"

definition integrationHeadVerified :: "build_acc \<Rightarrow> sha \<Rightarrow> config_error + bool" where
  "integrationHeadVerified acc head =
     head_verified (vg_results (ba_verify acc))
       (case Option.bind (ba_integration acc) is_cycles of
          Some cs \<Rightarrow> cs
        | None \<Rightarrow> (case cycle_of acc of None \<Rightarrow> [] | Some c \<Rightarrow> [c])) head"

definition integrationCycleVerified :: "build_acc \<Rightarrow> config_error + bool" where
  "integrationCycleVerified acc =
     (case cycle_of acc of
        None \<Rightarrow> Inr False
      | Some (c, seq) \<Rightarrow>
          if \<not> integrationCycleCurrent acc then Inr False
          else head_verified (filter (fresh_receipt acc seq) (vg_results (ba_verify acc))) [(c, seq)] (gp_head c))"

definition integrationNeedsRunner :: "build_acc \<Rightarrow> config_error + bool" where
  "integrationNeedsRunner acc =
     (if integrationCurrent acc \<and> \<not> integrationFailed acc
      then map_result Not (integrationCycleVerified acc) else Inr False)"

definition failed_steps :: "build_acc \<Rightarrow> integration_prepared \<Rightarrow> nat \<Rightarrow> string list" where
  "failed_steps acc c seq =
     set_of_list (map vr_step (filter (\<lambda>r. vr_seq r > seq \<and> vr_outcome r = Fail)
       (cycle_receipts (vg_results (ba_verify acc)) c)))"

definition missingIntegrationFailures :: "build_acc \<Rightarrow> string \<Rightarrow> verification_failed list" where
  "missingIntegrationFailures acc slug =
     (case cycle_of acc of
        None \<Rightarrow> []
      | Some (c, seq) \<Rightarrow>
          if ba_kind acc \<noteq> Some Node \<or> ba_terminal acc \<noteq> None \<or> \<not> integrationCycleCurrent acc \<or>
             \<not> heads_match acc c \<or>
             list_ex (\<lambda>(f, _). vf_id f = gp_id c)
               (case ba_integration acc of None \<Rightarrow> [] | Some i \<Rightarrow> is_failures i) \<or>
             (usesVerifyStages (gp_config c) \<and> \<not> stage_failure_of acc c seq) \<or>
             failed_steps acc c seq = []
          then []
          else [\<lparr>vf_id = gp_id c, vf_head = gp_head c, vf_parent = gp_parent c,
                 vf_steps = failed_steps acc c seq,
                 vf_guidance = ''file a repair child targeting this node: '' @ slug\<rparr>])"

section \<open>Failed and verified exclude each other\<close>

lemma current_cycle: "integrationCurrent acc \<Longrightarrow> integrationCycleCurrent acc"
  by (auto simp: integrationCurrent_def split: option.splits)

lemma verified_not_failed: "integrationVerified acc cfg \<Longrightarrow> \<not> integrationFailed acc"
  by (auto simp: integrationVerified_def split: option.splits)

text \<open>A verified cycle never needs the runner again, as long as no receipt of it fails.\<close>

lemma head_verified_single:
  "head_verified results [(c, seq)] (gp_head c) = Inr b \<longleftrightarrow>
   (\<exists>steps. selected_steps (gp_config c) = Inr steps \<and> b = receipts_pass (cycle_receipts results c) steps)"
  by (cases "selected_steps (gp_config c)") (auto simp: head_verified_def cycle_verified_at_def)

lemma receipts_pass_iff:
  "receipts_pass (cycle_receipts (filter P rs) c) steps \<longleftrightarrow>
   (\<forall>r \<in> set rs. P r \<longrightarrow> r \<in> set (cycle_receipts rs c) \<longrightarrow> vr_outcome r \<noteq> Fail) \<and>
   (\<forall>step \<in> set steps. \<exists>r \<in> set rs. P r \<and> settles_step c step r)"
proof -
  have member: "r \<in> set (cycle_receipts (filter P rs) c) \<longleftrightarrow> r \<in> set (cycle_receipts rs c) \<and> P r" for r
    by (auto simp: cycle_receipts_def)
  have settles: "(\<exists>r \<in> set (cycle_receipts (filter P rs) c). vr_step r = step \<and> satisfied r) \<longleftrightarrow>
      (\<exists>r \<in> set rs. P r \<and> settles_step c step r)" for step
    by (auto simp: cycle_receipts_def settles_step_def)
  have sub: "r \<in> set (cycle_receipts rs c) \<Longrightarrow> r \<in> set rs" for r
    by (simp add: cycle_receipts_def)
  show ?thesis
    unfolding receipts_pass_def list_all_iff list_ex_iff settles
    using member sub by blast
qed

lemma cycle_verified_iff:
  assumes "cycle_of acc = Some (c, seq)"
  shows "integrationCycleVerified acc = Inr True \<longleftrightarrow>
     integrationCycleCurrent acc \<and>
     (\<exists>steps. selected_steps (gp_config c) = Inr steps \<and>
        (\<forall>r \<in> set (vg_results (ba_verify acc)). fresh_receipt acc seq r \<longrightarrow>
           r \<in> set (cycle_receipts (vg_results (ba_verify acc)) c) \<longrightarrow> vr_outcome r \<noteq> Fail) \<and>
        (\<forall>step \<in> set steps. \<exists>r \<in> set (vg_results (ba_verify acc)).
           fresh_receipt acc seq r \<and> settles_step c step r))"
  using assms
  by (simp add: integrationCycleVerified_def head_verified_single receipts_pass_iff eq_commute [of True])

lemma verified_needs_no_runner:
  assumes "integrationCycleVerified acc = Inr True"
  shows "integrationNeedsRunner acc = Inr False"
  using assms by (simp add: integrationNeedsRunner_def)

text \<open>Every receipt of the current configuration for the cycle's heads makes it cycle-verified.\<close>

lemma verified_cycle_verified:
  assumes ver: "integrationVerified acc cfg" and cyc: "cycle_of acc = Some (c, seq)"
    and "\<forall>r \<in> set (cycle_receipts (vg_results (ba_verify acc)) c). fresh_receipt acc seq r \<longrightarrow> vr_outcome r \<noteq> Fail"
  shows "integrationCycleVerified acc = Inr True"
proof -
  have "gp_config c = integrationConfig cfg" "integrationCycleCurrent acc"
    "list_all (\<lambda>step. list_ex (\<lambda>r. fresh_receipt acc seq r \<and> settles_step c step r)
       (vg_results (ba_verify acc))) (vy_steps (cf_verify cfg))"
    using ver cyc current_cycle by (auto simp: integrationVerified_def)
  then show ?thesis
    using assms(3) by (auto simp: cycle_verified_iff [OF cyc] integrationConfig_def list_all_iff list_ex_iff)
qed

text \<open>A spec revision makes every earlier cycle ineligible.\<close>

lemma revision_invalidates:
  assumes "cycle_of acc = Some (c, seq)" and "seq \<le> n"
  shows "\<not> integrationCycleCurrent (acc\<lparr>ba_restartSince := n\<rparr>)
       \<and> integrationCycleVerified (acc\<lparr>ba_restartSince := n\<rparr>) = Inr False"
  using assms by (simp add: cycle_of_def integrationCycleCurrent_def integrationCycleVerified_def)

end
