(* ===== verification/Reducer.thy ===== *)
theory Reducer
  imports SessionFold EscalationFold Integration
begin

text \<open>
  The build reducer, \<^verbatim>\<open>foldBuild\<close>, \<^verbatim>\<open>finishBuild\<close> and \<^verbatim>\<open>buildReducer\<close> of \<^verbatim>\<open>kernel/reducer.ts\<close>. One
  event is the steps before the switch (\<open>pre_step\<close>), the case of its family and the last event; a
  batch is the compatibility pass, the drain pass, the events of the catalog in order, and the
  recomputation of the running verify member at the end of the batch (\<open>end_of_batch\<close>).
\<close>

section \<open>Phases\<close>

definition start_phase :: "phase \<Rightarrow> nat option \<Rightarrow> nat option \<Rightarrow> nat \<Rightarrow> build_acc \<Rightarrow> build_acc" where
  "start_phase p round attempt seq acc =
     acc\<lparr>ba_currentPhase := Some \<lparr>pt_phase = p, pt_round = round, pt_attempt = attempt, pt_seq = seq\<rparr>\<rparr>"

definition complete_phase :: "phase \<Rightarrow> nat option \<Rightarrow> nat option \<Rightarrow> nat \<Rightarrow> build_acc \<Rightarrow> build_acc" where
  "complete_phase p round attempt seq acc =
     acc\<lparr>ba_lastCompletedPhase := Some \<lparr>pt_phase = p, pt_round = round, pt_attempt = attempt, pt_seq = seq\<rparr>,
         ba_currentPhase := (if map_option pt_phase (ba_currentPhase acc) = Some p then None
                             else ba_currentPhase acc)\<rparr>"

definition open_cycle :: "nat \<Rightarrow> build_acc \<Rightarrow> build_acc" where
  "open_cycle seq acc =
     acc\<lparr>ba_verify := (ba_verify acc)\<lparr>vg_cycleSince := max (vg_cycleSince (ba_verify acc)) seq\<rparr>\<rparr>"

definition set_pr_head :: "sha \<Rightarrow> build_acc \<Rightarrow> build_acc" where
  "set_pr_head h acc = acc\<lparr>ba_pr := map_option (\<lambda>p. p\<lparr>pr_headSha := h\<rparr>) (ba_pr acc)\<rparr>"

definition seal_links :: "nat \<Rightarrow> build_acc \<Rightarrow> build_acc" where
  "seal_links seq acc =
     (case ba_linksSealedSeq acc of None \<Rightarrow> acc\<lparr>ba_linksSealedSeq := Some seq\<rparr> | Some _ \<Rightarrow> acc)"

section \<open>Before the switch\<close>

definition janitor_step :: "build_acc \<Rightarrow> event_body \<Rightarrow> build_acc" where
  "janitor_step acc b =
     (case b of
        EBuild (JanitorAttemptFailed p) \<Rightarrow>
          acc\<lparr>ba_janitor := Some (p, case ba_janitor acc of None \<Rightarrow> False | Some (_, attention) \<Rightarrow> attention)\<rparr>
      | EBuild JanitorFailing \<Rightarrow> acc\<lparr>ba_janitor := map_option (\<lambda>(p, _). (p, True)) (ba_janitor acc)\<rparr>
      | EBuild JanitorRecovered \<Rightarrow> acc\<lparr>ba_janitor := None\<rparr>
      | _ \<Rightarrow> acc)"

definition rewrite_step :: "build_acc \<Rightarrow> event_body \<Rightarrow> nat \<Rightarrow> build_acc" where
  "rewrite_step acc b seq =
     (case b of
        ETarget (TargetRewritten t) \<Rightarrow> acc\<lparr>ba_targetRewrite := Some (t, seq)\<rparr>
      | ETarget (TargetMoved _) \<Rightarrow> acc\<lparr>ba_targetRewrite := None\<rparr>
      | ETarget (TargetRewriteCleared _ _ _) \<Rightarrow> acc\<lparr>ba_targetRewrite := None\<rparr>
      | ENode (NodeParentAccepted _) \<Rightarrow> acc\<lparr>ba_targetRewrite := None\<rparr>
      | _ \<Rightarrow> acc)"

definition integration_step :: "build_acc \<Rightarrow> event_body \<Rightarrow> nat \<Rightarrow> build_acc" where
  "integration_step acc b seq =
     (case b of
        EIntegration i \<Rightarrow>
          acc\<lparr>ba_integration := Some (advanceIntegration
                (case ba_integration acc of None \<Rightarrow> initialIntegration | Some st \<Rightarrow> st) i seq)\<rparr>
      | _ \<Rightarrow> acc)"

text \<open>\<^verbatim>\<open>node.*\<close>, and \<^verbatim>\<open>target.*\<close> on a node, advance the node restack machine, which may throw.\<close>

definition concerns_node :: "build_acc \<Rightarrow> event_body \<Rightarrow> bool" where
  "concerns_node acc b =
     (case b of ENode _ \<Rightarrow> True | ETarget _ \<Rightarrow> ba_kind acc = Some Node | _ \<Rightarrow> False)"

definition node_restack_step :: "build_acc \<Rightarrow> ab_event \<Rightarrow> build_error + build_acc" where
  "node_restack_step acc e =
     (if concerns_node acc (ev_body e)
      then (case nr_step (case ba_nodeRestack acc of None \<Rightarrow> initialNodeRestack | Some st \<Rightarrow> st) e of
              Inl x \<Rightarrow> Inl (NodeFault x)
            | Inr st \<Rightarrow> Inr (acc\<lparr>ba_nodeRestack := Some st\<rparr>))
      else Inr acc)"

definition stage_step :: "build_acc \<Rightarrow> ab_event \<Rightarrow> build_acc" where
  "stage_step acc e =
     (let acc1 = acc\<lparr>ba_verifyStage := advanceVerifyStage (ba_verifyStage acc) e\<rparr> in
      case ev_body e of EVerify (VerifyCancelled _) \<Rightarrow> supersede_cancelled acc1 | _ \<Rightarrow> acc1)"

definition pre_step :: "build_acc \<Rightarrow> ab_event \<Rightarrow> build_error + build_acc" where
  "pre_step acc e =
     (let acc1 = acc\<lparr>ba_pollingActivity := advancePollingActivity (ba_pollingActivity acc) e\<rparr>;
          acc2 = rewrite_step (janitor_step acc1 (ev_body e)) (ev_body e) (ev_seq e);
          acc3 = acc2\<lparr>ba_landing := advanceLanding (ba_landing acc2) e\<rparr>;
          acc4 = integration_step acc3 (ev_body e) (ev_seq e)
      in map_result (\<lambda>acc5. stage_step acc5 e) (node_restack_step acc4 e))"

section \<open>The families\<close>

definition parent_accepted_step :: "build_acc \<Rightarrow> parent_change \<Rightarrow> build_acc" where
  "parent_accepted_step acc p =
     (if ba_kind acc = Some Node
      then acc\<lparr>ba_target := np_target (px_next p), ba_baseBranch := Some (np_branch (px_next p)),
               ba_nodeComparison := None,
               ba_integration := map_option (\<lambda>i. i\<lparr>is_cycle := None, is_observation := None\<rparr>)
                                   (ba_integration acc)\<rparr>
      else acc)"

definition empty_node_links :: node_links_state where
  "empty_node_links = \<lparr>nl_builds = [], nl_links = [], nl_published = None\<rparr>"

definition node_links_of :: "build_acc \<Rightarrow> node_links_state" where
  "node_links_of acc = (case ba_nodeIssueLinks acc of None \<Rightarrow> empty_node_links | Some n \<Rightarrow> n)"

definition links_recorded_step :: "build_acc \<Rightarrow> string \<Rightarrow> node_issue_link list \<Rightarrow> build_acc" where
  "links_recorded_step acc build ls =
     (let cur = node_links_of acc in
      acc\<lparr>ba_nodeIssueLinks := Some (cur\<lparr>
            nl_builds := (if build \<in> set (nl_builds cur) then nl_builds cur
                          else sort (nl_builds cur @ [build])),
            nl_links := mergeNodeIssueLinks (nl_links cur) ls\<rparr>)\<rparr>)"

fun node_step :: "build_acc \<Rightarrow> node_ev \<Rightarrow> timestamp \<Rightarrow> nat \<Rightarrow> build_acc" where
  "node_step acc (NodeParentAccepted p) ts seq = parent_accepted_step acc p"
| "node_step acc (NodeOpening p) ts seq = acc\<lparr>ba_nodeOpening := Some p\<rparr>"
| "node_step acc (NodeOpened s) ts seq = acc\<lparr>ba_nodeOpened := Some s\<rparr>"
| "node_step acc (NodePollChecked p) ts seq = acc\<lparr>ba_nodePolling := Some (p, ts)\<rparr>"
| "node_step acc (NodeCompared p) ts seq = acc\<lparr>ba_nodeComparison := Some p\<rparr>"
| "node_step acc (NodeIssueLinksRecorded b ls) ts seq = links_recorded_step acc b ls"
| "node_step acc (NodeIssueLinksPublished pr ls) ts seq =
     acc\<lparr>ba_nodeIssueLinks := Some ((node_links_of acc)\<lparr>nl_published := Some (pr, ls, seq)\<rparr>)\<rparr>"
| "node_step acc (NodeRewritten p) ts seq =
     set_pr_head (nw_head p)
       (acc\<lparr>ba_nodeComparison := map_option (\<lambda>c. c\<lparr>nc_headSha := nw_head p\<rparr>) (ba_nodeComparison acc)\<rparr>)"
| "node_step acc _ ts seq = acc"

definition created_step :: "build_acc \<Rightarrow> build_created \<Rightarrow> build_acc" where
  "created_step acc p =
     acc\<lparr>ba_kind := bc_kind p, ba_target := bc_target p, ba_baseBranch := Some (bc_baseBranch p),
         ba_pinnedAssets := (case bc_assets p of None \<Rightarrow> [] | Some a \<Rightarrow> a),
         ba_issueLinks := map (\<lambda>(i, intent). \<lparr>bl_issue = i, bl_intent = intent, bl_downgrade = None\<rparr>)
                            (case bc_issueLinks p of None \<Rightarrow> [] | Some ls \<Rightarrow> ls)\<rparr>"

definition downgrade_link :: "nat \<Rightarrow> string \<Rightarrow> nat \<Rightarrow> build_issue_link \<Rightarrow> build_issue_link" where
  "downgrade_link issue reason seq l =
     (if bl_issue l = issue \<and> bl_intent l = Closes
      then \<lparr>bl_issue = issue, bl_intent = Refs, bl_downgrade = Some (reason, seq)\<rparr> else l)"

fun issue_step :: "build_acc \<Rightarrow> issue_ev \<Rightarrow> nat \<Rightarrow> build_acc" where
  "issue_step acc (IssueLinkDowngraded issue reason) seq =
     (if ba_linksSealedSeq acc \<noteq> None then acc
      else acc\<lparr>ba_issueLinks := map (downgrade_link issue reason seq) (ba_issueLinks acc)\<rparr>)"
| "issue_step acc IssueLinksSealed seq = seal_links seq acc"

definition pending_of :: "command \<Rightarrow> string option \<Rightarrow> actor \<Rightarrow> nat \<Rightarrow> pending_command" where
  "pending_of c reason by_whom seq =
     \<lparr>pd_command = c, pd_seq = seq, pd_reason = reason, pd_actor = by_whom\<rparr>"

definition set_default :: "nat option \<Rightarrow> auto_merge \<Rightarrow> auto_merge" where
  "set_default d am = (case d of None \<Rightarrow> am | Some _ \<Rightarrow> am\<lparr>am_defaultSeq := d\<rparr>)"

fun build_step :: "build_acc \<Rightarrow> build_ev \<Rightarrow> actor \<Rightarrow> nat \<Rightarrow> build_acc" where
  "build_step acc (BuildCreated p) who seq = created_step acc p"
| "build_step acc (BuildCompleted out) who seq =
     acc\<lparr>ba_terminal := Some TDone, ba_outcome := Some out\<rparr>"
| "build_step acc (PauseRequested r) who seq =
     acc\<lparr>ba_resumePending := [], ba_pausePending := ba_pausePending acc @ [pending_of Pause r who seq]\<rparr>"
| "build_step acc (ResumeRequested r) who seq =
     acc\<lparr>ba_pausePending := [], ba_resumePending := ba_resumePending acc @ [pending_of Resume r who seq]\<rparr>"
| "build_step acc (AbortRequested r) who seq =
     acc\<lparr>ba_abortPending := ba_abortPending acc @ [pending_of AbortCommand r who seq]\<rparr>"
| "build_step acc DiscardRequested who seq = acc\<lparr>ba_discard := Some (seq, who)\<rparr>"
| "build_step acc (AutoMergeRequested consent d) who seq =
     (let am = ba_autoMerge acc;
          am1 = (if consent then am\<lparr>am_explicitCommandSeq := Some seq\<rparr> else am)
      in acc\<lparr>ba_autoMerge := set_default d (am1\<lparr>am_requested := True, am_commandSeq := Some seq\<rparr>)\<rparr>)"
| "build_step acc (AutoMergeCancelled d) who seq =
     acc\<lparr>ba_autoMerge := set_default d ((ba_autoMerge acc)\<lparr>am_requested := False, am_commandSeq := Some seq\<rparr>)\<rparr>"
| "build_step acc (AutoMergeDefaultObserved d) who seq =
     (if d > (case am_defaultSeq (ba_autoMerge acc) of None \<Rightarrow> 0 | Some x \<Rightarrow> x)
      then acc\<lparr>ba_autoMerge := (ba_autoMerge acc)\<lparr>am_defaultSeq := Some d\<rparr>\<rparr> else acc)"
| "build_step acc BuildPaused who seq = acc\<lparr>ba_pausedFlag := True, ba_pausePending := []\<rparr>"
| "build_step acc BuildResumed who seq = acc\<lparr>ba_pausedFlag := False, ba_resumePending := []\<rparr>"
| "build_step acc BuildAborted who seq = acc\<lparr>ba_terminal := Some TAborted, ba_abortPending := []\<rparr>"
| "build_step acc _ who seq = acc"

fun runner_step :: "build_acc \<Rightarrow> runner_ev \<Rightarrow> nat \<Rightarrow> build_acc" where
  "runner_step acc RunnerAttached seq = acc\<lparr>ba_attached := True, ba_setupFailure := None\<rparr>"
| "runner_step acc (RunnerSetupFailed p) seq =
     acc\<lparr>ba_setupFailures := ba_setupFailures acc @ [(p, seq)], ba_setupFailure := Some (p, seq)\<rparr>"
| "runner_step acc RunnerRuntimeRecorded seq = acc"

fun execution_step :: "build_acc \<Rightarrow> execution_ev \<Rightarrow> nat \<Rightarrow> build_acc" where
  "execution_step acc (ExecutionStarted p) seq =
     acc\<lparr>ba_executions := ba_executions acc @ [(p, seq)], ba_infraFailure := None\<rparr>"
| "execution_step acc (ExecutionEnded _ _ _) seq = acc\<lparr>ba_infraFailure := None\<rparr>"
| "execution_step acc _ seq = acc"

fun infra_step :: "build_acc \<Rightarrow> infra_ev \<Rightarrow> nat \<Rightarrow> build_acc" where
  "infra_step acc (InfrastructureFailed p) seq =
     acc\<lparr>ba_infraFailures := ba_infraFailures acc @ [(p, seq)], ba_infraFailure := Some (p, seq)\<rparr>"
| "infra_step acc (CleanupAttempted p) seq =
     acc\<lparr>ba_cleanups := ba_cleanups acc @ [(p, seq)],
         ba_infraFailure := (if ca_outcome p \<noteq> Unknown \<and>
             map_option (\<lambda>(f, _). if_workspaceRef f) (ba_infraFailure acc) = Some (ca_workspaceRef p)
           then None else ba_infraFailure acc)\<rparr>"

fun spec_step :: "build_acc \<Rightarrow> spec_ev \<Rightarrow> nat \<Rightarrow> build_acc" where
  "spec_step acc (SpecImported a) seq = acc\<lparr>ba_specRev := Some (art_rev a)\<rparr>"
| "spec_step acc (SpecAuthored a) seq = acc\<lparr>ba_specRev := Some (art_rev a)\<rparr>"
| "spec_step acc (SpecRevised a assets) seq =
     open_cycle seq (acc\<lparr>ba_specRev := Some (art_rev a),
       ba_pinnedAssets := (case assets of None \<Rightarrow> ba_pinnedAssets acc | Some x \<Rightarrow> x),
       ba_restartSince := seq, ba_planCeiling := None, ba_codeCeiling := None\<rparr>)"

definition at_round :: "nat \<Rightarrow> build_acc \<Rightarrow> build_acc" where
  "at_round r acc = acc\<lparr>ba_round := r\<rparr>"

definition plan_verdict_step :: "build_acc \<Rightarrow> verdict_payload \<Rightarrow> nat \<Rightarrow> build_acc" where
  "plan_verdict_step acc v seq =
     (let r = vp_round v; approved = (vp_verdict v = Approve) in
      complete_phase (Core PlanReview) (Some r) None seq
        (acc\<lparr>ba_round := r,
             ba_plan := (ba_plan acc)\<lparr>pp_approved := approved,
                                      pp_approval := (if approved then Some (seq, r) else None)\<rparr>,
             ba_planFindings := set_round (ba_planFindings acc) r (vp_findings v)\<rparr>))"

definition code_verdict_step :: "build_acc \<Rightarrow> verdict_payload \<Rightarrow> nat \<Rightarrow> build_acc" where
  "code_verdict_step acc v seq =
     (let r = vp_round v; approved = (vp_verdict v = Approve);
          acc1 = acc\<lparr>ba_round := r, ba_codeReviewApproved := approved,
                     ba_codeReviewApproval := (if approved then Some (seq, r) else None)\<rparr>;
          acc2 = (if approved then open_cycle seq acc1 else acc1)
      in complete_phase (Core CodeReview) (Some r) None seq
           (acc2\<lparr>ba_codeFindings := set_round (ba_codeFindings acc2) r (vp_findings v)\<rparr>))"

fun loop_step :: "build_acc \<Rightarrow> loop_ev \<Rightarrow> nat \<Rightarrow> build_acc" where
  "loop_step acc (PlanStarted r _) seq =
     start_phase (Core Plan) (Some r) None seq
       (acc\<lparr>ba_round := r, ba_plan := (ba_plan acc)\<lparr>pp_round := r\<rparr>\<rparr>)"
| "loop_step acc (PlanCompleted r art _) seq =
     complete_phase (Core Plan) (Some r) None seq
       (acc\<lparr>ba_round := r, ba_plan := (ba_plan acc)\<lparr>pp_round := r, pp_artifactRev := Some (art_rev art)\<rparr>\<rparr>)"
| "loop_step acc (PlanReviewStarted r) seq =
     start_phase (Core PlanReview) (Some r) None seq (at_round r acc)"
| "loop_step acc (PlanReviewVerdict v) seq = plan_verdict_step acc v seq"
| "loop_step acc (ImplementStarted r _ _) seq =
     start_phase (Core Implement) (Some r) None seq
       (acc\<lparr>ba_round := r, ba_implement := (ba_implement acc)\<lparr>im_round := r\<rparr>\<rparr>)"
| "loop_step acc (ImplementCompleted r commits art) seq =
     complete_phase (Core Implement) (Some r) None seq
       (acc\<lparr>ba_round := r, ba_implement := \<lparr>im_round = r, im_commits = Some commits,
                                            im_artifactRev = Some (art_rev art)\<rparr>\<rparr>)"
| "loop_step acc (CodeReviewStarted r) seq =
     start_phase (Core CodeReview) (Some r) None seq (at_round r acc)"
| "loop_step acc (CodeReviewVerdict v) seq = code_verdict_step acc v seq"

definition verify_started_step :: "build_acc \<Rightarrow> verify_started \<Rightarrow> nat \<Rightarrow> build_acc" where
  "verify_started_step acc p seq =
     start_phase (Verify (vs_step p)) None (Some (vs_attempt p)) seq
       (acc\<lparr>ba_verify := (ba_verify acc)\<lparr>
            vg_maxAttemptSeen := max (vg_maxAttemptSeen (ba_verify acc)) (vs_attempt p),
            vg_currentStep := Some (vs_step p)\<rparr>\<rparr>)"

definition verify_completed_step :: "build_acc \<Rightarrow> verify_completed \<Rightarrow> nat \<Rightarrow> build_acc" where
  "verify_completed_step acc c seq =
     (let result = normalizeVerifyCompletion c seq; v = ba_verify acc in
      if jm_has (vss_cancellations (ba_verifyStage acc)) (verifyMemberKey (vr_step result) (vr_attempt result))
      then acc
      else complete_phase (Verify (vr_step result)) None (Some (vr_attempt result)) seq
        (acc\<lparr>ba_verify := v\<lparr>
             vg_maxAttemptSeen := max (vg_maxAttemptSeen v) (vr_attempt result),
             vg_results := vg_results v @ [result],
             vg_currentStep := (if vg_currentStep v = Some (vr_step result) then None
                                else vg_currentStep v)\<rparr>\<rparr>))"

definition verify_cancelled_step :: "build_acc \<Rightarrow> verify_cancelled \<Rightarrow> nat \<Rightarrow> build_acc" where
  "verify_cancelled_step acc p seq =
     (if map_option snd (map_of (vss_cancellations (ba_verifyStage acc))
                           (verifyMemberKey (vc_step p) (vc_attempt p))) = Some seq
      then complete_phase (Verify (vc_step p)) None (Some (vc_attempt p)) seq acc else acc)"

fun verify_step :: "build_acc \<Rightarrow> verify_ev \<Rightarrow> nat \<Rightarrow> build_acc" where
  "verify_step acc (VerifyConfigCaptured p) seq =
     open_cycle seq (acc\<lparr>ba_verify := (ba_verify acc)\<lparr>vg_configPin := Some (p, seq)\<rparr>\<rparr>)"
| "verify_step acc VerifyConfigSuperseded seq = open_cycle seq acc"
| "verify_step acc (VerifyCancelled p) seq = verify_cancelled_step acc p seq"
| "verify_step acc (VerifyStarted p) seq = verify_started_step acc p seq"
| "verify_step acc (VerifyCompleted c) seq = verify_completed_step acc c seq"
| "verify_step acc (VerifyStageFailed _) seq = acc"
| "verify_step acc (VerifyReconcilePolicyCaptured _) seq = acc"

fun finalize_step :: "build_acc \<Rightarrow> finalize_ev \<Rightarrow> nat \<Rightarrow> build_acc" where
  "finalize_step acc FinalizeStarted seq = start_phase (Core Finalize) None None seq acc"
| "finalize_step acc (FinalizeCompleted pr) seq =
     complete_phase (Core Finalize) None None seq
       ((seal_links seq acc)\<lparr>ba_pr := Some pr, ba_prState := Some PrIsOpen,
                             ba_finalizeCompletedSeq := seq\<rparr>)"
| "finalize_step acc (FinalizeStepCompleted step ok _) seq =
     acc\<lparr>ba_finalizeSteps := ba_finalizeSteps acc @ [(step, ok, seq)]\<rparr>"
| "finalize_step acc (FinalizeStepStarted _) seq = acc"

fun pr_step :: "build_acc \<Rightarrow> pr_ev \<Rightarrow> build_acc" where
  "pr_step acc (PrOpened pr) = acc\<lparr>ba_pr := Some pr, ba_prState := Some PrIsOpen\<rparr>"
| "pr_step acc (PrAutoMergeEnabled c) =
     acc\<lparr>ba_autoMerge := (ba_autoMerge acc)\<lparr>am_applied := Some (True, c)\<rparr>\<rparr>"
| "pr_step acc (PrAutoMergeDisabled c) =
     acc\<lparr>ba_autoMerge := (ba_autoMerge acc)\<lparr>am_applied := Some (False, c)\<rparr>\<rparr>"
| "pr_step acc (PrMerged s) = acc\<lparr>ba_mergedSha := Some s, ba_prState := Some PrIsMerged\<rparr>"
| "pr_step acc PrClosed = acc\<lparr>ba_prState := Some PrIsClosed\<rparr>"
| "pr_step acc (PrConflicted _) = acc\<lparr>ba_prState := Some PrIsConflicted\<rparr>"

definition reopen_conflicted :: "build_acc \<Rightarrow> build_acc" where
  "reopen_conflicted acc =
     (if ba_prState acc = Some PrIsConflicted then acc\<lparr>ba_prState := Some PrIsOpen\<rparr> else acc)"

definition rebase_commits :: "sha \<Rightarrow> sha \<Rightarrow> build_acc \<Rightarrow> build_acc" where
  "rebase_commits base head acc =
     (if ba_kind acc \<noteq> Some Node \<and> im_commits (ba_implement acc) \<noteq> None
      then acc\<lparr>ba_implement := (ba_implement acc)\<lparr>im_commits := Some \<lparr>cr_base = base, cr_head = head\<rparr>\<rparr>\<rparr>
      else acc)"

fun restack_step :: "build_acc \<Rightarrow> restack_ev \<Rightarrow> build_acc" where
  "restack_step acc (RestackRewritten p head observed) =
     set_pr_head (case observed of Some h \<Rightarrow> h | None \<Rightarrow> head) (rebase_commits (lr_targetBase p) head acc)"
| "restack_step acc (RestackCompleted p head) =
     set_pr_head head (reopen_conflicted (rebase_commits (lr_targetBase p) head acc))"
| "restack_step acc _ = acc"

definition reconcileRewriteHead :: "reconcile_rewritten \<Rightarrow> sha" where
  "reconcileRewriteHead p = (case rw_observedHead p of Some h \<Rightarrow> h | None \<Rightarrow> rw_headSha p)"

definition reconcile_completed_step :: "build_acc \<Rightarrow> sha option \<Rightarrow> nat \<Rightarrow> build_acc" where
  "reconcile_completed_step acc rebased seq =
     (let acc1 = (case rebased of
                    Some h \<Rightarrow> if ba_kind acc \<noteq> Some Node then set_pr_head h acc else acc
                  | None \<Rightarrow> acc);
          attempt = (case ba_currentPhase acc1 of
                       Some c \<Rightarrow> if pt_phase c = Core Reconcile then pt_attempt c else None
                     | None \<Rightarrow> None)
      in complete_phase (Core Reconcile) None attempt seq (open_cycle seq (reopen_conflicted acc1)))"

fun reconcile_step :: "build_acc \<Rightarrow> reconcile_ev \<Rightarrow> nat \<Rightarrow> build_acc" where
  "reconcile_step acc (ReconcileStarted p) seq =
     start_phase (Core Reconcile) None (Some (rs_attempt p)) seq
       (acc\<lparr>ba_reconcileAttempts := max (ba_reconcileAttempts acc) (rs_attempt p)\<rparr>)"
| "reconcile_step acc (ReconcileRewritten p) seq =
     set_pr_head (reconcileRewriteHead p) (rebase_commits (rw_targetBase p) (rw_headSha p) acc)"
| "reconcile_step acc (ReconcileMerged _) seq = reconcile_completed_step acc None seq"
| "reconcile_step acc (ReconcileRebased h _) seq = reconcile_completed_step acc (Some h) seq"
| "reconcile_step acc (ReconcileProgressChecked _) seq = acc"
| "reconcile_step acc (ReconcileContended _ _) seq = acc"
| "reconcile_step acc (ReconcileFact _) seq = acc"

fun escalation_step :: "build_acc \<Rightarrow> escalation_ev \<Rightarrow> actor \<Rightarrow> nat \<Rightarrow> build_acc" where
  "escalation_step acc (EscalationRaised p) who seq = raised_step acc p who seq"
| "escalation_step acc (EscalationAnswered p) who seq = answered_step acc p who seq"

definition count_failure :: "phase \<Rightarrow> build_acc \<Rightarrow> build_acc" where
  "count_failure p acc =
     acc\<lparr>ba_failures := jm_set p ((case map_of (ba_failures acc) p of None \<Rightarrow> 0 | Some n \<Rightarrow> n) + 1)
                          (ba_failures acc)\<rparr>"

section \<open>One event, one batch\<close>

definition switch_step :: "build_acc \<Rightarrow> ab_event \<Rightarrow> build_error + build_acc" where
  "switch_step acc e =
     (let seq = ev_seq e in
      case ev_body e of
        ESession s \<Rightarrow> session_step acc s (ev_ts e) seq
      | EBuild b \<Rightarrow> Inr (build_step acc b (ev_actor e) seq)
      | ENode n \<Rightarrow> Inr (node_step acc n (ev_ts e) seq)
      | EIntegration (IntegrationPrepared _) \<Rightarrow> Inr (open_cycle seq acc)
      | ERunner r \<Rightarrow> Inr (runner_step acc r seq)
      | EExecution x \<Rightarrow> Inr (execution_step acc x seq)
      | EInfra i \<Rightarrow> Inr (infra_step acc i seq)
      | EDispatchFailed p \<Rightarrow> Inr (acc\<lparr>ba_dispatchFailures := ba_dispatchFailures acc @ [(p, seq)]\<rparr>)
      | ESpec s \<Rightarrow> Inr (spec_step acc s seq)
      | ELoop l \<Rightarrow> Inr (loop_step acc l seq)
      | EVerify v \<Rightarrow> Inr (verify_step acc v seq)
      | EFinalize f \<Rightarrow> Inr (finalize_step acc f seq)
      | EPr p \<Rightarrow> Inr (pr_step acc p)
      | ERestack r \<Rightarrow> Inr (restack_step acc r)
      | EReconcile r \<Rightarrow> Inr (reconcile_step acc r seq)
      | EPublication (PublicationRequested (ReqFinalize _)) \<Rightarrow> Inr (seal_links seq acc)
      | EEscalation x \<Rightarrow> Inr (escalation_step acc x (ev_actor e) seq)
      | EPhase (PhaseDeferralEscalated p) \<Rightarrow> Inr (deferral_escalated_step acc p seq)
      | EPhase (PhaseFailed p _) \<Rightarrow> Inr (count_failure p acc)
      | EIssue i \<Rightarrow> Inr (issue_step acc i seq)
      | EObservation p \<Rightarrow> Inr (acc\<lparr>ba_observations := ba_observations acc @ [p]\<rparr>)
      | _ \<Rightarrow> Inr acc)"

definition main_step :: "build_acc \<Rightarrow> ab_event \<Rightarrow> build_error + build_acc" where
  "main_step acc e =
     bind_result (pre_step acc e) (\<lambda>acc1.
       map_result (\<lambda>acc2. acc2\<lparr>ba_lastEvent := Some e\<rparr>) (switch_step acc1 e))"

definition running_context :: "verify_started \<times> nat \<Rightarrow> phase_context" where
  "running_context m =
     \<lparr>pt_phase = Verify (vs_step (fst m)), pt_round = None, pt_attempt = Some (vs_attempt (fst m)),
      pt_seq = snd m\<rparr>"

definition verify_or_idle :: "phase_context option \<Rightarrow> bool" where
  "verify_or_idle c =
     (case c of None \<Rightarrow> True | Some x \<Rightarrow> (case pt_phase x of Verify _ \<Rightarrow> True | Core _ \<Rightarrow> False))"

definition end_of_batch :: "build_acc \<Rightarrow> build_acc" where
  "end_of_batch acc =
     (let st = ba_verifyStage acc;
          running = runningVerifyMembers st (vg_cycleSince (ba_verify acc));
          acc1 = (if vss_members st \<noteq> []
                  then acc\<lparr>ba_verify := (ba_verify acc)\<lparr>vg_running := Some (map (vs_step \<circ> fst) running)\<rparr>\<rparr>
                  else acc)
      in if vss_concurrent st
         then (case last_opt running of
                 Some m \<Rightarrow>
                   acc1\<lparr>ba_verify := (ba_verify acc1)\<lparr>vg_currentStep := Some (vs_step (fst m))\<rparr>,
                        ba_currentPhase := (if verify_or_idle (ba_currentPhase acc1)
                                            then Some (running_context m) else ba_currentPhase acc1)\<rparr>
               | None \<Rightarrow> acc1\<lparr>ba_verify := (ba_verify acc1)\<lparr>vg_currentStep := None\<rparr>\<rparr>)
         else acc1)"

definition fold_known :: "build_acc \<Rightarrow> ab_event list \<Rightarrow> build_error + build_acc" where
  "fold_known acc events = try_fold main_step (Inr (fold_events drain_step acc events)) events"

definition foldBuild :: "build_acc \<Rightarrow> ab_event list \<Rightarrow> build_error + build_acc" where
  "foldBuild acc events =
     map_result end_of_batch
       (fold_known (acc\<lparr>ba_compatibility := advanceCompatibility (ba_compatibility acc) events\<rparr>)
          (filterKnownEvents events))"

section \<open>The derived state\<close>

record build_state =
  bs_acc :: build_acc
  bs_status :: build_status
  bs_phase :: "phase option"
  bs_lastSeq :: nat
  bs_discardRequest :: "(nat \<times> actor) option"
  bs_pendingCommands :: "pending_command list"

definition derive_status :: "build_acc \<Rightarrow> build_status" where
  "derive_status acc =
     (case ba_terminal acc of
        Some TDone \<Rightarrow> StDone
      | Some TAborted \<Rightarrow> StAborted
      | None \<Rightarrow>
          (if ba_pausedFlag acc then StPaused
           else if ba_openEscalations acc \<noteq> [] \<or> integrationFailed acc then StBlocked
           else if ba_kind acc = Some Node \<and> ba_nodeOpened acc \<noteq> None then StCollecting
           else if ba_attached acc then StRunning else StQueued))"

definition active_phase :: "build_acc \<Rightarrow> phase_context option" where
  "active_phase acc =
     (case ba_currentPhase acc of None \<Rightarrow> ba_lastCompletedPhase acc | Some c \<Rightarrow> Some c)"

definition finishBuild :: "build_acc \<Rightarrow> build_state" where
  "finishBuild acc =
     \<lparr>bs_acc = acc, bs_status = derive_status acc, bs_phase = map_option pt_phase (active_phase acc),
      bs_lastSeq = max (case ba_lastEvent acc of None \<Rightarrow> 0 | Some e \<Rightarrow> ev_seq e)
                     (cs_lastSeq (ba_compatibility acc)),
      bs_discardRequest = (if ba_terminal acc = None then ba_discard acc else None),
      bs_pendingCommands = sort_key pd_seq
        (ba_pausePending acc @ ba_resumePending acc @ ba_abortPending acc)\<rparr>"

definition discardInFlight :: "build_state \<Rightarrow> bool" where
  "discardInFlight st = (bs_discardRequest st \<noteq> None)"

definition buildReducer ::
  "(build_error + build_acc, ab_event, build_error + build_state) reducer" where
  "buildReducer =
     \<lparr>rd_version = 30, rd_rawEvents = True, rd_initial = Inr initialBuildAcc,
      rd_fold = (\<lambda>r events. bind_result r (\<lambda>acc. foldBuild acc events)),
      rd_finish = map_result finishBuild\<rparr>"

definition reduceBuild :: "ab_event list \<Rightarrow> build_error + build_state" where
  "reduceBuild events = map_result finishBuild (foldBuild initialBuildAcc events)"

end
