(* ===== verification/ReducerFacts.thy ===== *)
theory ReducerFacts
  imports Reducer
begin

text \<open>
  Facts about the build reducer: which fields the steps before the switch can change, which errors a
  reduction can end with, and the invariants every reduced build satisfies.
\<close>

lemmas main_splits =
  event_body.split publication_ev.split publication_request.split phase_ev.split integration_ev.split

section \<open>The steps before the switch\<close>

text \<open>Everything outside the eight sub-states the earlier steps own is untouched by them.\<close>

lemma supersede_one_form:
  "\<exists>op an ab v. supersede_one acc e =
     acc\<lparr>ba_openEscalations := op, ba_answered := an, ba_abortPending := ab, ba_verifyStage := v\<rparr>"
proof (cases "owner_cancellation (ba_verifyStage acc) (oe_session (any_open e))")
  case None
  then have "supersede_one acc e = acc\<lparr>ba_openEscalations := ba_openEscalations acc,
      ba_answered := ba_answered acc, ba_abortPending := ba_abortPending acc,
      ba_verifyStage := ba_verifyStage acc\<rparr>"
    by (simp add: supersede_one_def)
  then show ?thesis by blast
next
  case (Some c)
  have "supersede_one acc e = acc\<lparr>
      ba_openEscalations := jm_del (oe_id (any_open e)) (ba_openEscalations acc),
      ba_answered := remove_first (\<lambda>a. oe_id (an_open a) = oe_id (any_open e)) (ba_answered acc),
      ba_abortPending := (case e of
         Answered a \<Rightarrow> if an_resolution a = Abort
                       then filter (\<lambda>p. pd_seq p \<noteq> an_answeredSeq a) (ba_abortPending acc)
                       else ba_abortPending acc
       | StillOpen _ \<Rightarrow> ba_abortPending acc),
      ba_verifyStage := note_superseded e c (ba_verifyStage acc)\<rparr>"
    using Some by (cases e) (simp_all add: supersede_one_def Let_def)
  then show ?thesis by blast
qed

lemma supersede_form:
  "\<exists>op an ab v. supersede_cancelled acc =
     acc\<lparr>ba_openEscalations := op, ba_answered := an, ba_abortPending := ab, ba_verifyStage := v\<rparr>"
proof -
  have "\<exists>op an ab v. foldl supersede_one a xs =
     a\<lparr>ba_openEscalations := op, ba_answered := an, ba_abortPending := ab, ba_verifyStage := v\<rparr>" for a xs
  proof (induction xs arbitrary: a)
    case Nil
    have "a = a\<lparr>ba_openEscalations := ba_openEscalations a, ba_answered := ba_answered a,
        ba_abortPending := ba_abortPending a, ba_verifyStage := ba_verifyStage a\<rparr>" by simp
    then show ?case by (metis foldl_Nil)
  next
    case (Cons x xs)
    obtain op an ab v where 1: "supersede_one a x =
       a\<lparr>ba_openEscalations := op, ba_answered := an, ba_abortPending := ab, ba_verifyStage := v\<rparr>"
      using supersede_one_form by blast
    obtain op' an' ab' v' where 2: "foldl supersede_one (supersede_one a x) xs = (supersede_one a x)
       \<lparr>ba_openEscalations := op', ba_answered := an', ba_abortPending := ab', ba_verifyStage := v'\<rparr>"
      using Cons.IH by blast
    have "foldl supersede_one a (x # xs) =
       a\<lparr>ba_openEscalations := op', ba_answered := an', ba_abortPending := ab', ba_verifyStage := v'\<rparr>"
      using 2 by (simp add: 1)
    then show ?case by blast
  qed
  then show ?thesis unfolding supersede_cancelled_def by blast
qed

lemma pre_step_form:
  assumes "pre_step acc e = Inr acc1"
  shows "\<exists>p j t l i n op an ab v. acc1 = acc\<lparr>ba_pollingActivity := p, ba_janitor := j,
     ba_targetRewrite := t, ba_landing := l, ba_integration := i, ba_nodeRestack := n,
     ba_openEscalations := op, ba_answered := an, ba_abortPending := ab, ba_verifyStage := v\<rparr>"
proof -
  have same: "a\<lparr>ba_janitor := ba_janitor a\<rparr> = a" "a\<lparr>ba_targetRewrite := ba_targetRewrite a\<rparr> = a"
    "a\<lparr>ba_integration := ba_integration a\<rparr> = a" for a :: build_acc by simp_all
  have "janitor_step a b = a\<lparr>ba_janitor :=
      (case b of
         EBuild (JanitorAttemptFailed p) \<Rightarrow> Some (p, case ba_janitor a of None \<Rightarrow> False | Some (_, attention) \<Rightarrow> attention)
       | EBuild JanitorFailing \<Rightarrow> map_option (\<lambda>(p, _). (p, True)) (ba_janitor a)
       | EBuild JanitorRecovered \<Rightarrow> None
       | _ \<Rightarrow> ba_janitor a)\<rparr>" for a b
    unfolding janitor_step_def event_body.case_distrib [of "\<lambda>j. a\<lparr>ba_janitor := j\<rparr>"]
      build_ev.case_distrib [of "\<lambda>j. a\<lparr>ba_janitor := j\<rparr>"] same by (rule refl)
  then have jan: "\<exists>j. janitor_step a b = a\<lparr>ba_janitor := j\<rparr>" for a b by blast
  have "rewrite_step a b s = a\<lparr>ba_targetRewrite :=
      (case b of
         ETarget (TargetRewritten t) \<Rightarrow> Some (t, s)
       | ETarget (TargetMoved _) \<Rightarrow> None
       | ETarget (TargetRewriteCleared _ _ _) \<Rightarrow> None
       | ENode (NodeParentAccepted _) \<Rightarrow> None
       | _ \<Rightarrow> ba_targetRewrite a)\<rparr>" for a b s
    unfolding rewrite_step_def event_body.case_distrib [of "\<lambda>t. a\<lparr>ba_targetRewrite := t\<rparr>"]
      target_ev.case_distrib [of "\<lambda>t. a\<lparr>ba_targetRewrite := t\<rparr>"]
      node_ev.case_distrib [of "\<lambda>t. a\<lparr>ba_targetRewrite := t\<rparr>"] same by (rule refl)
  then have rew: "\<exists>t. rewrite_step a b s = a\<lparr>ba_targetRewrite := t\<rparr>" for a b s by blast
  have "integration_step a b s = a\<lparr>ba_integration :=
      (case b of
         EIntegration i \<Rightarrow> Some (advanceIntegration
           (case ba_integration a of None \<Rightarrow> initialIntegration | Some st \<Rightarrow> st) i s)
       | _ \<Rightarrow> ba_integration a)\<rparr>" for a b s
    unfolding integration_step_def event_body.case_distrib [of "\<lambda>i. a\<lparr>ba_integration := i\<rparr>"] same
    by (rule refl)
  then have int: "\<exists>i. integration_step a b s = a\<lparr>ba_integration := i\<rparr>" for a b s by blast
  have nod: "node_restack_step a e = Inr a' \<Longrightarrow> \<exists>n. a' = a\<lparr>ba_nodeRestack := n\<rparr>" for a a'
    by (auto simp: node_restack_step_def split: if_splits sum.splits intro: exI [of _ "ba_nodeRestack a"])
  have stg: "\<exists>op an ab v. stage_step a e =
     a\<lparr>ba_openEscalations := op, ba_answered := an, ba_abortPending := ab, ba_verifyStage := v\<rparr>" for a
  proof (cases "\<exists>p. ev_body e = EVerify (VerifyCancelled p)")
    case True
    then have eq: "stage_step a e = supersede_cancelled (a\<lparr>ba_verifyStage := advanceVerifyStage (ba_verifyStage a) e\<rparr>)"
      by (auto simp: stage_step_def Let_def)
    obtain op an ab v where
      "supersede_cancelled (a\<lparr>ba_verifyStage := advanceVerifyStage (ba_verifyStage a) e\<rparr>) =
       a\<lparr>ba_openEscalations := op, ba_answered := an, ba_abortPending := ab, ba_verifyStage := v\<rparr>"
      using supersede_form [of "a\<lparr>ba_verifyStage := advanceVerifyStage (ba_verifyStage a) e\<rparr>"] by auto
    then show ?thesis unfolding eq by blast
  next
    case False
    then have "(case ev_body e of EVerify (VerifyCancelled _) \<Rightarrow> s | _ \<Rightarrow> t) = t" for s t :: build_acc
      by (auto split: event_body.split verify_ev.split)
    then have "stage_step a e = a\<lparr>ba_verifyStage := advanceVerifyStage (ba_verifyStage a) e\<rparr>"
      unfolding stage_step_def Let_def .
    moreover have "a\<lparr>ba_openEscalations := ba_openEscalations a, ba_answered := ba_answered a,
        ba_abortPending := ba_abortPending a, ba_verifyStage := v\<rparr> = a\<lparr>ba_verifyStage := v\<rparr>" for v by simp
    ultimately show ?thesis by metis
  qed
  let ?a1 = "acc\<lparr>ba_pollingActivity := advancePollingActivity (ba_pollingActivity acc) e\<rparr>"
  obtain j where j: "janitor_step ?a1 (ev_body e) = ?a1\<lparr>ba_janitor := j\<rparr>" using jan by blast
  obtain t where t: "rewrite_step (?a1\<lparr>ba_janitor := j\<rparr>) (ev_body e) (ev_seq e) =
      ?a1\<lparr>ba_janitor := j, ba_targetRewrite := t\<rparr>" using rew by blast
  let ?a3 = "?a1\<lparr>ba_janitor := j, ba_targetRewrite := t, ba_landing := advanceLanding (ba_landing acc) e\<rparr>"
  obtain i where i: "integration_step ?a3 (ev_body e) (ev_seq e) = ?a3\<lparr>ba_integration := i\<rparr>" using int by blast
  from assms obtain a5 where a5: "node_restack_step (?a3\<lparr>ba_integration := i\<rparr>) e = Inr a5" "acc1 = stage_step a5 e"
    by (auto simp: pre_step_def Let_def j t i map_result_Inr_iff)
  obtain n where n: "a5 = ?a3\<lparr>ba_integration := i, ba_nodeRestack := n\<rparr>" using nod [OF a5(1)] by blast
  show ?thesis unfolding a5(2) n using stg [of "?a3\<lparr>ba_integration := i, ba_nodeRestack := n\<rparr>"] by fastforce
qed

lemmas family_defs =
  start_phase_def complete_phase_def open_cycle_def set_pr_head_def seal_links_def
  parent_accepted_step_def links_recorded_step_def created_step_def at_round_def
  plan_verdict_step_def code_verdict_step_def verify_started_step_def verify_completed_step_def
  verify_cancelled_step_def reopen_conflicted_def rebase_commits_def reconcile_completed_step_def
  raised_step_def answered_step_def accept_ceiling_def deferral_escalated_step_def count_failure_def
  Let_def

section \<open>A reduction throws only for the node restack machine\<close>

definition session_view :: "build_acc \<Rightarrow> (string, open_session) jsmap \<times> (string, open_session) jsmap \<times> (string, session_totals) jsmap" where
  "session_view acc = (ba_openSessions acc, ba_suspended acc, ba_sessionTotals acc)"

lemma session_inv_view: "session_view acc = session_view acc' \<Longrightarrow> session_inv acc = session_inv acc'"
  by (rule session_inv_fields) (simp_all add: session_view_def)

lemma session_view_families [simp]:
  "session_view (build_step acc b who s) = session_view acc"
  "session_view (node_step acc n ts s) = session_view acc"
  "session_view (runner_step acc r s) = session_view acc"
  "session_view (execution_step acc x s) = session_view acc"
  "session_view (infra_step acc i s) = session_view acc"
  "session_view (spec_step acc sp s) = session_view acc"
  "session_view (loop_step acc l s) = session_view acc"
  "session_view (verify_step acc v s) = session_view acc"
  "session_view (finalize_step acc f s) = session_view acc"
  "session_view (pr_step acc p) = session_view acc"
  "session_view (restack_step acc rs) = session_view acc"
  "session_view (reconcile_step acc rc s) = session_view acc"
  "session_view (escalation_step acc es who s) = session_view acc"
  "session_view (issue_step acc iss s) = session_view acc"
proof -
  show "session_view (build_step acc b who s) = session_view acc"
    by (cases b) (simp_all add: session_view_def family_defs split: option.split)
  show "session_view (node_step acc n ts s) = session_view acc"
    by (cases n) (simp_all add: session_view_def family_defs split: option.split)
  show "session_view (runner_step acc r s) = session_view acc"
    by (cases r) (simp_all add: session_view_def family_defs split: option.split)
  show "session_view (execution_step acc x s) = session_view acc"
    by (cases x) (simp_all add: session_view_def family_defs split: option.split)
  show "session_view (infra_step acc i s) = session_view acc"
    by (cases i) (simp_all add: session_view_def family_defs split: option.split)
  show "session_view (spec_step acc sp s) = session_view acc"
    by (cases sp) (simp_all add: session_view_def family_defs split: option.split)
  show "session_view (loop_step acc l s) = session_view acc"
    by (cases l) (simp_all add: session_view_def family_defs split: option.split)
  show "session_view (verify_step acc v s) = session_view acc"
    by (cases v) (simp_all add: session_view_def family_defs split: option.split)
  show "session_view (finalize_step acc f s) = session_view acc"
    by (cases f) (simp_all add: session_view_def family_defs split: option.split)
  show "session_view (pr_step acc p) = session_view acc"
    by (cases p) (simp_all add: session_view_def family_defs split: option.split)
  show "session_view (restack_step acc rs) = session_view acc"
    by (cases rs) (simp_all add: session_view_def family_defs split: option.split)
  show "session_view (reconcile_step acc rc s) = session_view acc"
    by (cases rc) (simp_all add: session_view_def family_defs split: option.split)
  show "session_view (escalation_step acc es who s) = session_view acc"
    by (cases es) (simp_all add: session_view_def family_defs split: option.split)
  show "session_view (issue_step acc iss s) = session_view acc"
    by (cases iss) (simp_all add: session_view_def family_defs split: option.split)
qed

lemma session_view_small [simp]:
  "session_view (open_cycle s acc) = session_view acc"
  "session_view (seal_links s acc) = session_view acc"
  "session_view (count_failure p acc) = session_view acc"
  "session_view (deferral_escalated_step acc d s) = session_view acc"
  "session_view (acc\<lparr>ba_dispatchFailures := df\<rparr>) = session_view acc"
  "session_view (acc\<lparr>ba_observations := ob\<rparr>) = session_view acc"
  "session_view (acc\<lparr>ba_lastEvent := le\<rparr>) = session_view acc"
  by (simp_all add: session_view_def family_defs split: option.split)

lemma switch_session_view:
  "switch_step acc e = Inr acc' \<Longrightarrow> \<not> (\<exists>s. ev_body e = ESession s) \<Longrightarrow> session_view acc' = session_view acc"
  unfolding switch_step_def Let_def
  by (auto split: event_body.splits publication_ev.splits publication_request.splits phase_ev.splits integration_ev.splits)

lemma switch_throws: "switch_step acc e = Inl x \<Longrightarrow> \<exists>s. ev_body e = ESession s \<and> session_step acc s (ev_ts e) (ev_seq e) = Inl x"
  unfolding switch_step_def Let_def
  by (auto split: event_body.splits publication_ev.splits publication_request.splits phase_ev.splits integration_ev.splits)

lemma switch_session_inv:
  assumes inv: "session_inv acc" and step: "switch_step acc e = Inr acc'"
  shows "session_inv acc'"
proof (cases "\<exists>s. ev_body e = ESession s")
  case True
  then obtain s where "ev_body e = ESession s" by blast
  then show ?thesis using step session_step_inv [OF inv] by (auto simp: switch_step_def)
next
  case False
  then show ?thesis using session_inv_view [OF switch_session_view [OF step]] inv by simp
qed

lemma pre_session_inv: "session_inv acc \<Longrightarrow> pre_step acc e = Inr acc1 \<Longrightarrow> session_inv acc1"
  using pre_step_form [of acc e acc1] session_inv_view [of acc1 acc] by (auto simp: session_view_def)

lemma main_session_inv: "session_inv acc \<Longrightarrow> main_step acc e = Inr acc' \<Longrightarrow> session_inv acc'"
proof -
  assume inv: "session_inv acc" and step: "main_step acc e = Inr acc'"
  obtain a1 a2 where "pre_step acc e = Inr a1" "switch_step a1 e = Inr a2" "acc' = a2\<lparr>ba_lastEvent := Some e\<rparr>"
    using step by (auto simp: main_step_def bind_result_Inr_iff map_result_Inr_iff)
  moreover have "session_inv a2"
    using switch_session_inv [OF pre_session_inv [OF inv calculation(1)] calculation(2)] .
  ultimately show ?thesis using session_inv_view [of acc' a2] by simp
qed

lemma pre_throws: "pre_step acc e = Inl x \<Longrightarrow> \<exists>err. x = NodeFault err"
proof -
  have "node_restack_step a e = Inl x \<Longrightarrow> \<exists>err. x = NodeFault err" for a
    by (auto simp: node_restack_step_def split: if_splits sum.splits)
  moreover assume "pre_step acc e = Inl x"
  then have "\<exists>a. node_restack_step a e = Inl x"
    unfolding pre_step_def Let_def
    by (metis map_result.simps(2) old.sum.exhaust map_result.simps(1) sum.inject(1) sum.distinct(1))
  ultimately show ?thesis by blast
qed

lemma main_throws:
  assumes inv: "session_inv acc" and thr: "main_step acc e = Inl x"
  shows "\<exists>err. x = NodeFault err"
proof (cases "pre_step acc e")
  case (Inl y)
  then show ?thesis using thr pre_throws by (auto simp: main_step_def)
next
  case (Inr a1)
  have "switch_step a1 e = Inl x"
    using thr Inr by (cases "switch_step a1 e") (auto simp: main_step_def)
  from switch_throws [OF this] session_step_ok [OF pre_session_inv [OF inv Inr]]
  have False by (metis Inl_Inr_False)
  then show ?thesis ..
qed

lemma session_inv_initial [simp]: "session_inv initialBuildAcc"
  by (simp add: session_inv_def initialBuildAcc_def)

lemma drain_session_view: "session_view (drain_step acc e) = session_view acc"
  by (simp add: session_view_def drain_step_def drain_authorized_step_def relaunch_step_def
      shutdown_step_def execution_ended_step_def drain_settled_step_def Let_def
      split: event_body.split build_ev.split execution_ev.split session_ev.split option.split)

lemma drain_fold_session_view: "session_view (fold_events drain_step acc es) = session_view acc"
  by (induction es arbitrary: acc) (simp_all add: drain_session_view)

text \<open>Invariants of every successful batch.\<close>

lemma foldBuild_invariant:
  assumes "foldBuild acc es = Inr acc'" and "P acc"
    and "\<And>a c. P a \<Longrightarrow> P (a\<lparr>ba_compatibility := c\<rparr>)"
    and "\<And>a e. P a \<Longrightarrow> P (drain_step a e)"
    and "\<And>a e b. P a \<Longrightarrow> main_step a e = Inr b \<Longrightarrow> P b"
    and "\<And>a. P a \<Longrightarrow> P (end_of_batch a)"
  shows "P acc'"
proof -
  let ?a = "acc\<lparr>ba_compatibility := advanceCompatibility (ba_compatibility acc) es\<rparr>"
  let ?ks = "filterKnownEvents es"
  obtain b where b: "try_fold main_step (Inr (fold_events drain_step ?a ?ks)) ?ks = Inr b" "acc' = end_of_batch b"
    using assms(1) by (auto simp: foldBuild_def fold_known_def map_result_Inr_iff)
  have "P (fold_events drain_step ?a ?ks)"
    by (rule fold_events_invariant [where P = P]) (use assms(2-4) in blast)+
  then have "P b" using b(1) assms(5) by (blast intro: try_fold_invariant [where P = P])
  then show ?thesis using assms(6) b(2) by simp
qed

lemma main_step_cases:
  assumes "main_step acc e = Inr acc'"
  obtains a1 a2 where "pre_step acc e = Inr a1" and "switch_step a1 e = Inr a2"
    and "acc' = a2\<lparr>ba_lastEvent := Some e\<rparr>"
  using assms by (auto simp: main_step_def bind_result_Inr_iff map_result_Inr_iff)

lemma try_fold_throws:
  assumes "try_fold step (Inr a) es = Inl x" and "P a"
    and "\<And>a e b. P a \<Longrightarrow> step a e = Inr b \<Longrightarrow> P b" and "\<And>a e x. P a \<Longrightarrow> step a e = Inl x \<Longrightarrow> Q x"
  shows "Q x"
  using assms(1,2)
proof (induction es arbitrary: a)
  case (Cons e es)
  show ?case
  proof (cases "step a e")
    case (Inl y)
    then show ?thesis using Cons.prems assms(4) by auto
  next
    case (Inr b)
    then show ?thesis using Cons assms(3) by auto
  qed
qed simp

lemma foldBuild_throws:
  assumes "session_inv acc" and "foldBuild acc es = Inl x"
  shows "\<exists>err. x = NodeFault err"
proof -
  let ?a = "acc\<lparr>ba_compatibility := advanceCompatibility (ba_compatibility acc) es\<rparr>"
  have "try_fold main_step (Inr (fold_events drain_step ?a (filterKnownEvents es))) (filterKnownEvents es) = Inl x"
    using assms(2) by (cases "fold_known ?a (filterKnownEvents es)") (auto simp: foldBuild_def fold_known_def)
  moreover have "session_inv (fold_events drain_step ?a (filterKnownEvents es))"
    using assms(1) session_inv_view [OF drain_fold_session_view [of ?a "filterKnownEvents es"]]
      session_inv_view [of ?a acc] by (simp add: session_view_def)
  ultimately show ?thesis
    by (rule try_fold_throws [where P = session_inv and Q = "\<lambda>x. \<exists>err. x = NodeFault err"])
       (blast intro: main_session_inv main_throws)+
qed

section \<open>Approvals, pending commands and boundaries\<close>

definition approval_view :: "build_acc \<Rightarrow> plan_progress \<times> bool \<times> (nat \<times> nat) option" where
  "approval_view acc = (ba_plan acc, ba_codeReviewApproved acc, ba_codeReviewApproval acc)"

definition approval_inv :: "build_acc \<Rightarrow> bool" where
  "approval_inv acc \<longleftrightarrow>
     (pp_approved (ba_plan acc) \<longleftrightarrow> pp_approval (ba_plan acc) \<noteq> None) \<and>
     (ba_codeReviewApproved acc \<longleftrightarrow> ba_codeReviewApproval acc \<noteq> None)"

lemma approval_view_families [simp]:
  "approval_view (build_step acc b who s) = approval_view acc"
  "approval_view (node_step acc n ts s) = approval_view acc"
  "approval_view (runner_step acc r s) = approval_view acc"
  "approval_view (execution_step acc x s) = approval_view acc"
  "approval_view (infra_step acc i s) = approval_view acc"
  "approval_view (spec_step acc sp s) = approval_view acc"
  "approval_view (verify_step acc v s) = approval_view acc"
  "approval_view (finalize_step acc f s) = approval_view acc"
  "approval_view (pr_step acc p) = approval_view acc"
  "approval_view (restack_step acc rs) = approval_view acc"
  "approval_view (reconcile_step acc rc s) = approval_view acc"
  "approval_view (escalation_step acc es who s) = approval_view acc"
  "approval_view (issue_step acc iss s) = approval_view acc"
proof -
  show "approval_view (build_step acc b who s) = approval_view acc"
    by (cases b) (simp_all add: approval_view_def family_defs split: option.split)
  show "approval_view (node_step acc n ts s) = approval_view acc"
    by (cases n) (simp_all add: approval_view_def family_defs split: option.split)
  show "approval_view (runner_step acc r s) = approval_view acc"
    by (cases r) (simp_all add: approval_view_def family_defs split: option.split)
  show "approval_view (execution_step acc x s) = approval_view acc"
    by (cases x) (simp_all add: approval_view_def family_defs split: option.split)
  show "approval_view (infra_step acc i s) = approval_view acc"
    by (cases i) (simp_all add: approval_view_def family_defs split: option.split)
  show "approval_view (spec_step acc sp s) = approval_view acc"
    by (cases sp) (simp_all add: approval_view_def family_defs split: option.split)
  show "approval_view (verify_step acc v s) = approval_view acc"
    by (cases v) (simp_all add: approval_view_def family_defs split: option.split)
  show "approval_view (finalize_step acc f s) = approval_view acc"
    by (cases f) (simp_all add: approval_view_def family_defs split: option.split)
  show "approval_view (pr_step acc p) = approval_view acc"
    by (cases p) (simp_all add: approval_view_def family_defs split: option.split)
  show "approval_view (restack_step acc rs) = approval_view acc"
    by (cases rs) (simp_all add: approval_view_def family_defs split: option.split)
  show "approval_view (reconcile_step acc rc s) = approval_view acc"
    by (cases rc) (simp_all add: approval_view_def family_defs split: option.split)
  show "approval_view (escalation_step acc es who s) = approval_view acc"
    by (cases es) (simp_all add: approval_view_def family_defs split: option.split)
  show "approval_view (issue_step acc iss s) = approval_view acc"
    by (cases iss) (simp_all add: approval_view_def family_defs split: option.split)
qed

definition pending_view :: "build_acc \<Rightarrow> pending_command list \<times> pending_command list" where
  "pending_view acc = (ba_pausePending acc, ba_resumePending acc)"

definition pending_inv :: "build_acc \<Rightarrow> bool" where
  "pending_inv acc \<longleftrightarrow> ba_pausePending acc = [] \<or> ba_resumePending acc = []"

lemma pending_view_families [simp]:
  "pending_view (node_step acc n ts s) = pending_view acc"
  "pending_view (runner_step acc r s) = pending_view acc"
  "pending_view (execution_step acc x s) = pending_view acc"
  "pending_view (infra_step acc i s) = pending_view acc"
  "pending_view (spec_step acc sp s) = pending_view acc"
  "pending_view (loop_step acc l s) = pending_view acc"
  "pending_view (verify_step acc v s) = pending_view acc"
  "pending_view (finalize_step acc f s) = pending_view acc"
  "pending_view (pr_step acc p) = pending_view acc"
  "pending_view (restack_step acc rs) = pending_view acc"
  "pending_view (reconcile_step acc rc s) = pending_view acc"
  "pending_view (escalation_step acc es who s) = pending_view acc"
  "pending_view (issue_step acc iss s) = pending_view acc"
proof -
  show "pending_view (node_step acc n ts s) = pending_view acc"
    by (cases n) (simp_all add: pending_view_def family_defs split: option.split)
  show "pending_view (runner_step acc r s) = pending_view acc"
    by (cases r) (simp_all add: pending_view_def family_defs split: option.split)
  show "pending_view (execution_step acc x s) = pending_view acc"
    by (cases x) (simp_all add: pending_view_def family_defs split: option.split)
  show "pending_view (infra_step acc i s) = pending_view acc"
    by (cases i) (simp_all add: pending_view_def family_defs split: option.split)
  show "pending_view (spec_step acc sp s) = pending_view acc"
    by (cases sp) (simp_all add: pending_view_def family_defs split: option.split)
  show "pending_view (loop_step acc l s) = pending_view acc"
    by (cases l) (simp_all add: pending_view_def family_defs split: option.split)
  show "pending_view (verify_step acc v s) = pending_view acc"
    by (cases v) (simp_all add: pending_view_def family_defs split: option.split)
  show "pending_view (finalize_step acc f s) = pending_view acc"
    by (cases f) (simp_all add: pending_view_def family_defs split: option.split)
  show "pending_view (pr_step acc p) = pending_view acc"
    by (cases p) (simp_all add: pending_view_def family_defs split: option.split)
  show "pending_view (restack_step acc rs) = pending_view acc"
    by (cases rs) (simp_all add: pending_view_def family_defs split: option.split)
  show "pending_view (reconcile_step acc rc s) = pending_view acc"
    by (cases rc) (simp_all add: pending_view_def family_defs split: option.split)
  show "pending_view (escalation_step acc es who s) = pending_view acc"
    by (cases es) (simp_all add: pending_view_def family_defs split: option.split)
  show "pending_view (issue_step acc iss s) = pending_view acc"
    by (cases iss) (simp_all add: pending_view_def family_defs split: option.split)
qed

definition boundary_view :: "build_acc \<Rightarrow> nat \<times> nat" where
  "boundary_view acc = (ba_restartSince acc, vg_cycleSince (ba_verify acc))"

definition boundary_inv :: "build_acc \<Rightarrow> bool" where
  "boundary_inv acc \<longleftrightarrow> ba_restartSince acc \<le> vg_cycleSince (ba_verify acc)"

lemma boundary_view_families [simp]:
  "boundary_view (build_step acc b who s) = boundary_view acc"
  "boundary_view (node_step acc n ts s) = boundary_view acc"
  "boundary_view (runner_step acc r s) = boundary_view acc"
  "boundary_view (execution_step acc x s) = boundary_view acc"
  "boundary_view (infra_step acc i s) = boundary_view acc"
  "boundary_view (finalize_step acc f s) = boundary_view acc"
  "boundary_view (pr_step acc p) = boundary_view acc"
  "boundary_view (restack_step acc rs) = boundary_view acc"
  "boundary_view (escalation_step acc es who s) = boundary_view acc"
  "boundary_view (issue_step acc iss s) = boundary_view acc"
proof -
  show "boundary_view (build_step acc b who s) = boundary_view acc"
    by (cases b) (simp_all add: boundary_view_def family_defs split: option.split)
  show "boundary_view (node_step acc n ts s) = boundary_view acc"
    by (cases n) (simp_all add: boundary_view_def family_defs split: option.split)
  show "boundary_view (runner_step acc r s) = boundary_view acc"
    by (cases r) (simp_all add: boundary_view_def family_defs split: option.split)
  show "boundary_view (execution_step acc x s) = boundary_view acc"
    by (cases x) (simp_all add: boundary_view_def family_defs split: option.split)
  show "boundary_view (infra_step acc i s) = boundary_view acc"
    by (cases i) (simp_all add: boundary_view_def family_defs split: option.split)
  show "boundary_view (finalize_step acc f s) = boundary_view acc"
    by (cases f) (simp_all add: boundary_view_def family_defs split: option.split)
  show "boundary_view (pr_step acc p) = boundary_view acc"
    by (cases p) (simp_all add: boundary_view_def family_defs split: option.split)
  show "boundary_view (restack_step acc rs) = boundary_view acc"
    by (cases rs) (simp_all add: boundary_view_def family_defs split: option.split)
  show "boundary_view (escalation_step acc es who s) = boundary_view acc"
    by (cases es) (simp_all add: boundary_view_def family_defs split: option.split)
  show "boundary_view (issue_step acc iss s) = boundary_view acc"
    by (cases iss) (simp_all add: boundary_view_def family_defs split: option.split)
qed

text \<open>A session step touches the session tables only.\<close>

definition erase_sessions :: "build_acc \<Rightarrow> build_acc" where
  "erase_sessions acc =
     acc\<lparr>ba_openSessions := [], ba_suspended := [], ba_sessionTotals := [], ba_nativeHandles := []\<rparr>"

lemma charge_erased: "charge acc s ms tr u = Inr acc' \<Longrightarrow> erase_sessions acc' = erase_sessions acc"
  by (auto simp: charge_def erase_sessions_def Let_def split: option.splits)

lemma erase_updates [simp]:
  "erase_sessions (acc\<lparr>ba_openSessions := op\<rparr>) = erase_sessions acc"
  "erase_sessions (acc\<lparr>ba_suspended := su\<rparr>) = erase_sessions acc"
  "erase_sessions (acc\<lparr>ba_suspended := su, ba_openSessions := op\<rparr>) = erase_sessions acc"
  "erase_sessions (acc\<lparr>ba_openSessions := op, ba_nativeHandles := nh\<rparr>) = erase_sessions acc"
  by (simp_all add: erase_sessions_def)

lemma session_step_erased:
  assumes "session_step acc ev ts seq = Inr acc'"
  shows "erase_sessions acc' = erase_sessions acc"
proof (cases ev)
  case (SessionStarted p)
  then show ?thesis using assms
    by (cases "ss_continuation p") (auto simp: session_started_step_def erase_sessions_def Let_def)
qed (use assms in \<open>auto simp: handle_recorded_step_def session_suspended_step_def resume_fallback_step_def
    session_resumed_step_def session_ended_step_def close_session_def Let_def map_result_Inr_iff
    dest!: charge_erased split: option.splits if_splits\<close>)

lemma erased_views:
  "approval_view (erase_sessions acc) = approval_view acc"
  "pending_view (erase_sessions acc) = pending_view acc"
  "boundary_view (erase_sessions acc) = boundary_view acc"
  by (simp_all add: erase_sessions_def approval_view_def pending_view_def boundary_view_def)

lemma session_step_views:
  assumes "session_step acc ev ts seq = Inr acc'"
  shows "approval_view acc' = approval_view acc" and "pending_view acc' = pending_view acc"
    and "boundary_view acc' = boundary_view acc"
  using session_step_erased [OF assms] by (metis erased_views)+

lemma pre_step_views:
  assumes "pre_step acc e = Inr acc'"
  shows "approval_view acc' = approval_view acc" and "pending_view acc' = pending_view acc"
    and "boundary_view acc' = boundary_view acc"
  using pre_step_form [OF assms] by (auto simp: approval_view_def pending_view_def boundary_view_def)

lemma small_views [simp]:
  "approval_view (open_cycle s acc) = approval_view acc" "pending_view (open_cycle s acc) = pending_view acc"
  "approval_view (seal_links s acc) = approval_view acc" "pending_view (seal_links s acc) = pending_view acc"
  "boundary_view (seal_links s acc) = boundary_view acc"
  "approval_view (count_failure p acc) = approval_view acc"
  "pending_view (count_failure p acc) = pending_view acc"
  "boundary_view (count_failure p acc) = boundary_view acc"
  "approval_view (deferral_escalated_step acc d s) = approval_view acc"
  "pending_view (deferral_escalated_step acc d s) = pending_view acc"
  "boundary_view (deferral_escalated_step acc d s) = boundary_view acc"
  "approval_view (acc\<lparr>ba_dispatchFailures := df\<rparr>) = approval_view acc"
  "pending_view (acc\<lparr>ba_dispatchFailures := df\<rparr>) = pending_view acc"
  "boundary_view (acc\<lparr>ba_dispatchFailures := df\<rparr>) = boundary_view acc"
  "approval_view (acc\<lparr>ba_observations := ob\<rparr>) = approval_view acc"
  "pending_view (acc\<lparr>ba_observations := ob\<rparr>) = pending_view acc"
  "boundary_view (acc\<lparr>ba_observations := ob\<rparr>) = boundary_view acc"
  "approval_view (acc\<lparr>ba_lastEvent := le\<rparr>) = approval_view acc"
  "pending_view (acc\<lparr>ba_lastEvent := le\<rparr>) = pending_view acc"
  "boundary_view (acc\<lparr>ba_lastEvent := le\<rparr>) = boundary_view acc"
  by (simp_all add: approval_view_def pending_view_def boundary_view_def family_defs split: option.split)

text \<open>An invariant of a view is kept by every family the view ignores.\<close>

lemma switch_invariant:
  assumes step: "switch_step acc e = Inr acc'" and inv: "P acc"
    and view: "\<And>a b. V a = V b \<Longrightarrow> P a \<Longrightarrow> P b"
    and sess: "\<And>s b. session_step acc s (ev_ts e) (ev_seq e) = Inr b \<Longrightarrow> V b = V acc"
    and build: "\<And>b. P (build_step acc b (ev_actor e) (ev_seq e))"
    and spec: "\<And>b. P (spec_step acc b (ev_seq e))"
    and loop: "\<And>b. P (loop_step acc b (ev_seq e))"
    and verify: "\<And>b. P (verify_step acc b (ev_seq e))"
    and reconcile: "\<And>b. P (reconcile_step acc b (ev_seq e))"
    and cycle: "P (open_cycle (ev_seq e) acc)"
    and rest: "\<And>b. V (node_step acc b (ev_ts e) (ev_seq e)) = V acc"
      "\<And>b. V (runner_step acc b (ev_seq e)) = V acc" "\<And>b. V (execution_step acc b (ev_seq e)) = V acc"
      "\<And>b. V (infra_step acc b (ev_seq e)) = V acc" "\<And>b. V (finalize_step acc b (ev_seq e)) = V acc"
      "\<And>b. V (pr_step acc b) = V acc" "\<And>b. V (restack_step acc b) = V acc"
      "\<And>b. V (escalation_step acc b (ev_actor e) (ev_seq e)) = V acc" "\<And>b. V (issue_step acc b (ev_seq e)) = V acc"
      "V (seal_links (ev_seq e) acc) = V acc" "\<And>p. V (count_failure p acc) = V acc"
      "\<And>p. V (deferral_escalated_step acc p (ev_seq e)) = V acc"
      "\<And>x. V (acc\<lparr>ba_dispatchFailures := x\<rparr>) = V acc" "\<And>x. V (acc\<lparr>ba_observations := x\<rparr>) = V acc"
  shows "P acc'"
proof -
  have same: "V b = V acc \<Longrightarrow> P b" for b using view [of acc b] inv by simp
  show ?thesis
    using step inv build spec loop verify reconcile cycle
    unfolding switch_step_def Let_def
    by (cases "ev_body e")
       (auto intro: same sess rest split: publication_ev.splits publication_request.splits phase_ev.splits integration_ev.splits)
qed

lemma approval_inv_loop: "approval_inv acc \<Longrightarrow> approval_inv (loop_step acc l seq)"
  by (cases l) (simp_all add: approval_inv_def family_defs)

lemma approval_inv_view: "approval_view a = approval_view b \<Longrightarrow> approval_inv a \<Longrightarrow> approval_inv b"
  by (simp add: approval_inv_def approval_view_def)

lemma approval_inv_switch:
  assumes "switch_step acc e = Inr acc'" and "approval_inv acc"
  shows "approval_inv acc'"
  using assms
proof (rule switch_invariant [where V = approval_view])
  show "approval_view a = approval_view b \<Longrightarrow> approval_inv a \<Longrightarrow> approval_inv b" for a b
    by (rule approval_inv_view)
  show "approval_inv (loop_step acc b (ev_seq e))" for b by (rule approval_inv_loop [OF assms(2)])
qed (simp_all add: session_step_views(1), (rule approval_inv_view [OF _ assms(2)], simp)+)

lemma pending_inv_view: "pending_view a = pending_view b \<Longrightarrow> pending_inv a \<Longrightarrow> pending_inv b"
  by (simp add: pending_inv_def pending_view_def)

lemma pending_inv_build: "pending_inv acc \<Longrightarrow> pending_inv (build_step acc b who seq)"
  by (cases b) (auto simp: pending_inv_def family_defs)

lemma pending_inv_switch:
  assumes "switch_step acc e = Inr acc'" and "pending_inv acc"
  shows "pending_inv acc'"
  using assms
proof (rule switch_invariant [where V = pending_view])
  show "pending_view a = pending_view b \<Longrightarrow> pending_inv a \<Longrightarrow> pending_inv b" for a b
    by (rule pending_inv_view)
  show "pending_inv (build_step acc b (ev_actor e) (ev_seq e))" for b
    by (rule pending_inv_build [OF assms(2)])
qed (simp_all add: session_step_views(2), (rule pending_inv_view [OF _ assms(2)], simp)+)

lemma boundary_inv_view: "boundary_view a = boundary_view b \<Longrightarrow> boundary_inv a \<Longrightarrow> boundary_inv b"
  by (simp add: boundary_inv_def boundary_view_def)

lemma boundary_inv_open: "boundary_inv acc \<Longrightarrow> boundary_inv (open_cycle s acc)"
  by (auto simp: boundary_inv_def open_cycle_def)

lemma boundary_inv_spec: "boundary_inv acc \<Longrightarrow> boundary_inv (spec_step acc b s)"
  by (cases b) (auto simp: boundary_inv_def open_cycle_def)

lemma boundary_inv_loop: "boundary_inv acc \<Longrightarrow> boundary_inv (loop_step acc b s)"
  by (cases b) (auto simp: boundary_inv_def family_defs)

lemma boundary_inv_verify: "boundary_inv acc \<Longrightarrow> boundary_inv (verify_step acc b s)"
  by (cases b) (auto simp: boundary_inv_def family_defs)

lemma boundary_inv_reconcile: "boundary_inv acc \<Longrightarrow> boundary_inv (reconcile_step acc b s)"
  by (cases b) (auto simp: boundary_inv_def family_defs split: option.split)

lemma boundary_inv_switch:
  assumes "switch_step acc e = Inr acc'" and "boundary_inv acc"
  shows "boundary_inv acc'"
  using assms
proof (rule switch_invariant [where V = boundary_view])
  show "boundary_view a = boundary_view b \<Longrightarrow> boundary_inv a \<Longrightarrow> boundary_inv b" for a b
    by (rule boundary_inv_view)
qed (simp_all add: session_step_views(3) assms(2) boundary_inv_open boundary_inv_spec boundary_inv_loop
      boundary_inv_verify boundary_inv_reconcile, (rule boundary_inv_view [OF _ assms(2)], simp)+)

definition core_inv :: "build_acc \<Rightarrow> bool" where
  "core_inv acc \<longleftrightarrow> approval_inv acc \<and> pending_inv acc \<and> boundary_inv acc \<and> session_inv acc"

lemma core_inv_main:
  assumes "core_inv acc" and "main_step acc e = Inr acc'"
  shows "core_inv acc'"
proof -
  obtain a1 a2 where pre: "pre_step acc e = Inr a1" and sw: "switch_step a1 e = Inr a2"
    and acc': "acc' = a2\<lparr>ba_lastEvent := Some e\<rparr>"
    using main_step_cases [OF assms(2)] by blast
  note views = pre_step_views [OF pre]
  have "approval_inv a1" "pending_inv a1" "boundary_inv a1"
    using assms(1) approval_inv_view [OF views(1) [symmetric]] pending_inv_view [OF views(2) [symmetric]]
      boundary_inv_view [OF views(3) [symmetric]] by (simp_all add: core_inv_def)
  then have "approval_inv a2" "pending_inv a2" "boundary_inv a2"
    using sw approval_inv_switch pending_inv_switch boundary_inv_switch by blast+
  moreover have "session_inv acc'" using assms main_session_inv [of acc e acc'] by (simp add: core_inv_def)
  ultimately show ?thesis
    by (simp add: core_inv_def acc' approval_inv_def pending_inv_def boundary_inv_def)
qed

lemma drain_views:
  "approval_view (drain_step acc e) = approval_view acc" "pending_view (drain_step acc e) = pending_view acc"
  "boundary_view (drain_step acc e) = boundary_view acc"
  by (simp_all add: approval_view_def pending_view_def boundary_view_def drain_step_def
      drain_authorized_step_def relaunch_step_def shutdown_step_def execution_ended_step_def
      drain_settled_step_def Let_def
      split: event_body.split build_ev.split execution_ev.split session_ev.split option.split)

lemma end_of_batch_views:
  "approval_view (end_of_batch acc) = approval_view acc" "pending_view (end_of_batch acc) = pending_view acc"
  "boundary_view (end_of_batch acc) = boundary_view acc" "session_view (end_of_batch acc) = session_view acc"
  by (simp_all add: approval_view_def pending_view_def boundary_view_def session_view_def
      end_of_batch_def Let_def split: option.split)

lemma core_inv_views:
  "approval_view a = approval_view b \<Longrightarrow> pending_view a = pending_view b \<Longrightarrow>
   boundary_view a = boundary_view b \<Longrightarrow> session_view a = session_view b \<Longrightarrow> core_inv a \<Longrightarrow> core_inv b"
  unfolding core_inv_def
  using approval_inv_view [of a b] pending_inv_view [of a b] boundary_inv_view [of a b]
    session_inv_view [of a b] by simp

lemma core_inv_initial [simp]: "core_inv initialBuildAcc"
proof -
  have "approval_inv initialBuildAcc" "pending_inv initialBuildAcc" "boundary_inv initialBuildAcc"
    by (simp_all add: approval_inv_def pending_inv_def boundary_inv_def initialBuildAcc_def)
  then show ?thesis by (simp add: core_inv_def)
qed

lemma core_inv_foldBuild: "core_inv acc \<Longrightarrow> foldBuild acc es = Inr acc' \<Longrightarrow> core_inv acc'"
proof (erule foldBuild_invariant [where P = core_inv])
  show "core_inv a \<Longrightarrow> core_inv (a\<lparr>ba_compatibility := c\<rparr>)" for a c
    by (erule core_inv_views [rotated 4])
       (simp_all add: approval_view_def pending_view_def boundary_view_def session_view_def)
  show "core_inv a \<Longrightarrow> core_inv (drain_step a e)" for a e
    by (erule core_inv_views [rotated 4]) (simp_all add: drain_views drain_session_view)
  show "core_inv a \<Longrightarrow> core_inv (end_of_batch a)" for a
    by (erule core_inv_views [rotated 4]) (simp_all add: end_of_batch_views)
qed (auto intro: core_inv_main)

end
