(* ===== verification/ReducerIncremental.thy ===== *)
theory ReducerIncremental
  imports ReducerFacts
begin

text \<open>
  The incremental contract of the build reducer. Its batch does three things to the side: it advances
  compatibility, it advances the draining executions before the events, and it recomputes the running
  verify members after them. No event step reads these fields, so a batch may be cut anywhere as long
  as verify members never ran concurrently; with concurrent members the recomputation also writes
  \<^verbatim>\<open>currentPhase\<close>, and the cut is observable.
\<close>

record batch_side =
  sd_compatibility :: compatibility_state
  sd_draining :: "(string, drain_execution) jsmap"
  sd_ended :: "string list"
  sd_boundary :: nat
  sd_running :: "string list option"

definition put_side :: "batch_side \<Rightarrow> build_acc \<Rightarrow> build_acc" where
  "put_side x acc =
     acc\<lparr>ba_compatibility := sd_compatibility x, ba_draining := sd_draining x,
         ba_endedInstances := sd_ended x, ba_deferredBoundary := sd_boundary x,
         ba_verify := (ba_verify acc)\<lparr>vg_running := sd_running x\<rparr>\<rparr>"

definition side_of :: "build_acc \<Rightarrow> batch_side" where
  "side_of acc =
     \<lparr>sd_compatibility = ba_compatibility acc, sd_draining = ba_draining acc,
      sd_ended = ba_endedInstances acc, sd_boundary = ba_deferredBoundary acc,
      sd_running = vg_running (ba_verify acc)\<rparr>"

lemma put_side_of [simp]: "put_side (side_of acc) acc = acc"
  by (simp add: put_side_def side_of_def)

lemma put_put_side [simp]: "put_side x (put_side y acc) = put_side x acc"
  by (simp add: put_side_def)

section \<open>Event steps ignore the side fields\<close>

lemma side_small [simp]:
  "open_cycle s (put_side x acc) = put_side x (open_cycle s acc)"
  "seal_links s (put_side x acc) = put_side x (seal_links s acc)"
  "count_failure p (put_side x acc) = put_side x (count_failure p acc)"
  "deferral_escalated_step (put_side x acc) d s = put_side x (deferral_escalated_step acc d s)"
  by (simp_all add: put_side_def family_defs split: option.split)

lemma side_complete [simp]:
  "complete_phase p r a s (put_side x acc) = put_side x (complete_phase p r a s acc)"
  by (simp add: put_side_def complete_phase_def split del: if_split cong: if_cong)

lemma side_plan_verdict [simp]:
  "plan_verdict_step (put_side x acc) v s = put_side x (plan_verdict_step acc v s)"
proof -
  have "(put_side x acc)\<lparr>ba_round := r, ba_plan := (ba_plan (put_side x acc))\<lparr>pp_approved := b, pp_approval := c\<rparr>,
        ba_planFindings := set_round (ba_planFindings (put_side x acc)) r f\<rparr> =
      put_side x (acc\<lparr>ba_round := r, ba_plan := (ba_plan acc)\<lparr>pp_approved := b, pp_approval := c\<rparr>,
        ba_planFindings := set_round (ba_planFindings acc) r f\<rparr>)" for r b c f
    by (simp add: put_side_def)
  then show ?thesis unfolding plan_verdict_step_def Let_def by (simp only: side_complete)
qed

lemma side_code_verdict [simp]:
  "code_verdict_step (put_side x acc) v s = put_side x (code_verdict_step acc v s)"
proof -
  have 1: "(put_side x a)\<lparr>ba_round := r, ba_codeReviewApproved := b, ba_codeReviewApproval := c\<rparr> =
      put_side x (a\<lparr>ba_round := r, ba_codeReviewApproved := b, ba_codeReviewApproval := c\<rparr>)" for r b c a
    by (simp add: put_side_def)
  have 2: "(put_side x a)\<lparr>ba_codeFindings := f\<rparr> = put_side x (a\<lparr>ba_codeFindings := f\<rparr>)" for a f
    by (simp add: put_side_def)
  have 3: "ba_codeFindings (put_side x a) = ba_codeFindings a" for a
    by (simp add: put_side_def)
  show ?thesis
    unfolding code_verdict_step_def Let_def
    by (cases "vp_verdict v = Approve") (simp_all only: 1 2 3 side_small side_complete if_True if_False simp_thms)
qed

lemma side_pr_head [simp]: "set_pr_head h (put_side x acc) = put_side x (set_pr_head h acc)"
  by (simp add: put_side_def set_pr_head_def)

lemma side_reopen [simp]: "reopen_conflicted (put_side x acc) = put_side x (reopen_conflicted acc)"
  by (simp add: put_side_def reopen_conflicted_def)

lemma side_current [simp]: "ba_currentPhase (put_side x acc) = ba_currentPhase acc" "ba_kind (put_side x acc) = ba_kind acc"
  by (simp_all add: put_side_def)

lemma side_reconcile:
  "reconcile_completed_step (put_side x acc) h s = put_side x (reconcile_completed_step acc h s)"
proof (cases h)
  case None
  then show ?thesis unfolding reconcile_completed_step_def Let_def
    by simp
next
  case (Some k)
  then show ?thesis unfolding reconcile_completed_step_def Let_def
    by (cases "ba_kind acc = Some Node") simp_all
qed

lemma side_build_step [simp]: "build_step (put_side x acc) b who s = put_side x (build_step acc b who s)"
  by (cases b) (simp_all add: put_side_def node_links_of_def family_defs split: option.split)

lemma side_node_step [simp]: "node_step (put_side x acc) n ts s = put_side x (node_step acc n ts s)"
  by (cases n) (simp_all add: put_side_def node_links_of_def family_defs split: option.split)

lemma side_runner_step [simp]: "runner_step (put_side x acc) r s = put_side x (runner_step acc r s)"
  by (cases r) (simp_all add: put_side_def node_links_of_def family_defs split: option.split)

lemma side_execution_step [simp]: "execution_step (put_side x acc) y s = put_side x (execution_step acc y s)"
  by (cases y) (simp_all add: put_side_def node_links_of_def family_defs split: option.split)

lemma side_infra_step [simp]: "infra_step (put_side x acc) i s = put_side x (infra_step acc i s)"
  by (cases i) (auto simp: put_side_def node_links_of_def family_defs split: option.split)

lemma side_spec_step [simp]: "spec_step (put_side x acc) sp s = put_side x (spec_step acc sp s)"
  by (cases sp) (simp_all add: put_side_def node_links_of_def family_defs split: option.split)

lemma side_loop_step [simp]: "loop_step (put_side x acc) l s = put_side x (loop_step acc l s)"
proof (cases l)
  case (PlanReviewVerdict v)
  then show ?thesis by simp
next
  case (CodeReviewVerdict v)
  then show ?thesis by simp
qed (simp_all add: put_side_def start_phase_def complete_phase_def at_round_def split del: if_split cong: if_cong)

lemma side_verify_step [simp]: "verify_step (put_side x acc) v s = put_side x (verify_step acc v s)"
proof (cases v)
  case (VerifyCompleted c)
  show ?thesis unfolding VerifyCompleted verify_step.simps verify_completed_step_def Let_def
    by (cases "jm_has (vss_cancellations (ba_verifyStage acc))
          (verifyMemberKey (vr_step (normalizeVerifyCompletion c s)) (vr_attempt (normalizeVerifyCompletion c s)))")
       (simp_all add: put_side_def complete_phase_def split del: if_split cong: if_cong)
next
  case (VerifyCancelled p)
  show ?thesis unfolding VerifyCancelled verify_step.simps verify_cancelled_step_def
    by (cases "map_option snd (map_of (vss_cancellations (ba_verifyStage acc))
          (verifyMemberKey (vc_step p) (vc_attempt p))) = Some s")
       (simp_all add: put_side_def complete_phase_def split del: if_split cong: if_cong)
qed (simp_all add: put_side_def start_phase_def verify_started_step_def open_cycle_def)

lemma side_finalize_step [simp]: "finalize_step (put_side x acc) f s = put_side x (finalize_step acc f s)"
proof (cases f)
  case (FinalizeCompleted pr)
  have "(put_side x a)\<lparr>ba_pr := p, ba_prState := q, ba_finalizeCompletedSeq := n\<rparr> =
      put_side x (a\<lparr>ba_pr := p, ba_prState := q, ba_finalizeCompletedSeq := n\<rparr>)" for a p q n
    by (simp add: put_side_def)
  then show ?thesis unfolding FinalizeCompleted finalize_step.simps by (simp only: side_small side_complete)
qed (simp_all add: put_side_def start_phase_def)

lemma side_pr_step [simp]: "pr_step (put_side x acc) p = put_side x (pr_step acc p)"
  by (cases p) (simp_all add: put_side_def node_links_of_def family_defs split: option.split)

lemma side_rebase [simp]: "rebase_commits b h (put_side x acc) = put_side x (rebase_commits b h acc)"
  by (simp add: put_side_def rebase_commits_def)

lemma side_restack_step [simp]: "restack_step (put_side x acc) rs = put_side x (restack_step acc rs)"
  by (cases rs) simp_all

lemma side_reconcile_step [simp]: "reconcile_step (put_side x acc) rc s = put_side x (reconcile_step acc rc s)"
proof (cases rc)
  case (ReconcileStarted p)
  then show ?thesis by (simp add: put_side_def start_phase_def)
qed (simp_all add: side_reconcile)

lemma side_accept [simp]: "accept_ceiling e c (put_side x acc) = put_side x (accept_ceiling e c acc)"
proof -
  have upd: "(put_side x a)\<lparr>ba_planCeiling := m\<rparr> = put_side x (a\<lparr>ba_planCeiling := m\<rparr>)"
    "(put_side x a)\<lparr>ba_codeCeiling := m\<rparr> = put_side x (a\<lparr>ba_codeCeiling := m\<rparr>)" for a m
    by (simp_all add: put_side_def)
  show ?thesis by (auto simp: accept_ceiling_def upd)
qed

lemma side_raised [simp]: "raised_step (put_side x acc) p who s = put_side x (raised_step acc p who s)"
proof -
  have eq: "ba_verifyStage (put_side x acc) = ba_verifyStage acc" by (simp add: put_side_def)
  show ?thesis unfolding raised_step_def Let_def eq
    by (cases "owner_cancellation (ba_verifyStage acc) (oe_session (raised_of p who s))")
       (simp_all add: put_side_def)
qed

lemma side_answered [simp]: "answered_step (put_side x acc) p who s = put_side x (answered_step acc p who s)"
proof -
  have get: "ba_openEscalations (put_side x a) = ba_openEscalations a" "ba_answered (put_side x a) = ba_answered a"
    "ba_abortPending (put_side x a) = ba_abortPending a" for a
    by (simp_all add: put_side_def)
  have upd: "(put_side x a)\<lparr>ba_openEscalations := m\<rparr> = put_side x (a\<lparr>ba_openEscalations := m\<rparr>)"
    "(put_side x a)\<lparr>ba_answered := l\<rparr> = put_side x (a\<lparr>ba_answered := l\<rparr>)"
    "(put_side x a)\<lparr>ba_abortPending := ab\<rparr> = put_side x (a\<lparr>ba_abortPending := ab\<rparr>)" for a m l ab
    by (simp_all add: put_side_def)
  show ?thesis
  proof (cases "map_of (ba_openEscalations acc) (ea_id p)")
    case None
    then show ?thesis by (simp only: answered_step_def get option.case)
  next
    case (Some e)
    show ?thesis
      unfolding answered_step_def get Some option.case Let_def upd side_accept
      by (cases "ea_resolution p = Abort") (simp_all only: if_True if_False upd get simp_thms)
  qed
qed

lemma side_escalation_step [simp]: "escalation_step (put_side x acc) es who s = put_side x (escalation_step acc es who s)"
  by (cases es) simp_all

lemma side_issue_step [simp]: "issue_step (put_side x acc) iss s = put_side x (issue_step acc iss s)"
  by (cases iss) (simp_all add: put_side_def node_links_of_def family_defs split: option.split)

lemma side_session_step: "session_step (put_side x acc) ev ts s = map_result (put_side x) (session_step acc ev ts s)"
proof -
  have eq: "ba_openSessions (put_side x a) = ba_openSessions a" "ba_suspended (put_side x a) = ba_suspended a"
    "ba_sessionTotals (put_side x a) = ba_sessionTotals a" "ba_nativeHandles (put_side x a) = ba_nativeHandles a"
    "phase_done_since (put_side x a) o1 = phase_done_since a o1"
    "(put_side x a)\<lparr>ba_openSessions := op\<rparr> = put_side x (a\<lparr>ba_openSessions := op\<rparr>)"
    "(put_side x a)\<lparr>ba_suspended := su\<rparr> = put_side x (a\<lparr>ba_suspended := su\<rparr>)"
    "(put_side x a)\<lparr>ba_sessionTotals := tt\<rparr> = put_side x (a\<lparr>ba_sessionTotals := tt\<rparr>)"
    "(put_side x a)\<lparr>ba_nativeHandles := nh\<rparr> = put_side x (a\<lparr>ba_nativeHandles := nh\<rparr>)" for a op su tt nh o1
    by (simp_all add: put_side_def phase_done_since_def)
  have ch: "charge (put_side x a) o1 ms tr u = map_result (put_side x) (charge a o1 ms tr u)" for a o1 ms tr u
    unfolding charge_def Let_def eq
    by (cases "map_of (ba_sessionTotals a) (root_of o1)") (simp_all add: eq)
  have mm: "map_result f (map_result g r) = map_result (\<lambda>a. f (g a)) r" for f g and r :: "build_error + build_acc"
    by (cases r) simp_all
  show ?thesis
  proof (cases ev)
    case (SessionStarted p)
    then show ?thesis
      by (cases "ss_continuation p") (simp_all add: session_started_step_def Let_def eq)
  next
    case (SessionHandleRecorded a b c d)
    then show ?thesis
      by (cases "map_of (ba_openSessions acc) a") (simp_all add: handle_recorded_step_def eq)
  next
    case (SessionSuspended p)
    then show ?thesis
      by (cases "map_of (ba_openSessions acc) (su_session p)")
         (simp_all add: session_suspended_step_def eq ch mm)
  next
    case (SessionResumeFallback a b)
    then show ?thesis
      by (cases "map_of (ba_openSessions acc) a") (simp_all add: resume_fallback_step_def Let_def eq)
  next
    case (SessionResumed p)
    then show ?thesis
      by (cases "map_of (ba_openSessions acc) (sr_session p)")
         (simp_all add: session_resumed_step_def eq split: option.split)
  next
    case (SessionEnded a b c d)
    have cl: "close_session a (put_side x t) = put_side x (close_session a t)" for t
      by (simp add: close_session_def eq)
    show ?thesis unfolding SessionEnded session_step.simps session_ended_step_def eq
      by (cases "map_of (ba_openSessions acc) a") (simp_all add: ch mm cl)
  next
    case (SessionReclaimed a)
    then show ?thesis by (simp add: close_session_def eq)
  qed simp_all
qed

lemma side_put_simple:
  "(put_side x a)\<lparr>ba_pollingActivity := p\<rparr> = put_side x (a\<lparr>ba_pollingActivity := p\<rparr>)"
  "(put_side x a)\<lparr>ba_janitor := j\<rparr> = put_side x (a\<lparr>ba_janitor := j\<rparr>)"
  "(put_side x a)\<lparr>ba_targetRewrite := t\<rparr> = put_side x (a\<lparr>ba_targetRewrite := t\<rparr>)"
  "(put_side x a)\<lparr>ba_landing := l\<rparr> = put_side x (a\<lparr>ba_landing := l\<rparr>)"
  "(put_side x a)\<lparr>ba_integration := i\<rparr> = put_side x (a\<lparr>ba_integration := i\<rparr>)"
  "(put_side x a)\<lparr>ba_nodeRestack := n\<rparr> = put_side x (a\<lparr>ba_nodeRestack := n\<rparr>)"
  "(put_side x a)\<lparr>ba_verifyStage := v\<rparr> = put_side x (a\<lparr>ba_verifyStage := v\<rparr>)"
  "(put_side x a)\<lparr>ba_openEscalations := op\<rparr> = put_side x (a\<lparr>ba_openEscalations := op\<rparr>)"
  "(put_side x a)\<lparr>ba_answered := an\<rparr> = put_side x (a\<lparr>ba_answered := an\<rparr>)"
  "(put_side x a)\<lparr>ba_abortPending := ab\<rparr> = put_side x (a\<lparr>ba_abortPending := ab\<rparr>)"
  "(put_side x a)\<lparr>ba_dispatchFailures := df\<rparr> = put_side x (a\<lparr>ba_dispatchFailures := df\<rparr>)"
  "(put_side x a)\<lparr>ba_observations := ob\<rparr> = put_side x (a\<lparr>ba_observations := ob\<rparr>)"
  "(put_side x a)\<lparr>ba_lastEvent := le\<rparr> = put_side x (a\<lparr>ba_lastEvent := le\<rparr>)"
  by (simp_all add: put_side_def)

lemma side_get_simple:
  "ba_pollingActivity (put_side x a) = ba_pollingActivity a" "ba_janitor (put_side x a) = ba_janitor a"
  "ba_landing (put_side x a) = ba_landing a" "ba_integration (put_side x a) = ba_integration a"
  "ba_nodeRestack (put_side x a) = ba_nodeRestack a" "ba_verifyStage (put_side x a) = ba_verifyStage a"
  "ba_openEscalations (put_side x a) = ba_openEscalations a" "ba_answered (put_side x a) = ba_answered a"
  "ba_abortPending (put_side x a) = ba_abortPending a"
  "ba_dispatchFailures (put_side x a) = ba_dispatchFailures a"
  "ba_observations (put_side x a) = ba_observations a"
  by (simp_all add: put_side_def)

lemmas side_simple = side_put_simple side_get_simple

lemma side_supersede_one: "supersede_one (put_side x acc) e = put_side x (supersede_one acc e)"
proof (cases "owner_cancellation (ba_verifyStage acc) (oe_session (any_open e))")
  case None
  then show ?thesis by (simp add: supersede_one_def side_simple)
next
  case (Some c)
  then show ?thesis by (cases e) (auto simp: supersede_one_def side_simple Let_def)
qed

lemma side_supersede: "supersede_cancelled (put_side x acc) = put_side x (supersede_cancelled acc)"
proof -
  have "foldl supersede_one (put_side x a) es = put_side x (foldl supersede_one a es)" for a es
    by (induction es arbitrary: a) (simp_all add: side_supersede_one)
  then show ?thesis by (simp add: supersede_cancelled_def side_simple)
qed

lemma side_stage: "stage_step (put_side x acc) e = put_side x (stage_step acc e)"
  unfolding stage_step_def Let_def event_body.case_distrib [of "put_side x"] verify_ev.case_distrib [of "put_side x"]
  by (simp only: side_simple side_supersede)

lemma side_janitor: "janitor_step (put_side x acc) b = put_side x (janitor_step acc b)"
  unfolding janitor_step_def event_body.case_distrib [of "put_side x"] build_ev.case_distrib [of "put_side x"]
  by (simp only: side_simple cong: event_body.case_cong build_ev.case_cong)

lemma side_rewrite: "rewrite_step (put_side x acc) b s = put_side x (rewrite_step acc b s)"
  unfolding rewrite_step_def event_body.case_distrib [of "put_side x"] target_ev.case_distrib [of "put_side x"]
    node_ev.case_distrib [of "put_side x"]
  by (simp only: side_simple cong: event_body.case_cong target_ev.case_cong node_ev.case_cong)

lemma side_integration: "integration_step (put_side x acc) b s = put_side x (integration_step acc b s)"
  unfolding integration_step_def event_body.case_distrib [of "put_side x"]
  by (simp only: side_simple cong: event_body.case_cong)

lemma side_concerns: "concerns_node (put_side x acc) b = concerns_node acc b"
  by (simp add: concerns_node_def split: event_body.split)

lemma side_restack: "node_restack_step (put_side x acc) e = map_result (put_side x) (node_restack_step acc e)"
  by (simp add: node_restack_step_def side_concerns side_simple split: sum.split)

lemma map_result_comp: "map_result f (map_result g r) = map_result (\<lambda>a. f (g a)) r"
  by (cases r) simp_all

lemma side_pre: "pre_step (put_side x acc) e = map_result (put_side x) (pre_step acc e)"
  unfolding pre_step_def Let_def
  by (simp add: side_simple side_janitor side_rewrite side_integration side_restack map_result_comp side_stage)

lemma side_switch: "switch_step (put_side x acc) e = map_result (put_side x) (switch_step acc e)"
  unfolding switch_step_def Let_def
  by (cases "ev_body e")
     (simp_all add: side_session_step side_simple
       split: publication_ev.split publication_request.split phase_ev.split integration_ev.split)

lemma side_main: "main_step (put_side x acc) e = map_result (put_side x) (main_step acc e)"
proof (cases "pre_step acc e")
  case (Inl y)
  then show ?thesis by (simp add: main_step_def side_pre)
next
  case (Inr a)
  then show ?thesis
    by (simp add: main_step_def side_pre side_switch map_result_comp side_simple)
qed

lemma side_main_fold:
  "try_fold main_step (Inr (put_side x acc)) es = map_result (put_side x) (try_fold main_step (Inr acc) es)"
proof (induction es arbitrary: acc)
  case (Cons e es)
  show ?case by (cases "main_step acc e") (simp_all add: side_main Cons.IH)
qed simp

section \<open>The side passes ignore everything else\<close>

definition side_step :: "batch_side \<Rightarrow> ab_event \<Rightarrow> batch_side" where
  "side_step x e = side_of (drain_step (put_side x initialBuildAcc) e)"

lemma side_of_put [simp]: "side_of (put_side x acc) = x"
  by (simp add: put_side_def side_of_def)

lemma drain_side:
  "ba_draining (put_side x a) = sd_draining x" "ba_endedInstances (put_side x a) = sd_ended x"
  "(put_side x a)\<lparr>ba_draining := d\<rparr> = put_side (x\<lparr>sd_draining := d\<rparr>) a"
  "(put_side x a)\<lparr>ba_endedInstances := i\<rparr> = put_side (x\<lparr>sd_ended := i\<rparr>) a"
  "(put_side x a)\<lparr>ba_deferredBoundary := b\<rparr> = put_side (x\<lparr>sd_boundary := b\<rparr>) a"
  by (simp_all add: put_side_def)

lemmas drain_side_steps = drain_authorized_step_def relaunch_step_def shutdown_step_def
  execution_ended_step_def drain_settled_step_def Let_def drain_side

lemma drain_pieces:
  "put_side (side_of (drain_authorized_step (put_side x initialBuildAcc) p)) acc = drain_authorized_step (put_side x acc) p"
  "put_side (side_of (relaunch_step (put_side x initialBuildAcc) q)) acc = relaunch_step (put_side x acc) q"
  "put_side (side_of (shutdown_step (put_side x initialBuildAcc))) acc = shutdown_step (put_side x acc)"
  "put_side (side_of (execution_ended_step (put_side x initialBuildAcc) i)) acc = execution_ended_step (put_side x acc) i"
  "put_side (side_of (drain_settled_step (put_side x initialBuildAcc) i corr)) acc = drain_settled_step (put_side x acc) i corr"
  "put_side (side_of ((put_side x initialBuildAcc)\<lparr>ba_deferredBoundary := b\<rparr>)) acc = (put_side x acc)\<lparr>ba_deferredBoundary := b\<rparr>"
  by (auto simp: drain_side_steps split: option.split)

lemma drain_put: "drain_step (put_side x acc) e = put_side (side_step x e) acc"
  unfolding side_step_def drain_step_def event_body.case_distrib [of "\<lambda>t. put_side (side_of t) acc"]
    build_ev.case_distrib [of "\<lambda>t. put_side (side_of t) acc"]
    execution_ev.case_distrib [of "\<lambda>t. put_side (side_of t) acc"]
    session_ev.case_distrib [of "\<lambda>t. put_side (side_of t) acc"] if_distrib [of "\<lambda>t. put_side (side_of t) acc"]
  by (simp only: drain_pieces side_of_put)

end
