(* ===== verification/ReducerContract.thy ===== *)
theory ReducerContract
  imports ReducerIncremental
begin

text \<open>
  Two whole-log facts of the build reducer: a terminal build stays terminal, and the incremental
  contract. The contract holds for every log whose verify members never overlapped; the last section
  of the properties gives a log with overlapping members for which it fails.
\<close>

section \<open>Terminal builds and the verify stage\<close>

definition stage_members :: "build_acc \<Rightarrow> bool \<times> (member_key, verify_started \<times> nat) jsmap" where
  "stage_members acc = (vss_concurrent (ba_verifyStage acc), vss_members (ba_verifyStage acc))"

definition fate_view ::
  "build_acc \<Rightarrow> (bool \<times> (member_key, verify_started \<times> nat) jsmap) \<times> terminal_status option" where
  "fate_view acc = (stage_members acc, ba_terminal acc)"

lemma fate_view_families [simp]:
  "fate_view (node_step acc n ts s) = fate_view acc"
  "fate_view (runner_step acc r s) = fate_view acc"
  "fate_view (execution_step acc x s) = fate_view acc"
  "fate_view (infra_step acc i s) = fate_view acc"
  "fate_view (spec_step acc sp s) = fate_view acc"
  "fate_view (loop_step acc l s) = fate_view acc"
  "fate_view (verify_step acc v s) = fate_view acc"
  "fate_view (finalize_step acc f s) = fate_view acc"
  "fate_view (pr_step acc p) = fate_view acc"
  "fate_view (restack_step acc rs) = fate_view acc"
  "fate_view (reconcile_step acc rc s) = fate_view acc"
  "fate_view (escalation_step acc es who s) = fate_view acc"
  "fate_view (issue_step acc iss s) = fate_view acc"
proof -
  show "fate_view (node_step acc n ts s) = fate_view acc"
    by (cases n) (simp_all add: fate_view_def stage_members_def note_superseded_def family_defs split: option.split)
  show "fate_view (runner_step acc r s) = fate_view acc"
    by (cases r) (simp_all add: fate_view_def stage_members_def note_superseded_def family_defs split: option.split)
  show "fate_view (execution_step acc x s) = fate_view acc"
    by (cases x) (simp_all add: fate_view_def stage_members_def note_superseded_def family_defs split: option.split)
  show "fate_view (infra_step acc i s) = fate_view acc"
    by (cases i) (simp_all add: fate_view_def stage_members_def note_superseded_def family_defs split: option.split)
  show "fate_view (spec_step acc sp s) = fate_view acc"
    by (cases sp) (simp_all add: fate_view_def stage_members_def note_superseded_def family_defs split: option.split)
  show "fate_view (loop_step acc l s) = fate_view acc"
    by (cases l) (simp_all add: fate_view_def stage_members_def note_superseded_def family_defs split: option.split)
  show "fate_view (verify_step acc v s) = fate_view acc"
    by (cases v) (simp_all add: fate_view_def stage_members_def note_superseded_def family_defs split: option.split)
  show "fate_view (finalize_step acc f s) = fate_view acc"
    by (cases f) (simp_all add: fate_view_def stage_members_def note_superseded_def family_defs split: option.split)
  show "fate_view (pr_step acc p) = fate_view acc"
    by (cases p) (simp_all add: fate_view_def stage_members_def note_superseded_def family_defs split: option.split)
  show "fate_view (restack_step acc rs) = fate_view acc"
    by (cases rs) (simp_all add: fate_view_def stage_members_def note_superseded_def family_defs split: option.split)
  show "fate_view (reconcile_step acc rc s) = fate_view acc"
    by (cases rc) (simp_all add: fate_view_def stage_members_def note_superseded_def family_defs split: option.split)
  show "fate_view (escalation_step acc es who s) = fate_view acc"
    by (cases es) (simp_all add: fate_view_def stage_members_def note_superseded_def family_defs split: option.split)
  show "fate_view (issue_step acc iss s) = fate_view acc"
    by (cases iss) (simp_all add: fate_view_def stage_members_def note_superseded_def family_defs split: option.split)
qed

lemma fate_view_small [simp]:
  "fate_view (open_cycle s acc) = fate_view acc"
  "fate_view (seal_links s acc) = fate_view acc"
  "fate_view (count_failure p acc) = fate_view acc"
  "fate_view (deferral_escalated_step acc d s) = fate_view acc"
  "fate_view (acc\<lparr>ba_dispatchFailures := df\<rparr>) = fate_view acc"
  "fate_view (acc\<lparr>ba_observations := ob\<rparr>) = fate_view acc"
  "fate_view (acc\<lparr>ba_lastEvent := le\<rparr>) = fate_view acc"
  "fate_view (erase_sessions acc) = fate_view acc"
  "fate_view (end_of_batch acc) = fate_view acc"
  by (simp_all add: fate_view_def stage_members_def note_superseded_def family_defs erase_sessions_def end_of_batch_def split: option.split)

lemma fate_session: "session_step acc s ts seq = Inr acc' \<Longrightarrow> fate_view acc' = fate_view acc"
  using session_step_erased fate_view_small(8) by metis

text \<open>The verify stage moves only by its own fold; a terminal status is never lost.\<close>

definition fate_ok :: "build_acc \<Rightarrow> build_acc \<Rightarrow> bool" where
  "fate_ok acc acc' \<longleftrightarrow> stage_members acc' = stage_members acc \<and>
     (ba_terminal acc \<noteq> None \<longrightarrow> ba_terminal acc' \<noteq> None)"

lemma fate_ok_view: "fate_view acc' = fate_view acc \<Longrightarrow> fate_ok acc acc'"
  by (simp add: fate_ok_def fate_view_def)

lemma fate_ok_build: "fate_ok acc (build_step acc b who s)"
  by (cases b) (simp_all add: fate_ok_def stage_members_def created_step_def Let_def split: option.split)

lemma fate_ok_switch:
  assumes "switch_step acc e = Inr acc'"
  shows "fate_ok acc acc'"
proof (rule switch_invariant [OF assms, where V = fate_view])
  show "fate_ok acc acc" by (simp add: fate_ok_def)
  show "fate_view a = fate_view b \<Longrightarrow> fate_ok acc a \<Longrightarrow> fate_ok acc b" for a b
    by (simp add: fate_ok_def fate_view_def)
qed (simp_all add: fate_session fate_ok_build fate_ok_view)

lemma supersede_one_fate: "fate_view (supersede_one acc e) = fate_view acc"
  by (cases e) (auto simp: supersede_one_def note_superseded_def fate_view_def stage_members_def Let_def
      split: option.split)

lemma supersede_fate: "fate_view (supersede_cancelled acc) = fate_view acc"
proof -
  have "fate_view (foldl supersede_one a es) = fate_view a" for a es
    by (induction es arbitrary: a) (simp_all add: supersede_one_fate)
  then show ?thesis by (simp add: supersede_cancelled_def)
qed

text \<open>What one event does to the members and the terminal status.\<close>

definition fate_step :: "build_acc \<Rightarrow> ab_event \<Rightarrow> build_acc \<Rightarrow> bool" where
  "fate_step acc e acc' \<longleftrightarrow>
     stage_members acc' =
       (let st = advanceVerifyStage (ba_verifyStage acc) e in (vss_concurrent st, vss_members st)) \<and>
     (ba_terminal acc \<noteq> None \<longrightarrow> ba_terminal acc' \<noteq> None)"

lemma fate_stage: "fate_step acc e (stage_step acc e)"
proof -
  have "fate_view (stage_step acc e) =
      fate_view (acc\<lparr>ba_verifyStage := advanceVerifyStage (ba_verifyStage acc) e\<rparr>)"
    by (simp add: stage_step_def Let_def supersede_fate split: event_body.split verify_ev.split)
  then show ?thesis by (simp add: fate_step_def fate_view_def stage_members_def Let_def)
qed

lemma pre_parts_frame [simp]:
  "ba_verifyStage (janitor_step a b) = ba_verifyStage a" "ba_terminal (janitor_step a b) = ba_terminal a"
  "ba_verifyStage (rewrite_step a b s) = ba_verifyStage a" "ba_terminal (rewrite_step a b s) = ba_terminal a"
  "ba_verifyStage (integration_step a b s) = ba_verifyStage a" "ba_terminal (integration_step a b s) = ba_terminal a"
  by (simp_all add: janitor_step_def rewrite_step_def integration_step_def
      split: event_body.split build_ev.split target_ev.split node_ev.split)

lemma node_restack_frame:
  "node_restack_step a e = Inr a' \<Longrightarrow> ba_verifyStage a' = ba_verifyStage a \<and> ba_terminal a' = ba_terminal a"
  by (auto simp: node_restack_step_def split: if_splits sum.splits)

lemma fate_main:
  assumes "main_step acc e = Inr acc'"
  shows "fate_step acc e acc'"
proof -
  obtain a1 a2 where pre: "pre_step acc e = Inr a1" and sw: "switch_step a1 e = Inr a2"
    and acc': "acc' = a2\<lparr>ba_lastEvent := Some e\<rparr>"
    using main_step_cases [OF assms] by blast
  obtain b where b: "a1 = stage_step b e" "ba_verifyStage b = ba_verifyStage acc" "ba_terminal b = ba_terminal acc"
    using pre node_restack_frame by (fastforce simp: pre_step_def Let_def map_result_Inr_iff)
  show ?thesis
    using fate_stage [of b e] fate_ok_switch [OF sw] b
    by (auto simp: fate_step_def fate_ok_def acc' stage_members_def)
qed

section \<open>The incremental contract\<close>

lemma advance_members_mono:
  "vss_concurrent st \<Longrightarrow> vss_concurrent (advanceVerifyStage st e)"
  "vss_members st \<noteq> [] \<Longrightarrow> vss_members (advanceVerifyStage st e) \<noteq> []"
proof -
  have ne: "jm_set k v m \<noteq> []" for k :: member_key and v :: "verify_started \<times> nat" and m
    by (cases m) auto
  show "vss_concurrent st \<Longrightarrow> vss_concurrent (advanceVerifyStage st e)"
    by (simp add: advanceVerifyStage_def stage_verify_started_def stage_session_started_def
        stage_verify_completed_def stage_verify_cancelled_def stage_implement_started_def Let_def
        split: event_body.split verify_ev.split spec_ev.split reconcile_ev.split integration_ev.split
          loop_ev.split execution_ev.split session_ev.split option.split phase.split)
  show "vss_members st \<noteq> [] \<Longrightarrow> vss_members (advanceVerifyStage st e) \<noteq> []"
    by (simp add: advanceVerifyStage_def stage_verify_started_def stage_session_started_def
        stage_verify_completed_def stage_verify_cancelled_def stage_implement_started_def Let_def ne
        split: event_body.split verify_ev.split spec_ev.split reconcile_ev.split integration_ev.split
          loop_ev.split execution_ev.split session_ev.split option.split phase.split)
qed

definition members_grow :: "build_acc \<Rightarrow> build_acc \<Rightarrow> bool" where
  "members_grow a b \<longleftrightarrow>
     (vss_concurrent (ba_verifyStage a) \<longrightarrow> vss_concurrent (ba_verifyStage b)) \<and>
     (vss_members (ba_verifyStage a) \<noteq> [] \<longrightarrow> vss_members (ba_verifyStage b) \<noteq> []) \<and>
     (ba_terminal a \<noteq> None \<longrightarrow> ba_terminal b \<noteq> None)"

lemma members_grow_main: "main_step a e = Inr b \<Longrightarrow> members_grow a b"
  using fate_main [of a e b] advance_members_mono [of "ba_verifyStage a" e]
  by (simp add: members_grow_def fate_step_def stage_members_def Let_def)

lemma members_grow_fold: "try_fold main_step (Inr a) es = Inr b \<Longrightarrow> members_grow a b"
proof (induction es arbitrary: a)
  case (Cons e es)
  then obtain c where "main_step a e = Inr c" "try_fold main_step (Inr c) es = Inr b"
    by (cases "main_step a e") auto
  with Cons.IH members_grow_main [of a e c] show ?case by (auto simp: members_grow_def)
qed (simp add: members_grow_def)

definition side_fold :: "batch_side \<Rightarrow> ab_event list \<Rightarrow> batch_side" where
  "side_fold x es = foldl side_step
     (x\<lparr>sd_compatibility := advanceCompatibility (sd_compatibility x) es\<rparr>) (filterKnownEvents es)"

lemma compatibility_pieces:
  "sd_compatibility (side_of (drain_authorized_step (put_side x a) p)) = sd_compatibility x"
  "sd_compatibility (side_of (relaunch_step (put_side x a) q)) = sd_compatibility x"
  "sd_compatibility (side_of (shutdown_step (put_side x a))) = sd_compatibility x"
  "sd_compatibility (side_of (execution_ended_step (put_side x a) i)) = sd_compatibility x"
  "sd_compatibility (side_of (drain_settled_step (put_side x a) i corr)) = sd_compatibility x"
  "sd_compatibility (side_of ((put_side x a)\<lparr>ba_deferredBoundary := b\<rparr>)) = sd_compatibility x"
  "sd_compatibility (side_of ((put_side x a))) = sd_compatibility x"
  by (auto simp: drain_side_steps split: option.split)

lemma compatibility_update_pieces:
  "(side_of (drain_authorized_step (put_side x a) p))\<lparr>sd_compatibility := v\<rparr> = side_of (drain_authorized_step (put_side (x\<lparr>sd_compatibility := v\<rparr>) a) p)"
  "(side_of (relaunch_step (put_side x a) q))\<lparr>sd_compatibility := v\<rparr> = side_of (relaunch_step (put_side (x\<lparr>sd_compatibility := v\<rparr>) a) q)"
  "(side_of (shutdown_step (put_side x a)))\<lparr>sd_compatibility := v\<rparr> = side_of (shutdown_step (put_side (x\<lparr>sd_compatibility := v\<rparr>) a))"
  "(side_of (execution_ended_step (put_side x a) i))\<lparr>sd_compatibility := v\<rparr> = side_of (execution_ended_step (put_side (x\<lparr>sd_compatibility := v\<rparr>) a) i)"
  "(side_of (drain_settled_step (put_side x a) i corr))\<lparr>sd_compatibility := v\<rparr> = side_of (drain_settled_step (put_side (x\<lparr>sd_compatibility := v\<rparr>) a) i corr)"
  "(side_of ((put_side x a)\<lparr>ba_deferredBoundary := b\<rparr>))\<lparr>sd_compatibility := v\<rparr> = side_of ((put_side (x\<lparr>sd_compatibility := v\<rparr>) a)\<lparr>ba_deferredBoundary := b\<rparr>)"
  "(side_of ((put_side x a)))\<lparr>sd_compatibility := v\<rparr> = side_of ((put_side (x\<lparr>sd_compatibility := v\<rparr>) a))"
  by (auto simp: drain_side_steps split: option.split)

lemma running_pieces:
  "sd_running (side_of (drain_authorized_step (put_side x a) p)) = sd_running x"
  "sd_running (side_of (relaunch_step (put_side x a) q)) = sd_running x"
  "sd_running (side_of (shutdown_step (put_side x a))) = sd_running x"
  "sd_running (side_of (execution_ended_step (put_side x a) i)) = sd_running x"
  "sd_running (side_of (drain_settled_step (put_side x a) i corr)) = sd_running x"
  "sd_running (side_of ((put_side x a)\<lparr>ba_deferredBoundary := b\<rparr>)) = sd_running x"
  "sd_running (side_of ((put_side x a))) = sd_running x"
  by (auto simp: drain_side_steps split: option.split)

lemma running_update_pieces:
  "(side_of (drain_authorized_step (put_side x a) p))\<lparr>sd_running := v\<rparr> = side_of (drain_authorized_step (put_side (x\<lparr>sd_running := v\<rparr>) a) p)"
  "(side_of (relaunch_step (put_side x a) q))\<lparr>sd_running := v\<rparr> = side_of (relaunch_step (put_side (x\<lparr>sd_running := v\<rparr>) a) q)"
  "(side_of (shutdown_step (put_side x a)))\<lparr>sd_running := v\<rparr> = side_of (shutdown_step (put_side (x\<lparr>sd_running := v\<rparr>) a))"
  "(side_of (execution_ended_step (put_side x a) i))\<lparr>sd_running := v\<rparr> = side_of (execution_ended_step (put_side (x\<lparr>sd_running := v\<rparr>) a) i)"
  "(side_of (drain_settled_step (put_side x a) i corr))\<lparr>sd_running := v\<rparr> = side_of (drain_settled_step (put_side (x\<lparr>sd_running := v\<rparr>) a) i corr)"
  "(side_of ((put_side x a)\<lparr>ba_deferredBoundary := b\<rparr>))\<lparr>sd_running := v\<rparr> = side_of ((put_side (x\<lparr>sd_running := v\<rparr>) a)\<lparr>ba_deferredBoundary := b\<rparr>)"
  "(side_of ((put_side x a)))\<lparr>sd_running := v\<rparr> = side_of ((put_side (x\<lparr>sd_running := v\<rparr>) a))"
  by (auto simp: drain_side_steps split: option.split)

lemma side_step_frame:
  "sd_compatibility (side_step x e) = sd_compatibility x"
  "sd_running (side_step x e) = sd_running x"
  "side_step (x\<lparr>sd_compatibility := c\<rparr>) e = (side_step x e)\<lparr>sd_compatibility := c\<rparr>"
  "side_step (x\<lparr>sd_running := r\<rparr>) e = (side_step x e)\<lparr>sd_running := r\<rparr>"
proof -
  show "sd_compatibility (side_step x e) = sd_compatibility x"
    unfolding side_step_def drain_step_def event_body.case_distrib [of "\<lambda>t. sd_compatibility (side_of t)"] build_ev.case_distrib [of "\<lambda>t. sd_compatibility (side_of t)"] execution_ev.case_distrib [of "\<lambda>t. sd_compatibility (side_of t)"] session_ev.case_distrib [of "\<lambda>t. sd_compatibility (side_of t)"] if_distrib [of "\<lambda>t. sd_compatibility (side_of t)"] compatibility_pieces
    by (simp split: event_body.split build_ev.split execution_ev.split session_ev.split)
  show "sd_running (side_step x e) = sd_running x"
    unfolding side_step_def drain_step_def event_body.case_distrib [of "\<lambda>t. sd_running (side_of t)"] build_ev.case_distrib [of "\<lambda>t. sd_running (side_of t)"] execution_ev.case_distrib [of "\<lambda>t. sd_running (side_of t)"] session_ev.case_distrib [of "\<lambda>t. sd_running (side_of t)"] if_distrib [of "\<lambda>t. sd_running (side_of t)"] running_pieces
    by (simp split: event_body.split build_ev.split execution_ev.split session_ev.split)
  show "side_step (x\<lparr>sd_compatibility := c\<rparr>) e = (side_step x e)\<lparr>sd_compatibility := c\<rparr>"
    unfolding side_step_def drain_step_def event_body.case_distrib [of side_of] build_ev.case_distrib [of side_of]
      execution_ev.case_distrib [of side_of] session_ev.case_distrib [of side_of] if_distrib [of side_of]
      event_body.case_distrib [of "\<lambda>t. t\<lparr>sd_compatibility := c\<rparr>"] build_ev.case_distrib [of "\<lambda>t. t\<lparr>sd_compatibility := c\<rparr>"] execution_ev.case_distrib [of "\<lambda>t. t\<lparr>sd_compatibility := c\<rparr>"] session_ev.case_distrib [of "\<lambda>t. t\<lparr>sd_compatibility := c\<rparr>"] if_distrib [of "\<lambda>t. t\<lparr>sd_compatibility := c\<rparr>"]
    by (simp only: compatibility_update_pieces)
  show "side_step (x\<lparr>sd_running := r\<rparr>) e = (side_step x e)\<lparr>sd_running := r\<rparr>"
    unfolding side_step_def drain_step_def event_body.case_distrib [of side_of] build_ev.case_distrib [of side_of]
      execution_ev.case_distrib [of side_of] session_ev.case_distrib [of side_of] if_distrib [of side_of]
      event_body.case_distrib [of "\<lambda>t. t\<lparr>sd_running := r\<rparr>"] build_ev.case_distrib [of "\<lambda>t. t\<lparr>sd_running := r\<rparr>"] execution_ev.case_distrib [of "\<lambda>t. t\<lparr>sd_running := r\<rparr>"] session_ev.case_distrib [of "\<lambda>t. t\<lparr>sd_running := r\<rparr>"] if_distrib [of "\<lambda>t. t\<lparr>sd_running := r\<rparr>"]
    by (simp only: running_update_pieces)
qed

lemma side_steps_frame:
  "sd_compatibility (foldl side_step x es) = sd_compatibility x"
  "sd_running (foldl side_step x es) = sd_running x"
  "foldl side_step (x\<lparr>sd_compatibility := c\<rparr>) es = (foldl side_step x es)\<lparr>sd_compatibility := c\<rparr>"
  "foldl side_step (x\<lparr>sd_running := r\<rparr>) es = (foldl side_step x es)\<lparr>sd_running := r\<rparr>"
  by (induction es arbitrary: x) (simp_all add: side_step_frame)

lemma side_fold_append: "side_fold x (xs @ ys) = side_fold (side_fold x xs) ys"
  by (simp add: side_fold_def side_steps_frame advanceCompatibility_def)

lemma side_fold_running:
  "sd_running (side_fold x es) = sd_running x"
  "side_fold (x\<lparr>sd_running := r\<rparr>) es = (side_fold x es)\<lparr>sd_running := r\<rparr>"
  by (simp_all add: side_fold_def side_steps_frame)

lemma drain_fold_put: "fold_events drain_step (put_side x acc) es = put_side (foldl side_step x es) acc"
  by (induction es arbitrary: x) (simp_all add: drain_put)

lemma foldBuild_put:
  "foldBuild acc es = map_result end_of_batch (map_result (put_side (side_fold (side_of acc) es))
     (try_fold main_step (Inr acc) (filterKnownEvents es)))"
proof -
  let ?x = "side_of acc"
  let ?y = "?x\<lparr>sd_compatibility := advanceCompatibility (sd_compatibility ?x) es\<rparr>"
  have "acc\<lparr>ba_compatibility := advanceCompatibility (ba_compatibility acc) es\<rparr> = put_side ?y acc"
    by (simp add: put_side_def side_of_def)
  then show ?thesis
    by (simp add: foldBuild_def fold_known_def drain_fold_put side_main_fold side_fold_def)
qed

text \<open>What the end of a batch without overlapping members does: it refreshes the running list.\<close>

definition running_after :: "build_acc \<Rightarrow> string list option" where
  "running_after acc =
     (if vss_members (ba_verifyStage acc) \<noteq> []
      then Some (map (vs_step \<circ> fst) (runningVerifyMembers (ba_verifyStage acc) (vg_cycleSince (ba_verify acc))))
      else vg_running (ba_verify acc))"

lemma end_of_batch_serial:
  assumes "\<not> vss_concurrent (ba_verifyStage acc)"
  shows "end_of_batch (put_side x acc) = put_side (x\<lparr>sd_running := running_after (put_side x acc)\<rparr>) acc"
  using assms by (simp add: end_of_batch_def running_after_def put_side_def Let_def)

lemma put_side_frame [simp]:
  "ba_verifyStage (put_side x acc) = ba_verifyStage acc"
  "vg_cycleSince (ba_verify (put_side x acc)) = vg_cycleSince (ba_verify acc)"
  "vg_running (ba_verify (put_side x acc)) = sd_running x"
  by (simp_all add: put_side_def)

lemma end_of_batch_stage [simp]: "ba_verifyStage (end_of_batch acc) = ba_verifyStage acc"
  by (simp add: end_of_batch_def Let_def split: option.split)

lemma foldBuild_split:
  assumes whole: "foldBuild acc (xs @ ys) = Inr c" and serial: "\<not> vss_concurrent (ba_verifyStage c)"
  shows "bind_result (foldBuild acc xs) (\<lambda>a. foldBuild a ys) = Inr c"
proof -
  let ?S = "side_fold (side_of acc)"
  obtain a b where a: "try_fold main_step (Inr acc) (filterKnownEvents xs) = Inr a"
    and b: "try_fold main_step (Inr a) (filterKnownEvents ys) = Inr b"
    and c: "c = end_of_batch (put_side (?S (xs @ ys)) b)"
    using whole
    by (cases "try_fold main_step (Inr acc) (filterKnownEvents xs)")
       (auto simp: foldBuild_put map_result_Inr_iff)
  have serial_b: "\<not> vss_concurrent (ba_verifyStage b)" using serial c by simp
  have grow: "members_grow a b" using members_grow_fold [OF b] .
  then have serial_a: "\<not> vss_concurrent (ba_verifyStage a)" using serial_b by (auto simp: members_grow_def)
  let ?r = "running_after (put_side (?S xs) a)"
  have first: "foldBuild acc xs = Inr (put_side ((?S xs)\<lparr>sd_running := ?r\<rparr>) a)"
    by (simp add: foldBuild_put a end_of_batch_serial [OF serial_a])
  have "foldBuild (put_side ((?S xs)\<lparr>sd_running := ?r\<rparr>) a) ys =
      Inr (end_of_batch (put_side ((?S (xs @ ys))\<lparr>sd_running := ?r\<rparr>) b))"
    by (simp add: foldBuild_put side_main_fold b side_fold_running side_fold_append)
  also have "end_of_batch (put_side ((?S (xs @ ys))\<lparr>sd_running := ?r\<rparr>) b) = c"
  proof -
    have "running_after (put_side ((?S (xs @ ys))\<lparr>sd_running := ?r\<rparr>) b) =
        running_after (put_side (?S (xs @ ys)) b)"
      using grow by (auto simp: running_after_def members_grow_def side_fold_running)
    then show ?thesis by (simp add: c end_of_batch_serial [OF serial_b])
  qed
  finally show ?thesis by (simp add: first)
qed

section \<open>Events that cannot throw\<close>

lemma pre_throws_node: "pre_step acc e = Inl x \<Longrightarrow> \<exists>n. ev_body e = ENode n"
proof (rule ccontr)
  assume thr: "pre_step acc e = Inl x" and "\<nexists>n. ev_body e = ENode n"
  then have "\<exists>b. node_restack_step a e = Inr b" for a
    by (auto simp: node_restack_step_def concerns_node_def nr_step_def
        split: event_body.splits target_ev.splits)
  then obtain f where "node_restack_step a e = Inr (f a)" for a by metis
  with thr show False by (simp add: pre_step_def Let_def)
qed

lemma main_returns:
  assumes inv: "session_inv acc" and quiet: "\<And>n. ev_body e \<noteq> ENode n"
  shows "\<exists>b. main_step acc e = Inr b \<and> session_inv b"
proof (cases "main_step acc e")
  case (Inl x)
  show ?thesis
  proof (cases "pre_step acc e")
    case (Inl y)
    then show ?thesis using pre_throws_node quiet by blast
  next
    case (Inr a)
    have "switch_step a e = Inl x"
      using \<open>main_step acc e = Inl x\<close> Inr by (cases "switch_step a e") (auto simp: main_step_def)
    then show ?thesis
      using switch_throws session_step_ok [OF pre_session_inv [OF inv Inr]] by (metis Inl_Inr_False)
  qed
qed (use main_session_inv [OF inv] in blast)

lemma main_fold_returns:
  "session_inv acc \<Longrightarrow> (\<And>e n. e \<in> set es \<Longrightarrow> ev_body e \<noteq> ENode n) \<Longrightarrow>
   \<exists>b. try_fold main_step (Inr acc) es = Inr b"
proof (induction es arbitrary: acc)
  case (Cons e es)
  then obtain b where "main_step acc e = Inr b" "session_inv b"
    using main_returns [of acc e] by auto
  then show ?case using Cons.IH [of b] Cons.prems(2) by simp
qed simp

section \<open>The side of a reduced build\<close>

lemma foldBuild_cases:
  assumes "foldBuild acc es = Inr c"
  obtains b where "try_fold main_step (Inr acc) (filterKnownEvents es) = Inr b"
    and "c = end_of_batch (put_side (side_fold (side_of acc) es) b)"
  using assms by (auto simp: foldBuild_put map_result_Inr_iff)

lemma drain_inv_foldBuild:
  assumes "drain_inv acc" and "foldBuild acc es = Inr c"
  shows "drain_inv c"
proof -
  obtain b where c: "c = end_of_batch (put_side (side_fold (side_of acc) es) b)"
    using foldBuild_cases [OF assms(2)] .
  let ?x = "(side_of acc)\<lparr>sd_compatibility := advanceCompatibility (sd_compatibility (side_of acc)) es\<rparr>"
  have "drain_inv (put_side ?x acc)"
    using assms(1) by (simp add: drain_inv_def put_side_def side_of_def)
  then have "drain_inv (fold_events drain_step (put_side ?x acc) (filterKnownEvents es))"
    by (rule drain_inv_fold)
  then have "drain_inv (put_side (side_fold (side_of acc) es) acc)"
    by (simp add: drain_fold_put side_fold_def)
  then show ?thesis
    by (simp add: c drain_inv_def put_side_def end_of_batch_def Let_def split: option.split)
qed

lemma terminal_foldBuild:
  assumes "foldBuild acc es = Inr c" and "ba_terminal acc \<noteq> None"
  shows "ba_terminal c \<noteq> None"
proof -
  obtain b where "try_fold main_step (Inr acc) (filterKnownEvents es) = Inr b"
    and c: "c = end_of_batch (put_side (side_fold (side_of acc) es) b)"
    using foldBuild_cases [OF assms(1)] .
  then have "ba_terminal b \<noteq> None" using members_grow_fold assms(2) by (force simp: members_grow_def)
  then show ?thesis by (simp add: c put_side_def end_of_batch_def Let_def split: option.split)
qed

lemma terminal_prefix:
  assumes "foldBuild acc (xs @ ys) = Inr c" and "foldBuild acc xs = Inr a" and "ba_terminal a \<noteq> None"
  shows "ba_terminal c \<noteq> None"
proof -
  obtain a' where a': "try_fold main_step (Inr acc) (filterKnownEvents xs) = Inr a'"
    and a: "a = end_of_batch (put_side (side_fold (side_of acc) xs) a')"
    using foldBuild_cases [OF assms(2)] .
  obtain b where b: "try_fold main_step (Inr acc) (filterKnownEvents (xs @ ys)) = Inr b"
    and c: "c = end_of_batch (put_side (side_fold (side_of acc) (xs @ ys)) b)"
    using foldBuild_cases [OF assms(1)] .
  have ter [simp]: "ba_terminal (end_of_batch (put_side x d)) = ba_terminal d" for x d
    by (simp add: put_side_def end_of_batch_def Let_def split: option.split)
  have "members_grow a' b" using b a' members_grow_fold by simp
  then show ?thesis using assms(3) by (simp add: a c members_grow_def)
qed

text \<open>At the level of reduced builds: done and aborted are final.\<close>

definition ended :: "build_state \<Rightarrow> bool" where
  "ended st \<longleftrightarrow> bs_status st = StDone \<or> bs_status st = StAborted"

lemma ended_final:
  assumes "reduceBuild xs = Inr s" and "ended s" and "reduceBuild (xs @ ys) = Inr t"
  shows "ended t"
proof -
  obtain a where a: "foldBuild initialBuildAcc xs = Inr a" "s = finishBuild a"
    using assms(1) by (auto simp: reduceBuild_def map_result_Inr_iff)
  obtain c where c: "foldBuild initialBuildAcc (xs @ ys) = Inr c" "t = finishBuild c"
    using assms(3) by (auto simp: reduceBuild_def map_result_Inr_iff)
  have status: "(derive_status x = StDone \<or> derive_status x = StAborted) = (ba_terminal x \<noteq> None)" for x
    by (auto simp: derive_status_def split: option.split terminal_status.split)
  have "ba_terminal a \<noteq> None" using assms(2) status [of a] by (simp add: a(2) finishBuild_def ended_def)
  from terminal_prefix [OF c(1) a(1) this] status [of c] show ?thesis
    by (simp add: c(2) finishBuild_def ended_def)
qed

end
