(* ===== verification/BuildProperties.thy ===== *)
theory BuildProperties
  imports ReducerContract
begin

text \<open>
  The properties of the build reducer, over whole logs: what it can throw, the invariants of every
  reduced build, the incremental contract and where it fails, and integration verification.
\<close>

abbreviation build_event :: "nat \<Rightarrow> event_body \<Rightarrow> ab_event" where
  "build_event n b \<equiv> \<lparr>ev_seq = n, ev_ts = 0, ev_actor = Kernel, ev_body = b\<rparr>"

section \<open>What a reduction throws\<close>

text \<open>C3: reducing a build log is total up to the node restack machine: it returns a state, or throws
  one of that machine's errors. In particular the accounting of sessions never meets a session
  without totals, though the code indexes the totals without a check.\<close>

theorem reduction_throws_node_faults_only:
  "(\<exists>st. reduceBuild es = Inr st) \<or> (\<exists>err. reduceBuild es = Inl (NodeFault err))"
proof (cases "foldBuild initialBuildAcc es")
  case (Inl x)
  with foldBuild_throws [OF session_inv_initial] show ?thesis by (auto simp: reduceBuild_def)
qed (simp add: reduceBuild_def)

text \<open>a log without node facts always reduces to a state.\<close>

lemma leaf_logs_reduce:
  assumes "\<forall>e \<in> set es. \<forall>n. ev_body e \<noteq> ENode n"
  shows "\<exists>st. reduceBuild es = Inr st"
proof -
  have "\<exists>b. try_fold main_step (Inr initialBuildAcc) (filterKnownEvents es) = Inr b"
    using assms by (intro main_fold_returns) (auto simp: filterKnownEvents_def)
  then show ?thesis by (auto simp: reduceBuild_def foldBuild_put)
qed

abbreviation verify_start :: "nat \<Rightarrow> string \<Rightarrow> ab_event" where
  "verify_start n step \<equiv> build_event n (EVerify (VerifyStarted
     \<lparr>vs_baseSha = None, vs_headSha = None, vs_restackId = None, vs_step = step, vs_attempt = 1,
      vs_feedback = None\<rparr>))"

lemma leaf_logs_reduce_witness:
  "\<exists>st. reduceBuild [verify_start 1 ''lint'', build_event 2 (EBuild BuildPaused)] = Inr st"
  by (rule leaf_logs_reduce) simp

section \<open>Invariants of every reduced build\<close>

text \<open>C5: approvals stand for verdicts. In every reduced build the plan counts as approved exactly when
  an approving verdict is on record for it, and likewise the code review; a pause and a resume
  are never both pending; and the verify cycle never starts before the restart boundary.\<close>

theorem reduced_build_invariant:
  assumes "reduceBuild es = Inr st"
  shows "approval_inv (bs_acc st) \<and> pending_inv (bs_acc st) \<and> boundary_inv (bs_acc st) \<and>
         session_inv (bs_acc st)"
proof -
  obtain acc where "foldBuild initialBuildAcc es = Inr acc" and "bs_acc st = acc"
    using assms by (auto simp: reduceBuild_def map_result_Inr_iff finishBuild_def)
  with core_inv_foldBuild [OF core_inv_initial] show ?thesis by (auto simp: core_inv_def)
qed

theorem reduced_build_invariant_witness:
  "\<exists>st. reduceBuild [verify_start 1 ''lint''] = Inr st \<and> approval_inv (bs_acc st) \<and>
        pending_inv (bs_acc st)"
proof -
  have "\<exists>b. try_fold main_step (Inr initialBuildAcc) (filterKnownEvents [verify_start 1 ''lint'']) = Inr b"
    by (rule main_fold_returns) (simp_all add: filterKnownEvents_def known_event_def)
  then obtain st where "reduceBuild [verify_start 1 ''lint''] = Inr st"
    by (auto simp: reduceBuild_def foldBuild_put)
  with reduced_build_invariant [OF this] show ?thesis by blast
qed

text \<open>an ended execution has no drain authority. In every reduced build, an execution instance that
  ended holds no authorization to drain, whatever authorizations the log grants it before or after.\<close>

lemma ended_execution_has_no_authority:
  assumes "reduceBuild es = Inr st" and "i \<in> set (ba_endedInstances (bs_acc st))"
    and "jm_get (ba_draining (bs_acc st)) i = Some d"
  shows "dx_authorization d = None"
proof -
  obtain acc where "foldBuild initialBuildAcc es = Inr acc" and "bs_acc st = acc"
    using assms(1) by (auto simp: reduceBuild_def map_result_Inr_iff finishBuild_def)
  then have "drain_inv (bs_acc st)" using drain_inv_foldBuild [OF drain_inv_initial] by blast
  from drain_inv_get [OF this assms(3)] assms(2) show ?thesis by (simp add: entry_inv_def)
qed

abbreviation drain_request :: "string \<Rightarrow> drain_authorized" where
  "drain_request corr \<equiv> \<lparr>da_targetRuntime = None, da_correlation = corr, da_run = ''run'',
     da_runtime = \<lparr>rt_version = ''1'', rt_commit = ''c'', rt_kind = ''npm'', rt_location = ''l''\<rparr>,
     da_instance = ''i''\<rparr>"

abbreviation drain_log :: "ab_event list" where
  "drain_log \<equiv> map (build_event 1 \<circ> EExecution)
     [DrainAuthorized (drain_request ''a''), ExecutionEnded ''i'' EndedCompleted (Some 0), DrainAuthorized (drain_request ''b'')]"

lemma ended_execution_has_no_authority_witness:
  "\<exists>st d. reduceBuild drain_log = Inr st \<and> jm_get (ba_draining (bs_acc st)) ''i'' = Some d \<and>
          dx_authorization d = None"
proof -
  have "case reduceBuild drain_log of Inl _ \<Rightarrow> False
      | Inr st \<Rightarrow> ''i'' \<in> set (ba_endedInstances (bs_acc st)) \<and> jm_get (ba_draining (bs_acc st)) ''i'' \<noteq> None"
    by code_simp
  then obtain st d where "reduceBuild drain_log = Inr st" "''i'' \<in> set (ba_endedInstances (bs_acc st))"
    "jm_get (ba_draining (bs_acc st)) ''i'' = Some d"
    by (auto split: sum.splits)
  with ended_execution_has_no_authority [OF this] show ?thesis by blast
qed

text \<open>C4: a terminal build stays terminal. Once a log reduces to a done or aborted build, no
  continuation of the log that reduces at all leaves those two statuses.\<close>

theorem terminal_build_stays_terminal:
  assumes "reduceBuild xs = Inr s" and "bs_status s = StDone \<or> bs_status s = StAborted"
    and "reduceBuild (xs @ ys) = Inr t"
  shows "bs_status t = StDone \<or> bs_status t = StAborted"
  by (rule ended_final [OF assms(1) _ assms(3), unfolded ended_def]) (rule assms(2))

theorem terminal_build_stays_terminal_witness:
  "\<exists>t. reduceBuild ([build_event 1 (EBuild (BuildCompleted Merged))] @ [build_event 2 (EBuild BuildPaused)]) = Inr t \<and>
       (bs_status t = StDone \<or> bs_status t = StAborted)"
proof -
  let ?xs = "[build_event 1 (EBuild (BuildCompleted Merged))]" and ?ys = "[build_event 2 (EBuild BuildPaused)]"
  have "case reduceBuild ?xs of Inl _ \<Rightarrow> False | Inr s \<Rightarrow> bs_status s = StDone" by code_simp
  then obtain s where "reduceBuild ?xs = Inr s" "bs_status s = StDone" by (auto split: sum.splits)
  moreover have "case reduceBuild (?xs @ ?ys) of Inl _ \<Rightarrow> False | Inr s \<Rightarrow> True" by code_simp
  then obtain t where "reduceBuild (?xs @ ?ys) = Inr t" by (auto split: sum.splits)
  ultimately show ?thesis using terminal_build_stays_terminal by blast
qed

section \<open>The incremental contract\<close>

text \<open>C1: the incremental contract without overlapping verify members. If a log reduces to a build in
  which no two verify members ever ran at once, then cutting the log anywhere, folding the prefix,
  keeping the accumulator and folding the rest gives the same accumulator, in every field.\<close>

theorem build_fold_may_be_cut:
  assumes "foldBuild initialBuildAcc (xs @ ys) = Inr c" and "\<not> vss_concurrent (ba_verifyStage c)"
  shows "bind_result (foldBuild initialBuildAcc xs) (\<lambda>a. foldBuild a ys) = Inr c"
  by (rule foldBuild_split [OF assms])

theorem build_fold_may_be_cut_witness:
  "\<exists>c. foldBuild initialBuildAcc ([verify_start 1 ''lint''] @ [verify_start 2 ''lint'']) = Inr c \<and>
       bind_result (foldBuild initialBuildAcc [verify_start 1 ''lint''])
         (\<lambda>a. foldBuild a [verify_start 2 ''lint'']) = Inr c"
proof -
  have "case foldBuild initialBuildAcc ([verify_start 1 ''lint''] @ [verify_start 2 ''lint'']) of
      Inl _ \<Rightarrow> False | Inr c \<Rightarrow> \<not> vss_concurrent (ba_verifyStage c)"
    by code_simp
  then obtain c where "foldBuild initialBuildAcc ([verify_start 1 ''lint''] @ [verify_start 2 ''lint'']) = Inr c"
    "\<not> vss_concurrent (ba_verifyStage c)"
    by (auto split: sum.splits)
  with build_fold_may_be_cut [OF this] show ?thesis by blast
qed

abbreviation overlap_prefix :: "ab_event list" where
  "overlap_prefix \<equiv> [verify_start 1 ''lint'', verify_start 2 ''test'',
     build_event 3 (EVerify (VerifyCompleted (OutcomePass
       \<lparr>vb_baseSha = None, vb_headSha = None, vb_restackId = None, vb_step = ''test'', vb_attempt = 1\<rparr> None)))]"

abbreviation overlap_revision :: "ab_event list" where
  "overlap_revision \<equiv> [build_event 4 (ESpec (SpecRevised \<lparr>art_kind = ''spec'', art_rev = 2\<rparr> None))]"


section \<open>Integration\<close>

text \<open>A node whose cycle 5 passed its one step at 7.\<close>

definition sample_config :: config where
  "sample_config = \<lparr>cf_policy = \<lparr>po_stallRounds = 2, po_maxVerifyAttempts = 3,
       po_maxReconcileAttempts = 3, po_maxReviewRounds = 5\<rparr>,
     cf_verify = verify_section [Single ''lint''] [] False,
     cf_finalize = \<lparr>fz_steps = [], fz_stepConfigs = []\<rparr>, cf_commands = []\<rparr>"

definition sample_cycle :: integration_prepared where
  "sample_cycle = \<lparr>gp_id = ''g'', gp_head = ''h'', gp_parent = ''p'', gp_context = None,
     gp_config = integrationConfig sample_config\<rparr>"

definition verified_build :: build_acc where
  "verified_build = initialBuildAcc
     \<lparr>ba_integration := Some (initialIntegration
        \<lparr>is_cycle := Some (sample_cycle, 5), is_cycles := Some [(sample_cycle, 5)],
         is_observation := Some \<lparr>io_membershipSource = None, io_openChildren = [], io_diagnostics = [],
            io_contributions = [''c''], io_children = None\<rparr>\<rparr>),
      ba_nodeComparison := Some \<lparr>nc_parentSha = ''p'', nc_headSha = ''h'', nc_ahead = 1\<rparr>,
      ba_nodeRestack := Some (initialNodeRestack\<lparr>nrs_contributionBase := Some ''p''\<rparr>),
      ba_verify := (ba_verify initialBuildAcc)\<lparr>vg_results := [normalizeVerifyCompletion (OutcomePass
        \<lparr>vb_baseSha = Some ''p'', vb_headSha = Some ''h'', vb_restackId = Some ''g'', vb_step = ''lint'',
         vb_attempt = 1\<rparr> None) 7]\<rparr>\<rparr>"



end
