(* ===== verification/EngineLoop.thy ===== *)
theory EngineLoop
  imports Reducer LogIndex Converge
begin

text \<open>
  The decision contract of \<^verbatim>\<open>packages/core/src/kernel/engine.ts\<close> and the part that routes one review
  loop: \<^verbatim>\<open>decideLoop\<close>, \<^verbatim>\<open>liveChains\<close>, \<^verbatim>\<open>guidanceDestination\<close> and the feedback selectors.
\<close>

section \<open>The decision contract\<close>

datatype wait_reason =
    WTargetRewritten | WPublicationRetry | WVerifyStage | WMixedVersion | WBlocked | WPaused
  | WAwaitingSpec | WAwaitingPr | WDone | WAborted

datatype verify_action =
    RunCheck (va_step: string) (va_command: string) (va_attempt: nat)
  | RunAgentVerify (va_step: string) (va_skill: string) (va_attempt: nat) (va_feedback: "feedback option")

datatype finalize_action = FinalizeCheck string | FinalizeAgent string

text \<open>
  \<^verbatim>\<open>VerifyMemberDecision\<close>; \<open>MemberSkip\<close> says whether \<^verbatim>\<open>skipCause\<close> is the post-reconcile policy. The same
  three shapes are decisions of their own.
\<close>

datatype member_decision =
    MemberAction verify_action
  | MemberEvaluate string nat "string list" verify_action
  | MemberSkip string nat string bool

datatype restack_trigger = VerifyEntry | AwaitingLanding

record run_phase =
  rph_corePhase :: core_phase
  rph_phaseRound :: nat
  rph_feedback :: "feedback option"
  rph_stageFailure :: "nat option"
  rph_reconcile :: "nat option"

record raise_request =
  rse_source :: escalation_source
  rse_policyCause :: "policy_cause option"
  rse_phase :: phase
  rse_round :: "nat option"
  rse_question :: string
  rse_findings :: "string list option"

datatype decision =
    RecordSelectionDrift string
  | RestartExecution
  | RunVerifyStage "member_decision list"
  | CancelVerifyStage "string list" string nat
  | RecordStageFailure stage_failed
  | RaiseReadDeferral read_deferral
  | Restack restack_trigger nat
  | CaptureReconcilePolicy nat
  | Wait wait_reason
  | Acknowledge command
  | RunPhase run_phase
  | RunMember member_decision
  | RunFinalizeStep string finalize_action
  | CheckReconcileProgress nat nat nat
  | RaiseEscalation raise_request

definition run_core :: "core_phase \<Rightarrow> nat \<Rightarrow> feedback option \<Rightarrow> decision" where
  "run_core p r fb = RunPhase \<lparr>rph_corePhase = p, rph_phaseRound = r, rph_feedback = fb,
     rph_stageFailure = None, rph_reconcile = None\<rparr>"

definition run_reconcile :: "nat \<Rightarrow> decision" where
  "run_reconcile n = RunPhase \<lparr>rph_corePhase = Reconcile, rph_phaseRound = n, rph_feedback = None,
     rph_stageFailure = None, rph_reconcile = Some n\<rparr>"

text \<open>\<^verbatim>\<open>a ?? b\<close>\<close>

definition or_else :: "'a option \<Rightarrow> 'a option \<Rightarrow> 'a option" where
  "or_else a b = (case a of Some _ \<Rightarrow> a | None \<Rightarrow> b)"

text \<open>Early returns in order: the first rule that decides, else the last word.\<close>

fun first_decision :: "decision option list \<Rightarrow> decision \<Rightarrow> decision" where
  "first_decision [] d = d"
| "first_decision (Some x # rules) d = x"
| "first_decision (None # rules) d = first_decision rules d"

definition rule_if :: "bool \<Rightarrow> decision \<Rightarrow> decision option" where
  "rule_if c d = (if c then Some d else None)"

section \<open>Escalation history\<close>

text \<open>\<^verbatim>\<open>[...openEscalations, ...answeredEscalations]\<close>\<close>

definition all_raised :: "build_acc \<Rightarrow> open_escalation list" where
  "all_raised acc = map snd (ba_openEscalations acc) @ map an_open (ba_answered acc)"

definition raised_after :: "build_acc \<Rightarrow> nat \<Rightarrow> escalation_source \<Rightarrow> escalation_target \<Rightarrow> bool" where
  "raised_after acc seq source target =
     list_ex (\<lambda>e. oe_seq e > seq \<and> oe_source e = source \<and> oe_phase e = target \<and> \<not> oe_deferral e)
       (all_raised acc)"

definition no_progress_raised_after :: "build_acc \<Rightarrow> nat \<Rightarrow> bool" where
  "no_progress_raised_after acc seq =
     list_ex (\<lambda>e. oe_seq e > seq \<and> oe_source e = SrcPolicy \<and> oe_phase e = OnPhase (Core Reconcile) \<and>
                  (oe_policyCause e = Some ReconcileNoProgress \<or>
                   oe_policyCause e = None \<and> oe_round e = None))
       (all_raised acc)"

text \<open>Refs of every finding dismissed by a human.\<close>

definition dismissed_ids :: "build_acc \<Rightarrow> string list" where
  "dismissed_ids acc =
     set_of_list (concat (map (\<lambda>a. case oe_refs (an_open a) of None \<Rightarrow> [] | Some refs \<Rightarrow> refs)
       (filter (\<lambda>a. an_resolution a = DismissFinding) (ba_answered acc))))"

section \<open>Feedback\<close>

datatype destination = ToPlan | ToCode | ToVerifier string | ToOther

definition guidanceDestination :: "open_escalation \<Rightarrow> destination" where
  "guidanceDestination e =
     (case oe_phase e of
        OnSetup \<Rightarrow> ToOther
      | OnPhase p \<Rightarrow>
          if oe_deferral e \<and> (p = Core PlanReview \<or> p = Core CodeReview) then ToOther
          else if p = Core Plan \<or> p = Core PlanReview then ToPlan
          else if p = Core Implement \<or> p = Core CodeReview then ToCode
          else (case p of
                  Verify s \<Rightarrow> if oe_source e = SrcAgent \<or> oe_deferral e then ToVerifier s else ToCode
                | Core _ \<Rightarrow> ToOther))"

text \<open>The newest guidance answer for a destination; the first one wins a tie.\<close>

definition latest_guidance :: "build_acc \<Rightarrow> destination \<Rightarrow> answered_escalation option" where
  "latest_guidance acc dest =
     (case filter (\<lambda>a. an_resolution a = Guidance \<and> guidanceDestination (an_open a) = dest)
             (ba_answered acc) of
        [] \<Rightarrow> None
      | a # rest \<Rightarrow> Some (first_max an_answeredSeq a rest))"

definition guidance_delivered :: "log_index \<Rightarrow> answered_escalation \<Rightarrow> bool" where
  "guidance_delivered log a =
     list_ex (\<lambda>d. gd_escalation d = oe_id (an_open a) \<and> gd_seq d > an_answeredSeq a)
       (lx_guidanceDeliveries log)"

definition guidanceFeedback :: "build_acc \<Rightarrow> log_index \<Rightarrow> destination \<Rightarrow> feedback option" where
  "guidanceFeedback acc log dest =
     (case latest_guidance acc dest of
        None \<Rightarrow> None
      | Some a \<Rightarrow> if guidance_delivered log a then None
                  else Some (FbGuidance (oe_id (an_open a)) (an_answer a)))"

definition findingsFeedback :: "loop_index \<Rightarrow> feedback option" where
  "findingsFeedback l =
     map_option (\<lambda>v. FbFindings (map f_id (vd_findings v))) (lo_latestRevise l)"

section \<open>One review loop\<close>

definition liveChains :: "finding_chain list \<Rightarrow> finding list list \<Rightarrow> nat \<Rightarrow> finding_chain list" where
  "liveChains cs findingsByRound round =
     (let current = (if 1 \<le> round \<and> round \<le> length findingsByRound
                     then map f_id (findingsByRound ! (round - 1)) else [])
      in filter (\<lambda>c. list_ex (\<lambda>i. i \<in> set current) (fc_ids c)) cs)"

definition review_rounds :: "loop_index \<Rightarrow> nat" where
  "review_rounds l = length (filter (\<lambda>(r, rec). ro_verdict rec \<noteq> None) (lo_rounds l))"

definition stall_raise :: "core_phase \<Rightarrow> nat \<Rightarrow> finding_chain \<Rightarrow> decision" where
  "stall_raise reviewer round chain = RaiseEscalation
     \<lparr>rse_source = SrcStall, rse_policyCause = None, rse_phase = Core reviewer, rse_round = Some round,
      rse_question = stall_reason chain, rse_findings = Some (fc_ids chain)\<rparr>"

definition ceiling_raise :: "core_phase \<Rightarrow> nat \<Rightarrow> nat \<Rightarrow> decision" where
  "ceiling_raise reviewer round limit = RaiseEscalation
     \<lparr>rse_source = SrcPolicy, rse_policyCause = Some ReviewRoundLimit, rse_phase = Core reviewer,
      rse_round = Some round,
      rse_question = ''maxReviewRounds ('' @ nat_text limit @ '') exhausted without approval'',
      rse_findings = None\<rparr>"

definition agent_raise :: "core_phase \<Rightarrow> verdict_record \<Rightarrow> decision" where
  "agent_raise reviewer v = RaiseEscalation
     \<lparr>rse_source = SrcAgent, rse_policyCause = None, rse_phase = Core reviewer,
      rse_round = Some (vd_round v),
      rse_question = (case vd_reason v of Some r \<Rightarrow> r | None \<Rightarrow> ''reviewer escalated''),
      rse_findings = None\<rparr>"

record loop_args =
  ag_loop :: loop_index
  ag_producer :: core_phase
  ag_reviewer :: core_phase
  ag_policy :: policy
  ag_ceiling :: "nat option"
  ag_dismissed :: "string list"
  ag_raisedAfter :: "nat \<Rightarrow> escalation_source \<Rightarrow> escalation_target \<Rightarrow> bool"
  ag_feedback :: "feedback option"

text \<open>The routing of a revise verdict: stall, then ceiling, then the next producer round.\<close>

definition decide_revise :: "loop_args \<Rightarrow> verdict_record \<Rightarrow> decision" where
  "decide_revise ag v =
     (let l = ag_loop ag;
          raised = (\<lambda>s. ag_raisedAfter ag (vd_seq v) s (OnPhase (Core (ag_reviewer ag))));
          stalled = liveChains (stalledChains (lo_findingsByRound l) (po_stallRounds (ag_policy ag))
                      (Some (ag_dismissed ag))) (lo_findingsByRound l) (vd_round v);
          limit = (case ag_ceiling ag of Some n \<Rightarrow> n | None \<Rightarrow> po_maxReviewRounds (ag_policy ag))
      in case (if raised SrcStall then None else deepest stalled) of
           Some chain \<Rightarrow> stall_raise (ag_reviewer ag) (vd_round v) chain
         | None \<Rightarrow>
             if review_rounds l \<ge> limit \<and> \<not> raised SrcPolicy
             then ceiling_raise (ag_reviewer ag) (vd_round v) limit
             else run_core (ag_producer ag) (lo_maxRound l + 1) (ag_feedback ag))"

text \<open>\<open>None\<close> is \<^verbatim>\<open>'approved'\<close>.\<close>

definition decideLoop :: "loop_args \<Rightarrow> decision option" where
  "decideLoop ag =
     (let l = ag_loop ag; produce = (\<lambda>r. run_core (ag_producer ag) r (ag_feedback ag)) in
      if lo_maxRound l = 0 then Some (produce (lo_maxRoundEver l + 1))
      else
        let round = map_of (lo_rounds l) (lo_maxRound l) in
        case Option.bind round ro_verdict of
          None \<Rightarrow>
            if Option.bind round ro_completedSeq \<noteq> None
            then Some (run_core (ag_reviewer ag) (lo_maxRound l) None)
            else Some (produce (lo_maxRound l))
        | Some v \<Rightarrow>
            (case vd_verdict v of
               Approve \<Rightarrow> None
             | Escalate \<Rightarrow>
                 if \<not> ag_raisedAfter ag (vd_seq v) SrcAgent (OnPhase (Core (ag_reviewer ag)))
                 then Some (agent_raise (ag_reviewer ag) v)
                 else Some (produce (lo_maxRound l + 1))
             | Revise \<Rightarrow> Some (decide_revise ag v)))"

end
