(* ===== verification/PlanSelection.thy ===== *)
theory PlanSelection
  imports Config "HOL-Library.List_Lexorder" "HOL-Library.Char_ord" "HOL-Library.Sublist"
begin

text \<open>
  \<^verbatim>\<open>packages/core/src/kernel/plan-verify-selection.ts\<close>: the TOML front matter of a deposited plan, the
  strict resolution of the verify steps it names, and the lenient one the engine repeats at run time.
  The TOML parser is third-party code and a parameter: it maps the text between the fences to a
  document or to its error message. White space is that of ASCII.
\<close>

section \<open>Front matter\<close>

datatype toml_value = TomlString string | TomlArray "toml_value list" | TomlOther

type_synonym toml_document = "(string, toml_value) jsmap"

datatype plan_error =
    MalformedOpening | MissingClosing | InvalidToml string | InvalidMetadata
  | DuplicateStep string | UnknownStep string | OmitsMandatory string

abbreviation newline :: char where "newline \<equiv> CHR 0x0A"

text \<open>\<^verbatim>\<open>line.replace(/\r$/, '')\<close>\<close>

definition strip_cr :: "string \<Rightarrow> string" where
  "strip_cr l = (if l \<noteq> [] \<and> last l = CHR 0x0D then butlast l else l)"

definition first_line :: "string \<Rightarrow> string" where
  "first_line s = takeWhile (\<lambda>c. c \<noteq> newline) s"

text \<open>The text before the first line that is a closing fence.\<close>

function fenced :: "string \<Rightarrow> string option" where
  "fenced s =
     (if strip_cr (first_line s) = ''+++'' then Some []
      else case drop (length (first_line s)) s of
             [] \<Rightarrow> None
           | c # rest \<Rightarrow> map_option (\<lambda>m. first_line s @ newline # m) (fenced rest))"
  by pat_completeness auto
termination
proof (relation "measure length")
  fix s :: string and c rest
  assume "drop (length (first_line s)) s = c # rest"
  then have "length (c # rest) \<le> length s" by (metis diff_le_self length_drop)
  then show "(rest, s) \<in> measure length" by simp
qed simp

declare fenced.simps [simp del]

text \<open>\<^verbatim>\<open>planMetadataSchema\<close>: exactly the key \<^verbatim>\<open>verifySteps\<close>, an array of unpadded nonempty strings.\<close>

definition blank_char :: "char \<Rightarrow> bool" where
  "blank_char c \<longleftrightarrow> c = CHR 0x20 \<or> (9 \<le> (of_char c :: nat) \<and> (of_char c :: nat) \<le> 13)"

definition step_name_ok :: "string \<Rightarrow> bool" where
  "step_name_ok s \<longleftrightarrow> s \<noteq> [] \<and> \<not> blank_char (hd s) \<and> \<not> blank_char (last s)"

fun step_of :: "toml_value \<Rightarrow> string option" where
  "step_of (TomlString s) = (if step_name_ok s then Some s else None)"
| "step_of _ = None"

fun steps_of :: "toml_value list \<Rightarrow> string list option" where
  "steps_of [] = Some []"
| "steps_of (v # vs) =
     (case step_of v of None \<Rightarrow> None | Some s \<Rightarrow> map_option ((#) s) (steps_of vs))"

fun planMetadata :: "toml_document \<Rightarrow> string list option" where
  "planMetadata [(k, TomlArray vs)] = (if k = ''verifySteps'' then steps_of vs else None)"
| "planMetadata _ = None"

definition parsePlanMetadata ::
  "(string \<Rightarrow> string + toml_document) \<Rightarrow> string \<Rightarrow> plan_error + string list option" where
  "parsePlanMetadata parseToml plan =
     (if take 3 plan \<noteq> ''+++'' then Inr None
      else if strip_cr (first_line plan) \<noteq> ''+++'' then Inl MalformedOpening
      else case drop (length (first_line plan)) plan of
             [] \<Rightarrow> Inl MissingClosing
           | _ # rest \<Rightarrow>
               (case fenced rest of
                  None \<Rightarrow> Inl MissingClosing
                | Some metadata \<Rightarrow>
                    (case parseToml metadata of
                       Inl message \<Rightarrow> Inl (InvalidToml message)
                     | Inr document \<Rightarrow>
                         (case planMetadata document of
                            None \<Rightarrow> Inl InvalidMetadata
                          | Some steps \<Rightarrow> Inr (Some steps)))))"

section \<open>Selection\<close>

text \<open>\<^verbatim>\<open>JSON.stringify\<close> of a string.\<close>

definition hex_digit :: "nat \<Rightarrow> char" where
  "hex_digit n = ''0123456789abcdef'' ! n"

definition json_char :: "char \<Rightarrow> string" where
  "json_char c =
     (if c = CHR 0x22 then [CHR 0x5C, CHR 0x22]
      else if c = CHR 0x5C then [CHR 0x5C, CHR 0x5C]
      else if c = CHR 0x08 then [CHR 0x5C, CHR ''b'']
      else if c = CHR 0x09 then [CHR 0x5C, CHR ''t'']
      else if c = CHR 0x0A then [CHR 0x5C, CHR ''n'']
      else if c = CHR 0x0C then [CHR 0x5C, CHR ''f'']
      else if c = CHR 0x0D then [CHR 0x5C, CHR ''r'']
      else if of_char c < (32 :: nat)
      then [CHR 0x5C, CHR ''u'', CHR ''0'', CHR ''0'', hex_digit (of_char c div 16), hex_digit (of_char c mod 16)]
      else [c])"

definition json_text :: "string \<Rightarrow> string" where
  "json_text s = CHR 0x22 # concat (map json_char s) @ [CHR 0x22]"

text \<open>A step the configuration lists and has a table for.\<close>

definition known_step :: "config \<Rightarrow> string \<Rightarrow> bool" where
  "known_step cfg step \<longleftrightarrow>
     step \<in> set (vy_steps (cf_verify cfg)) \<and> jm_has (vy_stepConfigs (cf_verify cfg)) step"

text \<open>The checks of each requested step, in order: duplicates, then unknown names.\<close>

fun check_steps :: "config \<Rightarrow> string list \<Rightarrow> string list \<Rightarrow> plan_error option" where
  "check_steps cfg seen [] = None"
| "check_steps cfg seen (step # steps) =
     (if step \<in> set seen then Some (DuplicateStep step)
      else if \<not> known_step cfg step then Some (UnknownStep step)
      else check_steps cfg (step # seen) steps)"

definition mandatory :: "config \<Rightarrow> string \<Rightarrow> bool" where
  "mandatory cfg step =
     (case map_of (vy_stepConfigs (cf_verify cfg)) step of
        None \<Rightarrow> False | Some sc \<Rightarrow> sc_always sc = Some True)"

definition resolvePlanVerifySteps ::
  "(string \<Rightarrow> string + toml_document) \<Rightarrow> string \<Rightarrow> config \<Rightarrow> plan_error + string list" where
  "resolvePlanVerifySteps parseToml plan cfg =
     (case parsePlanMetadata parseToml plan of
        Inl x \<Rightarrow> Inl x
      | Inr None \<Rightarrow> Inr (vy_steps (cf_verify cfg))
      | Inr (Some requested) \<Rightarrow>
          (case check_steps cfg [] requested of
             Some x \<Rightarrow> Inl x
           | None \<Rightarrow>
               (case List.find (\<lambda>s. mandatory cfg s \<and> s \<notin> set requested) (vy_steps (cf_verify cfg)) of
                  Some s \<Rightarrow> Inl (OmitsMandatory s)
                | None \<Rightarrow> Inr (filter (\<lambda>s. s \<in> set requested) (vy_steps (cf_verify cfg))))))"

text \<open>\<^verbatim>\<open>resolveApprovedVerifySelection\<close>: the unknown steps, sorted, and the selected set.\<close>

definition unknown_steps :: "string list option \<Rightarrow> config \<Rightarrow> string list" where
  "unknown_steps steps cfg =
     sort (set_of_list (case steps of None \<Rightarrow> [] | Some ss \<Rightarrow> filter (\<lambda>s. \<not> known_step cfg s) ss))"

definition selected_set :: "string list option \<Rightarrow> config \<Rightarrow> string list option" where
  "selected_set steps cfg = (if unknown_steps steps cfg \<noteq> [] then None else steps)"

section \<open>What a deposit guarantees\<close>

lemma check_steps_None:
  "check_steps cfg seen steps = None \<longleftrightarrow>
     distinct steps \<and> set steps \<inter> set seen = {} \<and> (\<forall>s \<in> set steps. known_step cfg s)"
  by (induction cfg seen steps rule: check_steps.induct) auto

lemma check_steps_Some:
  "check_steps cfg seen steps = Some x \<Longrightarrow>
     (\<exists>s \<in> set steps. x = DuplicateStep s \<and> (s \<in> set seen \<or> \<not> distinct steps)) \<or>
     (\<exists>s \<in> set steps. x = UnknownStep s \<and> \<not> known_step cfg s)"
  by (induction cfg seen steps rule: check_steps.induct) (auto split: if_splits)

lemma unknown_none: "\<forall>s \<in> set ss. known_step cfg s \<Longrightarrow> unknown_steps (Some ss) cfg = []"
  by (simp add: unknown_steps_def filter_False set_of_list_def)

lemma resolved_steps:
  assumes "resolvePlanVerifySteps parseToml plan cfg = Inr ss"
    and complete: "\<forall>s \<in> set (vy_steps (cf_verify cfg)). jm_has (vy_stepConfigs (cf_verify cfg)) s"
  shows "subseq ss (vy_steps (cf_verify cfg)) \<and>
    (\<forall>s \<in> set (vy_steps (cf_verify cfg)). mandatory cfg s \<longrightarrow> s \<in> set ss) \<and>
    (\<forall>requested. parsePlanMetadata parseToml plan = Inr (Some requested) \<longrightarrow>
       distinct requested \<and> set ss = set requested) \<and>
    selected_set (Some ss) cfg = Some ss"
proof -
  have sel: "selected_set (Some ss) cfg = Some ss" if "set ss \<subseteq> set (vy_steps (cf_verify cfg))"
  proof -
    have "\<forall>s \<in> set ss. known_step cfg s" using that complete by (auto simp: known_step_def)
    then show ?thesis by (simp add: selected_set_def unknown_none)
  qed
  show ?thesis
  proof (cases "parsePlanMetadata parseToml plan")
    case (Inr r)
    show ?thesis
    proof (cases r)
      case None
      then show ?thesis using assms(1) Inr sel by (auto simp: resolvePlanVerifySteps_def)
    next
      case (Some requested)
      with assms(1) Inr have ok: "check_steps cfg [] requested = None"
        and man: "List.find (\<lambda>s. mandatory cfg s \<and> s \<notin> set requested) (vy_steps (cf_verify cfg)) = None"
        and ss: "ss = filter (\<lambda>s. s \<in> set requested) (vy_steps (cf_verify cfg))"
        by (auto simp: resolvePlanVerifySteps_def split: option.splits)
      from ok have "distinct requested" "set requested \<subseteq> set (vy_steps (cf_verify cfg))"
        by (auto simp: check_steps_None known_step_def)
      then show ?thesis
        using man sel Inr Some by (auto simp: ss find_None_iff)
    qed
  qed (use assms(1) in \<open>simp add: resolvePlanVerifySteps_def\<close>)
qed

section \<open>Writing front matter\<close>

definition write_plan :: "string \<Rightarrow> string \<Rightarrow> string" where
  "write_plan metadata body = ''+++'' @ newline # metadata @ ''+++'' @ newline # body"

text \<open>A list of lines without line breaks, none of which reads as a fence.\<close>

definition plain_line :: "string \<Rightarrow> bool" where
  "plain_line l \<longleftrightarrow> newline \<notin> set l \<and> strip_cr l \<noteq> ''+++''"

definition unlines :: "string list \<Rightarrow> string" where
  "unlines ls = concat (map (\<lambda>l. l @ [newline]) ls)"

lemma first_line_append [simp]: "newline \<notin> set l \<Longrightarrow> first_line (l @ newline # rest) = l"
  unfolding first_line_def by (subst takeWhile_append2) auto

lemma fenced_lines:
  "\<forall>l \<in> set ls. plain_line l \<Longrightarrow> fenced (unlines ls @ ''+++'' @ newline # body) = Some (unlines ls)"
proof (induction ls)
  case Nil
  have "first_line (''+++'' @ newline # body) = ''+++''" by (rule first_line_append) simp
  then show ?case by (simp add: unlines_def fenced.simps [of "CHR ''+'' # _"] strip_cr_def)
next
  case (Cons l ls)
  let ?rest = "unlines ls @ ''+++'' @ newline # body"
  have l: "newline \<notin> set l" "strip_cr l \<noteq> ''+++''" using Cons.prems by (simp_all add: plain_line_def)
  have "unlines (l # ls) @ ''+++'' @ newline # body = l @ newline # ?rest" by (simp add: unlines_def)
  moreover have "fenced ?rest = Some (unlines ls)" using Cons by simp
  ultimately show ?case
    using l by (simp add: fenced.simps [of "l @ _"] unlines_def)
qed

lemma parse_write_plan:
  assumes "\<forall>l \<in> set ls. plain_line l"
  shows "parsePlanMetadata parseToml (write_plan (unlines ls) body) =
    (case parseToml (unlines ls) of
       Inl m \<Rightarrow> Inl (InvalidToml m)
     | Inr doc \<Rightarrow> (case planMetadata doc of None \<Rightarrow> Inl InvalidMetadata | Some steps \<Rightarrow> Inr (Some steps)))"
proof -
  have line: "first_line (write_plan (unlines ls) body) = ''+++''"
    unfolding write_plan_def by (rule first_line_append) simp
  have "drop (length (first_line (write_plan (unlines ls) body))) (write_plan (unlines ls) body) =
      newline # unlines ls @ ''+++'' @ newline # body"
    unfolding line by (simp add: write_plan_def)
  moreover have "take 3 (write_plan (unlines ls) body) = ''+++''" by (simp add: write_plan_def)
  ultimately show ?thesis
    using fenced_lines [OF assms, of body] line
    by (simp add: parsePlanMetadata_def strip_cr_def)
qed

section \<open>Properties\<close>

abbreviation one_step :: "bool \<Rightarrow> verify_step_config" where
  "one_step a \<equiv> \<lparr>sc_kind = CheckStep ''c'', sc_failFast = None, sc_afterReconcile = None, sc_paths = None,
     sc_always = Some a\<rparr>"

abbreviation two_step_config :: config where
  "two_step_config \<equiv> \<lparr>cf_policy = \<lparr>po_stallRounds = 3, po_maxVerifyAttempts = 2,
       po_maxReconcileAttempts = 2, po_maxReviewRounds = 5\<rparr>,
     cf_verify = verify_section [Single ''lint'', Single ''test'']
       [(''lint'', one_step True), (''test'', one_step False)] False,
     cf_finalize = \<lparr>fz_steps = [], fz_stepConfigs = []\<rparr>, cf_commands = []\<rparr>"

abbreviation sample_toml :: "string \<Rightarrow> string + toml_document" where
  "sample_toml text \<equiv> Inr [(''verifySteps'', TomlArray [TomlString ''lint''])]"

text \<open>an accepted deposit is a sound selection. The steps a plan resolves to keep the configured
  order, contain every mandatory step, are exactly the steps the plan names when it names any, and
  cause no drift later: the run-time resolution of the recorded steps against the same configuration
  selects them.\<close>

lemma accepted_selection_is_sound:
  assumes "resolvePlanVerifySteps parseToml plan cfg = Inr ss"
    and "\<forall>s \<in> set (vy_steps (cf_verify cfg)). jm_has (vy_stepConfigs (cf_verify cfg)) s"
  shows "subseq ss (vy_steps (cf_verify cfg)) \<and>
    (\<forall>s \<in> set (vy_steps (cf_verify cfg)). mandatory cfg s \<longrightarrow> s \<in> set ss) \<and>
    (\<forall>requested. parsePlanMetadata parseToml plan = Inr (Some requested) \<longrightarrow>
       distinct requested \<and> set ss = set requested) \<and>
    selected_set (Some ss) cfg = Some ss"
  by (rule resolved_steps [OF assms])

lemma accepted_selection_is_sound_witness:
  "resolvePlanVerifySteps sample_toml (write_plan [] ''# plan'') two_step_config = Inr [''lint''] \<and>
   selected_set (Some [''lint'']) two_step_config = Some [''lint'']"
proof -
  have "resolvePlanVerifySteps sample_toml (write_plan [] ''# plan'') two_step_config = Inr [''lint'']"
    by code_simp
  moreover have "\<forall>s \<in> set (vy_steps (cf_verify two_step_config)).
      jm_has (vy_stepConfigs (cf_verify two_step_config)) s"
    by code_simp
  ultimately show ?thesis using accepted_selection_is_sound by blast
qed

text \<open>front matter round-trips. A document of lines without line breaks, none of them a fence, that
  is written between two fences before any body is handed to the TOML parser unchanged.\<close>

lemma front_matter_round_trip:
  assumes "\<forall>l \<in> set ls. plain_line l"
  shows "parsePlanMetadata parseToml (write_plan (unlines ls) body) =
    (case parseToml (unlines ls) of
       Inl m \<Rightarrow> Inl (InvalidToml m)
     | Inr doc \<Rightarrow> (case planMetadata doc of None \<Rightarrow> Inl InvalidMetadata | Some steps \<Rightarrow> Inr (Some steps)))"
  by (rule parse_write_plan [OF assms])

lemma front_matter_round_trip_witness:
  "parsePlanMetadata sample_toml (write_plan (unlines [''verifySteps = []'']) ''# plan'') = Inr (Some [''lint''])"
  by (subst front_matter_round_trip) (simp_all add: plain_line_def strip_cr_def step_name_ok_def blank_char_def)

end
