(* ===== verification/Engine.thy ===== *)
theory Engine
  imports EngineLoop PlanSelection
begin

text \<open>
  The transition table of \<^verbatim>\<open>packages/core/src/kernel/engine.ts\<close>, \<^verbatim>\<open>decideNext\<close>, as ordered rules: each
  early return of \<^verbatim>\<open>decideNextInternal\<close> is one definition, and the decision is the first rule that
  decides. Node builds and leaf builds share the first rules.
\<close>

section \<open>The active stage of the build\<close>

definition stage_cycle :: "build_acc \<Rightarrow> log_index \<Rightarrow> nat" where
  "stage_cycle acc log =
     (if ba_kind acc = Some Node
      then max (case cycle_of acc of None \<Rightarrow> 0 | Some (_, seq) \<Rightarrow> seq) (lx_verifyConfigBoundary log)
      else max (max (lo_latestApproveSeq (lx_code log)) (lx_lastReconcileCompletedSeq log))
             (max (lx_restartSeq log) (lx_verifyConfigBoundary log)))"

definition of_node_cycle :: "build_acc \<Rightarrow> verify_record \<Rightarrow> bool" where
  "of_node_cycle acc r \<longleftrightarrow>
     vr_restackId r = map_option (gp_id \<circ> fst) (cycle_of acc) \<and>
     vr_headSha r = map_option (gp_head \<circ> fst) (cycle_of acc) \<and>
     vr_baseSha r = map_option (gp_parent \<circ> fst) (cycle_of acc)"

definition build_stage :: "build_acc \<Rightarrow> log_index \<Rightarrow> config \<Rightarrow> active_stage option" where
  "build_stage acc log cfg =
     (if vy_stages (cf_verify cfg) = None then None
      else activeVerifyStage (cf_verify cfg)
             (if ba_kind acc = Some Node then filter (of_node_cycle acc) (lx_verifyCompleted log)
              else lx_verifyCompleted log)
             (ba_verifyStage acc) (stage_cycle acc log))"

text \<open>An open escalation raised by the session that runs \<open>step\<close> at the newest attempt.\<close>

definition owns_step :: "build_acc \<Rightarrow> open_escalation \<Rightarrow> string \<Rightarrow> bool" where
  "owns_step acc e step \<longleftrightarrow>
     oe_source e = SrcAgent \<and>
     (case oe_session e of
        None \<Rightarrow> False
      | Some s \<Rightarrow> map_of (vss_owners (ba_verifyStage acc)) s =
                  Some (verifyMemberKey step (vg_maxAttemptSeen (ba_verify acc))))"

definition heldVerifier :: "build_acc \<Rightarrow> string \<Rightarrow> bool" where
  "heldVerifier acc step = list_ex (\<lambda>(_, e). owns_step acc e step) (ba_openEscalations acc)"

definition held_by_stage :: "build_acc \<Rightarrow> active_stage option \<Rightarrow> open_escalation \<Rightarrow> bool" where
  "held_by_stage acc stage e =
     (case stage of None \<Rightarrow> False | Some s \<Rightarrow> list_ex (owns_step acc e) (as_stage s))"

section \<open>The shared rules\<close>

definition command_pending :: "build_state \<Rightarrow> command \<Rightarrow> bool" where
  "command_pending st c = list_ex (\<lambda>p. pd_command p = c) (bs_pendingCommands st)"

definition operator_rules :: "build_state \<Rightarrow> decision option list" where
  "operator_rules st =
     [rule_if (mixedVersionDeferred (ba_compatibility (bs_acc st))) (Wait WMixedVersion),
      rule_if (bs_status st = StAborted) (Wait WAborted),
      rule_if (bs_status st = StDone) (Wait WDone),
      rule_if (command_pending st AbortCommand) (Acknowledge AbortCommand),
      rule_if (bs_status st = StPaused \<and> command_pending st Resume) (Acknowledge Resume),
      rule_if (bs_status st = StPaused) (Wait WPaused),
      rule_if (command_pending st Pause) (Acknowledge Pause)]"

definition cancels_stage :: "active_stage option \<Rightarrow> bool" where
  "cancels_stage stage =
     (case stage of None \<Rightarrow> False | Some s \<Rightarrow> as_cause s \<noteq> None \<and> as_unfinished s \<noteq> [])"

definition cleanup_pending :: "build_acc \<Rightarrow> bool" where
  "cleanup_pending acc =
     (case vss_cleanupExecutionSeq (ba_verifyStage acc) of
        None \<Rightarrow> False | Some n \<Rightarrow> vss_executionSeq (ba_verifyStage acc) \<le> n)"

definition blocking_rules :: "build_acc \<Rightarrow> log_index \<Rightarrow> active_stage option \<Rightarrow> decision option list" where
  "blocking_rules acc log stage =
     [rule_if (ba_targetRewrite acc \<noteq> None \<and> lrs_active (lx_restack log) = None \<and>
               Option.bind (ba_nodeRestack acc) nrs_active = None) (Wait WTargetRewritten),
      rule_if (list_ex (\<lambda>(_, e). \<not> held_by_stage acc stage e) (ba_openEscalations acc)) (Wait WBlocked),
      rule_if (cleanup_pending acc \<and> \<not> cancels_stage stage) RestartExecution,
      map_option RaiseReadDeferral (List.find dr_ended (lx_readDeferrals log))]"

section \<open>Node builds\<close>

datatype engine_error = Irreducible build_error | MissingStepConfig string

definition current_reconcile :: "build_acc \<Rightarrow> phase_context option" where
  "current_reconcile acc =
     (case ba_currentPhase acc of
        None \<Rightarrow> None | Some c \<Rightarrow> if pt_phase c = Core Reconcile then Some c else None)"

definition resumed_attempt :: "build_acc \<Rightarrow> phase_context \<Rightarrow> nat" where
  "resumed_attempt acc c = (case pt_attempt c of Some n \<Rightarrow> n | None \<Rightarrow> ba_reconcileAttempts acc)"

definition conflict_attempt :: "build_acc \<Rightarrow> nat" where
  "conflict_attempt acc =
     (case current_reconcile acc of
        Some c \<Rightarrow> resumed_attempt acc c | None \<Rightarrow> ba_reconcileAttempts acc + 1)"

text \<open>\<^verbatim>\<open>attempts.length ? Math.max(...attempts) : maxVerifyAttemptEver + 1\<close>\<close>

definition cycle_attempt :: "log_index \<Rightarrow> nat list \<Rightarrow> nat" where
  "cycle_attempt log attempts =
     (if attempts = [] then lx_maxVerifyAttemptEver log + 1 else max_from 0 attempts)"

definition verifier_action :: "config \<Rightarrow> string \<Rightarrow> step_kind \<Rightarrow> nat \<Rightarrow> feedback option \<Rightarrow> verify_action" where
  "verifier_action cfg step k attempt fb =
     (case k of
        CheckStep c \<Rightarrow> RunCheck step (case map_of (cf_commands cfg) c of Some cmd \<Rightarrow> cmd | None \<Rightarrow> c) attempt
      | AgentStep skill \<Rightarrow> RunAgentVerify step skill attempt fb)"

definition gated_member :: "verify_step_config \<Rightarrow> string \<Rightarrow> nat \<Rightarrow> verify_action \<Rightarrow> member_decision" where
  "gated_member sc step attempt action =
     (case sc_paths sc of
        Some paths \<Rightarrow> if sc_always sc = Some True then MemberAction action
                      else MemberEvaluate step attempt paths action
      | None \<Rightarrow> MemberAction action)"

definition stage_receipt ::
  "active_stage \<Rightarrow> nat \<Rightarrow> nat \<Rightarrow> sha option \<Rightarrow> sha option \<Rightarrow> string option \<Rightarrow> stage_failed" where
  "stage_receipt s cycle attempt base head restack =
     \<lparr>sg_attempt = attempt, sg_cycle = cycle, sg_stage = as_stage s, sg_baseSha = base, sg_headSha = head,
      sg_restackId = restack, sg_failed = map (\<lambda>f. (vr_step f, vr_report f)) (as_failures s),
      sg_cancelled = map (\<lambda>(c, _). (vc_step c, vc_cause c)) (as_cancellations s)\<rparr>"

definition node_results :: "log_index \<Rightarrow> integration_prepared \<Rightarrow> nat \<Rightarrow> verify_record list" where
  "node_results log c seq =
     filter (\<lambda>r. vr_seq r > max seq (lx_verifyConfigBoundary log) \<and> vr_restackId r = Some (gp_id c) \<and>
                 vr_headSha r = Some (gp_head c) \<and> vr_baseSha r = Some (gp_parent c))
       (lx_verifyCompleted log)"

definition node_attempt :: "log_index \<Rightarrow> integration_prepared \<Rightarrow> nat \<Rightarrow> nat" where
  "node_attempt log c seq =
     cycle_attempt log
       (map vr_attempt (node_results log c seq) @
        map vt_attempt (filter (\<lambda>s. vt_seq s > max seq (lx_verifyConfigBoundary log) \<and>
                                    vt_restackId s = Some (gp_id c)) (lx_verifyStarted log)))"

definition node_member :: "config \<Rightarrow> string \<Rightarrow> nat \<Rightarrow> engine_error + member_decision" where
  "node_member cfg step attempt =
     (case map_of (vy_stepConfigs (cf_verify cfg)) step of
        None \<Rightarrow> Inl (MissingStepConfig step)
      | Some sc \<Rightarrow> Inr (gated_member sc step attempt (verifier_action cfg step (sc_kind sc) attempt None)))"

text \<open>The loop over the steps: without stages it stops at the first member, with stages it collects.\<close>

fun node_members :: "config \<Rightarrow> nat \<Rightarrow> string list \<Rightarrow> engine_error + member_decision list" where
  "node_members cfg attempt [] = Inr []"
| "node_members cfg attempt (step # steps) =
     bind_result (node_member cfg step attempt) (\<lambda>m. map_result ((#) m) (node_members cfg attempt steps))"

definition node_pending :: "build_acc \<Rightarrow> verify_record list \<Rightarrow> active_stage option \<Rightarrow> string list \<Rightarrow> string list" where
  "node_pending acc results stage steps =
     filter (\<lambda>step. \<not> (stage \<noteq> None \<and> heldVerifier acc step) \<and>
                    \<not> list_ex (\<lambda>r. vr_step r = step \<and> satisfied r) results) steps"

definition node_verify ::
  "build_acc \<Rightarrow> log_index \<Rightarrow> config \<Rightarrow> active_stage option \<Rightarrow> integration_prepared \<Rightarrow> nat \<Rightarrow> engine_error + decision" where
  "node_verify acc log cfg stage c seq =
     (let attempt = node_attempt log c seq;
          pending = node_pending acc (node_results log c seq) stage
                      (case stage of Some s \<Rightarrow> as_unfinished s | None \<Rightarrow> vy_steps (cf_verify cfg))
      in case stage of
           None \<Rightarrow> (case pending of
                      [] \<Rightarrow> Inr (Wait WAwaitingPr)
                    | step # _ \<Rightarrow> map_result RunMember (node_member cfg step attempt))
         | Some _ \<Rightarrow> map_result (\<lambda>ms. if ms = [] then Wait WVerifyStage else RunVerifyStage ms)
                       (node_members cfg attempt pending))"

definition failed_stage :: "active_stage option \<Rightarrow> bool" where
  "failed_stage stage = (case stage of None \<Rightarrow> False | Some s \<Rightarrow> as_settled s \<and> as_failures s \<noteq> [])"

definition node_stage_rules ::
  "build_acc \<Rightarrow> log_index \<Rightarrow> active_stage option \<Rightarrow> integration_prepared \<Rightarrow> nat \<Rightarrow> decision option list" where
  "node_stage_rules acc log stage c seq =
     (let attempt = node_attempt log c seq in
      [case stage of
         Some s \<Rightarrow> (case as_cause s of
                      Some r \<Rightarrow> rule_if (as_unfinished s \<noteq> [])
                                  (CancelVerifyStage (as_unfinished s) (vr_step r) attempt)
                    | None \<Rightarrow> None)
       | None \<Rightarrow> None,
       case stage of
         Some s \<Rightarrow> rule_if (failed_stage stage \<and>
                      \<not> list_ex (\<lambda>(f, _). sg_cycle f = seq \<and> sg_attempt f = attempt)
                          (vss_failures (ba_verifyStage acc)))
                    (RecordStageFailure (stage_receipt s seq attempt (Some (gp_parent c)) (Some (gp_head c))
                       (Some (gp_id c))))
       | None \<Rightarrow> None,
       rule_if (failed_stage stage) (Wait WBlocked)])"

definition decide_node ::
  "build_acc \<Rightarrow> log_index \<Rightarrow> config \<Rightarrow> active_stage option \<Rightarrow> engine_error + decision" where
  "decide_node acc log cfg stage =
     (if Option.bind (ba_nodeRestack acc) nrs_conflict \<noteq> None
      then Inr (run_reconcile (conflict_attempt acc))
      else case cycle_of acc of
        None \<Rightarrow> Inr (Wait WAwaitingPr)
      | Some (c, seq) \<Rightarrow>
          if \<not> integrationCurrent acc \<or> gp_config c \<noteq> integrationConfig cfg then Inr (Wait WAwaitingPr)
          else if integrationFailed acc then Inr (Wait WBlocked)
          else (case List.find (\<lambda>r. r \<noteq> None) (node_stage_rules acc log stage c seq) of
                  Some (Some d) \<Rightarrow> Inr d
                | _ \<Rightarrow> node_verify acc log cfg stage c seq))"

section \<open>Leaf builds: boundaries and feedback\<close>

definition replay_boundary :: "log_index \<Rightarrow> nat" where
  "replay_boundary log = max (lo_latestApproveSeq (lx_code log)) (lx_lastReconcileCompletedSeq log)"

definition cycle_boundary :: "log_index \<Rightarrow> nat" where
  "cycle_boundary log = max (replay_boundary log) (lx_verifyConfigBoundary log)"

definition cycle_results :: "log_index \<Rightarrow> verify_record list" where
  "cycle_results log = filter (\<lambda>v. vr_seq v > cycle_boundary log) (lx_verifyCompleted log)"

definition pending_fail :: "log_index \<Rightarrow> verify_record option" where
  "pending_fail log =
     (case find_last (\<lambda>v. vr_outcome v = Fail) (cycle_results log) of
        None \<Rightarrow> None
      | Some v \<Rightarrow> if vr_seq v > lx_lastImplementCompletedSeq log then Some v else None)"

definition verifyFeedback :: "log_index \<Rightarrow> feedback option" where
  "verifyFeedback log =
     (case pending_fail log of
        None \<Rightarrow> None | Some v \<Rightarrow> map_option (FbVerify (vr_step v)) (vr_report v))"

definition plan_args :: "build_acc \<Rightarrow> log_index \<Rightarrow> config \<Rightarrow> loop_args" where
  "plan_args acc log cfg =
     \<lparr>ag_loop = lx_plan log, ag_producer = Plan, ag_reviewer = PlanReview, ag_policy = cf_policy cfg,
      ag_ceiling = ba_planCeiling acc, ag_dismissed = dismissed_ids acc, ag_raisedAfter = raised_after acc,
      ag_feedback = or_else (guidanceFeedback acc log ToPlan) (findingsFeedback (lx_plan log))\<rparr>"

definition code_args :: "build_acc \<Rightarrow> log_index \<Rightarrow> config \<Rightarrow> loop_args" where
  "code_args acc log cfg =
     \<lparr>ag_loop = lx_code log, ag_producer = Implement, ag_reviewer = CodeReview, ag_policy = cf_policy cfg,
      ag_ceiling = ba_codeCeiling acc, ag_dismissed = dismissed_ids acc, ag_raisedAfter = raised_after acc,
      ag_feedback = or_else (guidanceFeedback acc log ToCode)
                      (or_else (verifyFeedback log) (findingsFeedback (lx_code log)))\<rparr>"

section \<open>Leaf builds: the spec and the loops\<close>

definition loop_rules :: "build_acc \<Rightarrow> log_index \<Rightarrow> config \<Rightarrow> decision option list" where
  "loop_rules acc log cfg =
     [rule_if (list_ex (\<lambda>a. an_resolution a = ReviseSpec \<and> an_answeredSeq a > lx_restartSeq log) (ba_answered acc))
        (Wait WAwaitingSpec),
      rule_if (ba_specRev acc = None) (Wait WAwaitingSpec),
      (case current_reconcile acc of
         Some c \<Rightarrow> rule_if (pt_seq c < lx_restartSeq log) (run_reconcile (resumed_attempt acc c))
       | None \<Rightarrow> None),
      decideLoop (plan_args acc log cfg),
      decideLoop (code_args acc log cfg)]"

section \<open>Leaf builds: verify\<close>

definition settled_stage :: "active_stage option \<Rightarrow> bool" where
  "settled_stage stage = (case stage of None \<Rightarrow> True | Some s \<Rightarrow> as_settled s)"

definition all_fails :: "log_index \<Rightarrow> verify_record list" where
  "all_fails log = filter (\<lambda>v. vr_outcome v = Fail) (lx_verifyCompleted log)"

definition budget_raise :: "config \<Rightarrow> verify_record \<Rightarrow> verify_record list \<Rightarrow> decision" where
  "budget_raise cfg lastFail fails = RaiseEscalation
     \<lparr>rse_source = SrcPolicy, rse_policyCause = Some VerifyFailureLimit,
      rse_phase = Verify (vr_step lastFail), rse_round = None,
      rse_question = verifyBudgetExhaustedQuestion (po_maxVerifyAttempts (cf_policy cfg)) fails,
      rse_findings = None\<rparr>"

definition budget_rule :: "build_acc \<Rightarrow> log_index \<Rightarrow> config \<Rightarrow> active_stage option \<Rightarrow> decision option" where
  "budget_rule acc log cfg stage =
     (case last_opt (all_fails log) of
        None \<Rightarrow> None
      | Some lastFail \<Rightarrow>
          rule_if (settled_stage stage \<and>
                   length (set_of_list (map vr_attempt (all_fails log))) \<ge> po_maxVerifyAttempts (cf_policy cfg) \<and>
                   \<not> raised_after acc (vr_seq lastFail) SrcPolicy (OnPhase (Verify (vr_step lastFail))))
            (budget_raise cfg lastFail (all_fails log)))"

definition leaf_stage_rules :: "build_acc \<Rightarrow> log_index \<Rightarrow> active_stage option \<Rightarrow> decision option list" where
  "leaf_stage_rules acc log stage =
     [case stage of
        Some s \<Rightarrow> (case as_cause s of
                     Some r \<Rightarrow> rule_if (as_unfinished s \<noteq> [])
                                 (CancelVerifyStage (as_unfinished s) (vr_step r) (vr_attempt r))
                   | None \<Rightarrow> None)
      | None \<Rightarrow> None,
      case stage of
        Some s \<Rightarrow> (case as_failures s of
                     [] \<Rightarrow> None
                   | f # _ \<Rightarrow>
                       rule_if (as_settled s \<and>
                                \<not> list_ex (\<lambda>(g, _). sg_cycle g = cycle_boundary log \<and> sg_attempt g = vr_attempt f)
                                    (vss_failures (ba_verifyStage acc)))
                         (RecordStageFailure (stage_receipt s (cycle_boundary log) (vr_attempt f)
                            (vr_baseSha f) (vr_headSha f) (vr_restackId f))))
      | None \<Rightarrow> None]"

definition reroute_rule :: "build_acc \<Rightarrow> log_index \<Rightarrow> active_stage option \<Rightarrow> decision option" where
  "reroute_rule acc log stage =
     rule_if (pending_fail log \<noteq> None \<and> settled_stage stage)
       (run_core Implement (lo_maxRound (lx_code log) + 1)
          (or_else (guidanceFeedback acc log ToCode) (verifyFeedback log)))"

definition trigger_of :: "leaf_restack \<Rightarrow> restack_trigger" where
  "trigger_of p = (if lr_verifyEntry p then VerifyEntry else AwaitingLanding)"

definition frozen_restack :: "build_acc \<Rightarrow> leaf_restack_state \<Rightarrow> decision option" where
  "frozen_restack acc rs =
     (case lrs_active rs of
        None \<Rightarrow> None
      | Some p \<Rightarrow>
          Some (if (case lrs_replay rs of Some y \<Rightarrow> ry_conflicted y | None \<Rightarrow> False)
                then run_reconcile (case lrs_reconcileAttempt rs of Some n \<Rightarrow> n
                                    | None \<Rightarrow> ba_reconcileAttempts acc + 1)
                else Restack (trigger_of p) (lr_cycle p)))"

definition entry_restack :: "log_index \<Rightarrow> decision option" where
  "entry_restack log =
     (let b = replay_boundary log; rs = lx_restack log in
      rule_if (map_of (lrs_gates rs) b = None \<and>
               (case lrs_finalizedAt rs of None \<Rightarrow> 0 | Some n \<Rightarrow> n) < b \<and>
               \<not> list_ex (\<lambda>v. vt_seq v > b) (lx_verifyStarted log) \<and>
               \<not> list_ex (\<lambda>v. vr_seq v > b) (lx_verifyCompleted log))
        (Restack VerifyEntry b))"

definition cycle_attempts :: "log_index \<Rightarrow> nat list" where
  "cycle_attempts log =
     map vr_attempt (cycle_results log) @
     map vt_attempt (filter (\<lambda>v. vt_seq v > cycle_boundary log) (lx_verifyStarted log))"

definition leaf_attempt :: "log_index \<Rightarrow> nat" where
  "leaf_attempt log = cycle_attempt log (cycle_attempts log)"

text \<open>A reconcile cycle that is not an initial verification follows the captured policy.\<close>

definition policy_cycle :: "log_index \<Rightarrow> bool" where
  "policy_cycle log \<longleftrightarrow>
     lx_lastReconcileCompletedSeq log > max (lo_latestApproveSeq (lx_code log)) (lx_restartSeq log) \<and>
     lrs_initialVerification (lx_restack log) \<noteq> Some True"

definition active_policy :: "log_index \<Rightarrow> reconcile_policy option" where
  "active_policy log =
     (case lx_reconcilePolicy log of
        None \<Rightarrow> None
      | Some p \<Rightarrow>
          if policy_cycle log \<and> rp_reconcileSeq p = lx_lastReconcileCompletedSeq log \<and>
             (rp_cycle p = Some (cycle_boundary log) \<or>
              lx_verifyConfigBoundary log = 0 \<and> rp_cycle p = None)
          then Some p else None)"

definition capture_rule :: "log_index \<Rightarrow> decision option" where
  "capture_rule log =
     rule_if (policy_cycle log \<and> active_policy log = None \<and> cycle_attempts log = [])
       (CaptureReconcilePolicy (lx_lastReconcileCompletedSeq log))"

definition plan_steps :: "log_index \<Rightarrow> string list option" where
  "plan_steps log = Option.bind (lo_approvedPlan (lx_plan log)) pq_verifySteps"

definition plan_rev :: "log_index \<Rightarrow> nat" where
  "plan_rev log = (case lo_approvedPlan (lx_plan log) of None \<Rightarrow> 0 | Some q \<Rightarrow> art_rev (pq_artifact q))"

definition drift_summary :: "log_index \<Rightarrow> config \<Rightarrow> string" where
  "drift_summary log cfg =
     ''verify selection drift (cycle '' @ nat_text (cycle_boundary log) @ '', plan@'' @
     nat_text (plan_rev log) @ ''): unknown steps '' @
     join '', '' (map json_text (unknown_steps (plan_steps log) cfg)) @
     ''; running all configured optional steps subject to paths and post-reconcile policy''"

definition drift_rule :: "build_acc \<Rightarrow> log_index \<Rightarrow> config \<Rightarrow> decision option" where
  "drift_rule acc log cfg =
     rule_if (unknown_steps (plan_steps log) cfg \<noteq> [] \<and>
              \<not> list_ex (\<lambda>ob. ob_summary ob = drift_summary log cfg) (ba_observations acc))
       (RecordSelectionDrift (drift_summary log cfg))"

definition policy_exclusion :: "log_index \<Rightarrow> string \<Rightarrow> policy_step option" where
  "policy_exclusion log step =
     (case active_policy log of
        None \<Rightarrow> None | Some p \<Rightarrow> List.find (\<lambda>s. ps_step s = step \<and> \<not> ps_enabled s) (rp_steps p))"

definition memberDecision :: "build_acc \<Rightarrow> log_index \<Rightarrow> config \<Rightarrow> string \<Rightarrow> member_decision option" where
  "memberDecision acc log cfg step =
     (if list_ex (\<lambda>v. vr_step v = step \<and> satisfied v) (cycle_results log) then None
      else case map_of (vy_stepConfigs (cf_verify cfg)) step of
        None \<Rightarrow> None
      | Some sc \<Rightarrow>
          (let attempt = leaf_attempt log in
           Some (case policy_exclusion log step of
             Some ex \<Rightarrow> MemberSkip step attempt
                          (''skipped by post-reconcile policy: '' @ ps_source ex @ '' = false'') True
           | None \<Rightarrow>
               (case selected_set (plan_steps log) cfg of
                  Some ss \<Rightarrow>
                    if step \<notin> set ss \<and> sc_always sc \<noteq> Some True
                    then MemberSkip step attempt
                           (''excluded by approved plan selection (plan@'' @ nat_text (plan_rev log) @
                            ''): verify step '' @ json_text step @ '' was not selected'') False
                    else gated_member sc step attempt (verifier_action cfg step (sc_kind sc) attempt
                           (guidanceFeedback acc log (ToVerifier step)))
                | None \<Rightarrow> gated_member sc step attempt (verifier_action cfg step (sc_kind sc) attempt
                            (guidanceFeedback acc log (ToVerifier step)))))))"

definition member_rule :: "build_acc \<Rightarrow> log_index \<Rightarrow> config \<Rightarrow> active_stage option \<Rightarrow> decision option" where
  "member_rule acc log cfg stage =
     (case stage of
        None \<Rightarrow> (case List.map_filter (memberDecision acc log cfg) (vy_steps (cf_verify cfg)) of
                   [] \<Rightarrow> None | m # _ \<Rightarrow> Some (RunMember m))
      | Some s \<Rightarrow>
          (let ms = List.map_filter (memberDecision acc log cfg)
                      (filter (\<lambda>step. \<not> heldVerifier acc step) (as_unfinished s))
           in Some (if ms = [] then Wait WVerifyStage else RunVerifyStage ms)))"

definition verify_rules :: "build_acc \<Rightarrow> log_index \<Rightarrow> config \<Rightarrow> active_stage option \<Rightarrow> decision option list" where
  "verify_rules acc log cfg stage =
     leaf_stage_rules acc log stage @
     [budget_rule acc log cfg stage, reroute_rule acc log stage, frozen_restack acc (lx_restack log),
      entry_restack log, capture_rule log, drift_rule acc log cfg, member_rule acc log cfg stage]"

section \<open>Leaf builds: finalize and the epilogue\<close>

definition finalize_action_of :: "config \<Rightarrow> step_kind \<Rightarrow> finalize_action" where
  "finalize_action_of cfg k =
     (case k of
        CheckStep c \<Rightarrow> FinalizeCheck (case map_of (cf_commands cfg) c of Some cmd \<Rightarrow> cmd | None \<Rightarrow> c)
      | AgentStep skill \<Rightarrow> FinalizeAgent skill)"

definition finalize_step_decision :: "log_index \<Rightarrow> config \<Rightarrow> string \<Rightarrow> decision option" where
  "finalize_step_decision log cfg step =
     (if step \<in> set (lx_finalizeStepsDone log) then None
      else map_option (\<lambda>k. RunFinalizeStep step (finalize_action_of cfg k))
             (map_of (fz_stepConfigs (cf_finalize cfg)) step))"

definition finalize_rules :: "log_index \<Rightarrow> config \<Rightarrow> decision option list" where
  "finalize_rules log cfg =
     rule_if (\<not> lx_finalizeCompleted log) (run_core Finalize 1 None) #
     map (finalize_step_decision log cfg) (fz_steps (cf_finalize cfg))"

definition resume_conflict_rule :: "build_acc \<Rightarrow> log_index \<Rightarrow> decision option" where
  "resume_conflict_rule acc log =
     rule_if (ba_prState acc = Some PrIsConflicted \<and>
              (lx_conflictReconcileStarted log \<noteq> None \<or> current_reconcile acc \<noteq> None))
       (run_reconcile (case lx_conflictReconcileStarted log of
          Some n \<Rightarrow> n
        | None \<Rightarrow> (case Option.bind (ba_currentPhase acc) pt_attempt of
                     Some n \<Rightarrow> n | None \<Rightarrow> ba_reconcileAttempts acc)))"

definition landing_restack_rule :: "build_acc \<Rightarrow> log_index \<Rightarrow> decision option" where
  "landing_restack_rule acc log =
     (let rs = lx_restack log in
      case lrs_target rs of
        None \<Rightarrow> None
      | Some (t, _) \<Rightarrow>
          rule_if (Some (tm_sha t) \<noteq> (case lrs_completed rs of Some (p, _) \<Rightarrow> Some (lr_targetBase p)
                                       | None \<Rightarrow> lrs_initialBase rs) \<or>
                   ba_target acc \<noteq> None \<and>
                   (case lrs_postStepAt rs of None \<Rightarrow> 0 | Some n \<Rightarrow> n) >
                   (case lrs_completedAt rs of None \<Rightarrow> 0 | Some n \<Rightarrow> n))
            (Restack AwaitingLanding (cycle_boundary log)))"

definition no_progress_raise :: "config \<Rightarrow> decision" where
  "no_progress_raise cfg = RaiseEscalation
     \<lparr>rse_source = SrcPolicy, rse_policyCause = Some ReconcileNoProgress,
      rse_phase = Core Reconcile, rse_round = None,
      rse_question = ''maxReconcileAttempts ('' @ nat_text (po_maxReconcileAttempts (cf_policy cfg)) @
        '') exhausted: reconciliation made no progress against an unchanged base'',
      rse_findings = None\<rparr>"

definition new_conflict_rule :: "build_acc \<Rightarrow> log_index \<Rightarrow> config \<Rightarrow> decision option" where
  "new_conflict_rule acc log cfg =
     (case (ba_prState acc, lx_lastConflict log) of
        (Some PrIsConflicted, Some conflict) \<Rightarrow>
          (let next_try = ba_reconcileAttempts acc + 1 in
           Some (case lx_lastReconcileCompleted log of
             None \<Rightarrow> run_reconcile next_try
           | Some done \<Rightarrow>
               if rz_completedSeq done \<ge> conflict then run_reconcile next_try
               else (case lx_lastConflictProgressCheck log of
                 None \<Rightarrow> CheckReconcileProgress conflict (rz_attempt done) next_try
               | Some progress \<Rightarrow>
                   if rg_attempt progress \<noteq> rz_attempt done
                   then CheckReconcileProgress conflict (rz_attempt done) next_try
                   else if rg_baseSha progress = rz_baseSha done \<and>
                           lx_reconcileNoProgressCount log \<ge> po_maxReconcileAttempts (cf_policy cfg) \<and>
                           \<not> no_progress_raised_after acc conflict
                   then no_progress_raise cfg
                   else run_reconcile next_try)))
      | _ \<Rightarrow> None)"

definition epilogue_rules :: "build_acc \<Rightarrow> log_index \<Rightarrow> config \<Rightarrow> decision option list" where
  "epilogue_rules acc log cfg =
     [resume_conflict_rule acc log, landing_restack_rule acc log, new_conflict_rule acc log cfg]"

definition decide_leaf :: "build_acc \<Rightarrow> log_index \<Rightarrow> config \<Rightarrow> active_stage option \<Rightarrow> decision" where
  "decide_leaf acc log cfg stage =
     first_decision
       (loop_rules acc log cfg @ verify_rules acc log cfg stage @ finalize_rules log cfg @
        epilogue_rules acc log cfg)
       (Wait WAwaitingPr)"

section \<open>The decision\<close>

definition decideNextInternal :: "build_state \<Rightarrow> log_index \<Rightarrow> config \<Rightarrow> engine_error + decision" where
  "decideNextInternal st log cfg =
     (let acc = bs_acc st; stage = build_stage acc log cfg in
      case List.find (\<lambda>r. r \<noteq> None) (operator_rules st @ blocking_rules acc log stage) of
        Some (Some d) \<Rightarrow> Inr d
      | _ \<Rightarrow> if ba_kind acc = Some Node then decide_node acc log cfg stage
             else Inr (decide_leaf acc log cfg stage))"

text \<open>A completion of a cancelled member counts only when it came before the cancellation.\<close>

definition uncancelled :: "build_acc \<Rightarrow> log_index \<Rightarrow> log_index" where
  "uncancelled acc log =
     log\<lparr>lx_verifyCompleted := filter (\<lambda>r.
        case map_of (vss_cancellations (ba_verifyStage acc)) (verifyMemberKey (vr_step r) (vr_attempt r)) of
          None \<Rightarrow> True | Some (_, seq) \<Rightarrow> vr_seq r < seq) (lx_verifyCompleted log)\<rparr>"

text \<open>The stage failure an implement round answers.\<close>

definition stage_receipt_for :: "build_acc \<Rightarrow> log_index \<Rightarrow> nat \<Rightarrow> (stage_failed \<times> nat) option" where
  "stage_receipt_for acc log round =
     (let failures = vss_failures (ba_verifyStage acc);
          since = max (max (lx_restartSeq log) (lo_latestApproveSeq (lx_code log)))
                    (max (lx_lastReconcileCompletedSeq log) (lx_verifyConfigBoundary log))
      in or_else
           (find_last (\<lambda>(f, seq). sg_cycle f \<ge> since \<and> seq > lx_lastImplementCompletedSeq log) failures)
           (case map_of (vss_implementations (ba_verifyStage acc)) round of
              None \<Rightarrow> None | Some n \<Rightarrow> List.find (\<lambda>(_, seq). seq = n) failures))"

definition receipt_feedback :: "stage_failed \<Rightarrow> feedback option" where
  "receipt_feedback f =
     (case List.find (\<lambda>(_, report). report \<noteq> None) (sg_failed f) of
        Some (step, Some report) \<Rightarrow> Some (FbVerify step report) | _ \<Rightarrow> None)"

fun is_guidance :: "feedback option \<Rightarrow> bool" where
  "is_guidance (Some (FbGuidance _ _)) = True"
| "is_guidance _ = False"

definition cite_stage_failure :: "build_acc \<Rightarrow> log_index \<Rightarrow> config \<Rightarrow> decision \<Rightarrow> decision" where
  "cite_stage_failure acc log cfg d =
     (case d of
        RunPhase p \<Rightarrow>
          if rph_corePhase p = Implement \<and> vy_stages (cf_verify cfg) \<noteq> None
          then (case stage_receipt_for acc log (rph_phaseRound p) of
                  None \<Rightarrow> d
                | Some (f, seq) \<Rightarrow> RunPhase (p\<lparr>rph_stageFailure := Some seq,
                    rph_feedback := (if is_guidance (rph_feedback p) then rph_feedback p
                                     else receipt_feedback f)\<rparr>))
          else d
      | _ \<Rightarrow> d)"

definition decideNextFromFacts :: "build_state \<Rightarrow> log_index \<Rightarrow> config \<Rightarrow> engine_error + decision" where
  "decideNextFromFacts st log cfg =
     map_result (cite_stage_failure (bs_acc st) log cfg)
       (decideNextInternal st (uncancelled (bs_acc st) log) cfg)"

definition decideNext :: "ab_event list \<Rightarrow> config \<Rightarrow> engine_error + decision" where
  "decideNext events cfg =
     (case reduceBuild events of
        Inl x \<Rightarrow> Inl (Irreducible x)
      | Inr st \<Rightarrow> decideNextFromFacts st (indexLog events) cfg)"

end
