(* ===== verification/EngineFacts.thy ===== *)
theory EngineFacts
  imports Engine LogIndexFacts
begin

text \<open>
  Facts about the transition table: which rule decided, what a working decision presupposes, and the
  agreement of the log-driven review loop with the in-process one.
\<close>

section \<open>Which rule decided\<close>

definition undecided :: "decision option list \<Rightarrow> bool" where
  "undecided rules \<longleftrightarrow> set rules \<subseteq> {None}"

lemma undecided_simps [simp]:
  "undecided []" "undecided (r # rules) \<longleftrightarrow> r = None \<and> undecided rules"
  "undecided (xs @ ys) \<longleftrightarrow> undecided xs \<and> undecided ys"
  "undecided (map f zs) \<longleftrightarrow> (\<forall>z \<in> set zs. f z = None)"
  by (auto simp: undecided_def)

lemma first_decision_append:
  "first_decision (xs @ ys) d = (if undecided xs then first_decision ys d else first_decision xs d)"
proof (induction xs)
  case (Cons x xs)
  then show ?case by (cases x) simp_all
qed simp

lemma first_decision_prefix:
  "\<not> undecided xs \<Longrightarrow> \<not> undecided (xs @ ys) \<and> first_decision (xs @ ys) d = first_decision xs d"
  by (simp add: first_decision_append)

lemma first_decision_in: "first_decision rules d = e \<Longrightarrow> Some e \<in> set rules \<or> e = d"
  by (induction rules d rule: first_decision.induct) auto

lemma first_decision_of_stuck: "\<not> undecided rules \<Longrightarrow> Some (first_decision rules d) \<in> set rules"
  by (induction rules d rule: first_decision.induct) auto

text \<open>A decision that no rule of a prefix can give is given with the whole prefix undecided.\<close>

lemma first_decision_skip:
  assumes dec: "first_decision (xs @ ys) d = e"
    and no: "\<And>x. Some x \<in> set xs \<Longrightarrow> \<not> P x" and "P e" and "\<not> P d"
  shows "undecided xs \<and> first_decision ys d = e"
proof (cases "undecided xs")
  case False
  then have "first_decision xs d = e" using dec by (simp add: first_decision_append)
  then have "Some e \<in> set xs \<or> e = d" by (rule first_decision_in)
  then show ?thesis using no \<open>P e\<close> \<open>\<not> P d\<close> by blast
qed (use dec in \<open>simp add: first_decision_append\<close>)

lemma rule_if_Some [simp]: "rule_if c d = Some e \<longleftrightarrow> c \<and> e = d"
  by (auto simp: rule_if_def)

lemma Some_rule_if [simp]: "Some e = rule_if c d \<longleftrightarrow> c \<and> e = d"
  by (auto simp: rule_if_def)

lemma rule_if_None [simp]: "rule_if c d = None \<longleftrightarrow> \<not> c"
  by (simp add: rule_if_def)

text \<open>The search for the first rule that decides is the ordered choice, when a rule does.\<close>

lemma find_rule:
  "List.find (\<lambda>r. r \<noteq> None) rules = (if undecided rules then None else Some (Some (first_decision rules d)))"
proof (induction rules)
  case (Cons r rules)
  then show ?case by (cases r) simp_all
qed simp

section \<open>Preconditions of work\<close>

fun works :: "decision \<Rightarrow> bool" where
  "works (Wait _) = False"
| "works (Acknowledge _) = False"
| "works _ = True"

definition operator_quiet :: "build_state \<Rightarrow> bool" where
  "operator_quiet st \<longleftrightarrow>
     \<not> mixedVersionDeferred (ba_compatibility (bs_acc st)) \<and>
     bs_status st \<noteq> StAborted \<and> bs_status st \<noteq> StDone \<and> bs_status st \<noteq> StPaused \<and>
     \<not> command_pending st AbortCommand \<and> \<not> command_pending st Pause"

lemma operator_rules_None: "undecided (operator_rules st) \<longleftrightarrow> operator_quiet st"
  by (auto simp: operator_rules_def operator_quiet_def)

lemma operator_rules_idle: "Some d \<in> set (operator_rules st) \<Longrightarrow> \<not> works d"
  by (auto simp: operator_rules_def)

definition escalations_held :: "build_acc \<Rightarrow> active_stage option \<Rightarrow> bool" where
  "escalations_held acc stage \<longleftrightarrow> (\<forall>e \<in> snd ` set (ba_openEscalations acc). held_by_stage acc stage e)"

definition target_settled :: "build_acc \<Rightarrow> log_index \<Rightarrow> bool" where
  "target_settled acc log \<longleftrightarrow> ba_targetRewrite acc = None \<or> lrs_active (lx_restack log) \<noteq> None \<or>
     Option.bind (ba_nodeRestack acc) nrs_active \<noteq> None"

text \<open>The first two blocking rules only wait.\<close>

lemma blocking_rules_split:
  "blocking_rules acc log stage =
     [rule_if (\<not> target_settled acc log) (Wait WTargetRewritten),
      rule_if (\<not> escalations_held acc stage) (Wait WBlocked)] @
     drop 2 (blocking_rules acc log stage)"
  by (force simp: blocking_rules_def target_settled_def escalations_held_def list_ex_iff rule_if_def)

lemma decideNextInternal_rules:
  "decideNextInternal st log cfg =
     (let acc = bs_acc st; stage = build_stage acc log cfg;
          rules = operator_rules st @ blocking_rules acc log stage
      in if undecided rules
         then if ba_kind acc = Some Node then decide_node acc log cfg stage else Inr (decide_leaf acc log cfg stage)
         else Inr (first_decision rules (Wait WDone)))"
  unfolding decideNextInternal_def Let_def find_rule [of _ "Wait WDone"]
  by simp

lemma internal_works:
  assumes dec: "decideNextInternal st log cfg = Inr d" and works: "works d"
  shows "operator_quiet st \<and> target_settled (bs_acc st) log \<and>
    escalations_held (bs_acc st) (build_stage (bs_acc st) log cfg)"
proof -
  let ?s = "build_stage (bs_acc st) log cfg"
  let ?pre = "operator_rules st @ take 2 (blocking_rules (bs_acc st) log ?s)"
  have idle: "\<not> works e" if "Some e \<in> set ?pre" for e
    using that operator_rules_idle by (subst (asm) blocking_rules_split) auto
  have "undecided ?pre"
  proof (rule ccontr)
    assume stuck: "\<not> undecided ?pre"
    from first_decision_prefix [OF this, of "drop 2 (blocking_rules (bs_acc st) log ?s)" "Wait WDone"]
    have "d = first_decision ?pre (Wait WDone)"
      using dec by (simp add: decideNextInternal_rules Let_def del: undecided_simps)
    then show False using first_decision_in [of ?pre "Wait WDone" d] idle works by auto
  qed
  then show ?thesis
    by (subst (asm) blocking_rules_split) (simp add: operator_rules_None)
qed

lemma works_cite [simp]: "works (cite_stage_failure acc log cfg d) = works d"
  by (cases d) (auto simp: cite_stage_failure_def split: option.splits)

lemma build_stage_members:
  "ba_kind acc \<noteq> Some Node \<Longrightarrow> stage_cycle acc (uncancelled acc' log) = stage_cycle acc log"
  by (simp add: stage_cycle_def uncancelled_def)

section \<open>The review loop\<close>

lemma decideLoop_phase:
  "decideLoop ag = Some (RunPhase p) \<Longrightarrow> rph_corePhase p \<in> {ag_producer ag, ag_reviewer ag}"
  by (auto simp: decideLoop_def Let_def decide_revise_def run_core_def agent_raise_def stall_raise_def
      ceiling_raise_def split: if_splits option.splits review_verdict_kind.splits)

lemma decideLoop_None:
  "decideLoop ag = None \<longleftrightarrow>
     lo_maxRound (ag_loop ag) \<noteq> 0 \<and>
     (\<exists>v. Option.bind (map_of (lo_rounds (ag_loop ag)) (lo_maxRound (ag_loop ag))) ro_verdict = Some v \<and>
          vd_verdict v = Approve)"
  by (auto simp: decideLoop_def Let_def split: option.splits review_verdict_kind.splits)

text \<open>A loop whose rounds \<open>1..n\<close> were all sent back, the last with the findings \<open>last hist\<close>.\<close>

definition revised_loop :: "finding list list \<Rightarrow> loop_index \<Rightarrow> verdict_record \<Rightarrow> bool" where
  "revised_loop hist l v \<longleftrightarrow> hist \<noteq> [] \<and> lo_maxRound l = length hist \<and> lo_findingsByRound l = hist \<and>
     review_rounds l = length hist \<and>
     Option.bind (map_of (lo_rounds l) (length hist)) ro_verdict = Some v \<and>
     vd_verdict v = Revise \<and> vd_round v = length hist"

lemma liveChains_fresh:
  assumes "stalledChains (butlast hist) n dis = []" and "hist \<noteq> []"
  shows "liveChains (stalledChains hist n dis) hist (length hist) = stalledChains hist n dis"
proof -
  have "hist = butlast hist @ [last hist]" using assms(2) by simp
  then have "\<forall>c \<in> set (stalledChains hist n dis). \<exists>i \<in> set (fc_ids c). i \<in> f_id ` set (last hist)"
    using stalled_new_member [OF assms(1)] by metis
  then show ?thesis
    using assms(2) by (auto simp: liveChains_def Let_def filter_id_conv list_ex_iff last_conv_nth Suc_le_eq)
qed

lemma loop_simulates_converge:
  assumes loop: "revised_loop hist (ag_loop ag) v"
    and fresh: "stalledChains (butlast hist) (po_stallRounds (ag_policy ag)) (Some (ag_dismissed ag)) = []"
    and unraised: "\<forall>s. \<not> ag_raisedAfter ag (vd_seq v) s (OnPhase (Core (ag_reviewer ag)))"
    and limit: "(case ag_ceiling ag of Some m \<Rightarrow> m | None \<Rightarrow> po_maxReviewRounds (ag_policy ag)) = cp_maxRounds p"
    and stall: "cp_stallRounds p = po_stallRounds (ag_policy ag)"
    and n: "length hist \<le> cp_maxRounds p" and script: "vs (length hist) = VRevise (last hist)"
  shows "let o1 = scripted vs p (Some (ag_dismissed ag)) (length hist) (butlast hist) in
    (\<exists>c. o1 = CEscalated SrcStall (stall_reason c) (length hist) (Some c) \<and>
         decideLoop ag = Some (stall_raise (ag_reviewer ag) (length hist) c)) \<or>
    (o1 = CEscalated SrcPolicy (maxRounds_reason (cp_maxRounds p)) (length hist) None \<and>
         length hist = cp_maxRounds p \<and>
         decideLoop ag = Some (ceiling_raise (ag_reviewer ag) (length hist) (cp_maxRounds p))) \<or>
    (o1 = scripted vs p (Some (ag_dismissed ag)) (Suc (length hist)) hist \<and> length hist < cp_maxRounds p \<and>
         decideLoop ag = Some (run_core (ag_producer ag) (Suc (length hist)) (ag_feedback ag)))"
proof -
  let ?D = "deepest (stalledChains hist (cp_stallRounds p) (Some (ag_dismissed ag)))"
  have hist: "butlast hist @ [last hist] = hist" and ne: "hist \<noteq> []"
    using loop by (simp_all add: revised_loop_def)
  have live: "liveChains (stalledChains hist (cp_stallRounds p) (Some (ag_dismissed ag))) hist (length hist) =
      stalledChains hist (cp_stallRounds p) (Some (ag_dismissed ag))"
    using liveChains_fresh [OF fresh ne] stall by simp
  have dec: "decideLoop ag = Some (case ?D of
      Some c \<Rightarrow> stall_raise (ag_reviewer ag) (length hist) c
    | None \<Rightarrow> if length hist \<ge> cp_maxRounds p
              then ceiling_raise (ag_reviewer ag) (length hist) (cp_maxRounds p)
              else run_core (ag_producer ag) (Suc (length hist)) (ag_feedback ag))"
    using loop live unraised limit
    by (simp add: decideLoop_def decide_revise_def revised_loop_def Let_def stall split: option.splits)
  have run: "scripted vs p (Some (ag_dismissed ag)) (length hist) (butlast hist) =
      (case ?D of Some c \<Rightarrow> CEscalated SrcStall (stall_reason c) (length hist) (Some c)
       | None \<Rightarrow> scripted vs p (Some (ag_dismissed ag)) (Suc (length hist)) hist)"
    using n script ne by (simp add: scripted.simps [of vs p _ "length hist"] split: option.split)
  show ?thesis
  proof (cases ?D)
    case None
    then show ?thesis
      using dec run n by (cases "length hist = cp_maxRounds p") (simp_all add: scripted.simps [of vs p _ "Suc _"])
  next
    case (Some c)
    then show ?thesis using dec run by (simp add: Let_def)
  qed
qed

section \<open>Order of the phases\<close>

fun starts_core :: "core_phase \<Rightarrow> decision \<Rightarrow> bool" where
  "starts_core c (RunPhase p) = (rph_corePhase p = c)"
| "starts_core c _ = False"

lemma starts_core_simps [simp]:
  "starts_core c (run_core p r fb) = (c = p)" "starts_core c (run_reconcile n) = (c = Reconcile)"
  by (auto simp: run_core_def run_reconcile_def)

lemma starts_cite [simp]: "starts_core c (cite_stage_failure acc log cfg d) = starts_core c d"
  by (cases d) (auto simp: cite_stage_failure_def split: option.splits)

lemma decideLoop_starts: "decideLoop ag = Some d \<Longrightarrow> starts_core c d \<Longrightarrow> c \<in> {ag_producer ag, ag_reviewer ag}"
  by (cases d) (auto dest: decideLoop_phase)

definition approved_loop :: "loop_index \<Rightarrow> bool" where
  "approved_loop l \<longleftrightarrow> lo_maxRound l \<noteq> 0 \<and>
     (\<exists>v. Option.bind (map_of (lo_rounds l) (lo_maxRound l)) ro_verdict = Some v \<and> vd_verdict v = Approve)"

lemma loop_rules_approved:
  assumes "undecided (loop_rules acc log cfg)"
  shows "approved_loop (lx_plan log) \<and> approved_loop (lx_code log)"
  using assms by (auto simp: loop_rules_def approved_loop_def decideLoop_None plan_args_def code_args_def)

text \<open>What each rule can start.\<close>

definition only_starts :: "core_phase set \<Rightarrow> decision option \<Rightarrow> bool" where
  "only_starts cs r \<longleftrightarrow> (\<forall>d c. r = Some d \<longrightarrow> starts_core c d \<longrightarrow> c \<in> cs)"

lemma only_starts_simps [simp]:
  "only_starts cs None" "only_starts cs (Some d) \<longleftrightarrow> (\<forall>c. starts_core c d \<longrightarrow> c \<in> cs)"
  "only_starts cs (rule_if b d) \<longleftrightarrow> (b \<longrightarrow> (\<forall>c. starts_core c d \<longrightarrow> c \<in> cs))"
  by (auto simp: only_starts_def)

lemma only_starts_all:
  "\<forall>r \<in> set rules. only_starts cs r \<Longrightarrow> Some d \<in> set rules \<Longrightarrow> starts_core c d \<Longrightarrow> c \<in> cs"
  by (auto simp: only_starts_def)

lemma only_starts_mono: "only_starts cs r \<Longrightarrow> cs \<subseteq> cs' \<Longrightarrow> only_starts cs' r"
  unfolding only_starts_def by blast

lemma loop_rules_starts:
  "\<forall>r \<in> set (loop_rules acc log cfg). only_starts {Reconcile, Plan, PlanReview, Implement, CodeReview} r"
proof -
  have "only_starts {Plan, PlanReview} (decideLoop (plan_args acc log cfg))"
    unfolding only_starts_def using decideLoop_starts [of "plan_args acc log cfg"]
    by (auto simp: plan_args_def)
  moreover have "only_starts {Implement, CodeReview} (decideLoop (code_args acc log cfg))"
    unfolding only_starts_def using decideLoop_starts [of "code_args acc log cfg"]
    by (auto simp: code_args_def)
  ultimately show ?thesis
    by (simp add: loop_rules_def only_starts_mono split: option.splits)
qed

lemma leaf_stage_rules_starts: "\<forall>r \<in> set (leaf_stage_rules acc log stage). only_starts {} r"
  by (simp add: leaf_stage_rules_def split: option.splits list.splits)

lemma verify_rules_starts:
  "\<forall>r \<in> set (verify_rules acc log cfg stage). only_starts {Implement, Reconcile} r"
proof -
  have 1: "only_starts {Implement, Reconcile} (budget_rule acc log cfg stage)"
    by (simp add: budget_rule_def budget_raise_def split: option.splits)
  have 2: "only_starts {Implement, Reconcile} (reroute_rule acc log stage)"
    by (simp add: reroute_rule_def)
  have 3: "only_starts {Implement, Reconcile} (frozen_restack acc (lx_restack log))"
    by (simp add: frozen_restack_def split: option.splits)
  have 4: "only_starts {Implement, Reconcile} (entry_restack log)" "only_starts {Implement, Reconcile} (capture_rule log)"
    "only_starts {Implement, Reconcile} (drift_rule acc log cfg)"
    by (simp_all add: entry_restack_def capture_rule_def drift_rule_def Let_def)
  have 5: "only_starts {Implement, Reconcile} (member_rule acc log cfg stage)"
    by (simp add: member_rule_def Let_def split: option.splits list.splits)
  have 6: "\<forall>r \<in> set (leaf_stage_rules acc log stage). only_starts {Implement, Reconcile} r"
    using leaf_stage_rules_starts only_starts_mono by blast
  show ?thesis
    unfolding verify_rules_def using 1 2 3 4 5 6 by simp
qed

text \<open>What the verify rules leave behind when none of them decides.\<close>

lemma verify_rules_done:
  assumes none: "undecided (verify_rules acc log cfg stage)"
  shows "stage = None \<and> pending_fail log = None \<and>
    (\<forall>step \<in> set (vy_steps (cf_verify cfg)). memberDecision acc log cfg step = None)"
proof -
  have m: "member_rule acc log cfg stage = None" and r: "reroute_rule acc log stage = None"
    using none by (simp_all add: verify_rules_def)
  from m have "stage = None" by (auto simp: member_rule_def Let_def split: option.splits)
  moreover from m this have "List.map_filter (memberDecision acc log cfg) (vy_steps (cf_verify cfg)) = []"
    by (auto simp: member_rule_def split: list.splits)
  then have "\<forall>step \<in> set (vy_steps (cf_verify cfg)). memberDecision acc log cfg step = None"
    by (auto simp: List.map_filter_def filter_empty_conv)
  moreover from r \<open>stage = None\<close> have "pending_fail log = None"
    by (simp add: reroute_rule_def settled_stage_def)
  ultimately show ?thesis by blast
qed

lemma memberDecision_None:
  "memberDecision acc log cfg step = None \<longleftrightarrow>
     (\<exists>v \<in> set (cycle_results log). vr_step v = step \<and> satisfied v) \<or>
     map_of (vy_stepConfigs (cf_verify cfg)) step = None"
  by (auto simp: memberDecision_def Let_def list_ex_iff split: option.splits)

lemma leaf_finalize:
  assumes dec: "decide_leaf acc log cfg stage = d" and fin: "starts_core Finalize d"
  shows "approved_loop (lx_plan log) \<and> approved_loop (lx_code log) \<and> stage = None \<and> pending_fail log = None \<and>
    (\<forall>step \<in> set (vy_steps (cf_verify cfg)). memberDecision acc log cfg step = None)"
proof -
  have 1: "undecided (loop_rules acc log cfg) \<and>
      first_decision (verify_rules acc log cfg stage @ finalize_rules log cfg @ epilogue_rules acc log cfg)
        (Wait WAwaitingPr) = d"
  proof (rule first_decision_skip [where P = "starts_core Finalize"])
    show "\<not> starts_core Finalize x" if "Some x \<in> set (loop_rules acc log cfg)" for x
      using only_starts_all [OF loop_rules_starts that, of Finalize] by auto
  qed (use dec fin in \<open>simp_all add: decide_leaf_def\<close>)
  have 2: "undecided (verify_rules acc log cfg stage) \<and>
      first_decision (finalize_rules log cfg @ epilogue_rules acc log cfg) (Wait WAwaitingPr) = d"
  proof (rule first_decision_skip [where P = "starts_core Finalize"])
    show "\<not> starts_core Finalize x" if "Some x \<in> set (verify_rules acc log cfg stage)" for x
      using only_starts_all [OF verify_rules_starts that, of Finalize] by auto
  qed (use 1 fin in simp_all)
  from 1 2 loop_rules_approved verify_rules_done show ?thesis by blast
qed

end
