(* ===== verification/EnginePhases.thy ===== *)
theory EnginePhases
  imports EngineFacts
begin

text \<open>
  Which events of the log stand behind a decision: the verdicts a loop was decided on, the verify
  results a finalize rests on, and the members and attempt numbers of a concurrent stage.
\<close>

section \<open>Verdicts of the index are verdicts of the log\<close>

fun verdict_body :: "loop_name \<Rightarrow> verdict_payload \<Rightarrow> loop_ev" where
  "verdict_body PlanLoop p = PlanReviewVerdict p"
| "verdict_body CodeLoop p = CodeReviewVerdict p"

definition verdicts_from :: "nat \<Rightarrow> candidate set \<Rightarrow> log_index \<Rightarrow> bool" where
  "verdicts_from b cs ix \<longleftrightarrow>
     (\<forall>n r v. ro_verdict (round_at (loop_of n ix) r) = Some v \<longrightarrow>
        CVerdict n v \<in> cs \<and> vd_round v = r \<and> vd_seq v > b)"

lemma verdict_update:
  "(\<And>rec. ro_verdict (f rec) = ro_verdict rec) \<Longrightarrow>
   ro_verdict (round_at (update_round r' f l) r) = ro_verdict (round_at l r)"
  by (cases "r' = r") (simp_all add: round_at_other)

lemma verdict_record_verdict:
  "ro_verdict (round_at (record_verdict n v l) r) =
     (if r = vd_round v then Some v else ro_verdict (round_at l r))"
  by (simp add: record_verdict_def Let_def round_at_other)

lemma loop_of_frame [simp]:
  "loop_of m (ix\<lparr>lx_lastImplementCompletedSeq := s\<rparr>) = loop_of m ix"
  "loop_of m (ix\<lparr>lx_verifyConfigBoundary := s\<rparr>) = loop_of m ix"
  "loop_of m (ix\<lparr>lx_verifyStarted := vs\<rparr>) = loop_of m ix"
  "loop_of m (ix\<lparr>lx_reconcilePolicy := p\<rparr>) = loop_of m ix"
  "loop_of m (ix\<lparr>lx_verifyCompleted := vc\<rparr>) = loop_of m ix"
  "loop_of m (ix\<lparr>lx_finalizeCompleted := f\<rparr>) = loop_of m ix"
  "loop_of m (ix\<lparr>lx_finalizeStepsDone := ss\<rparr>) = loop_of m ix"
  "loop_of m (ix\<lparr>lx_lastReconcileCompletedSeq := s\<rparr>) = loop_of m ix"
  by (simp_all add: loop_of_def split: loop_name.split)

lemma verdicts_replay:
  assumes "verdicts_from b cs ix"
  shows "verdicts_from b (insert c cs) (replay_step b ix c)"
proof (cases "\<exists>n v. c = CVerdict n v")
  case True
  then show ?thesis
    using assms
    by (auto simp: verdicts_from_def replay_step_def loop_of_on_loop verdict_record_verdict split: if_splits)
next
  case False
  then have "ro_verdict (round_at (loop_of n (replay_step b ix c)) r) = ro_verdict (round_at (loop_of n ix) r)"
    for n r
    by (cases c) (simp_all add: replay_step_def loop_of_on_loop verdict_update)
  then show ?thesis using assms by (auto simp: verdicts_from_def)
qed

lemma verdicts_foldl:
  "verdicts_from b cs ix \<Longrightarrow> verdicts_from b (cs \<union> set cands) (foldl (replay_step b) ix cands)"
proof (induction cands arbitrary: cs ix)
  case (Cons c cands)
  from Cons.IH [OF verdicts_replay [OF Cons.prems]] show ?case by simp
qed simp

lemma verdicts_blank: "verdicts_from b {} (blank_index acc)"
  by (simp add: verdicts_from_def blank_index_def Let_def loop_of_def emptyLoop_def round_at_def
      empty_round_def split: loop_name.split)

lemma verdict_in_log:
  assumes "ro_verdict (round_at (loop_of n (indexLog es)) r) = Some v"
  shows "\<exists>e \<in> set es. \<exists>p. ev_body e = ELoop (verdict_body n p) \<and> ev_seq e > lx_restartSeq (indexLog es) \<and>
           vp_round p = r \<and> vp_verdict p = vd_verdict v"
proof -
  let ?acc = "foldLogIndex initialLogIndexAcc (filterKnownEvents es)"
  have "verdicts_from (lx_restartSeq (indexLog es)) (set (la_candidates ?acc)) (indexLog es)"
    using verdicts_foldl [OF verdicts_blank [of "la_restartSeq ?acc" ?acc], of "la_candidates ?acc"]
    by (simp add: indexLog_unfold) (simp add: finishLogIndex_def)
  then have v: "CVerdict n v \<in> set (la_candidates ?acc)" "vd_round v = r"
    "vd_seq v > lx_restartSeq (indexLog es)"
    using assms by (auto simp: verdicts_from_def)
  then obtain e where e: "e \<in> set (filterKnownEvents es)" "CVerdict n v \<in> set (event_candidates e)"
    by (auto simp: candidates_of_log)
  then obtain p where p: "v = verdict_of p (ev_seq e)"
      "ev_body e = ELoop (case n of PlanLoop \<Rightarrow> PlanReviewVerdict p | CodeLoop \<Rightarrow> CodeReviewVerdict p)"
    by (auto simp: verdict_candidate_event)
  show ?thesis
    using e(1) p v
    by (intro bexI [of _ e] exI [of _ p]) (auto simp: verdict_of_def filterKnownEvents_def split: loop_name.split)
qed

text \<open>\<open>reviewed es n\<close>: the newest round of the loop carries an approving verdict event of the log.\<close>

definition reviewed :: "ab_event list \<Rightarrow> loop_name \<Rightarrow> bool" where
  "reviewed es n \<longleftrightarrow>
     (\<exists>e \<in> set es. \<exists>p. ev_body e = ELoop (verdict_body n p) \<and> ev_seq e > lx_restartSeq (indexLog es) \<and>
        vp_round p = lo_maxRound (loop_of n (indexLog es)) \<and> vp_verdict p = Approve)"

lemma approved_reviewed:
  assumes "approved_loop (loop_of n (indexLog es))"
  shows "reviewed es n"
proof -
  obtain v where "ro_verdict (round_at (loop_of n (indexLog es)) (lo_maxRound (loop_of n (indexLog es)))) = Some v"
    and "vd_verdict v = Approve"
    using assms by (auto simp: approved_loop_def round_at_def bind_eq_Some_conv)
  from verdict_in_log [OF this(1)] this(2) show ?thesis by (auto simp: reviewed_def)
qed

section \<open>Decisions over a log\<close>

lemma uncancelled_frame [simp]:
  "lx_plan (uncancelled acc log) = lx_plan log" "lx_code (uncancelled acc log) = lx_code log"
  "lx_restack (uncancelled acc log) = lx_restack log" "lx_restartSeq (uncancelled acc log) = lx_restartSeq log"
  "lx_verifyStarted (uncancelled acc log) = lx_verifyStarted log"
  "lx_maxVerifyAttemptEver (uncancelled acc log) = lx_maxVerifyAttemptEver log"
  "lx_verifyConfigBoundary (uncancelled acc log) = lx_verifyConfigBoundary log"
  "lx_lastReconcileCompletedSeq (uncancelled acc log) = lx_lastReconcileCompletedSeq log"
  "lx_lastImplementCompletedSeq (uncancelled acc log) = lx_lastImplementCompletedSeq log"
  "set (lx_verifyCompleted (uncancelled acc log)) \<subseteq> set (lx_verifyCompleted log)"
  "cycle_boundary (uncancelled acc log) = cycle_boundary log"
  by (auto simp: uncancelled_def cycle_boundary_def replay_boundary_def)

lemma decideNext_cases:
  assumes "decideNext es cfg = Inr d"
  obtains st d0 where "reduceBuild es = Inr st"
    and "decideNextInternal st (uncancelled (bs_acc st) (indexLog es)) cfg = Inr d0"
    and "d = cite_stage_failure (bs_acc st) (indexLog es) cfg d0"
  using assms by (auto simp: decideNext_def decideNextFromFacts_def map_result_Inr_iff split: sum.splits)

lemma node_stage_rules_starts: "\<forall>r \<in> set (node_stage_rules acc log stage c seq). only_starts {} r"
  by (simp add: node_stage_rules_def Let_def split: option.splits)

lemma node_verify_starts: "node_verify acc log cfg stage c seq = Inr d \<Longrightarrow> \<not> starts_core p d"
  by (auto simp: node_verify_def Let_def map_result_Inr_iff split: option.splits list.splits if_splits)

lemma decide_node_starts:
  assumes "decide_node acc log cfg stage = Inr d" and "starts_core p d"
  shows "p = Reconcile"
proof -
  have "only_starts {} (Some x)" if "List.find (\<lambda>r. r \<noteq> None) (node_stage_rules acc log stage c seq) = Some (Some x)"
    for x c seq
    using node_stage_rules_starts [of acc log stage c seq] find_SomeD [OF that] by blast
  then show ?thesis
    using assms node_verify_starts
    by (auto simp: decide_node_def split: if_splits option.splits)
qed

lemma blocking_rules_starts: "\<forall>r \<in> set (operator_rules st @ blocking_rules acc log stage). only_starts {} r"
  by (auto simp: operator_rules_def blocking_rules_def only_starts_def)

lemma internal_starts:
  assumes "decideNextInternal st log cfg = Inr d" and "starts_core p d" and "p \<noteq> Reconcile"
  shows "ba_kind (bs_acc st) \<noteq> Some Node \<and>
    d = decide_leaf (bs_acc st) log cfg (build_stage (bs_acc st) log cfg)"
proof (cases "undecided (operator_rules st @ blocking_rules (bs_acc st) log (build_stage (bs_acc st) log cfg))")
  case True
  then show ?thesis
    using assms decide_node_starts
    by (auto simp: decideNextInternal_rules Let_def simp del: undecided_simps split: if_splits)
next
  case False
  then have "d = first_decision (operator_rules st @ blocking_rules (bs_acc st) log
      (build_stage (bs_acc st) log cfg)) (Wait WDone)"
    using assms(1) by (simp add: decideNextInternal_rules Let_def del: undecided_simps)
  with first_decision_in have "Some d \<in> set (operator_rules st @ blocking_rules (bs_acc st) log
      (build_stage (bs_acc st) log cfg)) \<or> d = Wait WDone"
    by metis
  then show ?thesis
    using assms(2) blocking_rules_starts [of st "bs_acc st" log "build_stage (bs_acc st) log cfg"]
    by (auto simp: only_starts_def)
qed

text \<open>The phases a leaf build may start, and the approvals each presupposes.\<close>

lemma plan_first:
  assumes "first_decision (loop_rules acc log cfg) e = d" and "starts_core p d" and "p \<in> {Implement, CodeReview}"
    and "\<not> undecided (loop_rules acc log cfg)"
  shows "approved_loop (lx_plan log)"
proof -
  have split: "loop_rules acc log cfg = take 4 (loop_rules acc log cfg) @ drop 4 (loop_rules acc log cfg)"
    by simp
  have "only_starts {Plan, PlanReview} (decideLoop (plan_args acc log cfg))"
    unfolding only_starts_def using decideLoop_starts [of "plan_args acc log cfg"]
    by (auto simp: plan_args_def)
  then have early: "\<forall>r \<in> set (take 4 (loop_rules acc log cfg)). only_starts {Reconcile, Plan, PlanReview} r"
    by (simp add: loop_rules_def only_starts_mono split: option.splits)
  have "undecided (take 4 (loop_rules acc log cfg))"
  proof (rule ccontr)
    assume stuck: "\<not> undecided (take 4 (loop_rules acc log cfg))"
    from first_decision_prefix [OF this, of "drop 4 (loop_rules acc log cfg)" e]
    have d: "first_decision (take 4 (loop_rules acc log cfg)) e = d" using assms(1) by simp
    have "Some d \<in> set (take 4 (loop_rules acc log cfg))"
      using stuck d first_decision_of_stuck by metis
    then show False using only_starts_all [OF early _ assms(2)] assms(3) by auto
  qed
  then show ?thesis
    by (simp add: loop_rules_def approved_loop_def decideLoop_None plan_args_def)
qed

lemma leaf_phase_approved:
  assumes dec: "decide_leaf acc log cfg stage = d" and p: "starts_core p d" "p \<in> {Implement, CodeReview, Finalize}"
  shows "approved_loop (lx_plan log) \<and> (p = Finalize \<longrightarrow> approved_loop (lx_code log))"
proof (cases "undecided (loop_rules acc log cfg)")
  case True
  then show ?thesis using loop_rules_approved by blast
next
  case False
  have d: "first_decision (loop_rules acc log cfg) (Wait WAwaitingPr) = d"
    using dec first_decision_prefix [OF False] by (simp add: decide_leaf_def)
  have "Some d \<in> set (loop_rules acc log cfg)" using first_decision_of_stuck [OF False] d by metis
  then have "p \<noteq> Finalize" using only_starts_all [OF loop_rules_starts _ p(1)] by auto
  then show ?thesis using plan_first [OF d p(1) _ False] p(2) by blast
qed

text \<open>A repair round after an approved review: the verify budget has been respected.\<close>

lemma loop_rules_no_implement:
  assumes "approved_loop (lx_code log)"
  shows "\<forall>r \<in> set (loop_rules acc log cfg). only_starts {Reconcile, Plan, PlanReview, CodeReview} r"
proof -
  have "only_starts {Plan, PlanReview} (decideLoop (plan_args acc log cfg))"
    unfolding only_starts_def using decideLoop_starts [of "plan_args acc log cfg"]
    by (auto simp: plan_args_def)
  moreover have "decideLoop (code_args acc log cfg) = None"
    using assms by (simp add: decideLoop_None approved_loop_def code_args_def)
  ultimately show ?thesis
    by (simp add: loop_rules_def only_starts_mono split: option.splits)
qed

lemma leaf_rework:
  assumes dec: "decide_leaf acc log cfg stage = d" and start: "starts_core Implement d"
    and code: "approved_loop (lx_code log)"
  shows "budget_rule acc log cfg stage = None \<and> reroute_rule acc log stage = Some d"
proof -
  let ?tail = "[frozen_restack acc (lx_restack log), entry_restack log, capture_rule log,
      drift_rule acc log cfg, member_rule acc log cfg stage] @ finalize_rules log cfg @ epilogue_rules acc log cfg"
  let ?pre = "loop_rules acc log cfg @ leaf_stage_rules acc log stage @ [budget_rule acc log cfg stage]"
  have pre: "\<not> starts_core Implement x" if "Some x \<in> set ?pre" for x
  proof -
    have "only_starts {} (budget_rule acc log cfg stage)"
      by (simp add: budget_rule_def budget_raise_def split: option.splits)
    then have "\<forall>r \<in> set ?pre. only_starts {Reconcile, Plan, PlanReview, CodeReview} r"
      using loop_rules_no_implement [OF code, of acc cfg] leaf_stage_rules_starts [of acc log stage]
      by (auto intro: only_starts_mono)
    from only_starts_all [OF this that, of Implement] show ?thesis by auto
  qed
  have whole: "loop_rules acc log cfg @ verify_rules acc log cfg stage @ finalize_rules log cfg @ epilogue_rules acc log cfg =
      ?pre @ reroute_rule acc log stage # ?tail"
    by (simp add: verify_rules_def)
  have "first_decision (?pre @ reroute_rule acc log stage # ?tail) (Wait WAwaitingPr) = d"
    using dec unfolding decide_leaf_def whole .
  from first_decision_skip [where P = "starts_core Implement", OF this pre start]
  have rest: "undecided ?pre \<and> first_decision (reroute_rule acc log stage # ?tail) (Wait WAwaitingPr) = d"
    by simp
  show ?thesis
  proof (cases "reroute_rule acc log stage")
    case None
    have "only_starts {Finalize, Reconcile} (finalize_step_decision log cfg s)" for s
      by (simp add: finalize_step_decision_def map_option_case split: option.split)
    then have "\<forall>r \<in> set (finalize_rules log cfg). only_starts {Finalize, Reconcile} r"
      by (auto simp: finalize_rules_def)
    moreover have "\<forall>r \<in> set (epilogue_rules acc log cfg). only_starts {Finalize, Reconcile} r"
      by (auto simp: epilogue_rules_def resume_conflict_rule_def landing_restack_rule_def new_conflict_rule_def
          no_progress_raise_def only_starts_def Let_def split: option.splits pr_lifecycle.splits if_splits)
    moreover have "only_starts {Finalize, Reconcile} (member_rule acc log cfg stage)"
      by (simp add: member_rule_def Let_def split: option.splits list.splits)
    moreover have "only_starts {Finalize, Reconcile} (frozen_restack acc (lx_restack log))"
      by (simp add: frozen_restack_def split: option.splits)
    moreover have "only_starts {Finalize, Reconcile} (entry_restack log)"
      "only_starts {Finalize, Reconcile} (capture_rule log)" "only_starts {Finalize, Reconcile} (drift_rule acc log cfg)"
      by (simp_all add: entry_restack_def capture_rule_def drift_rule_def Let_def)
    ultimately have tail: "\<forall>r \<in> set ?tail. only_starts {Finalize, Reconcile} r" by auto
    have "first_decision ?tail (Wait WAwaitingPr) = d" using rest None by simp
    from first_decision_in [OF this] have "Some d \<in> set ?tail" using start by auto
    from only_starts_all [OF tail this start] show ?thesis by simp
  next
    case (Some x)
    then show ?thesis using rest by simp
  qed
qed

lemma pending_fail_in:
  "pending_fail log = Some v \<Longrightarrow> v \<in> set (all_fails log) \<and> vr_seq v > cycle_boundary log \<and>
     vr_seq v > lx_lastImplementCompletedSeq log"
  by (auto simp: pending_fail_def cycle_results_def all_fails_def split: option.splits if_splits
      dest!: find_last_SomeD)

lemma budget_respected:
  assumes "budget_rule acc log cfg stage = None" and "reroute_rule acc log stage = Some d"
  shows "\<exists>f \<in> set (lx_verifyCompleted log). vr_outcome f = Fail \<and>
    (length (set_of_list (map vr_attempt (all_fails log))) < po_maxVerifyAttempts (cf_policy cfg) \<or>
     raised_after acc (vr_seq f) SrcPolicy (OnPhase (Verify (vr_step f))))"
proof -
  from assms(2) obtain v where v: "pending_fail log = Some v" and set: "settled_stage stage"
    by (auto simp: reroute_rule_def)
  then have "all_fails log \<noteq> []" using pending_fail_in by fastforce
  then obtain f where f: "last_opt (all_fails log) = Some f" "f \<in> set (all_fails log)"
    by (cases "all_fails log" rule: rev_cases) (auto simp: last_opt_def)
  with assms(1) set show ?thesis
    by (intro bexI [of _ f]) (auto simp: budget_rule_def not_le all_fails_def)
qed

section \<open>Members and attempt numbers\<close>

fun action_attempt :: "verify_action \<Rightarrow> nat" where
  "action_attempt (RunCheck _ _ n) = n"
| "action_attempt (RunAgentVerify _ _ n _) = n"

fun action_step :: "verify_action \<Rightarrow> string" where
  "action_step (RunCheck s _ _) = s"
| "action_step (RunAgentVerify s _ _ _) = s"

fun member_attempt :: "member_decision \<Rightarrow> nat" where
  "member_attempt (MemberAction a) = action_attempt a"
| "member_attempt (MemberEvaluate _ n _ _) = n"
| "member_attempt (MemberSkip _ n _ _) = n"

fun member_step :: "member_decision \<Rightarrow> string" where
  "member_step (MemberAction a) = action_step a"
| "member_step (MemberEvaluate s _ _ _) = s"
| "member_step (MemberSkip s _ _ _) = s"

fun members_of :: "decision \<Rightarrow> member_decision list" where
  "members_of (RunVerifyStage ms) = ms"
| "members_of (RunMember m) = [m]"
| "members_of _ = []"

lemma verifier_action_key [simp]:
  "action_attempt (verifier_action cfg step k n fb) = n" "action_step (verifier_action cfg step k n fb) = step"
  by (simp_all add: verifier_action_def split: step_kind.split)

lemma gated_member_key [simp]:
  "action_attempt a = n \<Longrightarrow> member_attempt (gated_member sc step n a) = n"
  "action_step a = step \<Longrightarrow> member_step (gated_member sc step n a) = step"
  by (simp_all add: gated_member_def split: option.split)

lemma memberDecision_key:
  "memberDecision acc log cfg step = Some m \<Longrightarrow> member_attempt m = leaf_attempt log \<and> member_step m = step"
  by (auto simp: memberDecision_def Let_def split: if_splits option.splits)

lemma node_member_key:
  "node_member cfg step n = Inr m \<Longrightarrow> member_attempt m = n \<and> member_step m = step"
  by (auto simp: node_member_def split: option.splits)

lemma node_members_keys:
  "node_members cfg n steps = Inr ms \<Longrightarrow> (\<forall>m \<in> set ms. member_attempt m = n) \<and> map member_step ms = steps"
proof (induction steps arbitrary: ms)
  case (Cons step steps)
  then obtain m ms' where "node_member cfg step n = Inr m" "node_members cfg n steps = Inr ms'" "ms = m # ms'"
    by (auto simp: bind_result_Inr_iff map_result_Inr_iff)
  then show ?case using Cons.IH node_member_key by auto
qed simp

lemma map_filter_keys:
  assumes "\<And>x m. f x = Some m \<Longrightarrow> member_step m = x"
  shows "map member_step (List.map_filter f xs) = filter (\<lambda>x. f x \<noteq> None) xs"
  by (induction xs) (auto simp: List.map_filter_simps assms split: option.splits)

text \<open>Attempt numbers of the log never exceed the maximum the index carries.\<close>

fun attempt_of :: "candidate \<Rightarrow> nat" where
  "attempt_of (CVerifyStarted v) = vt_attempt v"
| "attempt_of (CVerifyCompleted v) = vr_attempt v"
| "attempt_of _ = 0"

definition attempts_inv :: "log_acc \<Rightarrow> bool" where
  "attempts_inv acc \<longleftrightarrow> (\<forall>c \<in> set (la_candidates acc). attempt_of c \<le> la_maxVerifyAttempt acc)"

definition attempts_bounded :: "nat \<Rightarrow> log_index \<Rightarrow> bool" where
  "attempts_bounded n ix \<longleftrightarrow>
     (\<forall>v \<in> set (lx_verifyCompleted ix). vr_attempt v \<le> n) \<and>
     (\<forall>v \<in> set (lx_verifyStarted ix). vt_attempt v \<le> n)"

lemma attempts_replay:
  "attempts_bounded n ix \<Longrightarrow> attempt_of c \<le> n \<Longrightarrow> attempts_bounded n (replay_step b ix c)"
  by (cases c) (auto simp: attempts_bounded_def replay_step_def)

lemma attempts_foldl:
  "attempts_bounded n ix \<Longrightarrow> \<forall>c \<in> set cs. attempt_of c \<le> n \<Longrightarrow> attempts_bounded n (foldl (replay_step b) ix cs)"
  by (induction cs arbitrary: ix) (simp_all add: attempts_replay)

lemma max_attempt_frame [simp]:
  "la_maxVerifyAttempt (note_guidance_start k fb s acc) = la_maxVerifyAttempt acc"
  "la_maxVerifyAttempt (push_candidate c acc) = la_maxVerifyAttempt acc"
  "la_maxVerifyAttempt (note_round l r acc) = la_maxVerifyAttempt acc"
  "la_maxVerifyAttempt (log_session_started p s acc) = la_maxVerifyAttempt acc"
  "la_maxVerifyAttempt (log_reconcile_started rs s acc) = la_maxVerifyAttempt acc"
  "la_maxVerifyAttempt (log_reconcile_completed s acc) = la_maxVerifyAttempt acc"
  by (simp_all add: note_guidance_start_def push_candidate_def note_round_def log_session_started_def
      log_reconcile_started_def log_reconcile_completed_def Let_def
      split: loop_name.split option.split)

lemma max_attempt_loop [simp]: "la_maxVerifyAttempt (log_loop_step l s acc) = la_maxVerifyAttempt acc"
  by (cases l) simp_all

lemma loop_attempts: "c \<in> set (loop_candidates l s) \<Longrightarrow> attempt_of c = 0"
  by (cases l) auto

lemma verify_attempts:
  "la_maxVerifyAttempt acc \<le> la_maxVerifyAttempt (log_verify_step v s acc)"
  "c \<in> set (verify_candidates v s) \<Longrightarrow> attempt_of c \<le> la_maxVerifyAttempt (log_verify_step v s acc)"
  by (cases v; auto simp: Let_def)+

lemma event_max_attempt: "la_maxVerifyAttempt acc \<le> la_maxVerifyAttempt (log_step acc e)"
  unfolding log_step_def Let_def
  by (simp add: verify_attempts
      split: event_body.split spec_ev.split session_ev.split finalize_ev.split pr_ev.split reconcile_ev.split)

lemma event_attempts:
  "c \<in> set (event_candidates e) \<Longrightarrow> attempt_of c \<le> la_maxVerifyAttempt (log_step acc e)"
proof (cases "\<exists>v. ev_body e = EVerify v")
  case True
  moreover assume "c \<in> set (event_candidates e)"
  ultimately show ?thesis by (auto simp: event_candidates_def log_step_def verify_attempts)
next
  case False
  moreover assume "c \<in> set (event_candidates e)"
  ultimately have "attempt_of c = 0"
    by (cases "ev_body e")
       (simp_all add: event_candidates_def loop_attempts split: finalize_ev.splits reconcile_ev.splits)
  then show ?thesis by simp
qed

lemma attempts_step: "attempts_inv acc \<Longrightarrow> attempts_inv (log_step acc e)"
  using event_attempts le_trans [OF _ event_max_attempt] by (auto simp: attempts_inv_def step_candidates)

lemma attempts_fold: "attempts_inv acc \<Longrightarrow> attempts_inv (foldLogIndex acc es)"
  unfolding foldLogIndex_def
  by (rule fold_events_invariant) (simp_all add: attempts_inv_def attempts_step [unfolded attempts_inv_def])

lemma attempts_log: "attempts_bounded (lx_maxVerifyAttemptEver (indexLog es)) (indexLog es)"
proof -
  let ?acc = "foldLogIndex initialLogIndexAcc (filterKnownEvents es)"
  have inv: "attempts_inv ?acc"
    by (rule attempts_fold) (simp add: attempts_inv_def initialLogIndexAcc_def)
  have ever: "lx_maxVerifyAttemptEver (foldl (replay_step b) ix cs) = lx_maxVerifyAttemptEver ix" for b ix cs
  proof (induction cs arbitrary: ix)
    case (Cons c cs)
    then show ?case by (cases c) (simp_all add: replay_step_def on_loop_def split: loop_name.split)
  qed simp
  have "attempts_bounded (la_maxVerifyAttempt ?acc) (blank_index ?acc)"
    by (simp add: attempts_bounded_def blank_index_def Let_def)
  from attempts_foldl [OF this] inv show ?thesis
    by (simp add: indexLog_unfold finishLogIndex_def ever attempts_inv_def)
       (simp add: blank_index_def Let_def)
qed

text \<open>The number a cycle uses: its own newest attempt, or one more than any attempt before.\<close>

lemma cycle_attempt_le:
  assumes "\<forall>a \<in> set as. a \<le> lx_maxVerifyAttemptEver log"
  shows "cycle_attempt log as \<le> lx_maxVerifyAttemptEver log + 1" and "\<forall>a \<in> set as. a \<le> cycle_attempt log as"
  using assms max_from_in [of 0 as] max_from_ge_elem [of _ as 0]
  by (auto simp: cycle_attempt_def intro: le_SucI)

lemma uncancelled_bounded:
  "attempts_bounded n log \<Longrightarrow> attempts_bounded n (uncancelled acc log)"
  by (auto simp: attempts_bounded_def uncancelled_def)

lemma cycle_attempts_bounded:
  "attempts_bounded (lx_maxVerifyAttemptEver log) log \<Longrightarrow> leaf_attempt log \<le> lx_maxVerifyAttemptEver log + 1"
  "attempts_bounded (lx_maxVerifyAttemptEver log) log \<Longrightarrow> node_attempt log c seq \<le> lx_maxVerifyAttemptEver log + 1"
  unfolding leaf_attempt_def node_attempt_def
  by (rule cycle_attempt_le(1); auto simp: attempts_bounded_def cycle_attempts_def cycle_results_def node_results_def)+

section \<open>Where verify members come from\<close>

definition no_members :: "decision option \<Rightarrow> bool" where
  "no_members r \<longleftrightarrow> (\<forall>d. r = Some d \<longrightarrow> members_of d = [])"

lemma no_members_simps [simp]:
  "no_members None" "no_members (Some d) \<longleftrightarrow> members_of d = []"
  "no_members (rule_if b d) \<longleftrightarrow> (b \<longrightarrow> members_of d = [])"
  by (auto simp: no_members_def)

lemma members_of_run [simp]: "members_of (run_core p r fb) = []" "members_of (run_reconcile n) = []"
  by (simp_all add: run_core_def run_reconcile_def)

lemma members_cite [simp]: "members_of (cite_stage_failure acc log cfg d) = members_of d"
  by (cases d) (auto simp: cite_stage_failure_def split: option.splits)

lemma no_members_decideLoop: "no_members (decideLoop ag)"
  by (auto simp: no_members_def decideLoop_def Let_def decide_revise_def agent_raise_def stall_raise_def
      ceiling_raise_def split: if_splits option.splits review_verdict_kind.splits)

lemma no_members_operator: "\<forall>r \<in> set (operator_rules st @ blocking_rules acc log stage). no_members r"
  by (auto simp: operator_rules_def blocking_rules_def no_members_def)

lemma no_members_loop_rules: "\<forall>r \<in> set (loop_rules acc log cfg). no_members r"
  by (simp add: loop_rules_def no_members_decideLoop split: option.splits)

lemma no_members_verify_rules:
  "\<forall>r \<in> set (verify_rules acc log cfg stage). no_members r \<or> r = member_rule acc log cfg stage"
proof -
  have "\<forall>r \<in> set (leaf_stage_rules acc log stage). no_members r"
    by (simp add: leaf_stage_rules_def split: option.splits list.splits)
  moreover have "no_members (budget_rule acc log cfg stage)" "no_members (reroute_rule acc log stage)"
    "no_members (frozen_restack acc (lx_restack log))"
    by (simp_all add: budget_rule_def budget_raise_def reroute_rule_def frozen_restack_def split: option.splits)
  moreover have "no_members (entry_restack log)" "no_members (capture_rule log)" "no_members (drift_rule acc log cfg)"
    by (simp_all add: entry_restack_def capture_rule_def drift_rule_def Let_def)
  ultimately show ?thesis unfolding verify_rules_def by auto
qed

lemma no_members_finalize: "\<forall>r \<in> set (finalize_rules log cfg @ epilogue_rules acc log cfg). no_members r"
proof -
  have "no_members (finalize_step_decision log cfg s)" for s
    by (simp add: finalize_step_decision_def map_option_case split: option.split)
  moreover have "\<forall>r \<in> set (epilogue_rules acc log cfg). no_members r"
    by (auto simp: epilogue_rules_def resume_conflict_rule_def landing_restack_rule_def new_conflict_rule_def
        no_progress_raise_def no_members_def Let_def split: option.splits pr_lifecycle.splits if_splits)
  ultimately show ?thesis by (auto simp: finalize_rules_def)
qed

lemma leaf_members:
  assumes "decide_leaf acc log cfg stage = d" and "members_of d \<noteq> []"
  shows "member_rule acc log cfg stage = Some d"
proof -
  have "first_decision (loop_rules acc log cfg @ verify_rules acc log cfg stage @ finalize_rules log cfg @
      epilogue_rules acc log cfg) (Wait WAwaitingPr) = d"
    using assms(1) by (simp add: decide_leaf_def)
  from first_decision_in [OF this] have "Some d \<in> set (loop_rules acc log cfg @
      verify_rules acc log cfg stage @ finalize_rules log cfg @ epilogue_rules acc log cfg)"
    using assms(2) by auto
  then show ?thesis
    using assms(2) no_members_loop_rules [of acc log cfg] no_members_verify_rules [of acc log cfg stage]
      no_members_finalize [of log cfg acc]
    by (auto simp: no_members_def)
qed

lemma node_members_rule:
  assumes "decide_node acc log cfg stage = Inr d" and "members_of d \<noteq> []"
  shows "\<exists>c seq. cycle_of acc = Some (c, seq) \<and> node_verify acc log cfg stage c seq = Inr d"
proof -
  have "no_members (Some x)" if "List.find (\<lambda>r. r \<noteq> None) (node_stage_rules acc log stage c seq) = Some (Some x)"
    for x c seq
  proof -
    have "\<forall>r \<in> set (node_stage_rules acc log stage c seq). no_members r"
      by (simp add: node_stage_rules_def Let_def split: option.splits)
    then show ?thesis using find_SomeD [OF that] by blast
  qed
  then show ?thesis
    using assms by (auto simp: decide_node_def split: if_splits option.splits)
qed

lemma internal_members:
  assumes "decideNextInternal st log cfg = Inr d" and "members_of d \<noteq> []"
  shows "if ba_kind (bs_acc st) = Some Node
    then \<exists>c seq. cycle_of (bs_acc st) = Some (c, seq) \<and>
      node_verify (bs_acc st) log cfg (build_stage (bs_acc st) log cfg) c seq = Inr d
    else member_rule (bs_acc st) log cfg (build_stage (bs_acc st) log cfg) = Some d"
proof (cases "undecided (operator_rules st @ blocking_rules (bs_acc st) log (build_stage (bs_acc st) log cfg))")
  case True
  then show ?thesis
    using assms node_members_rule leaf_members
    by (simp add: decideNextInternal_rules Let_def del: undecided_simps split: if_splits)
next
  case False
  then have "Some d \<in> set (operator_rules st @ blocking_rules (bs_acc st) log (build_stage (bs_acc st) log cfg))"
    using assms(1) first_decision_of_stuck [OF False, of "Wait WDone"]
    by (simp add: decideNextInternal_rules Let_def del: undecided_simps set_append)
  then show ?thesis
    using assms(2) no_members_operator [of st "bs_acc st" log "build_stage (bs_acc st) log cfg"]
    by (auto simp: no_members_def)
qed

text \<open>The number and the steps of the members of a decision.\<close>

definition shared_attempt :: "build_acc \<Rightarrow> log_index \<Rightarrow> nat" where
  "shared_attempt acc log =
     (if ba_kind acc = Some Node
      then (case cycle_of acc of Some (c, seq) \<Rightarrow> node_attempt log c seq | None \<Rightarrow> 0)
      else leaf_attempt log)"

lemma in_map_filter: "m \<in> set (List.map_filter f xs) \<Longrightarrow> \<exists>x \<in> set xs. f x = Some m"
  by (auto simp: List.map_filter_def)

lemma member_rule_attempts:
  assumes rule: "member_rule acc log cfg stage = Some d" and m: "m \<in> set (members_of d)"
  shows "member_attempt m = leaf_attempt log"
proof -
  have "\<exists>xs. m \<in> set (List.map_filter (memberDecision acc log cfg) xs)"
  proof (cases stage)
    case None
    show ?thesis
    proof (cases "List.map_filter (memberDecision acc log cfg) (vy_steps (cf_verify cfg))")
      case Nil
      then show ?thesis using rule None by (simp add: member_rule_def)
    next
      case (Cons x ms)
      then have "m = x" using rule None m by (auto simp: member_rule_def)
      then show ?thesis using Cons by (intro exI [of _ "vy_steps (cf_verify cfg)"]) simp
    qed
  next
    case (Some s)
    then show ?thesis
      using rule m by (intro exI [of _ "filter (\<lambda>step. \<not> heldVerifier acc step) (as_unfinished s)"])
        (auto simp: member_rule_def Let_def split: if_splits)
  qed
  then obtain step where "memberDecision acc log cfg step = Some m" by (auto dest: in_map_filter)
  then show ?thesis by (simp add: memberDecision_key)
qed

lemma node_verify_attempts:
  assumes "node_verify acc log cfg stage c seq = Inr d" and "m \<in> set (members_of d)"
  shows "member_attempt m = node_attempt log c seq"
  using assms node_members_keys node_member_key
  by (auto simp: node_verify_def Let_def map_result_Inr_iff split: option.splits list.splits if_splits)

lemma internal_attempts:
  assumes "decideNextInternal st log cfg = Inr d" and "m \<in> set (members_of d)"
  shows "member_attempt m = shared_attempt (bs_acc st) log"
proof -
  have "members_of d \<noteq> []" using assms(2) by auto
  from internal_members [OF assms(1) this] show ?thesis
    using member_rule_attempts node_verify_attempts assms(2)
    by (auto simp: shared_attempt_def split: if_splits)
qed

text \<open>A stage decision runs the unfinished members of the active stage that no escalation holds.\<close>

lemma internal_stage_steps:
  assumes "decideNextInternal st log cfg = Inr (RunVerifyStage ms)" and "ms \<noteq> []"
  shows "\<exists>s. build_stage (bs_acc st) log cfg = Some s \<and>
    (\<forall>step \<in> set (map member_step ms). step \<in> set (as_unfinished s) \<and> \<not> heldVerifier (bs_acc st) step) \<and>
    (distinct (as_unfinished s) \<longrightarrow> distinct (map member_step ms))"
proof -
  let ?s = "build_stage (bs_acc st) log cfg"
  have leaf: ?thesis if rule: "member_rule (bs_acc st) log cfg ?s = Some (RunVerifyStage ms)"
  proof -
    obtain s where s: "?s = Some s"
      using rule by (auto simp: member_rule_def split: option.splits list.splits)
    have "ms = List.map_filter (memberDecision (bs_acc st) log cfg)
        (filter (\<lambda>step. \<not> heldVerifier (bs_acc st) step) (as_unfinished s))"
      using rule by (simp add: member_rule_def s Let_def split: if_splits)
    then have "map member_step ms = filter (\<lambda>x. memberDecision (bs_acc st) log cfg x \<noteq> None)
        (filter (\<lambda>step. \<not> heldVerifier (bs_acc st) step) (as_unfinished s))"
      using map_filter_keys [of "memberDecision (bs_acc st) log cfg"] memberDecision_key by metis
    then show ?thesis by (simp only: s set_filter) auto
  qed
  have node: ?thesis if rule: "node_verify (bs_acc st) log cfg ?s c seq = Inr (RunVerifyStage ms)" for c seq
  proof -
    obtain s where s: "?s = Some s"
      using rule by (auto simp: node_verify_def Let_def map_result_Inr_iff split: option.splits list.splits)
    have "map member_step ms = node_pending (bs_acc st) (node_results log c seq) (Some s) (as_unfinished s)"
      using rule node_members_keys
      by (auto simp: node_verify_def s Let_def map_result_Inr_iff split: if_splits)
    then show ?thesis by (simp only: s node_pending_def set_filter) auto
  qed
  show ?thesis
    using internal_members [OF assms(1)] assms(2) leaf node by (auto split: if_splits)
qed

lemma shared_attempt_bounded:
  "attempts_bounded (lx_maxVerifyAttemptEver log) log \<Longrightarrow> shared_attempt acc log \<le> lx_maxVerifyAttemptEver log + 1"
  using cycle_attempts_bounded by (simp add: shared_attempt_def split: option.split)

section \<open>Totality\<close>

text \<open>What the configuration schema cross-validates: every listed step has a table entry.\<close>

definition complete_config :: "config \<Rightarrow> bool" where
  "complete_config cfg \<longleftrightarrow>
     set (vy_steps (cf_verify cfg)) \<union> set (concat (verifyStages (cf_verify cfg)))
       \<subseteq> dom (map_of (vy_stepConfigs (cf_verify cfg)))"

lemma node_member_total:
  "step \<in> dom (map_of (vy_stepConfigs (cf_verify cfg))) \<Longrightarrow> \<exists>m. node_member cfg step n = Inr m"
  by (auto simp: node_member_def)

lemma node_members_total:
  "set steps \<subseteq> dom (map_of (vy_stepConfigs (cf_verify cfg))) \<Longrightarrow> \<exists>ms. node_members cfg n steps = Inr ms"
proof (induction steps)
  case (Cons step steps)
  then obtain m ms where "node_member cfg step n = Inr m" "node_members cfg n steps = Inr ms"
    using node_member_total by (metis insert_subset list.simps(15))
  then show ?case by simp
qed simp

lemma active_unfinished:
  assumes "activeVerifyStage config results st since = Some stage"
  shows "set (as_unfinished stage) \<subseteq> set (concat (verifyStages config))"
proof -
  obtain steps where steps: "steps \<in> set (verifyStages config)" and stage: "stage = stage_view config results st since steps"
    using assms find_SomeD by (fastforce simp: activeVerifyStage_def)
  have "set (as_unfinished stage) \<subseteq> set steps" unfolding stage by (auto simp: stage_view_def Let_def)
  with steps show ?thesis by auto
qed

lemma build_stage_unfinished:
  "build_stage acc log cfg = Some s \<Longrightarrow> set (as_unfinished s) \<subseteq> set (concat (verifyStages (cf_verify cfg)))"
  unfolding build_stage_def using active_unfinished by (meson option.distinct(1))

lemma node_verify_total:
  assumes "complete_config cfg" and "stage = build_stage acc log cfg"
  shows "\<exists>d. node_verify acc log cfg stage c seq = Inr d"
proof (cases stage)
  case None
  show ?thesis
  proof (cases "node_pending acc (node_results log c seq) None (vy_steps (cf_verify cfg))")
    case (Cons step rest)
    then have "step \<in> set (node_pending acc (node_results log c seq) None (vy_steps (cf_verify cfg)))" by simp
    then have "step \<in> set (vy_steps (cf_verify cfg))" by (simp add: node_pending_def)
    then obtain m where "node_member cfg step (node_attempt log c seq) = Inr m"
      using assms(1) node_member_total by (metis Un_iff complete_config_def subsetD)
    then show ?thesis by (simp add: node_verify_def None Cons)
  qed (simp add: node_verify_def None)
next
  case (Some s)
  let ?steps = "node_pending acc (node_results log c seq) stage (as_unfinished s)"
  have "set ?steps \<subseteq> dom (map_of (vy_stepConfigs (cf_verify cfg)))"
  proof -
    have "set ?steps \<subseteq> set (as_unfinished s)" by (auto simp: node_pending_def)
    also have "\<dots> \<subseteq> set (concat (verifyStages (cf_verify cfg)))"
      using build_stage_unfinished assms(2) Some by metis
    finally show ?thesis using assms(1) unfolding complete_config_def by blast
  qed
  from node_members_total [OF this, of "node_attempt log c seq"] show ?thesis
    by (auto simp: node_verify_def Some Let_def)
qed

lemma decideNext_total:
  assumes "reduceBuild es = Inr st" and "complete_config cfg"
  shows "\<exists>d. decideNext es cfg = Inr d"
proof -
  let ?ix = "uncancelled (bs_acc st) (indexLog es)"
  have node: "\<exists>d. decide_node (bs_acc st) ?ix cfg (build_stage (bs_acc st) ?ix cfg) = Inr d"
    using node_verify_total [OF assms(2) refl] by (simp add: decide_node_def split: option.split)
  have "\<exists>d. decideNextInternal st ?ix cfg = Inr d"
    using node by (simp add: decideNextInternal_def Let_def split: option.split)
  then show ?thesis by (auto simp: decideNext_def decideNextFromFacts_def assms(1))
qed

section \<open>Budgets\<close>

text \<open>The routing of a revise verdict past its two limits.\<close>

lemma decide_revise_produces:
  assumes "starts_core p (decide_revise ag v)"
  shows "p = ag_producer ag \<and>
    (liveChains (stalledChains (lo_findingsByRound (ag_loop ag)) (po_stallRounds (ag_policy ag))
       (Some (ag_dismissed ag))) (lo_findingsByRound (ag_loop ag)) (vd_round v) = [] \<or>
     ag_raisedAfter ag (vd_seq v) SrcStall (OnPhase (Core (ag_reviewer ag)))) \<and>
    (review_rounds (ag_loop ag) < (case ag_ceiling ag of Some n \<Rightarrow> n | None \<Rightarrow> po_maxReviewRounds (ag_policy ag)) \<or>
     ag_raisedAfter ag (vd_seq v) SrcPolicy (OnPhase (Core (ag_reviewer ag)))) \<and>
    decide_revise ag v = run_core (ag_producer ag) (lo_maxRound (ag_loop ag) + 1) (ag_feedback ag)"
proof -
  have deep: "deepest cs = None \<longleftrightarrow> cs = []" for cs by (simp add: deepest_def split: list.split)
  show ?thesis
    using assms
    by (simp add: decide_revise_def Let_def stall_raise_def ceiling_raise_def deep not_le
        split: if_splits option.splits)
qed

lemma failed_attempts_card:
  "length (set_of_list (map vr_attempt (all_fails log))) =
   card (vr_attempt ` {v \<in> set (lx_verifyCompleted log). vr_outcome v = Fail})"
proof -
  have "length (set_of_list (map vr_attempt (all_fails log))) = card (set (map vr_attempt (all_fails log)))"
    by (metis distinct_card distinct_set_of_list set_set_of_list)
  then show ?thesis by (simp add: all_fails_def)
qed

end
