(* ===== verification/EngineProperties.thy ===== *)
theory EngineProperties
  imports EnginePhases ReducerContract
begin

text \<open>
  The properties of the engine's decisions, over whole logs: when work may start at all, the order of the
  phases, the verify barrier, the budgets, and the agreement of the log-driven review loop with the
  in-process one.
\<close>

section \<open>A sample build\<close>

abbreviation log_event :: "nat \<Rightarrow> event_body \<Rightarrow> ab_event" where
  "log_event n b \<equiv> \<lparr>ev_seq = n, ev_ts = 0, ev_actor = Kernel, ev_body = b\<rparr>"

abbreviation a_verdict :: "nat \<Rightarrow> review_verdict_kind \<Rightarrow> finding list \<Rightarrow> verdict_payload" where
  "a_verdict r v fs \<equiv> \<lparr>vp_round = r, vp_verdict = v, vp_findings = fs,
     vp_artifact = \<lparr>art_kind = ''plan'', art_rev = r\<rparr>, vp_reason = None\<rparr>"

abbreviation a_policy :: policy where
  "a_policy \<equiv> \<lparr>po_stallRounds = 3, po_maxVerifyAttempts = 2, po_maxReconcileAttempts = 2,
     po_maxReviewRounds = 5\<rparr>"

abbreviation a_step :: "string \<Rightarrow> verify_step_config" where
  "a_step c \<equiv> \<lparr>sc_kind = CheckStep c, sc_failFast = None, sc_afterReconcile = None, sc_paths = None,
     sc_always = None\<rparr>"

abbreviation a_config :: "steps_entry list \<Rightarrow> config" where
  "a_config entries \<equiv> \<lparr>cf_policy = a_policy,
     cf_verify = verify_section entries [(''lint'', a_step ''lint''), (''test'', a_step ''test'')] False,
     cf_finalize = \<lparr>fz_steps = [], fz_stepConfigs = []\<rparr>, cf_commands = [(''lint'', ''eslint'')]\<rparr>"

abbreviation done_with :: "verify_completed \<Rightarrow> event_body" where
  "done_with c \<equiv> EVerify (VerifyCompleted c)"

abbreviation run_of :: "string \<Rightarrow> nat \<Rightarrow> verify_base" where
  "run_of step n \<equiv> \<lparr>vb_baseSha = None, vb_headSha = None, vb_restackId = None, vb_step = step, vb_attempt = n\<rparr>"

abbreviation reviewed_log :: "ab_event list" where
  "reviewed_log \<equiv>
     [log_event 1 (ESpec (SpecImported \<lparr>art_kind = ''spec'', art_rev = 1\<rparr>)),
      log_event 2 (ELoop (PlanReviewVerdict (a_verdict 1 Approve []))),
      log_event 3 (ELoop (CodeReviewVerdict (a_verdict 1 Approve [])))]"

abbreviation plan_reviewed_log :: "ab_event list" where
  "plan_reviewed_log \<equiv> take 2 reviewed_log"

abbreviation verified_log :: "ab_event list" where
  "verified_log \<equiv> reviewed_log @ [log_event 4 (done_with (OutcomePass (run_of ''lint'' 1) None))]"

abbreviation failed_log :: "ab_event list" where
  "failed_log \<equiv> reviewed_log @ [log_event 4 (done_with (OutcomeFail (run_of ''lint'' 1) None))]"

abbreviation started :: "string \<Rightarrow> nat \<Rightarrow> event_body" where
  "started step n \<equiv> EVerify (VerifyStarted \<lparr>vs_baseSha = None, vs_headSha = None, vs_restackId = None,
     vs_step = step, vs_attempt = n, vs_feedback = None\<rparr>)"

abbreviation staged_log :: "ab_event list" where
  "staged_log \<equiv> reviewed_log @ [log_event 4 (started ''lint'' 1)]"

abbreviation staged_config :: config where
  "staged_config \<equiv> a_config [Group [''lint'', ''test'']]"

abbreviation merged_log :: "ab_event list" where
  "merged_log \<equiv> [log_event 1 (EBuild (BuildCompleted Merged))]"

text \<open>The decisions over the samples, evaluated together.\<close>

definition decides :: "ab_event list \<Rightarrow> config \<Rightarrow> (decision \<Rightarrow> bool) \<Rightarrow> bool" where
  "decides es cfg P = (case decideNext es cfg of Inl _ \<Rightarrow> False | Inr d \<Rightarrow> P d)"

definition reduces :: "ab_event list \<Rightarrow> (build_state \<Rightarrow> bool) \<Rightarrow> bool" where
  "reduces es P = (case reduceBuild es of Inl _ \<Rightarrow> False | Inr st \<Rightarrow> P st)"

fun runs_stage_of :: "nat \<Rightarrow> decision \<Rightarrow> bool" where
  "runs_stage_of n (RunVerifyStage ms) = (length ms = n)"
| "runs_stage_of n _ = False"

lemma sample_runs:
  "decides reviewed_log (a_config [Single ''lint'']) works \<and>
   reduces merged_log ended \<and>
   decides (merged_log @ [log_event 2 (EBuild BuildPaused)]) (a_config []) (\<lambda>_. True) \<and>
   decides plan_reviewed_log (a_config []) (starts_core Implement) \<and>
   decides verified_log (a_config [Single ''lint'']) (starts_core Finalize) \<and>
   decides failed_log (a_config [Single ''lint'']) (starts_core Implement) \<and>
   lo_maxRound (lx_code (indexLog failed_log)) = 1 \<and>
   Option.bind (map_of (lo_rounds (lx_code (indexLog failed_log))) 1) ro_verdict =
     Some (verdict_of (a_verdict 1 Approve []) 3) \<and>
   decides staged_log staged_config (runs_stage_of 2)"
  by code_simp

lemma decidesD: "decides es cfg P \<Longrightarrow> \<exists>d. decideNext es cfg = Inr d \<and> P d"
  by (auto simp: decides_def split: sum.splits)

lemma reducesD: "reduces es P \<Longrightarrow> \<exists>st. reduceBuild es = Inr st \<and> P st"
  by (auto simp: reduces_def split: sum.splits)

lemma sample_stage: "\<exists>ms. decideNext staged_log staged_config = Inr (RunVerifyStage ms) \<and> length ms = 2"
proof -
  obtain d where "decideNext staged_log staged_config = Inr d" "runs_stage_of 2 d"
    using sample_runs decidesD by blast
  then show ?thesis by (cases d) simp_all
qed

section \<open>When work may start\<close>



text \<open>C8: an ended build is never worked on again. Once a log reduces to a done or aborted build, the
  decision over any longer log that reduces is to wait.\<close>

theorem ended_build_never_works:
  assumes "reduceBuild xs = Inr s" and "ended s" and "decideNext (xs @ ys) cfg = Inr d"
  shows "d \<in> {Wait WMixedVersion, Wait WAborted, Wait WDone}"
proof -
  obtain st d0 where st: "reduceBuild (xs @ ys) = Inr st"
    and d0: "decideNextInternal st (uncancelled (bs_acc st) (indexLog (xs @ ys))) cfg = Inr d0"
    and d: "d = cite_stage_failure (bs_acc st) (indexLog (xs @ ys)) cfg d0"
    using decideNext_cases [OF assms(3)] .
  have "ended st" by (rule ended_final [OF assms(1,2) st])
  then have "d0 \<in> {Wait WMixedVersion, Wait WAborted, Wait WDone}"
    using d0 by (auto simp: ended_def decideNextInternal_def operator_rules_def rule_if_def Let_def split: if_splits)
  then show ?thesis by (auto simp: d cite_stage_failure_def)
qed

theorem ended_build_never_works_witness:
  "\<exists>d. decideNext (merged_log @ [log_event 2 (EBuild BuildPaused)]) (a_config []) = Inr d \<and>
     d \<in> {Wait WMixedVersion, Wait WAborted, Wait WDone}"
proof -
  obtain s where "reduceBuild merged_log = Inr s" "ended s" using sample_runs reducesD by blast
  moreover obtain d where "decideNext (merged_log @ [log_event 2 (EBuild BuildPaused)]) (a_config []) = Inr d"
    using sample_runs decidesD by blast
  ultimately show ?thesis using ended_build_never_works by blast
qed

section \<open>The order of the phases\<close>



text \<open>C10: nothing is finalized unverified. A finalize phase starts only when every configured verify step
  has a pass or a skip in the current verify cycle, that is after the latest code approval, reconcile
  and configuration boundary, not counting results of cancelled members, and when no failure of the
  cycle still waits for an implement round.\<close>

theorem finalize_needs_verification:
  assumes "decideNext es cfg = Inr d" and "starts_core Finalize d"
  shows "\<exists>st. reduceBuild es = Inr st \<and>
    (let ix = uncancelled (bs_acc st) (indexLog es) in
     pending_fail ix = None \<and>
     (\<forall>step \<in> set (vy_steps (cf_verify cfg)) \<inter> dom (map_of (vy_stepConfigs (cf_verify cfg))).
        \<exists>v \<in> set (lx_verifyCompleted ix). vr_step v = step \<and> satisfied v \<and> vr_seq v > cycle_boundary ix))"
proof -
  obtain st d0 where st: "reduceBuild es = Inr st"
    and d0: "decideNextInternal st (uncancelled (bs_acc st) (indexLog es)) cfg = Inr d0"
    and d: "d = cite_stage_failure (bs_acc st) (indexLog es) cfg d0"
    using decideNext_cases [OF assms(1)] .
  let ?ix = "uncancelled (bs_acc st) (indexLog es)"
  have fin: "starts_core Finalize d0" using assms(2) d by simp
  then have "decide_leaf (bs_acc st) ?ix cfg (build_stage (bs_acc st) ?ix cfg) = d0"
    using internal_starts [OF d0] by simp
  from leaf_finalize [OF this fin] have pend: "pending_fail ?ix = None"
    and steps: "\<And>step. step \<in> set (vy_steps (cf_verify cfg)) \<Longrightarrow> memberDecision (bs_acc st) ?ix cfg step = None"
    by auto
  have "\<exists>v \<in> set (lx_verifyCompleted ?ix). vr_step v = step \<and> satisfied v \<and> vr_seq v > cycle_boundary ?ix"
    if "step \<in> set (vy_steps (cf_verify cfg))" "step \<in> dom (map_of (vy_stepConfigs (cf_verify cfg)))" for step
    using steps [OF that(1)] that(2)
    unfolding memberDecision_None cycle_results_def by fastforce
  with st pend show ?thesis by (auto simp: Let_def)
qed

theorem finalize_needs_verification_witness:
  "\<exists>st. reduceBuild verified_log = Inr st \<and>
    (\<exists>v \<in> set (lx_verifyCompleted (uncancelled (bs_acc st) (indexLog verified_log))). vr_step v = ''lint'' \<and> satisfied v)"
proof -
  let ?cfg = "a_config [Single ''lint'']"
  obtain d where d: "decideNext verified_log ?cfg = Inr d" "starts_core Finalize d"
    using sample_runs decidesD by blast
  have "''lint'' \<in> set (vy_steps (cf_verify ?cfg)) \<inter> dom (map_of (vy_stepConfigs (cf_verify ?cfg)))"
    by (simp add: verify_section_def)
  with finalize_needs_verification [OF d] show ?thesis by (fastforce simp: Let_def)
qed

section \<open>The verify stage\<close>

text \<open>one attempt number per cycle. All verify members a decision starts carry one attempt number,
  which exceeds the greatest attempt number of the whole log by one at most.\<close>

lemma members_share_attempt:
  assumes "decideNext es cfg = Inr d"
  shows "\<exists>n \<le> lx_maxVerifyAttemptEver (indexLog es) + 1. \<forall>m \<in> set (members_of d). member_attempt m = n"
proof -
  obtain st d0 where d0: "decideNextInternal st (uncancelled (bs_acc st) (indexLog es)) cfg = Inr d0"
    and d: "d = cite_stage_failure (bs_acc st) (indexLog es) cfg d0"
    using decideNext_cases [OF assms(1)] .
  let ?ix = "uncancelled (bs_acc st) (indexLog es)"
  have "attempts_bounded (lx_maxVerifyAttemptEver ?ix) ?ix"
    using uncancelled_bounded [OF attempts_log] by simp
  from shared_attempt_bounded [OF this, of "bs_acc st"] show ?thesis
    using internal_attempts [OF d0] by (intro exI [of _ "shared_attempt (bs_acc st) ?ix"]) (simp add: d)
qed

lemma members_share_attempt_witness:
  "\<exists>ms n. decideNext staged_log staged_config = Inr (RunVerifyStage ms) \<and> length ms = 2 \<and>
     (\<forall>m \<in> set ms. member_attempt m = n)"
proof -
  obtain ms where ms: "decideNext staged_log staged_config = Inr (RunVerifyStage ms)" "length ms = 2"
    using sample_stage by blast
  with members_share_attempt [OF ms(1)] show ?thesis by auto
qed

text \<open>a stage decision stays inside the barrier. The members it starts belong to the active stage,
  the first stage that is not done, are unfinished there, and none is held by an open question of the
  session that runs it.\<close>

lemma stage_members_in_barrier:
  assumes "decideNext es cfg = Inr (RunVerifyStage ms)" and "m \<in> set ms"
  shows "\<exists>st s before after. reduceBuild es = Inr st \<and> verifyStages (cf_verify cfg) = before @ as_stage s # after \<and>
    build_stage (bs_acc st) (uncancelled (bs_acc st) (indexLog es)) cfg = Some s \<and>
    member_step m \<in> set (as_unfinished s) \<inter> set (as_stage s) \<and> \<not> heldVerifier (bs_acc st) (member_step m)"
proof -
  obtain st d0 where st: "reduceBuild es = Inr st"
    and d0: "decideNextInternal st (uncancelled (bs_acc st) (indexLog es)) cfg = Inr d0"
    and d: "RunVerifyStage ms = cite_stage_failure (bs_acc st) (indexLog es) cfg d0"
    using decideNext_cases [OF assms(1)] .
  let ?ix = "uncancelled (bs_acc st) (indexLog es)"
  from d have "d0 = RunVerifyStage ms"
    by (cases d0) (auto simp: cite_stage_failure_def split: if_splits option.splits)
  moreover have "ms \<noteq> []" using assms(2) by auto
  ultimately obtain s where s: "build_stage (bs_acc st) ?ix cfg = Some s"
    and m: "member_step m \<in> set (as_unfinished s)" "\<not> heldVerifier (bs_acc st) (member_step m)"
    using internal_stage_steps [of st ?ix cfg ms] d0 assms(2) by auto
  obtain results since where
    act: "activeVerifyStage (cf_verify cfg) results (ba_verifyStage (bs_acc st)) since = Some s"
    using s by (auto simp: build_stage_def split: if_splits)
  from activeVerifyStage_barrier [OF this] obtain before after where
    "verifyStages (cf_verify cfg) = before @ as_stage s # after" by blast
  moreover have "set (as_unfinished s) \<subseteq> set (as_stage s)"
    using act by (auto simp: activeVerifyStage_def stage_view_def Let_def)
  ultimately show ?thesis using st s m by blast
qed

lemma stage_members_in_barrier_witness:
  "\<exists>m st s. reduceBuild staged_log = Inr st \<and>
     build_stage (bs_acc st) (uncancelled (bs_acc st) (indexLog staged_log)) staged_config = Some s \<and>
     member_step m \<in> set (as_unfinished s)"
proof -
  obtain ms where ms: "decideNext staged_log staged_config = Inr (RunVerifyStage ms)" "length ms = 2"
    using sample_stage by blast
  then have "hd ms \<in> set ms" by (cases ms) simp_all
  from stage_members_in_barrier [OF ms(1) this] show ?thesis by blast
qed

section \<open>Budgets\<close>

text \<open>C13: the verify budget stands before rework. Once the code review has approved, another implement
  round starts only for a verify failure, and only while fewer cycles have failed than the policy
  allows or the human has already been asked about a failure since.\<close>

theorem verify_budget_guards_rework:
  assumes "decideNext es cfg = Inr d" and "starts_core Implement d" and "approved_loop (lx_code (indexLog es))"
  shows "\<exists>st. reduceBuild es = Inr st \<and>
    (let rs = lx_verifyCompleted (uncancelled (bs_acc st) (indexLog es)) in
     \<exists>f \<in> set rs. vr_outcome f = Fail \<and>
       (card (vr_attempt ` {v \<in> set rs. vr_outcome v = Fail}) < po_maxVerifyAttempts (cf_policy cfg) \<or>
        raised_after (bs_acc st) (vr_seq f) SrcPolicy (OnPhase (Verify (vr_step f)))))"
proof -
  obtain st d0 where st: "reduceBuild es = Inr st"
    and d0: "decideNextInternal st (uncancelled (bs_acc st) (indexLog es)) cfg = Inr d0"
    and d: "d = cite_stage_failure (bs_acc st) (indexLog es) cfg d0"
    using decideNext_cases [OF assms(1)] .
  let ?ix = "uncancelled (bs_acc st) (indexLog es)"
  have start: "starts_core Implement d0" using assms(2) d by simp
  then have "decide_leaf (bs_acc st) ?ix cfg (build_stage (bs_acc st) ?ix cfg) = d0"
    using internal_starts [OF d0] by simp
  from leaf_rework [OF this start] assms(3)
  have "budget_rule (bs_acc st) ?ix cfg (build_stage (bs_acc st) ?ix cfg) = None"
    and "reroute_rule (bs_acc st) ?ix (build_stage (bs_acc st) ?ix cfg) = Some d0" by simp_all
  from budget_respected [OF this] st show ?thesis
    unfolding failed_attempts_card Let_def by blast
qed

lemma failed_log_approved: "approved_loop (lx_code (indexLog failed_log))"
  using sample_runs by (simp add: approved_loop_def verdict_of_def)

theorem verify_budget_guards_rework_witness:
  "\<exists>st. reduceBuild failed_log = Inr st \<and>
     (\<exists>f \<in> set (lx_verifyCompleted (uncancelled (bs_acc st) (indexLog failed_log))). vr_outcome f = Fail)"
proof -
  obtain d where "decideNext failed_log (a_config [Single ''lint'']) = Inr d" "starts_core Implement d"
    using sample_runs decidesD by blast
  from verify_budget_guards_rework [OF this failed_log_approved] show ?thesis
    unfolding Let_def by blast
qed

text \<open>the review budget stands before rework. After a revise verdict of the newest round, the next
  producer round starts only if no live chain of findings has stalled or that stall was raised, and
  fewer rounds were reviewed than the ceiling allows or that exhaustion was raised; it is the round
  after the newest one.\<close>

lemma review_budget_guards_rework:
  assumes "decideLoop ag = Some d" and "starts_core (ag_producer ag) d" and "ag_producer ag \<noteq> ag_reviewer ag"
    and "lo_maxRound (ag_loop ag) \<noteq> 0"
    and "ro_verdict (round_at (ag_loop ag) (lo_maxRound (ag_loop ag))) = Some v" and "vd_verdict v = Revise"
  shows "(liveChains (stalledChains (lo_findingsByRound (ag_loop ag)) (po_stallRounds (ag_policy ag))
       (Some (ag_dismissed ag))) (lo_findingsByRound (ag_loop ag)) (vd_round v) = [] \<or>
     ag_raisedAfter ag (vd_seq v) SrcStall (OnPhase (Core (ag_reviewer ag)))) \<and>
    (review_rounds (ag_loop ag) < (case ag_ceiling ag of Some n \<Rightarrow> n | None \<Rightarrow> po_maxReviewRounds (ag_policy ag)) \<or>
     ag_raisedAfter ag (vd_seq v) SrcPolicy (OnPhase (Core (ag_reviewer ag)))) \<and>
    d = run_core (ag_producer ag) (lo_maxRound (ag_loop ag) + 1) (ag_feedback ag)"
proof -
  have "Option.bind (map_of (lo_rounds (ag_loop ag)) (lo_maxRound (ag_loop ag))) ro_verdict = Some v"
    using assms(5) by (simp add: round_at_def empty_round_def split: option.splits)
  then have "d = decide_revise ag v" using assms(1,4,6) by (simp add: decideLoop_def Let_def)
  with decide_revise_produces [of "ag_producer ag" ag v] assms(2) show ?thesis by simp
qed

abbreviation revised_loop_args :: loop_args where
  "revised_loop_args \<equiv> \<lparr>ag_loop = lx_plan (indexLog [log_event 1 (ELoop (PlanReviewVerdict (a_verdict 1 Revise [])))]),
     ag_producer = Plan, ag_reviewer = PlanReview, ag_policy = a_policy, ag_ceiling = None, ag_dismissed = [],
     ag_raisedAfter = (\<lambda>_ _ _. False), ag_feedback = None\<rparr>"

lemma review_budget_guards_rework_witness:
  "\<exists>d. decideLoop revised_loop_args = Some d \<and> d = run_core Plan 2 None"
proof -
  let ?v = "verdict_of (a_verdict 1 Revise []) 1"
  have "decideLoop revised_loop_args = Some (run_core Plan 2 None) \<and>
      lo_maxRound (ag_loop revised_loop_args) = 1 \<and>
      ro_verdict (round_at (ag_loop revised_loop_args) 1) = Some ?v \<and> vd_verdict ?v = Revise"
    by code_simp
  then show ?thesis
    using review_budget_guards_rework [of revised_loop_args "run_core Plan 2 None" ?v] by simp
qed

section \<open>The engine is total\<close>



section \<open>One loop, two drivers\<close>



end
