(* ===== verification/AutoMerge.thy ===== *)
theory AutoMerge
  imports Reducer
begin

text \<open>
  \<^verbatim>\<open>packages/core/src/kernel/auto-merge.ts\<close>: how an enable command is routed, when one is pending, and
  which deferral observation of a build is still current. The ledger keeps only the facts the
  currency predicate reads and one barrier per run of other events; \<open>current_in_log\<close> says over the
  plain log what the ledger computes.
\<close>

section \<open>Routing an enable\<close>

datatype merge_state_status =
    BEHIND | BLOCKED | CLEAN | DIRTY | DRAFT | HAS_HOOKS | UNKNOWN | UNSTABLE

datatype gate_presence = GatePresent | GateAbsent

datatype enable_disposition = EnableNative | EnableDirect | EnableDeferred | EnableError string

definition draft_error :: enable_disposition where
  "draft_error = EnableError ''GitHub reports the PR as DRAFT; Autobuild only finalizes ready PRs''"

fun classifyAutoMergeEnable :: "merge_state_status \<Rightarrow> gate_presence \<Rightarrow> enable_disposition" where
  "classifyAutoMergeEnable BEHIND g = (if g = GatePresent then EnableNative else EnableDirect)"
| "classifyAutoMergeEnable BLOCKED g =
     (if g = GatePresent then EnableNative
      else EnableError ''GitHub reports the PR BLOCKED despite no discovered merge-blocking gate'')"
| "classifyAutoMergeEnable CLEAN g = (if g = GatePresent then EnableNative else EnableDirect)"
| "classifyAutoMergeEnable DIRTY g = EnableDeferred"
| "classifyAutoMergeEnable DRAFT g = draft_error"
| "classifyAutoMergeEnable HAS_HOOKS g = EnableNative"
| "classifyAutoMergeEnable UNKNOWN g = (if g = GatePresent then EnableNative else EnableDeferred)"
| "classifyAutoMergeEnable UNSTABLE g = (if g = GatePresent then EnableNative else EnableDirect)"

section \<open>Pending commands\<close>

text \<open>The desired state whose application the forge has not acknowledged, with its command seq.\<close>

definition pendingAutoMerge :: "auto_merge \<Rightarrow> (bool \<times> nat) option" where
  "pendingAutoMerge m =
     (case am_commandSeq m of
        None \<Rightarrow> None
      | Some c \<Rightarrow> if am_applied m = Some (am_requested m, c) then None else Some (am_requested m, c))"

definition autoMergeApplicationType :: "bool \<Rightarrow> string" where
  "autoMergeApplicationType enabled =
     (if enabled then ''pr.auto-merge-enabled'' else ''pr.auto-merge-disabled'')"

definition DEFERRAL_REF_PREFIX :: string where
  "DEFERRAL_REF_PREFIX = ''auto-merge-gate:pr:''"

definition autoMergeDeferralRef :: "nat \<Rightarrow> nat \<Rightarrow> string" where
  "autoMergeDeferralRef pr cmd = DEFERRAL_REF_PREFIX @ nat_text pr @ '':command:'' @ nat_text cmd"

section \<open>The ledger\<close>

datatype ledger_entry =
    LBarrier nat | LObservation nat observation | LFinalized nat sha | LTerminal nat | LReconciled nat

fun deferralEntrySeq :: "ledger_entry \<Rightarrow> nat" where
  "deferralEntrySeq (LBarrier s) = s"
| "deferralEntrySeq (LObservation s _) = s"
| "deferralEntrySeq (LFinalized s _) = s"
| "deferralEntrySeq (LTerminal s) = s"
| "deferralEntrySeq (LReconciled s) = s"

definition refs_of :: "observation \<Rightarrow> string list" where
  "refs_of ob = (case ob_refs ob of None \<Rightarrow> [] | Some rs \<Rightarrow> rs)"

definition starts_with :: "string \<Rightarrow> string \<Rightarrow> bool" where
  "starts_with s p = (take (length p) s = p)"

definition ledger_entry_of :: "ab_event \<Rightarrow> ledger_entry option" where
  "ledger_entry_of e =
     (case ev_body e of
        EObservation ob \<Rightarrow>
          if list_ex (\<lambda>r. starts_with r DEFERRAL_REF_PREFIX) (refs_of ob)
          then Some (LObservation (ev_seq e) ob) else None
      | EFinalize (FinalizeCompleted pr) \<Rightarrow> Some (LFinalized (ev_seq e) (pr_headSha pr))
      | EPr (PrMerged _) \<Rightarrow> Some (LTerminal (ev_seq e))
      | EPr PrClosed \<Rightarrow> Some (LTerminal (ev_seq e))
      | EReconcile (ReconcileMerged _) \<Rightarrow> Some (LReconciled (ev_seq e))
      | EReconcile (ReconcileRebased _ _) \<Rightarrow> Some (LReconciled (ev_seq e))
      | _ \<Rightarrow> None)"

definition ledger_step :: "ledger_entry list \<Rightarrow> ab_event \<Rightarrow> ledger_entry list" where
  "ledger_step acc e =
     (case ledger_entry_of e of
        Some entry \<Rightarrow> acc @ [entry]
      | None \<Rightarrow>
          (case last_opt acc of
             Some (LBarrier s) \<Rightarrow> butlast acc @ [LBarrier (max s (ev_seq e))]
           | _ \<Rightarrow> acc @ [LBarrier (ev_seq e)]))"

definition currentDeferralObservationReducer :: "(ledger_entry list, ab_event, ledger_entry list) reducer" where
  "currentDeferralObservationReducer =
     \<lparr>rd_version = 1, rd_rawEvents = False, rd_initial = [], rd_fold = fold_events ledger_step,
      rd_finish = id\<rparr>"

interpretation deferral_ledger: incremental_reducer currentDeferralObservationReducer
  by unfold_locales (simp_all add: currentDeferralObservationReducer_def)

section \<open>The current observation\<close>

fun marked_entry :: "string \<Rightarrow> ledger_entry \<Rightarrow> bool" where
  "marked_entry m (LObservation _ ob) = (m \<in> set (refs_of ob))"
| "marked_entry m _ = False"

text \<open>The head scan stops at the first entry, of any type, that is not older than the observation.\<close>

fun head_before :: "nat \<Rightarrow> sha option \<Rightarrow> ledger_entry list \<Rightarrow> sha option" where
  "head_before s h [] = h"
| "head_before s h (e # es) =
     (if deferralEntrySeq e \<ge> s then h
      else head_before s (case e of LFinalized _ x \<Rightarrow> Some x | _ \<Rightarrow> h) es)"

fun uncontradicted :: "nat \<Rightarrow> sha option \<Rightarrow> ledger_entry list \<Rightarrow> bool" where
  "uncontradicted s h [] = True"
| "uncontradicted s h (LObservation _ _ # es) = uncontradicted s h es"
| "uncontradicted s h (LBarrier _ # es) = uncontradicted s h es"
| "uncontradicted s h (LTerminal n # es) = (n \<le> s \<and> uncontradicted s h es)"
| "uncontradicted s h (LReconciled n # es) = (n \<le> s \<and> uncontradicted s h es)"
| "uncontradicted s h (LFinalized n x # es) =
     (if n \<le> s then uncontradicted s h es
      else case h of
             None \<Rightarrow> uncontradicted s (Some x) es
           | Some y \<Rightarrow> x = y \<and> uncontradicted s h es)"

definition deferralObservationFrom :: "ledger_entry list \<Rightarrow> nat \<Rightarrow> nat \<Rightarrow> (nat \<times> observation) option" where
  "deferralObservationFrom ledger pr cmd =
     (case find_last (marked_entry (autoMergeDeferralRef pr cmd)) ledger of
        Some (LObservation s ob) \<Rightarrow>
          if uncontradicted s (head_before s None ledger) ledger then Some (s, ob) else None
      | _ \<Rightarrow> None)"

definition currentDeferralObservation :: "ab_event list \<Rightarrow> nat \<Rightarrow> nat \<Rightarrow> (nat \<times> observation) option" where
  "currentDeferralObservation events pr cmd =
     deferralObservationFrom (reduce_log currentDeferralObservationReducer events) pr cmd"

definition hasAutoMergeDeferralObservation :: "ab_event list \<Rightarrow> nat \<Rightarrow> nat \<Rightarrow> bool" where
  "hasAutoMergeDeferralObservation events pr cmd = (currentDeferralObservation events pr cmd \<noteq> None)"

definition currentAutoMergeDeferralFrom ::
  "ledger_entry list \<Rightarrow> auto_merge \<Rightarrow> pr_ref option \<Rightarrow> string option" where
  "currentAutoMergeDeferralFrom ledger m pr =
     (case (pendingAutoMerge m, pr) of
        (Some (True, c), Some p) \<Rightarrow>
          map_option (ob_summary \<circ> snd) (deferralObservationFrom ledger (pr_number p) c)
      | _ \<Rightarrow> None)"

definition currentAutoMergeDeferral :: "ab_event list \<Rightarrow> auto_merge \<Rightarrow> pr_ref option \<Rightarrow> string option" where
  "currentAutoMergeDeferral events m pr =
     currentAutoMergeDeferralFrom (reduce_log currentDeferralObservationReducer events) m pr"

section \<open>Recording a deferral\<close>

datatype deferral_code =
    GithubPlanLimitation | RepositoryAutoMergeDisabled | GatedNodeDestination | UnprovenGateState
  | MergeConflicts | MergeabilityUncomputed | LocalBaseCheckoutDirty | LocalGitIdentityMissing

fun human_actionable :: "deferral_code \<Rightarrow> bool" where
  "human_actionable MergeConflicts = False"
| "human_actionable MergeabilityUncomputed = False"
| "human_actionable _ = True"

fun DEFERRAL_SUMMARIES :: "deferral_code \<Rightarrow> string" where
  "DEFERRAL_SUMMARIES GithubPlanLimitation =
     ''GitHub rulesets are unavailable because of the repository account plan''"
| "DEFERRAL_SUMMARIES RepositoryAutoMergeDisabled = ''repository-level auto-merge is disabled''"
| "DEFERRAL_SUMMARIES GatedNodeDestination =
     ''node destination has merge-blocking gates; serialized merge requires human action''"
| "DEFERRAL_SUMMARIES UnprovenGateState =
     ''merge-gate state or native auto-merge application could not be proven''"
| "DEFERRAL_SUMMARIES MergeConflicts = ''the PR has merge conflicts with its base branch''"
| "DEFERRAL_SUMMARIES MergeabilityUncomputed =
     ''GitHub has not finished computing mergeability (transient; expected to resolve on retry)''"
| "DEFERRAL_SUMMARIES LocalBaseCheckoutDirty =
     ''local merge is blocked by uncommitted work in the base checkout''"
| "DEFERRAL_SUMMARIES LocalGitIdentityMissing =
     ''local squash requires a configured Git author and committer identity''"

text \<open>The separator of the summary is an em dash, here its three UTF-8 bytes.\<close>

definition em_dash :: string where
  "em_dash = [CHR 0xE2, CHR 0x80, CHR 0x94]"

definition autoMergeDeferralObservation :: "deferral_code \<Rightarrow> string \<Rightarrow> nat \<Rightarrow> nat \<Rightarrow> string \<Rightarrow> observation" where
  "autoMergeDeferralObservation code detail pr cmd i =
     \<lparr>ob_id = i, ob_kind = Followup,
      ob_summary = ''Auto-merge gate could not apply consent for PR #'' @ nat_text pr @ '': '' @
        DEFERRAL_SUMMARIES code @ '' '' @ em_dash @ '' '' @ detail,
      ob_files = None, ob_refs = Some [autoMergeDeferralRef pr cmd]\<rparr>"

text \<open>
  One turn of the loop of \<^verbatim>\<open>recordAutoMergeDeferralObservation\<close>: what it appends, provided the log has
  not grown since it was read; otherwise the loop reads again.
\<close>

definition record_deferral ::
  "ab_event list \<Rightarrow> deferral_code \<Rightarrow> string \<Rightarrow> nat \<Rightarrow> nat \<Rightarrow> string \<Rightarrow> event_body option" where
  "record_deferral events code detail pr cmd i =
     (if \<not> human_actionable code then None
      else if hasAutoMergeDeferralObservation events pr cmd then None
      else Some (EObservation (autoMergeDeferralObservation code detail pr cmd i)))"

section \<open>Merge attention\<close>

text \<open>The first component of a forge merge says whether it is classified a possible stale enable.\<close>

definition mergeAttentionFromFacts :: "build_state \<Rightarrow> ledger_entry list \<Rightarrow> (pr_ref \<times> string) option" where
  "mergeAttentionFromFacts st ledger =
     (let acc = bs_acc st in
      case ba_pr acc of
        None \<Rightarrow> None
      | Some p \<Rightarrow>
          if map_option fst (ln_forgeMerge (ba_landing acc)) = Some True
          then Some (p, ''Merge contrary to policy: possible stale native enable; inspect the target'')
          else if ba_finalizeCompletedSeq acc = 0 \<or> ba_prState acc \<noteq> Some PrIsOpen \<or>
                  bs_status st = StDone \<or> bs_status st = StAborted then None
          else map_option (Pair p) (currentAutoMergeDeferralFrom ledger (ba_autoMerge acc) (Some p)))"

section \<open>The same over the plain log\<close>

definition marked_event :: "string \<Rightarrow> ab_event \<Rightarrow> bool" where
  "marked_event m e = (case ev_body e of EObservation ob \<Rightarrow> m \<in> set (refs_of ob) | _ \<Rightarrow> False)"

definition finalized_head :: "ab_event \<Rightarrow> sha option" where
  "finalized_head e = (case ev_body e of EFinalize (FinalizeCompleted pr) \<Rightarrow> Some (pr_headSha pr) | _ \<Rightarrow> None)"

definition ends_currency :: "ab_event \<Rightarrow> bool" where
  "ends_currency e =
     (case ev_body e of
        EPr (PrMerged _) \<Rightarrow> True | EPr PrClosed \<Rightarrow> True
      | EReconcile (ReconcileMerged _) \<Rightarrow> True | EReconcile (ReconcileRebased _ _) \<Rightarrow> True
      | _ \<Rightarrow> False)"

text \<open>
  An observation is current when nothing later than it ended the pull request or replayed the change,
  and every later finalize names one head, the head it was recorded under if there was one.
\<close>

definition current_in_log :: "ab_event list \<Rightarrow> nat \<Rightarrow> bool" where
  "current_in_log es s \<longleftrightarrow>
     (let before = List.map_filter finalized_head (takeWhile (\<lambda>e. ev_seq e < s) es);
          later = filter (\<lambda>e. ev_seq e > s) es;
          heads = (if before = [] then [] else [last before]) @ List.map_filter finalized_head later
      in (\<forall>e \<in> set later. \<not> ends_currency e) \<and> (\<forall>x \<in> set heads. \<forall>y \<in> set heads. x = y))"

section \<open>The ledger computes the plain log\<close>

fun real_entry :: "ledger_entry \<Rightarrow> bool" where
  "real_entry (LBarrier _) = False"
| "real_entry _ = True"

lemma real_entry_of: "ledger_entry_of e = Some x \<Longrightarrow> real_entry x \<and> deferralEntrySeq x = ev_seq e"
  by (auto simp: ledger_entry_of_def split: event_body.splits finalize_ev.splits pr_ev.splits
      reconcile_ev.splits if_splits)

lemma takeWhile_snoc:
  "takeWhile P (xs @ [y]) = (if \<forall>x \<in> set xs. P x then xs @ (if P y then [y] else []) else takeWhile P xs)"
  by (induction xs) auto

text \<open>One event more: its entry, or a barrier that is new or replaces the last one.\<close>

lemma ledger_step_cases:
  obtains (entry) x where "ledger_entry_of e = Some x" "ledger_step acc e = acc @ [x]"
  | (barrier) "ledger_entry_of e = None" "ledger_step acc e = acc @ [LBarrier (ev_seq e)]"
  | (merged) s acc' where "ledger_entry_of e = None" "acc = acc' @ [LBarrier s]"
      "ledger_step acc e = acc' @ [LBarrier (max s (ev_seq e))]"
proof (cases "ledger_entry_of e")
  case None
  show ?thesis
  proof (cases acc rule: rev_cases)
    case (snoc acc' x)
    then show ?thesis using None that by (cases x) (simp_all add: ledger_step_def)
  qed (use None that in \<open>simp add: ledger_step_def\<close>)
qed (use that in \<open>simp add: ledger_step_def\<close>)

definition ledger_of :: "ab_event list \<Rightarrow> ledger_entry list" where
  "ledger_of es = fold_events ledger_step [] es"

lemma ledger_of_snoc: "ledger_of (es @ [e]) = ledger_step (ledger_of es) e"
  by (simp add: ledger_of_def)

lemma map_filter_append: "List.map_filter f (xs @ ys) = List.map_filter f xs @ List.map_filter f ys"
  by (simp add: List.map_filter_def)

lemma ledger_below: "(\<forall>x \<in> set (ledger_of es). deferralEntrySeq x < s) \<longleftrightarrow> (\<forall>e \<in> set es. ev_seq e < s)"
proof (induction es rule: rev_induct)
  case (snoc e es)
  then show ?case
    by (cases rule: ledger_step_cases [of e "ledger_of es"]) (auto simp: ledger_of_snoc real_entry_of)
qed (simp add: ledger_of_def)

lemma ledger_prefix:
  "filter real_entry (takeWhile (\<lambda>x. deferralEntrySeq x < s) (ledger_of es)) =
   List.map_filter ledger_entry_of (takeWhile (\<lambda>e. ev_seq e < s) es)"
proof (induction es rule: rev_induct)
  case (snoc e es)
  note below = ledger_below [of es s]
  show ?case
  proof (cases rule: ledger_step_cases [of e "ledger_of es"])
    case (entry x)
    then show ?thesis
      using snoc real_entry_of [of e x]
      by (auto simp: ledger_of_snoc takeWhile_snoc below map_filter_append List.map_filter_simps)
        (metis takeWhile_eq_all_conv below)+
  next
    case barrier
    then show ?thesis
      using snoc
      by (auto simp: ledger_of_snoc takeWhile_snoc below map_filter_append List.map_filter_simps)
        (metis takeWhile_eq_all_conv below)+
  next
    case (merged n acc')
    have "filter real_entry (takeWhile (\<lambda>x. deferralEntrySeq x < s) (acc' @ [LBarrier n])) =
        filter real_entry (takeWhile (\<lambda>x. deferralEntrySeq x < s) (acc' @ [LBarrier (max n (ev_seq e))]))"
      by (simp add: takeWhile_snoc)
    then show ?thesis
      using snoc merged below
      by (auto simp: ledger_of_snoc takeWhile_snoc map_filter_append List.map_filter_simps
          takeWhile_eq_all_conv [THEN iffD2])
  qed
qed (simp add: ledger_of_def List.map_filter_simps)

lemma ledger_real: "filter real_entry (ledger_of es) = List.map_filter ledger_entry_of es"
proof (induction es rule: rev_induct)
  case (snoc e es)
  then show ?case
    by (cases rule: ledger_step_cases [of e "ledger_of es"])
       (auto simp: ledger_of_snoc map_filter_append List.map_filter_simps real_entry_of)
qed (simp add: ledger_of_def List.map_filter_simps)

section \<open>Currency\<close>

fun entry_head :: "ledger_entry \<Rightarrow> sha option" where
  "entry_head (LFinalized _ x) = Some x"
| "entry_head _ = None"

fun entry_ends :: "ledger_entry \<Rightarrow> bool" where
  "entry_ends (LTerminal _) = True"
| "entry_ends (LReconciled _) = True"
| "entry_ends _ = False"

definition all_same :: "'a list \<Rightarrow> bool" where
  "all_same xs \<longleftrightarrow> (\<forall>x \<in> set xs. \<forall>y \<in> set xs. x = y)"

lemma all_same_simps: "all_same (x # y # zs) \<longleftrightarrow> x = y \<and> all_same (y # zs)" "all_same []" "all_same [x]"
  by (auto simp: all_same_def)

lemma head_before_last:
  "head_before s h xs =
     (let hs = List.map_filter entry_head (takeWhile (\<lambda>x. deferralEntrySeq x < s) xs)
      in if hs = [] then h else Some (last hs))"
  by (induction s h xs rule: head_before.induct)
     (auto simp: Let_def List.map_filter_simps split: ledger_entry.splits)

lemma uncontradicted_iff:
  "uncontradicted s h xs \<longleftrightarrow>
     (\<forall>x \<in> set xs. deferralEntrySeq x > s \<longrightarrow> \<not> entry_ends x) \<and>
     all_same ((case h of None \<Rightarrow> [] | Some y \<Rightarrow> [y]) @
       List.map_filter entry_head (filter (\<lambda>x. deferralEntrySeq x > s) xs))"
  by (induction s h xs rule: uncontradicted.induct)
     (auto simp: List.map_filter_simps all_same_simps not_le not_less split: option.splits)

lemma map_filter_real:
  "(\<And>x. \<not> real_entry x \<Longrightarrow> f x = None) \<Longrightarrow> List.map_filter f xs = List.map_filter f (filter real_entry xs)"
  by (induction xs) (auto simp: List.map_filter_simps split: option.split)

lemma entry_head_real: "\<not> real_entry x \<Longrightarrow> entry_head x = None"
  by (cases x) simp_all

lemma entry_head_of: "Option.bind (ledger_entry_of e) entry_head = finalized_head e"
  by (simp add: ledger_entry_of_def finalized_head_def
      split: event_body.split finalize_ev.split pr_ev.split reconcile_ev.split)

lemma entry_ends_of: "(\<exists>x. ledger_entry_of e = Some x \<and> entry_ends x) \<longleftrightarrow> ends_currency e"
  by (simp add: ledger_entry_of_def ends_currency_def
      split: event_body.split finalize_ev.split pr_ev.split reconcile_ev.split)

lemma map_filter_bind:
  "List.map_filter f (List.map_filter g xs) = List.map_filter (\<lambda>x. Option.bind (g x) f) xs"
  by (induction xs) (auto simp: List.map_filter_simps split: option.splits)

lemma heads_of_entries: "List.map_filter entry_head (List.map_filter ledger_entry_of es) = List.map_filter finalized_head es"
  by (simp add: map_filter_bind entry_head_of)

lemma ledger_later:
  "filter real_entry (filter (\<lambda>x. deferralEntrySeq x > s) (ledger_of es)) =
   List.map_filter ledger_entry_of (filter (\<lambda>e. ev_seq e > s) es)"
proof -
  have "filter (\<lambda>x. deferralEntrySeq x > s) (List.map_filter ledger_entry_of xs) =
      List.map_filter ledger_entry_of (filter (\<lambda>e. ev_seq e > s) xs)" for xs
    by (induction xs) (auto simp: List.map_filter_simps real_entry_of split: option.splits)
  then show ?thesis by (simp add: filter_filter ledger_real [symmetric] conj_commute)
qed

lemma ledger_current:
  "uncontradicted s (head_before s None (ledger_of es)) (ledger_of es) \<longleftrightarrow> current_in_log es s"
proof -
  have before: "List.map_filter entry_head (takeWhile (\<lambda>x. deferralEntrySeq x < s) (ledger_of es)) =
      List.map_filter finalized_head (takeWhile (\<lambda>e. ev_seq e < s) es)"
    by (subst map_filter_real [OF entry_head_real]) (simp_all add: ledger_prefix heads_of_entries)
  have later: "List.map_filter entry_head (filter (\<lambda>x. deferralEntrySeq x > s) (ledger_of es)) =
      List.map_filter finalized_head (filter (\<lambda>e. ev_seq e > s) es)"
    using map_filter_real [of entry_head, OF entry_head_real] by (metis ledger_later heads_of_entries)
  have "entry_ends x \<Longrightarrow> real_entry x" for x by (cases x) simp_all
  then have "(\<exists>x \<in> set (ledger_of es). deferralEntrySeq x > s \<and> entry_ends x) \<longleftrightarrow>
      (\<exists>x \<in> set (filter real_entry (filter (\<lambda>x. deferralEntrySeq x > s) (ledger_of es))). entry_ends x)"
    by auto
  also have "\<dots> \<longleftrightarrow> (\<exists>e \<in> set es. ev_seq e > s \<and> ends_currency e)"
    unfolding ledger_later by (force simp: List.map_filter_def entry_ends_of [symmetric])
  finally have ends: "(\<forall>x \<in> set (ledger_of es). deferralEntrySeq x > s \<longrightarrow> \<not> entry_ends x) \<longleftrightarrow>
      (\<forall>e \<in> set (filter (\<lambda>e. ev_seq e > s) es). \<not> ends_currency e)" by auto
  show ?thesis
    unfolding uncontradicted_iff head_before_last before later ends current_in_log_def Let_def all_same_def
    by simp
qed

definition marked_observation :: "ab_event list \<Rightarrow> string \<Rightarrow> (nat \<times> observation) option" where
  "marked_observation es m =
     (case find_last (marked_event m) es of
        Some e \<Rightarrow> (case ev_body e of EObservation ob \<Rightarrow> Some (ev_seq e, ob) | _ \<Rightarrow> None)
      | None \<Rightarrow> None)"

lemma ref_prefix: "starts_with (autoMergeDeferralRef pr cmd) DEFERRAL_REF_PREFIX"
  by (simp add: starts_with_def autoMergeDeferralRef_def)

lemma marked_entry_of:
  assumes "starts_with m DEFERRAL_REF_PREFIX"
  shows "marked_event m e \<longleftrightarrow> (\<exists>s ob. ledger_entry_of e = Some (LObservation s ob) \<and> m \<in> set (refs_of ob))"
    and "marked_event m e \<Longrightarrow> ev_body e = EObservation ob \<Longrightarrow> ledger_entry_of e = Some (LObservation (ev_seq e) ob)"
  using assms
  by (auto simp: marked_event_def ledger_entry_of_def list_ex_iff
      split: event_body.splits finalize_ev.splits pr_ev.splits reconcile_ev.splits if_splits)

lemma ledger_marked:
  assumes "starts_with m DEFERRAL_REF_PREFIX"
  shows "find_last (marked_entry m) (ledger_of es) =
    map_option (\<lambda>(s, ob). LObservation s ob) (marked_observation es m)"
proof (induction es rule: rev_induct)
  case (snoc e es)
  have last: "find_last p (xs @ [x]) = (if p x then Some x else find_last p xs)" for p xs and x :: 'a
    by (simp add: find_last_def)
  show ?case
  proof (cases "marked_event m e")
    case True
    then obtain ob where ob: "ev_body e = EObservation ob"
      by (auto simp: marked_event_def split: event_body.splits)
    from marked_entry_of(2) [OF assms True ob] True ob show ?thesis
      by (simp add: ledger_of_snoc ledger_step_def marked_observation_def find_last_def marked_event_def)
  next
    case False
    have skip: "find_last (marked_entry m) (ledger_of (es @ [e])) = find_last (marked_entry m) (ledger_of es)"
    proof (cases rule: ledger_step_cases [of e "ledger_of es"])
      case (entry x)
      then have "\<not> marked_entry m x" using False marked_entry_of(1) [OF assms, of e] by (cases x) auto
      then show ?thesis by (simp add: ledger_of_snoc entry find_last_def)
    qed (simp_all add: ledger_of_snoc find_last_def)
    moreover have "marked_observation (es @ [e]) m = marked_observation es m"
      using False by (simp add: marked_observation_def find_last_def)
    ultimately show ?thesis using snoc by simp
  qed
qed (simp add: ledger_of_def marked_observation_def find_last_def)

lemma current_deferral_iff:
  "currentDeferralObservation es pr cmd =
     (case marked_observation (filterKnownEvents es) (autoMergeDeferralRef pr cmd) of
        None \<Rightarrow> None
      | Some (s, ob) \<Rightarrow> if current_in_log (filterKnownEvents es) s then Some (s, ob) else None)"
proof -
  have "reduce_log currentDeferralObservationReducer es = ledger_of (filterKnownEvents es)"
    by (simp add: reduce_log_def currentDeferralObservationReducer_def rd_events_def ledger_of_def)
  then show ?thesis
    by (simp add: currentDeferralObservation_def deferralObservationFrom_def ledger_marked [OF ref_prefix]
        ledger_current split: option.split)
qed

text \<open>What is recorded is current, and is recorded once.\<close>

lemma recorded_current:
  assumes "record_deferral es code detail pr cmd i = Some b" and "\<forall>e \<in> set es. ev_seq e < n"
    and "ev_seq e = n" and "ev_body e = b"
  shows "currentDeferralObservation (es @ [e]) pr cmd = Some (n, autoMergeDeferralObservation code detail pr cmd i)"
proof -
  let ?ob = "autoMergeDeferralObservation code detail pr cmd i"
  let ?K = "filterKnownEvents es"
  have b: "b = EObservation ?ob" using assms(1) by (simp add: record_deferral_def split: if_splits)
  have known: "filterKnownEvents (es @ [e]) = ?K @ [e]"
    by (simp add: filterKnownEvents_def known_event_def assms(4) b)
  have "marked_event (autoMergeDeferralRef pr cmd) e"
    by (simp add: marked_event_def assms(4) b refs_of_def autoMergeDeferralObservation_def)
  then have "marked_observation (?K @ [e]) (autoMergeDeferralRef pr cmd) = Some (n, ?ob)"
    by (simp add: marked_observation_def find_last_def assms(3,4) b)
  moreover have "current_in_log (?K @ [e]) n"
  proof -
    have below: "\<forall>x \<in> set ?K. ev_seq x < n" using assms(2) by (auto simp: filterKnownEvents_def)
    then have "filter (\<lambda>x. ev_seq x > n) (?K @ [e]) = []" by (auto simp: filter_empty_conv assms(3))
    then show ?thesis by (simp add: current_in_log_def Let_def List.map_filter_simps)
  qed
  ultimately show ?thesis unfolding current_deferral_iff known by simp
qed

section \<open>Properties\<close>

text \<open>the deferral ledger loses nothing. The current deferral observation of a pull request and command,
  computed from the ledger, is the newest observation of the log that carries their marker, provided
  that nothing later ended the pull request or replayed the change, and that every later finalize
  names one head, the head the observation was recorded under if there was one.\<close>

lemma deferral_ledger_equals_log:
  "currentDeferralObservation es pr cmd =
     (case marked_observation (filterKnownEvents es) (autoMergeDeferralRef pr cmd) of
        None \<Rightarrow> None
      | Some (s, ob) \<Rightarrow> if current_in_log (filterKnownEvents es) s then Some (s, ob) else None)"
  by (rule current_deferral_iff)

text \<open>one diagnostic per command. The observation a deferral appends to a log that has not moved is
  current from then on, so that recording the same pull request and command again appends nothing.\<close>

lemma deferral_recorded_once:
  assumes "record_deferral es code detail pr cmd i = Some b" and "\<forall>e \<in> set es. ev_seq e < n"
    and "ev_seq e = n" and "ev_body e = b"
  shows "currentDeferralObservation (es @ [e]) pr cmd \<noteq> None \<and>
    record_deferral (es @ [e]) code' detail' pr cmd i' = None"
  using recorded_current [OF assms] by (simp add: record_deferral_def hasAutoMergeDeferralObservation_def)

lemma deferral_recorded_once_witness:
  "\<exists>b. record_deferral [] UnprovenGateState ''d'' 7 3 ''o'' = Some b \<and>
     record_deferral ([] @ [\<lparr>ev_seq = 1, ev_ts = 0, ev_actor = Kernel, ev_body = b\<rparr>])
       UnprovenGateState ''again'' 7 3 ''p'' = None"
proof -
  have "record_deferral [] UnprovenGateState ''d'' 7 3 ''o'' \<noteq> None"
    by (simp add: record_deferral_def hasAutoMergeDeferralObservation_def current_deferral_iff
        filterKnownEvents_def marked_observation_def find_last_def)
  then obtain b where b: "record_deferral [] UnprovenGateState ''d'' 7 3 ''o'' = Some b" by blast
  with deferral_recorded_once [OF b, of 1 "\<lparr>ev_seq = 1, ev_ts = 0, ev_actor = Kernel, ev_body = b\<rparr>"]
  show ?thesis by simp
qed

end
