(* ===== verification/Rules.thy ===== *)
theory Rules
  imports Results
begin

text \<open>
  A guard of the code is a sequence of \<^verbatim>\<open>if (...) return reason\<close> statements: a list of optional
  reasons, of which the first present one is the answer.
\<close>

fun first_some :: "'a option list \<Rightarrow> 'a option" where
  "first_some [] = None"
| "first_some (Some x # xs) = Some x"
| "first_some (None # xs) = first_some xs"

definition refuse_if :: "bool \<Rightarrow> 'a \<Rightarrow> 'a option" where
  "refuse_if c x = (if c then Some x else None)"

lemma refuse_if_iff [simp]:
  "refuse_if c x = None \<longleftrightarrow> \<not> c" "None = refuse_if c x \<longleftrightarrow> \<not> c"
  "refuse_if c x = Some y \<longleftrightarrow> c \<and> x = y" "Some y = refuse_if c x \<longleftrightarrow> c \<and> x = y"
  by (auto simp: refuse_if_def)

lemma first_some_None [simp]: "first_some rs = None \<longleftrightarrow> (\<forall>r \<in> set rs. r = None)"
  by (induction rs rule: first_some.induct) auto

lemma first_some_Cons: "first_some (r # rs) = (case r of None \<Rightarrow> first_some rs | Some x \<Rightarrow> Some x)"
  by (cases r) simp_all

lemma first_some_append:
  "first_some (xs @ ys) = (case first_some xs of None \<Rightarrow> first_some ys | Some x \<Rightarrow> Some x)"
  by (induction xs rule: first_some.induct) simp_all

lemma first_some_SomeD: "first_some rs = Some x \<Longrightarrow> Some x \<in> set rs"
  by (induction rs rule: first_some.induct) auto

text \<open>Prefix rules that do not fire leave the rest to decide.\<close>

lemma first_some_skip: "\<forall>r \<in> set xs. r = None \<Longrightarrow> first_some (xs @ ys) = first_some ys"
  by (metis first_some_append first_some_None option.simps(4))

end
