(* ===== verification/TerminalGuard.thy ===== *)
theory TerminalGuard
  imports Reducer Phases Rules
begin

text \<open>
  \<^verbatim>\<open>packages/core/src/kernel/terminal-guard.ts\<close>: may the session of a phase round still call its
  terminal command? The guard folds the log for one session's environment and rejects at the first
  event that closed the round to it. A rejection is the fact it reports; its wording is left out.
\<close>

record cli_env =
  en_phase :: phase
  en_round :: nat
  en_session :: string

datatype rejection =
    Superseded string
  | AlreadySuspended nat
  | AlreadyEnded nat
  | AlreadyFailed nat
  | AlreadyEscalated string nat
  | PublicationPending nat
  | MemberCancelled string
  | SecondTerminal string nat

record guard_acc =
  ga_reconcileAttempt :: nat
  ga_sessionStarted :: "nat option"
  ga_permanent :: "(nat \<times> rejection) option"
  ga_completion :: "(nat \<times> rejection) option"

section \<open>One event\<close>

text \<open>Whether a terminal event closes the round of the environment.\<close>

fun terminalMatchesRound :: "event_body \<Rightarrow> cli_env \<Rightarrow> nat \<Rightarrow> bool" where
  "terminalMatchesRound (ELoop (PlanCompleted r _ _)) env att = (r = en_round env)"
| "terminalMatchesRound (ELoop (PlanReviewVerdict v)) env att = (vp_round v = en_round env)"
| "terminalMatchesRound (ELoop (ImplementCompleted r _ _)) env att = (r = en_round env)"
| "terminalMatchesRound (ELoop (CodeReviewVerdict v)) env att = (vp_round v = en_round env)"
| "terminalMatchesRound (EVerify (VerifyCompleted c)) env att =
     (en_phase env = Verify (vb_step (completion_base c)) \<and> vb_attempt (completion_base c) = en_round env)"
| "terminalMatchesRound (EFinalize (FinalizeCompleted _)) env att = True"
| "terminalMatchesRound (EReconcile (ReconcileMerged _)) env att = (att = en_round env \<or> att = 0)"
| "terminalMatchesRound (EReconcile (ReconcileRebased _ _)) env att = (att = en_round env \<or> att = 0)"
| "terminalMatchesRound _ env att = False"

definition by_session :: "ab_event \<Rightarrow> cli_env \<Rightarrow> bool" where
  "by_session e env = (case ev_actor e of Agent _ s \<Rightarrow> s = en_session env | _ \<Rightarrow> False)"

fun publishes_phase :: "publication_request \<Rightarrow> cli_env \<Rightarrow> bool" where
  "publishes_phase (ReqImplement _ r _) env = (en_phase env = Core Implement \<and> r = en_round env)"
| "publishes_phase (ReqReconcile _ _) env = (en_phase env = Core Reconcile)"
| "publishes_phase (ReqFinalize _) env = (en_phase env = Core Finalize)"
| "publishes_phase (ReqRestack _ _) env = False"
| "publishes_phase (ReqFinalizeStep _ _) env = False"

definition superseded_by :: "ab_event \<Rightarrow> cli_env \<Rightarrow> rejection option" where
  "superseded_by e env =
     (case ev_body e of
        ESession (SessionStarted p) \<Rightarrow>
          if map_option co_predecessor (ss_continuation p) = Some (en_session env)
          then Some (Superseded (ss_session p)) else None
      | _ \<Rightarrow> None)"

definition session_over :: "ab_event \<Rightarrow> cli_env \<Rightarrow> rejection option" where
  "session_over e env =
     (case ev_body e of
        ESession (SessionEnded s _ _ _) \<Rightarrow> if s = en_session env then Some (AlreadyEnded (ev_seq e)) else None
      | ESession (SessionReclaimed s) \<Rightarrow> if s = en_session env then Some (AlreadyEnded (ev_seq e)) else None
      | ESession (SessionSuspended p) \<Rightarrow>
          if su_session p = en_session env then Some (AlreadySuspended (ev_seq e)) else None
      | _ \<Rightarrow> None)"

definition failed_since :: "ab_event \<Rightarrow> cli_env \<Rightarrow> nat option \<Rightarrow> rejection option" where
  "failed_since e env started =
     (case (ev_body e, started) of
        (EPhase (PhaseFailed p r), Some s) \<Rightarrow>
          if p = en_phase env \<and> r = Some (en_round env) \<and> ev_seq e > s
          then Some (AlreadyFailed (ev_seq e)) else None
      | _ \<Rightarrow> None)"

definition second_call :: "ab_event \<Rightarrow> cli_env \<Rightarrow> rejection option" where
  "second_call e env =
     (if \<not> by_session e env then None
      else case ev_body e of
             EEscalation (EscalationRaised p) \<Rightarrow> Some (AlreadyEscalated (er_id p) (ev_seq e))
           | EPublication (PublicationRequested q) \<Rightarrow>
               if publishes_phase q env then Some (PublicationPending (ev_seq e)) else None
           | _ \<Rightarrow> None)"

definition member_cancelled :: "ab_event \<Rightarrow> cli_env \<Rightarrow> rejection option" where
  "member_cancelled e env =
     (case ev_body e of
        EVerify (VerifyCancelled c) \<Rightarrow>
          if en_phase env = Verify (vc_step c) \<and> vc_attempt c = en_round env
          then Some (MemberCancelled (vc_cause c)) else None
      | _ \<Rightarrow> None)"

definition terminal_name :: "cli_env \<Rightarrow> string" where
  "terminal_name env = sp_terminalEvent (phaseSpecFor (en_phase env))"

definition is_terminal :: "ab_event \<Rightarrow> cli_env \<Rightarrow> bool" where
  "is_terminal e env = (event_type (ev_body e) = terminal_name env)"

text \<open>The restart seq of the code is the constant 0, which no event of a log reaches.\<close>

definition second_terminal :: "ab_event \<Rightarrow> cli_env \<Rightarrow> nat \<Rightarrow> rejection option" where
  "second_terminal e env att =
     (if \<not> is_terminal e env then None
      else if event_type (ev_body e) \<in> {''verify.completed'', ''finalize.completed''} \<and> ev_seq e \<le> 0 then None
      else if \<not> terminalMatchesRound (ev_body e) env att then None
      else Some (SecondTerminal (event_type (ev_body e)) (ev_seq e)))"

text \<open>The checks in order; the first that throws.\<close>

definition checkEvent :: "ab_event \<Rightarrow> cli_env \<Rightarrow> nat \<Rightarrow> nat option \<Rightarrow> rejection option" where
  "checkEvent e env att started =
     first_some [superseded_by e env, session_over e env, failed_since e env started, second_call e env,
       member_cancelled e env, second_terminal e env att]"

section \<open>The fold\<close>

definition reopened_by_revision :: "cli_env \<Rightarrow> bool" where
  "reopened_by_revision env = (case en_phase env of Verify _ \<Rightarrow> True | Core p \<Rightarrow> p = Finalize)"

definition is_revision :: "ab_event \<Rightarrow> bool" where
  "is_revision e = (case ev_body e of ESpec (SpecRevised _ _) \<Rightarrow> True | _ \<Rightarrow> False)"

definition reconcile_attempt_of :: "ab_event \<Rightarrow> nat option" where
  "reconcile_attempt_of e =
     (case ev_body e of EReconcile (ReconcileStarted p) \<Rightarrow> Some (rs_attempt p) | _ \<Rightarrow> None)"

definition starts_session :: "cli_env \<Rightarrow> ab_event \<Rightarrow> bool" where
  "starts_session env e =
     (case ev_body e of ESession (SessionStarted p) \<Rightarrow> ss_session p = en_session env | _ \<Rightarrow> False)"

definition note_context :: "cli_env \<Rightarrow> guard_acc \<Rightarrow> ab_event \<Rightarrow> guard_acc" where
  "note_context env acc e =
     acc\<lparr>ga_completion := (if is_revision e \<and> reopened_by_revision env then None else ga_completion acc),
         ga_reconcileAttempt := (case reconcile_attempt_of e of Some n \<Rightarrow> n | None \<Rightarrow> ga_reconcileAttempt acc),
         ga_sessionStarted := (if starts_session env e then Some (ev_seq e) else ga_sessionStarted acc)\<rparr>"

definition guard_step :: "cli_env \<Rightarrow> guard_acc \<Rightarrow> ab_event \<Rightarrow> guard_acc" where
  "guard_step env acc e =
     (let acc1 = note_context env acc e in
      case checkEvent e env (ga_reconcileAttempt acc1) (ga_sessionStarted acc1) of
        None \<Rightarrow> acc1
      | Some r \<Rightarrow>
          if is_terminal e env
          then acc1\<lparr>ga_completion := (case ga_completion acc1 of None \<Rightarrow> Some (ev_seq e, r) | Some x \<Rightarrow> Some x)\<rparr>
          else acc1\<lparr>ga_permanent := (case ga_permanent acc1 of None \<Rightarrow> Some (ev_seq e, r) | Some x \<Rightarrow> Some x)\<rparr>)"

text \<open>The earlier of the two, the permanent one on a tie.\<close>

definition guard_finish :: "guard_acc \<Rightarrow> rejection option" where
  "guard_finish acc =
     (case (ga_permanent acc, ga_completion acc) of
        (None, None) \<Rightarrow> None
      | (Some (_, r), None) \<Rightarrow> Some r
      | (None, Some (_, r)) \<Rightarrow> Some r
      | (Some (s, r), Some (s', r')) \<Rightarrow> Some (if s \<le> s' then r else r'))"

definition initialGuard :: guard_acc where
  "initialGuard = \<lparr>ga_reconcileAttempt = 0, ga_sessionStarted = None, ga_permanent = None, ga_completion = None\<rparr>"

definition terminalGuardReducer :: "cli_env \<Rightarrow> (guard_acc, ab_event, rejection option) reducer" where
  "terminalGuardReducer env =
     \<lparr>rd_version = 3, rd_rawEvents = False, rd_initial = initialGuard, rd_fold = fold_events (guard_step env),
      rd_finish = guard_finish\<rparr>"

interpretation terminal_guard: incremental_reducer "terminalGuardReducer env"
  by unfold_locales (simp_all add: terminalGuardReducer_def)

section \<open>What the guard rejects\<close>

text \<open>The context of an event: the reconcile attempt and the session start up to and with it.\<close>

definition attempt_after :: "ab_event list \<Rightarrow> nat" where
  "attempt_after es = (case last_opt (List.map_filter reconcile_attempt_of es) of None \<Rightarrow> 0 | Some n \<Rightarrow> n)"

definition started_after :: "cli_env \<Rightarrow> ab_event list \<Rightarrow> nat option" where
  "started_after env es = map_option ev_seq (find_last (starts_session env) es)"

definition rejects :: "cli_env \<Rightarrow> ab_event list \<Rightarrow> ab_event \<Rightarrow> bool" where
  "rejects env before e \<longleftrightarrow>
     checkEvent e env (attempt_after (before @ [e])) (started_after env (before @ [e])) \<noteq> None"

text \<open>A completion counts until a spec revision reopens the phase; any other rejection is for good.\<close>

definition closed :: "cli_env \<Rightarrow> ab_event list \<Rightarrow> bool" where
  "closed env es \<longleftrightarrow>
     (\<exists>before e after. es = before @ e # after \<and> rejects env before e \<and>
        (is_terminal e env \<longrightarrow> reopened_by_revision env \<longrightarrow> (\<forall>x \<in> set after. \<not> is_revision x)))"

definition guard_fold :: "cli_env \<Rightarrow> ab_event list \<Rightarrow> guard_acc" where
  "guard_fold env es = fold_events (guard_step env) initialGuard es"

lemma guard_context:
  "ga_reconcileAttempt (guard_fold env es) = attempt_after es \<and>
   ga_sessionStarted (guard_fold env es) = started_after env es"
proof (induction es rule: rev_induct)
  case (snoc e es)
  have "ga_reconcileAttempt (guard_step env acc e) = ga_reconcileAttempt (note_context env acc e) \<and>
      ga_sessionStarted (guard_step env acc e) = ga_sessionStarted (note_context env acc e)" for acc
    by (simp add: guard_step_def Let_def split: option.split)
  then show ?case
    using snoc
    by (simp add: guard_fold_def note_context_def attempt_after_def started_after_def List.map_filter_def
        find_last_def split: option.split)
qed (simp add: guard_fold_def initialGuard_def attempt_after_def started_after_def List.map_filter_def find_last_def)

lemma guard_snoc:
  "ga_permanent (guard_fold env (es @ [e])) \<noteq> None \<longleftrightarrow>
     ga_permanent (guard_fold env es) \<noteq> None \<or> rejects env es e \<and> \<not> is_terminal e env"
  "ga_completion (guard_fold env (es @ [e])) \<noteq> None \<longleftrightarrow>
     ga_completion (guard_fold env es) \<noteq> None \<and> \<not> (is_revision e \<and> reopened_by_revision env) \<or>
     rejects env es e \<and> is_terminal e env"
proof -
  let ?acc = "guard_fold env es"
  have step: "guard_fold env (es @ [e]) = guard_step env ?acc e" by (simp add: guard_fold_def)
  have ctx: "ga_reconcileAttempt (note_context env ?acc e) = attempt_after (es @ [e])"
    "ga_sessionStarted (note_context env ?acc e) = started_after env (es @ [e])"
    using guard_context [of env es]
    by (simp_all add: note_context_def attempt_after_def started_after_def List.map_filter_def find_last_def
        split: option.split)
  show "ga_permanent (guard_fold env (es @ [e])) \<noteq> None \<longleftrightarrow>
      ga_permanent ?acc \<noteq> None \<or> rejects env es e \<and> \<not> is_terminal e env"
    unfolding step guard_step_def Let_def ctx rejects_def
    by (auto simp: note_context_def split: option.splits)
  show "ga_completion (guard_fold env (es @ [e])) \<noteq> None \<longleftrightarrow>
      ga_completion ?acc \<noteq> None \<and> \<not> (is_revision e \<and> reopened_by_revision env) \<or>
      rejects env es e \<and> is_terminal e env"
    unfolding step guard_step_def Let_def ctx rejects_def
    by (auto simp: note_context_def split: option.splits)
qed

definition for_good :: "cli_env \<Rightarrow> ab_event list \<Rightarrow> bool" where
  "for_good env es \<longleftrightarrow> (\<exists>before e after. es = before @ e # after \<and> rejects env before e \<and> \<not> is_terminal e env)"

definition completed :: "cli_env \<Rightarrow> ab_event list \<Rightarrow> bool" where
  "completed env es \<longleftrightarrow>
     (\<exists>before e after. es = before @ e # after \<and> rejects env before e \<and> is_terminal e env \<and>
        (reopened_by_revision env \<longrightarrow> (\<forall>x \<in> set after. \<not> is_revision x)))"

lemma split_snoc:
  "(\<exists>b x a. es @ [e] = b @ x # a \<and> P b x a) \<longleftrightarrow> P es e [] \<or> (\<exists>b x a. es = b @ x # a \<and> P b x (a @ [e]))"
proof
  assume "\<exists>b x a. es @ [e] = b @ x # a \<and> P b x a"
  then obtain b x a where s: "es @ [e] = b @ x # a" "P b x a" by blast
  show "P es e [] \<or> (\<exists>b x a. es = b @ x # a \<and> P b x (a @ [e]))"
  proof (cases a rule: rev_cases)
    case (snoc a' y)
    then have "es = b @ x # a'" "y = e" using s(1) by simp_all
    then show ?thesis using s(2) snoc by blast
  qed (use s in simp)
next
  assume "P es e [] \<or> (\<exists>b x a. es = b @ x # a \<and> P b x (a @ [e]))"
  then show "\<exists>b x a. es @ [e] = b @ x # a \<and> P b x a" by (metis append.assoc append_Cons append_Nil)
qed

lemma guard_permanent: "ga_permanent (guard_fold env es) \<noteq> None \<longleftrightarrow> for_good env es"
proof (induction es rule: rev_induct)
  case (snoc e es)
  then show ?case unfolding guard_snoc for_good_def split_snoc by blast
qed (simp add: guard_fold_def initialGuard_def for_good_def)

lemma guard_completion: "ga_completion (guard_fold env es) \<noteq> None \<longleftrightarrow> completed env es"
proof (induction es rule: rev_induct)
  case (snoc e es)
  then show ?case unfolding guard_snoc completed_def split_snoc by auto
qed (simp add: guard_fold_def initialGuard_def completed_def)

lemma guard_finish_None: "guard_finish acc \<noteq> None \<longleftrightarrow> ga_permanent acc \<noteq> None \<or> ga_completion acc \<noteq> None"
  by (auto simp: guard_finish_def split: option.splits)

lemma closed_cases: "closed env es \<longleftrightarrow> for_good env es \<or> completed env es"
  unfolding closed_def for_good_def completed_def by blast

lemma guard_rejects_iff: "guard_finish (guard_fold env es) \<noteq> None \<longleftrightarrow> closed env es"
  unfolding guard_finish_None guard_permanent guard_completion closed_cases ..

lemma closed_mono:
  assumes "closed env es" and "\<not> reopened_by_revision env \<or> for_good env es"
  shows "closed env (es @ later)"
  using assms unfolding closed_def for_good_def by (metis append.assoc append_Cons)

section \<open>Properties\<close>

lemma guard_of_log: "reduce_log (terminalGuardReducer env) es = guard_finish (guard_fold env (filterKnownEvents es))"
  by (simp add: reduce_log_def terminalGuardReducer_def rd_events_def guard_fold_def)

text \<open>the terminal guard of a session rejects a log exactly when the log is closed to it: some
  event of it closes the round in its context (the reconcile attempt and the session start up to
  it), and if that event completes the phase, no spec revision has reopened a verify or finalize
  phase since.\<close>

lemma terminal_guard_rejects_iff:
  "reduce_log (terminalGuardReducer env) es \<noteq> None \<longleftrightarrow> closed env (filterKnownEvents es)"
  unfolding guard_of_log by (rule guard_rejects_iff)

text \<open>every phase round ends with at most one terminal. Once the log holds the terminal event of the
  round, the guard rejects every further terminal call of it, whatever follows, unless a spec
  revision reopens the phase.\<close>

lemma second_terminal_rejected:
  assumes "filterKnownEvents es = before @ e # after"
    and "is_terminal e env" and "ev_seq e > 0"
    and "terminalMatchesRound (ev_body e) env (attempt_after (before @ [e]))"
    and "\<forall>x \<in> set after. \<not> is_revision x"
  shows "reduce_log (terminalGuardReducer env) es \<noteq> None"
proof -
  have "second_terminal e env (attempt_after (before @ [e])) \<noteq> None"
    using assms by (simp add: second_terminal_def)
  then have "rejects env before e" unfolding rejects_def checkEvent_def by simp
  then have "closed env (filterKnownEvents es)" unfolding closed_def using assms(1,5) by blast
  then show ?thesis unfolding guard_of_log by (simp only: guard_rejects_iff)
qed

abbreviation plan_env :: cli_env where
  "plan_env \<equiv> \<lparr>en_phase = Core Plan, en_round = 1, en_session = ''s1''\<rparr>"

abbreviation plan_done :: ab_event where
  "plan_done \<equiv> \<lparr>ev_seq = 2, ev_ts = 0, ev_actor = Agent ''planner'' ''s1'',
     ev_body = ELoop (PlanCompleted 1 \<lparr>art_kind = ''plan'', art_rev = 0\<rparr> None)\<rparr>"

lemma second_terminal_rejected_witness:
  "reduce_log (terminalGuardReducer plan_env) [plan_done] \<noteq> None"
  by (rule second_terminal_rejected [where before = "[]" and after = "[]" and e = plan_done])
    (simp_all add: filterKnownEvents_def known_event_def is_terminal_def terminal_name_def)

end
