(* ===== verification/LandingReadiness.thy ===== *)
theory LandingReadiness
  imports Reducer LeafRestack Rules
begin

text \<open>
  \<^verbatim>\<open>packages/core/src/kernel/landing-readiness.ts\<close>: the deterministic part of the guard of \<^verbatim>\<open>land\<close>, and the
  stricter question whether a merge candidate is ready. The first unmet clause is the refusal.
  Reading a node's verified cycle may throw on an unparsable configuration, hence the error result.
\<close>

datatype land_refusal =
    NoCandidate | CycleNotCurrent | BuildIsPaused | PhaseStillRunning phase_context | EscalationsOpen
  | ControlsPending | PrNotOpen "pr_lifecycle option" | HeadStale | BaseStale | RestackInProgress

fun pr_lifecycle_name :: "pr_lifecycle \<Rightarrow> string" where
  "pr_lifecycle_name PrIsOpen = ''open''"
| "pr_lifecycle_name PrIsMerged = ''merged''"
| "pr_lifecycle_name PrIsClosed = ''closed''"
| "pr_lifecycle_name PrIsConflicted = ''conflicted''"

text \<open>The running phase is an object, which a template literal prints as below.\<close>

fun refusal_text :: "land_refusal \<Rightarrow> string" where
  "refusal_text NoCandidate = ''no merge candidate has been decided yet''"
| "refusal_text CycleNotCurrent = ''the node's integration cycle is not current''"
| "refusal_text BuildIsPaused = ''the build is paused''"
| "refusal_text (PhaseStillRunning c) = ''phase [object Object] is still running''"
| "refusal_text EscalationsOpen = ''the build has open escalations to answer''"
| "refusal_text ControlsPending = ''earlier controls are awaiting acknowledgement''"
| "refusal_text (PrNotOpen s) =
     ''the pull request is '' @ (case s of None \<Rightarrow> ''not open'' | Some x \<Rightarrow> pr_lifecycle_name x)"
| "refusal_text HeadStale = ''the merge candidate's head is stale''"
| "refusal_text BaseStale = ''the merge candidate's base is stale''"
| "refusal_text RestackInProgress = ''a restack is in progress''"

definition is_node :: "build_state \<Rightarrow> bool" where
  "is_node st = (ba_kind (bs_acc st) = Some Node)"

definition current_head :: "build_state \<Rightarrow> sha option" where
  "current_head st =
     (if is_node st then map_option (gp_head \<circ> fst) (cycle_of (bs_acc st))
      else map_option pr_headSha (ba_pr (bs_acc st)))"

definition restack_writer :: "build_state \<Rightarrow> bool" where
  "restack_writer st = (case ba_nodeRestack (bs_acc st) of None \<Rightarrow> False | Some r \<Rightarrow> nrs_active r \<noteq> None)"

definition base_moved :: "build_state \<Rightarrow> leaf_restack_state \<Rightarrow> landing_candidate \<Rightarrow> bool" where
  "base_moved st restack c =
     (\<not> is_node st \<and>
      (case lrs_target restack of None \<Rightarrow> False | Some (t, _) \<Rightarrow> tm_sha t \<noteq> lc_parent c))"

definition landRefusalReason :: "build_state \<Rightarrow> leaf_restack_state \<Rightarrow> land_refusal option" where
  "landRefusalReason st restack =
     (let acc = bs_acc st in
      case ln_decision (ba_landing acc) of
        None \<Rightarrow> Some NoCandidate
      | Some (d, _) \<Rightarrow>
          first_some
            [refuse_if (is_node st \<and> \<not> integrationCycleCurrent acc) CycleNotCurrent,
             refuse_if (bs_status st = StPaused) BuildIsPaused,
             map_option PhaseStillRunning (ba_currentPhase acc),
             refuse_if (ba_openEscalations acc \<noteq> []) EscalationsOpen,
             refuse_if (bs_pendingCommands st \<noteq> []) ControlsPending,
             refuse_if (ba_prState acc \<noteq> Some PrIsOpen) (PrNotOpen (ba_prState acc)),
             refuse_if (current_head st \<noteq> Some (lc_head (ld_candidate d))) HeadStale,
             refuse_if (base_moved st restack (ld_candidate d)) BaseStale,
             refuse_if (lrs_active restack \<noteq> None \<or> restack_writer st) RestackInProgress])"

definition landPreconditions :: "build_state \<Rightarrow> leaf_restack_state \<Rightarrow> bool" where
  "landPreconditions st restack = (landRefusalReason st restack = None)"

definition parent_moving :: "build_state \<Rightarrow> bool" where
  "parent_moving st =
     (case ba_nodeRestack (bs_acc st) of
        None \<Rightarrow> False
      | Some r \<Rightarrow> nrs_parentRequest r \<noteq> None \<or> nrs_parentChange r \<noteq> None)"

text \<open>The second conjunct of the code is evaluated only when the cycle is current.\<close>

definition node_ready :: "build_acc \<Rightarrow> landing_candidate \<Rightarrow> config_error + bool" where
  "node_ready acc c =
     (if \<not> integrationCurrent acc then Inr False
      else map_result
        (\<lambda>verified. verified \<and>
           (case cycle_of acc of None \<Rightarrow> False
            | Some (cyc, _) \<Rightarrow> lc_parent c = gp_parent cyc \<and> lc_cycle c = gp_id cyc))
        (integrationCycleVerified acc))"

definition failed_in_cycle :: "build_acc \<Rightarrow> bool" where
  "failed_in_cycle acc =
     list_ex (\<lambda>r. vr_seq r > vg_cycleSince (ba_verify acc) \<and> vr_outcome r = Fail) (vg_results (ba_verify acc))"

definition leaf_base :: "leaf_restack_state \<Rightarrow> sha" where
  "leaf_base restack =
     (case lrs_completed restack of
        Some (t, _) \<Rightarrow> lr_targetBase t
      | None \<Rightarrow> (case lrs_initialBase restack of Some b \<Rightarrow> b | None \<Rightarrow> []))"

definition leaf_ready :: "build_acc \<Rightarrow> leaf_restack_state \<Rightarrow> landing_decision \<Rightarrow> nat \<Rightarrow> bool" where
  "leaf_ready acc restack d decidedSeq =
     (if ba_finalizeCompletedSeq acc \<le> ba_restartSince acc \<or> decidedSeq < vg_cycleSince (ba_verify acc) \<or>
         failed_in_cycle acc then False
      else lc_cycle (ld_candidate d) = nat_text (ba_finalizeCompletedSeq acc) \<and>
           lc_parent (ld_candidate d) = leaf_base restack)"

definition landingReady :: "build_state \<Rightarrow> leaf_restack_state \<Rightarrow> config_error + bool" where
  "landingReady st restack =
     (let acc = bs_acc st in
      if \<not> landPreconditions st restack \<or> bs_status st \<in> {StQueued, StDone, StAborted} \<or>
         discardInFlight st \<or> parent_moving st \<or> ba_openSessions acc \<noteq> []
      then Inr False
      else case ln_decision (ba_landing acc) of
             None \<Rightarrow> Inr False
           | Some (d, seq) \<Rightarrow>
               if is_node st then node_ready acc (ld_candidate d) else Inr (leaf_ready acc restack d seq))"

definition awaitsConsent :: "build_state \<Rightarrow> leaf_restack_state \<Rightarrow> config_error + bool" where
  "awaitsConsent st restack =
     map_result
       (\<lambda>ready. ready \<and>
          (let landing = ba_landing (bs_acc st); kind = map_option cm_kind (ln_command landing) in
           if kind = Some Hold then True
           else map_option (ld_mode \<circ> fst) (ln_decision landing) = Some Consent \<and> kind \<noteq> Some Land))
       (landingReady st restack)"

section \<open>What a ready candidate is\<close>

lemma landPreconditions_iff:
  "landPreconditions st restack \<longleftrightarrow>
   (\<exists>d seq. ln_decision (ba_landing (bs_acc st)) = Some (d, seq) \<and>
      (is_node st \<longrightarrow> integrationCycleCurrent (bs_acc st)) \<and> bs_status st \<noteq> StPaused \<and>
      ba_currentPhase (bs_acc st) = None \<and> ba_openEscalations (bs_acc st) = [] \<and>
      bs_pendingCommands st = [] \<and> ba_prState (bs_acc st) = Some PrIsOpen \<and>
      current_head st = Some (lc_head (ld_candidate d)) \<and> \<not> base_moved st restack (ld_candidate d) \<and>
      lrs_active restack = None \<and> \<not> restack_writer st)"
  unfolding landPreconditions_def landRefusalReason_def Let_def
  by (cases "ln_decision (ba_landing (bs_acc st))") auto

lemma landingReady_iff:
  "landingReady st restack = Inr True \<longleftrightarrow>
   (\<exists>d seq. ln_decision (ba_landing (bs_acc st)) = Some (d, seq) \<and> landPreconditions st restack \<and>
      bs_status st \<notin> {StQueued, StDone, StAborted} \<and> \<not> discardInFlight st \<and> \<not> parent_moving st \<and>
      ba_openSessions (bs_acc st) = [] \<and>
      (if is_node st then node_ready (bs_acc st) (ld_candidate d) = Inr True
       else leaf_ready (bs_acc st) restack d seq))"
  unfolding landingReady_def Let_def
  by (cases "ln_decision (ba_landing (bs_acc st))"; cases "is_node st") (auto simp: landPreconditions_iff)

lemma node_ready_iff:
  "node_ready acc c = Inr True \<longleftrightarrow>
   integrationCurrent acc \<and> integrationCycleVerified acc = Inr True \<and>
   (\<exists>cyc seq. cycle_of acc = Some (cyc, seq) \<and> lc_parent c = gp_parent cyc \<and> lc_cycle c = gp_id cyc)"
  by (auto simp: node_ready_def map_result_Inr_iff split: option.splits)

section \<open>Properties\<close>


text \<open>consent and authority partition the ready builds. The kernel asks for consent on a ready
  candidate exactly when the folded landing state does not authorise the landing.\<close>

lemma consent_asked_iff_unauthorized:
  assumes "landingReady st restack = Inr True"
  shows "awaitsConsent st restack = Inr (\<not> landingAuthorized (ba_landing (bs_acc st)))"
proof -
  obtain d seq where d: "ln_decision (ba_landing (bs_acc st)) = Some (d, seq)"
    using assms by (auto simp: landingReady_iff)
  show ?thesis
  proof (cases "ln_command (ba_landing (bs_acc st))")
    case None
    then show ?thesis
      using assms d by (cases "ld_mode d") (simp_all add: awaitsConsent_def landingAuthorized_def Let_def)
  next
    case (Some c)
    then show ?thesis
      using assms d
      by (cases "cm_kind c"; cases "ld_mode d") (simp_all add: awaitsConsent_def landingAuthorized_def Let_def)
  qed
qed

text \<open>A finalized leaf whose candidate is current.\<close>

abbreviation ready_decision :: landing_decision where
  "ready_decision \<equiv>
     \<lparr>ld_candidate = \<lparr>lc_head = ''h'', lc_parent = ''p'', lc_cycle = ''5''\<rparr>, ld_from = Work, ld_into = ToRoot,
      ld_labels = [], ld_mode = Consent, ld_rule = DefaultRule\<rparr>"

abbreviation ready_leaf :: build_state where
  "ready_leaf \<equiv> finishBuild (initialBuildAcc
     \<lparr>ba_kind := Some Work, ba_attached := True, ba_finalizeCompletedSeq := 5,
      ba_pr := Some \<lparr>pr_number = 1, pr_url = [], pr_headSha = ''h''\<rparr>, ba_prState := Some PrIsOpen,
      ba_landing := initialLanding\<lparr>ln_decision := Some (ready_decision, 6)\<rparr>\<rparr>)"

abbreviation ready_restack :: leaf_restack_state where
  "ready_restack \<equiv> initialLeafRestack\<lparr>lrs_initialBase := Some ''p''\<rparr>"

lemma ready_sample: "landingReady ready_leaf ready_restack = Inr True"
  by code_simp


lemma consent_asked_iff_unauthorized_witness:
  "awaitsConsent ready_leaf ready_restack = Inr (\<not> landingAuthorized (ba_landing (bs_acc ready_leaf)))"
  by (rule consent_asked_iff_unauthorized [OF ready_sample])

end
