(* ===== verification/DispatchCapacity.thy ===== *)
theory DispatchCapacity
  imports Reducer Rules
begin

text \<open>
  \<^verbatim>\<open>packages/core/src/kernel/dispatch-capacity.ts\<close>: which builds hold a concurrency slot, and when a
  node may borrow the slots its stopped descendants hold. Times are parsed timestamps; the identity of
  a ticket is a parameter, \<open>exactIdentity\<close> the default. Reading a node's verified cycle may throw.
\<close>

record build_record =
  br_slug :: string
  br_repo :: string
  br_ticket :: "ticket_ref option"
  br_lease :: "(string \<times> timestamp) option"

record capacity_build =
  cb_record :: build_record
  cb_state :: build_state
  cb_workspace :: bool
  cb_provisioning :: bool

record dispatch_capacity =
  dc_configured :: nat
  dc_occupied :: nat
  dc_effective :: nat
  dc_borrowingNodes :: "string list"

abbreviation slug_of :: "capacity_build \<Rightarrow> string" where
  "slug_of b \<equiv> br_slug (cb_record b)"

abbreviation acc_of :: "capacity_build \<Rightarrow> build_acc" where
  "acc_of b \<equiv> bs_acc (cb_state b)"

definition holds_runner :: "capacity_build \<Rightarrow> timestamp \<Rightarrow> bool" where
  "holds_runner b now =
     (cb_workspace b \<or> cb_provisioning b \<or>
      (case br_lease (cb_record b) of None \<Rightarrow> False | Some (_, expires) \<Rightarrow> expires > now))"

definition restack_conflict :: "build_acc \<Rightarrow> bool" where
  "restack_conflict acc = (case ba_nodeRestack acc of None \<Rightarrow> False | Some r \<Rightarrow> nrs_conflict r \<noteq> None)"

definition occupiesCapacity :: "capacity_build \<Rightarrow> timestamp \<Rightarrow> config_error + bool" where
  "occupiesCapacity b now =
     (if bs_status (cb_state b) \<in> {StDone, StAborted} then Inr False
      else if ba_kind (acc_of b) \<noteq> Some Node \<or> restack_conflict (acc_of b) then Inr True
      else map_result (\<lambda>needs. needs \<and> holds_runner b now) (integrationNeedsRunner (acc_of b)))"

type_synonym 'i identity = "ticket_ref \<Rightarrow> string \<Rightarrow> 'i"

text \<open>\<^verbatim>\<open>JSON.stringify([source, id])\<close> separates pairs, so it is the pair.\<close>

definition exactIdentity :: "(string \<times> string) identity" where
  "exactIdentity ref build = (tk_source ref, tk_id ref)"

text \<open>\<^verbatim>\<open>new Map(builds.map((build) => [build.record.slug, build]))\<close>: the last build of a slug counts.\<close>

definition by_slug :: "capacity_build list \<Rightarrow> (string, capacity_build) jsmap" where
  "by_slug bs = fold (\<lambda>b. jm_set (slug_of b) b) bs []"

text \<open>The accepted parent of an edge: a node of the same repository that bears the edge's ticket.\<close>

definition accepted_parent ::
  "(string, capacity_build) jsmap \<Rightarrow> 'i identity \<Rightarrow> capacity_build \<Rightarrow> node_target \<Rightarrow> capacity_build option" where
  "accepted_parent builds identity b target =
     (case map_of builds (nt_build target) of
        None \<Rightarrow> None
      | Some p \<Rightarrow>
          (case br_ticket (cb_record p) of
             None \<Rightarrow> None
           | Some ticket \<Rightarrow>
               if ba_kind (acc_of p) = Some Node \<and> br_repo (cb_record p) = br_repo (cb_record b) \<and>
                  identity ticket (slug_of p) = identity (nt_ticket target) (slug_of b)
               then Some p else None))"

lemma accepted_parent_key: "accepted_parent builds identity b t = Some p \<Longrightarrow> map_of builds (nt_build t) = Some p"
  by (auto simp: accepted_parent_def split: option.splits if_splits)

function climb_to ::
  "(string, capacity_build) jsmap \<Rightarrow> 'i identity \<Rightarrow> capacity_build \<Rightarrow> string \<Rightarrow> string list \<Rightarrow>
   node_target option \<Rightarrow> bool" where
  "climb_to builds identity b node seen None = False"
| "climb_to builds identity b node seen (Some target) =
     (if nt_build target \<in> set seen then False
      else case accepted_parent builds identity b target of
             None \<Rightarrow> False
           | Some p \<Rightarrow>
               if slug_of p = node then True
               else climb_to builds identity b node (nt_build target # seen) (ba_target (acc_of p)))"
  by pat_completeness auto

text \<open>Every turn sees one more build of the map.\<close>

termination
proof (relation "measure (\<lambda>(builds, identity, b, node, seen, target). card (fst ` set builds - set seen))")
  fix builds :: "(string, capacity_build) jsmap" and identity :: "'i identity" and b p node seen target
  assume new: "nt_build target \<notin> set seen" and p: "accepted_parent builds identity b target = Some p"
  have "nt_build target \<in> fst ` set builds"
    using accepted_parent_key [OF p] by (force dest: map_of_SomeD)
  with new have "fst ` set builds - set (nt_build target # seen) \<subset> fst ` set builds - set seen" by auto
  then show "((builds, identity, b, node, nt_build target # seen, ba_target (acc_of p)),
      builds, identity, b, node, seen, Some target)
      \<in> measure (\<lambda>(builds, identity, b, node, seen, target). card (fst ` set builds - set seen))"
    by (simp add: psubset_card_mono)
qed simp

definition descendsFrom ::
  "capacity_build \<Rightarrow> string \<Rightarrow> (string, capacity_build) jsmap \<Rightarrow> 'i identity \<Rightarrow> bool" where
  "descendsFrom b node builds identity =
     climb_to builds identity b node [slug_of b] (ba_target (acc_of b))"

section \<open>Slots\<close>

fun filter_result :: "('a \<Rightarrow> 'x + bool) \<Rightarrow> 'a list \<Rightarrow> 'x + 'a list" where
  "filter_result p [] = Inr []"
| "filter_result p (x # xs) =
     bind_result (p x) (\<lambda>keep. map_result (\<lambda>ys. if keep then x # ys else ys) (filter_result p xs))"

definition stopped :: "capacity_build \<Rightarrow> bool" where
  "stopped b = (bs_status (cb_state b) \<in> {StBlocked, StPaused})"

text \<open>The slots others occupy, and the slugs of the stopped descendants that are not counted.\<close>

definition nodeCapacity ::
  "capacity_build list \<Rightarrow> string \<Rightarrow> timestamp \<Rightarrow> 'i identity \<Rightarrow> config_error + (nat \<times> string list)" where
  "nodeCapacity bs node now identity =
     (let identities = by_slug bs;
          excluded = (\<lambda>b. stopped b \<and> descendsFrom b node identities identity)
      in map_result
           (\<lambda>others. (length (filter (Not \<circ> excluded) others), sort (map slug_of (filter excluded others))))
           (filter_result (\<lambda>b. if slug_of b = node then Inr False else occupiesCapacity b now)
              (map snd identities)))"

definition borrows ::
  "capacity_build list \<Rightarrow> nat \<Rightarrow> nat \<Rightarrow> timestamp \<Rightarrow> 'i identity \<Rightarrow> capacity_build \<Rightarrow> config_error + bool" where
  "borrows uniq occupied configured now identity b =
     (if ba_kind (acc_of b) \<noteq> Some Node then Inr False
      else bind_result (occupiesCapacity b now) (\<lambda>occ.
        if \<not> occ \<or> \<not> holds_runner b now then Inr False
        else map_result
          (\<lambda>(others, excluded). occupied > configured \<and> excluded \<noteq> [] \<and> others < configured)
          (nodeCapacity uniq (slug_of b) now identity)))"

definition dispatchCapacity ::
  "capacity_build list \<Rightarrow> nat \<Rightarrow> timestamp \<Rightarrow> 'i identity \<Rightarrow> config_error + dispatch_capacity" where
  "dispatchCapacity bs configured now identity =
     (let uniq = map snd (by_slug bs) in
      bind_result (filter_result (\<lambda>b. occupiesCapacity b now) uniq) (\<lambda>occupying.
        let occupied = length occupying in
        map_result
          (\<lambda>borrowing.
             let nodes = sort (map slug_of borrowing) in
             \<lparr>dc_configured = configured, dc_occupied = occupied,
              dc_effective = (if nodes \<noteq> [] then max configured occupied else configured),
              dc_borrowingNodes = nodes\<rparr>)
          (filter_result (borrows uniq occupied configured now identity) uniq)))"

definition capacityExplanation :: "dispatch_capacity option \<Rightarrow> string" where
  "capacityExplanation c =
     (case c of
        None \<Rightarrow> []
      | Some cap \<Rightarrow>
          if dc_borrowingNodes cap = [] then []
          else '' ('' @ nat_text (dc_configured cap) @ '' configured; '' @
               nat_text (length (dc_borrowingNodes cap)) @ '' node'' @
               (if length (dc_borrowingNodes cap) = 1 then [] else ''s'') @
               '' using descendant-held slots: '' @ join '', '' (dc_borrowingNodes cap) @ '')'')"

section \<open>A slug names one build\<close>

lemma filter_result_Inr:
  "filter_result p xs = Inr ys \<longleftrightarrow> (\<forall>x \<in> set xs. \<exists>b. p x = Inr b) \<and> ys = filter (\<lambda>x. p x = Inr True) xs"
proof (induction xs arbitrary: ys)
  case (Cons x xs)
  then show ?case by (cases "p x") (auto simp: map_result_Inr_iff)
qed auto

lemma by_slug_distinct: "distinct (map fst (by_slug bs))"
proof -
  have "distinct (map fst m) \<Longrightarrow> distinct (map fst (fold (\<lambda>b. jm_set (slug_of b) b) bs m))" for m
    by (induction bs arbitrary: m) (simp_all add: distinct_update)
  then show ?thesis by (simp add: by_slug_def)
qed

definition keyed :: "(string, capacity_build) jsmap \<Rightarrow> bool" where
  "keyed m \<longleftrightarrow> (\<forall>k b. map_of m k = Some b \<longrightarrow> slug_of b = k)"

lemma keyed_set: "keyed m \<Longrightarrow> keyed (jm_set (slug_of b) b m)"
  by (simp add: keyed_def update_conv')

lemma by_slug_keyed: "keyed (by_slug bs)"
proof -
  have "keyed m \<Longrightarrow> keyed (fold (\<lambda>b. jm_set (slug_of b) b) bs m)" for m
    by (induction bs arbitrary: m) (simp_all add: keyed_set)
  moreover have "keyed []" by (simp add: keyed_def)
  ultimately show ?thesis by (simp add: by_slug_def)
qed

lemma by_slug_entry:
  assumes "b \<in> set (map snd (by_slug bs))"
  shows "map_of (by_slug bs) (slug_of b) = Some b"
proof -
  from assms obtain k where "(k, b) \<in> set (by_slug bs)" by auto
  then have "map_of (by_slug bs) k = Some b" using by_slug_distinct by (simp add: map_of_eq_Some_iff)
  then show ?thesis using by_slug_keyed by (auto simp: keyed_def)
qed

lemma by_slug_slugs: "map slug_of (map snd (by_slug bs)) = map fst (by_slug bs)"
  using by_slug_distinct [of bs] by_slug_keyed [of bs]
  by (auto simp: keyed_def map_of_eq_Some_iff)

lemma by_slug_unique: "distinct (map slug_of (map snd (by_slug bs)))"
  using by_slug_distinct by (simp only: by_slug_slugs)

section \<open>The slots a node borrows\<close>

lemma by_slug_distinct_list:
  assumes "distinct (map slug_of bs)"
  shows "map snd (by_slug bs) = bs"
proof -
  have new: "k \<notin> fst ` set m \<Longrightarrow> jm_set k v m = m @ [(k, v)]" for k v and m :: "(string, capacity_build) jsmap"
    by (induction m) auto
  have "distinct (map slug_of bs) \<Longrightarrow> slug_of ` set bs \<inter> fst ` set m = {} \<Longrightarrow>
      fold (\<lambda>b. jm_set (slug_of b) b) bs m = m @ map (\<lambda>b. (slug_of b, b)) bs" for m
  proof (induction bs arbitrary: m)
    case (Cons b bs)
    have "slug_of b \<notin> fst ` set m" using Cons.prems(2) by auto
    with Cons show ?case by (auto simp: new)
  qed simp
  from this [of "[]"] assms show ?thesis by (simp add: by_slug_def comp_def)
qed

lemma by_slug_again: "map snd (by_slug (map snd (by_slug bs))) = map snd (by_slug bs)"
  using by_slug_distinct_list [OF by_slug_unique] .

definition occupying :: "capacity_build list \<Rightarrow> timestamp \<Rightarrow> capacity_build list" where
  "occupying uniq now = filter (\<lambda>b. occupiesCapacity b now = Inr True) uniq"

lemma nodeCapacity_Inr:
  assumes "nodeCapacity bs node now identity = Inr (others, excluded)"
  shows "others + length excluded = length (filter (\<lambda>b. slug_of b \<noteq> node) (occupying (map snd (by_slug bs)) now)) \<and>
    set excluded = {slug_of b |b. b \<in> set (map snd (by_slug bs)) \<and> slug_of b \<noteq> node \<and>
      occupiesCapacity b now = Inr True \<and> stopped b \<and> descendsFrom b node (by_slug bs) identity}"
proof -
  let ?ex = "\<lambda>b. stopped b \<and> descendsFrom b node (by_slug bs) identity"
  obtain bds where "filter_result (\<lambda>b. if slug_of b = node then Inr False else occupiesCapacity b now)
      (map snd (by_slug bs)) = Inr bds"
    and res: "others = length (filter (Not \<circ> ?ex) bds)" "excluded = sort (map slug_of (filter ?ex bds))"
    using assms by (auto simp: nodeCapacity_def Let_def map_result_Inr_iff)
  then have bds: "bds = filter (\<lambda>b. slug_of b \<noteq> node) (occupying (map snd (by_slug bs)) now)"
    by (auto simp: filter_result_Inr occupying_def intro!: filter_cong)
  have "others + length excluded = length bds"
    using sum_length_filter_compl [of ?ex bds] by (simp add: res comp_def)
  moreover have "set excluded = slug_of ` {b \<in> set bds. ?ex b}" by (simp add: res)
  ultimately show ?thesis by (auto simp: bds occupying_def)
qed

lemma without_one:
  assumes "distinct (map f xs)" and "x \<in> set xs"
  shows "Suc (length (filter (\<lambda>y. f y \<noteq> f x) xs)) = length xs"
proof -
  have "filter (\<lambda>y. f y = f x) xs = [x]"
    using assms by (induction xs) (auto simp: filter_empty_conv image_iff)
  then show ?thesis using sum_length_filter_compl [of "\<lambda>y. f y = f x" xs] by simp
qed

lemma by_slug_idem: "by_slug (map snd (by_slug bs)) = by_slug bs"
proof -
  have "map fst (by_slug (map snd (by_slug bs))) = map fst (by_slug bs)"
    using by_slug_slugs [of "map snd (by_slug bs)"] by_slug_slugs [of bs] by_slug_again [of bs] by simp
  then show ?thesis using by_slug_again [of bs] by (metis zip_map_fst_snd)
qed

lemma borrows_Inr:
  assumes "borrows uniq occupied configured now identity b = Inr True"
  shows "occupiesCapacity b now = Inr True \<and>
    (\<exists>others excluded. nodeCapacity uniq (slug_of b) now identity = Inr (others, excluded) \<and> others < configured)"
  using assms by (auto simp: borrows_def bind_result_Inr_iff map_result_Inr_iff split: if_splits)

section \<open>Descent as reachability\<close>

text \<open>The \<open>k\<close>-th accepted parent above a target.\<close>

fun parent_at ::
  "(string, capacity_build) jsmap \<Rightarrow> 'i identity \<Rightarrow> capacity_build \<Rightarrow> nat \<Rightarrow> node_target option \<Rightarrow>
   capacity_build option" where
  "parent_at builds identity b 0 t = Option.bind t (accepted_parent builds identity b)"
| "parent_at builds identity b (Suc k) t =
     Option.bind (parent_at builds identity b k t)
       (\<lambda>p. Option.bind (ba_target (acc_of p)) (accepted_parent builds identity b))"

lemma parent_at_shift:
  "parent_at builds identity b i t = Some p \<Longrightarrow>
   parent_at builds identity b (Suc i + m) t = parent_at builds identity b m (ba_target (acc_of p))"
  by (induction m) auto

lemma parent_at_None: "parent_at builds identity b 0 t = None \<Longrightarrow> parent_at builds identity b k t = None"
  by (induction k) auto

lemma parent_at_same:
  "parent_at builds identity b i t = parent_at builds identity b j t \<Longrightarrow>
   parent_at builds identity b (i + m) t = parent_at builds identity b (j + m) t"
  by (induction m) auto

lemma parent_at_key:
  assumes "parent_at builds identity b i t = Some p" and "keyed builds"
  shows "map_of builds (slug_of p) = Some p"
proof -
  obtain u where "accepted_parent builds identity b u = Some p"
    using assms(1) by (cases i) (auto simp: bind_eq_Some_conv)
  from accepted_parent_key [OF this] show ?thesis using assms(2) by (auto simp: keyed_def)
qed

lemma climb_sound:
  "climb_to builds identity b node seen t \<Longrightarrow>
   \<exists>k p. parent_at builds identity b k t = Some p \<and> slug_of p = node"
proof (induction builds identity b node seen t rule: climb_to.induct)
  case (2 builds identity b node seen target)
  then obtain p where p: "nt_build target \<notin> set seen" "accepted_parent builds identity b target = Some p"
    by (auto split: if_splits option.splits)
  show ?case
  proof (cases "slug_of p = node")
    case True
    with p show ?thesis by (intro exI [of _ 0]) simp
  next
    case False
    then obtain k q where "parent_at builds identity b k (ba_target (acc_of p)) = Some q" "slug_of q = node"
      using 2 p by auto
    then show ?thesis
      using parent_at_shift [of builds identity b 0 "Some target" p k] p
      by (intro exI [of _ "Suc k"]) simp
  qed
qed simp

lemma climb_complete:
  assumes "keyed builds" and "parent_at builds identity b k t = Some p" and "slug_of p = node"
    and "\<And>i q. i < k \<Longrightarrow> parent_at builds identity b i t = Some q \<Longrightarrow> slug_of q \<noteq> node"
    and "\<And>i q. i \<le> k \<Longrightarrow> parent_at builds identity b i t = Some q \<Longrightarrow> slug_of q \<notin> set seen"
    and "\<And>i j q r. i < j \<Longrightarrow> j \<le> k \<Longrightarrow> parent_at builds identity b i t = Some q \<Longrightarrow>
      parent_at builds identity b j t = Some r \<Longrightarrow> slug_of q \<noteq> slug_of r"
  shows "climb_to builds identity b node seen t"
  using assms(2-)
proof (induction k arbitrary: t seen)
  case 0
  then obtain target where t: "t = Some target" "accepted_parent builds identity b target = Some p"
    by (auto simp: bind_eq_Some_conv)
  have "slug_of p = nt_build target" using accepted_parent_key [OF t(2)] assms(1) by (auto simp: keyed_def)
  with t 0(2) 0(4) [of 0 p] show ?case by simp
next
  case (Suc k)
  have "parent_at builds identity b 0 t \<noteq> None"
    using parent_at_None [of builds identity b t "Suc k"] Suc.prems(1) by (metis option.distinct(1))
  then obtain target p0 where t: "t = Some target" "accepted_parent builds identity b target = Some p0"
    by (auto simp: bind_eq_Some_conv)
  have key: "slug_of p0 = nt_build target" using accepted_parent_key [OF t(2)] assms(1) by (auto simp: keyed_def)
  have first: "parent_at builds identity b 0 t = Some p0" using t by simp
  have shift: "parent_at builds identity b (Suc i) t = parent_at builds identity b i (ba_target (acc_of p0))" for i
    using parent_at_shift [OF first, of i] by simp
  have "climb_to builds identity b node (nt_build target # seen) (ba_target (acc_of p0))"
  proof (rule Suc.IH)
    show "parent_at builds identity b k (ba_target (acc_of p0)) = Some p" using Suc.prems(1) by (simp only: shift)
    show "slug_of p = node" by fact
    show "slug_of q \<noteq> node" if "i < k" "parent_at builds identity b i (ba_target (acc_of p0)) = Some q" for i q
      using Suc.prems(3) [of "Suc i" q] that by (simp add: shift del: parent_at.simps)
    show "slug_of q \<notin> set (nt_build target # seen)"
      if "i \<le> k" "parent_at builds identity b i (ba_target (acc_of p0)) = Some q" for i q
      using Suc.prems(4) [of "Suc i" q] Suc.prems(5) [of 0 "Suc i" p0 q] that first key
      by (simp add: shift del: parent_at.simps)
    show "slug_of q \<noteq> slug_of r"
      if "i < j" "j \<le> k" "parent_at builds identity b i (ba_target (acc_of p0)) = Some q"
        "parent_at builds identity b j (ba_target (acc_of p0)) = Some r" for i j q r
      using Suc.prems(5) [of "Suc i" "Suc j" q r] that by (simp add: shift del: parent_at.simps)
  qed
  moreover have "nt_build target \<notin> set seen" using Suc.prems(4) [of 0 p0] first key by simp
  moreover have "slug_of p0 \<noteq> node" using Suc.prems(3) [of 0 p0] first by simp
  ultimately show ?case using t by simp
qed

text \<open>A shortest climb meets no build twice, so the visited set never stops it.\<close>

lemma climb_reaches:
  assumes builds: "keyed builds" "map_of builds (slug_of b) = Some b" and other: "slug_of b \<noteq> node"
    and goal: "parent_at builds identity b n (ba_target (acc_of b)) = Some p" "slug_of p = node"
  shows "descendsFrom b node builds identity"
proof -
  let ?at = "\<lambda>i. parent_at builds identity b i (ba_target (acc_of b))"
  let ?hit = "\<lambda>i. \<exists>q. ?at i = Some q \<and> slug_of q = node"
  have "\<exists>i. ?hit i" using goal by blast
  then have "\<exists>k. ?hit k \<and> (\<forall>i < k. \<not> ?hit i)" by (rule exists_least_iff [THEN iffD1])
  then obtain k where hit: "?hit k" and least: "\<And>i. i < k \<Longrightarrow> \<not> ?hit i" by auto
  obtain q where q: "?at k = Some q" "slug_of q = node" using hit by blast
  have earlier: False if "?at i = ?at k" "i < k" for i
    using least [OF that(2)] that(1) hit by simp
  have no_return: "slug_of r \<noteq> slug_of b" if i: "i \<le> k" "?at i = Some r" for i r
  proof
    assume same: "slug_of r = slug_of b"
    have "map_of builds (slug_of r) = Some r" by (rule parent_at_key [OF i(2) builds(1)])
    then have r: "r = b" unfolding same builds(2) by (rule option.inject [THEN iffD1, THEN sym])
    have "i \<noteq> k" using i(2) q other r by auto
    then have "Suc i + (k - Suc i) = k" using i(1) by simp
    with parent_at_shift [OF i(2), of "k - Suc i"] r have "?at (k - Suc i) = ?at k" by simp
    moreover have "k - Suc i < k" using \<open>i \<noteq> k\<close> i(1) by simp
    ultimately show False using earlier by blast
  qed
  have no_repeat: "slug_of r \<noteq> slug_of s"
    if ij: "i < j" "j \<le> k" and at: "?at i = Some r" "?at j = Some s" for i j r s
  proof
    assume same: "slug_of r = slug_of s"
    have "map_of builds (slug_of r) = Some r" and "map_of builds (slug_of s) = Some s"
      using parent_at_key [OF at(1) builds(1)] parent_at_key [OF at(2) builds(1)] by blast+
    then have "Some r = Some s" unfolding same by (rule trans [OF sym])
    then have "?at i = ?at j" unfolding at .
    from parent_at_same [OF this, of "k - j"] ij have "?at (i + (k - j)) = ?at k" by simp
    moreover have "i + (k - j) < k" using ij by simp
    ultimately show False using earlier by blast
  qed
  show ?thesis
    unfolding descendsFrom_def
    by (rule climb_complete [OF builds(1) q]) (use least no_return no_repeat in auto)
qed

section \<open>Properties\<close>

text \<open>C38: the walk up the accepted parents decides descent. Among the builds of the repository, keyed by
  slug, a build descends from another node exactly when some number of accepted parent edges leads
  there; a cycle of targets ends the walk and never hides an ancestor.\<close>

theorem descent_is_reachability:
  assumes "b \<in> set (map snd (by_slug bs))" and "slug_of b \<noteq> node"
  shows "descendsFrom b node (by_slug bs) identity \<longleftrightarrow>
     (\<exists>k p. parent_at (by_slug bs) identity b k (ba_target (acc_of b)) = Some p \<and> slug_of p = node)"
proof
  assume "descendsFrom b node (by_slug bs) identity"
  then show "\<exists>k p. parent_at (by_slug bs) identity b k (ba_target (acc_of b)) = Some p \<and> slug_of p = node"
    unfolding descendsFrom_def by (rule climb_sound)
next
  assume "\<exists>k p. parent_at (by_slug bs) identity b k (ba_target (acc_of b)) = Some p \<and> slug_of p = node"
  then show "descendsFrom b node (by_slug bs) identity"
    using climb_reaches [OF by_slug_keyed by_slug_entry [OF assms(1)] assms(2)] by blast
qed

text \<open>borrowing is bounded by the slots that stopped descendants hold. The effective capacity is the
  configured one unless a node borrows; then it is what is occupied, and exceeds the configured
  capacity by at most the number of stopped descendants that hold a slot of that node.\<close>

lemma borrowing_is_bounded:
  assumes "dispatchCapacity bs configured now identity = Inr cap"
  shows "dc_effective cap = configured \<or>
    (\<exists>node others excluded. node \<in> set (dc_borrowingNodes cap) \<and>
       nodeCapacity (map snd (by_slug bs)) node now identity = Inr (others, excluded) \<and>
       dc_occupied cap = Suc others + length excluded \<and> dc_effective cap = dc_occupied cap \<and>
       configured < dc_effective cap \<and> dc_effective cap \<le> configured + length excluded)"
proof -
  let ?uniq = "map snd (by_slug bs)"
  obtain bor where bor: "filter_result (borrows ?uniq (length (occupying ?uniq now)) configured now identity) ?uniq = Inr bor"
    and cap: "dc_occupied cap = length (occupying ?uniq now)" "dc_borrowingNodes cap = sort (map slug_of bor)"
      "dc_effective cap = (if bor = [] then configured else max configured (length (occupying ?uniq now)))"
  proof -
    obtain occ bor where occ: "filter_result (\<lambda>b. occupiesCapacity b now) ?uniq = Inr occ"
      and bor: "filter_result (borrows ?uniq (length occ) configured now identity) ?uniq = Inr bor"
      and cap: "cap = \<lparr>dc_configured = configured, dc_occupied = length occ,
        dc_effective = (if sort (map slug_of bor) \<noteq> [] then max configured (length occ) else configured),
        dc_borrowingNodes = sort (map slug_of bor)\<rparr>"
      using assms unfolding dispatchCapacity_def Let_def bind_result_Inr_iff map_result_Inr_iff by blast
    have "occ = occupying ?uniq now" using occ unfolding filter_result_Inr occupying_def by blast
    moreover have "sort (map slug_of bor) = [] \<longleftrightarrow> bor = []"
      by (metis length_0_conv length_map length_sort)
    ultimately show ?thesis using that [of bor] bor cap by simp
  qed
  show ?thesis
  proof (cases bor)
    case (Cons b rest)
    have b: "b \<in> set ?uniq" "borrows ?uniq (length (occupying ?uniq now)) configured now identity b = Inr True"
    proof -
      have "b \<in> set bor" using Cons by simp
      then show "b \<in> set ?uniq" and
        "borrows ?uniq (length (occupying ?uniq now)) configured now identity b = Inr True"
        using bor unfolding filter_result_Inr by simp_all
    qed
    obtain others excluded where n: "nodeCapacity ?uniq (slug_of b) now identity = Inr (others, excluded)"
      and few: "others < configured" "length (occupying ?uniq now) > configured" and occ: "occupiesCapacity b now = Inr True"
      using b(2) by (auto simp: borrows_def bind_result_Inr_iff map_result_Inr_iff split: if_splits)
    have "distinct (map slug_of (occupying ?uniq now))"
      using by_slug_unique [of bs] by (simp add: occupying_def distinct_map_filter)
    moreover have "b \<in> set (occupying ?uniq now)" using b(1) occ by (simp add: occupying_def)
    ultimately have "Suc (length (filter (\<lambda>y. slug_of y \<noteq> slug_of b) (occupying ?uniq now))) = length (occupying ?uniq now)"
      by (rule without_one)
    moreover have "others + length excluded = length (filter (\<lambda>y. slug_of y \<noteq> slug_of b) (occupying ?uniq now))"
      using nodeCapacity_Inr [OF n] unfolding by_slug_again by blast
    ultimately have "Suc (others + length excluded) = length (occupying ?uniq now)" by simp
    with n few cap Cons show ?thesis by (intro disjI2 exI [of _ "slug_of b"] exI) (auto simp: set_insort_key)
  qed (use cap in simp)
qed

text \<open>A conflicted node at work and its paused child, with one configured slot.\<close>

abbreviation ticket_n :: ticket_ref where
  "ticket_n \<equiv> \<lparr>tk_source = ''t'', tk_id = ''n'', tk_url = None, tk_title = None\<rparr>"

abbreviation node_n :: capacity_build where
  "node_n \<equiv> \<lparr>cb_record = \<lparr>br_slug = ''n'', br_repo = ''r'', br_ticket = Some ticket_n, br_lease = None\<rparr>,
     cb_state = finishBuild (initialBuildAcc\<lparr>ba_kind := Some Node, ba_nodeRestack := Some
       (initialNodeRestack\<lparr>nrs_conflict := Some \<lparr>ip_id = ''x'', ip_index = 0, ip_base = []\<rparr>\<rparr>)\<rparr>),
     cb_workspace = True, cb_provisioning = False\<rparr>"

abbreviation child_c :: capacity_build where
  "child_c \<equiv> \<lparr>cb_record = \<lparr>br_slug = ''c'', br_repo = ''r'', br_ticket = None, br_lease = None\<rparr>,
     cb_state = finishBuild (initialBuildAcc\<lparr>ba_kind := Some Work, ba_pausedFlag := True,
       ba_target := Some \<lparr>nt_ticket = ticket_n, nt_build = ''n''\<rparr>\<rparr>),
     cb_workspace = False, cb_provisioning = False\<rparr>"

lemma sample_capacity:
  "child_c \<in> set (map snd (by_slug [node_n, child_c])) \<and> slug_of child_c \<noteq> ''n'' \<and>
   dispatchCapacity [node_n, child_c] 1 0 exactIdentity =
     Inr \<lparr>dc_configured = 1, dc_occupied = 2, dc_effective = 2, dc_borrowingNodes = [''n'']\<rparr>"
  by code_simp

theorem descent_is_reachability_witness:
  "descendsFrom child_c ''n'' (by_slug [node_n, child_c]) exactIdentity \<longleftrightarrow>
   (\<exists>k p. parent_at (by_slug [node_n, child_c]) exactIdentity child_c k (ba_target (acc_of child_c)) = Some p \<and>
      slug_of p = ''n'')"
  by (rule descent_is_reachability) (use sample_capacity in blast)+

lemma borrowing_is_bounded_witness:
  "\<exists>others excluded. nodeCapacity (map snd (by_slug [node_n, child_c])) ''n'' 0 exactIdentity = Inr (others, excluded) \<and>
     (2::nat) = Suc others + length excluded"
  using borrowing_is_bounded [OF conjunct2 [OF conjunct2 [OF sample_capacity]]] by force

end
