(* ===== verification/PublicationRetry.thy ===== *)
theory PublicationRetry
  imports Reducer
begin

text \<open>
  \<^verbatim>\<open>packages/core/src/kernel/publication-retry.ts\<close>: the retry ladder of a publication. The state is folded
  from the retry facts since the last answer to an exhaustion; the gate decides whether the effect may
  run, and a transient failure appends the next fact. The store's conditional append is left out: the
  gate reads again when the log moved. \<open>publishing\<close> is the set of logs these operations can make.
\<close>

definition PUBLICATION_RETRY_SECONDS :: "int list" where
  "PUBLICATION_RETRY_SECONDS = [30, 60, 120, 240, 300, 300]"

fun operation_name :: "publication_op \<Rightarrow> string" where
  "operation_name OpRestack = ''restack''"
| "operation_name OpReconcile = ''reconcile''"
| "operation_name OpImplement = ''implement''"
| "operation_name OpFinalize = ''finalize''"
| "operation_name OpFinalizeStep = ''finalize-step''"

definition publicationEscalationId :: "publication_op \<Rightarrow> string \<Rightarrow> nat \<Rightarrow> string" where
  "publicationEscalationId op i anchor =
     ''publication:'' @ operation_name op @ '':'' @ i @ '':'' @ nat_text anchor"

section \<open>The state\<close>

datatype retry_fact = Scheduled (fact_of: retry_facts) timestamp | Exhausted (fact_of: retry_facts)

record retry_state =
  rt_anchor :: nat
  rt_latest :: "retry_fact option"

fun retry_fact_of :: "event_body \<Rightarrow> retry_fact option" where
  "retry_fact_of (EPublication (PublicationRetryScheduled f t)) = Some (Scheduled f t)"
| "retry_fact_of (EPublication (PublicationRetryExhausted f)) = Some (Exhausted f)"
| "retry_fact_of _ = None"

definition about :: "publication_op \<Rightarrow> string \<Rightarrow> retry_facts \<Rightarrow> bool" where
  "about op i f \<longleftrightarrow> rtf_operation f = op \<and> rtf_rewriteId f = i"

fun exhausted :: "retry_fact option \<Rightarrow> bool" where
  "exhausted (Some (Exhausted _)) = True"
| "exhausted _ = False"

definition answered_id :: "event_body \<Rightarrow> string option" where
  "answered_id b = (case b of EEscalation (EscalationAnswered p) \<Rightarrow> Some (ea_id p) | _ \<Rightarrow> None)"

definition retry_step :: "publication_op \<Rightarrow> string \<Rightarrow> retry_state \<Rightarrow> ab_event \<Rightarrow> retry_state" where
  "retry_step op i st e =
     (case answered_id (ev_body e) of
        Some x \<Rightarrow>
          if exhausted (rt_latest st) \<and> x = publicationEscalationId op i (rt_anchor st)
          then \<lparr>rt_anchor = ev_seq e, rt_latest = None\<rparr> else st
      | None \<Rightarrow>
          (case retry_fact_of (ev_body e) of
             Some f \<Rightarrow>
               if about op i (fact_of f) \<and> rtf_anchor (fact_of f) = rt_anchor st
               then st\<lparr>rt_latest := Some f\<rparr> else st
           | None \<Rightarrow> st))"

definition publicationRetryState :: "ab_event list \<Rightarrow> publication_op \<Rightarrow> string \<Rightarrow> retry_state" where
  "publicationRetryState es op i = foldl (retry_step op i) \<lparr>rt_anchor = 0, rt_latest = None\<rparr> es"

section \<open>The gate and the failure\<close>

datatype gate_outcome = Proceed | Deferred string | RaiseAndDefer escalation_raised string

definition publicationRetryGate ::
  "retry_state \<Rightarrow> string list \<Rightarrow> publication_op \<Rightarrow> string \<Rightarrow> timestamp \<Rightarrow> (timestamp \<Rightarrow> string) \<Rightarrow> gate_outcome" where
  "publicationRetryGate st openIds op i now show_time =
     (case rt_latest st of
        None \<Rightarrow> Proceed
      | Some (Scheduled f t) \<Rightarrow>
          if t > now then Deferred (''publication retry scheduled for '' @ show_time t) else Proceed
      | Some (Exhausted f) \<Rightarrow>
          (let x = publicationEscalationId op i (rt_anchor st);
               why = ''publication retry budget exhausted; awaiting answer''
           in if x \<in> set openIds then Deferred why
              else RaiseAndDefer
                \<lparr>er_id = x, er_phase = OnPhase (Core Reconcile), er_round = Some (rtf_round f),
                 er_source = SrcPolicy, er_policyCause = Some PublicationRetryLimit,
                 er_question = operation_name op @
                   '' publication exhausted after 6 retries; last error: '' @ rtf_error f,
                 er_refs = None\<rparr> why))"

datatype forge_error = AlreadyDeferred string | RateLimited string | Transient string | OtherError string

text \<open>
  \<open>Inl\<close>: the error is thrown again and nothing is written; \<open>Inr\<close>: the facts that are appended. The
  exhaustion is followed by the gate, which raises the escalation. A store that fails to write throws
  \<^verbatim>\<open>PublicationRetryPersistenceError\<close>, outside the model.
\<close>

definition failure_fact ::
  "retry_state \<Rightarrow> publication_op \<Rightarrow> string \<Rightarrow> nat \<Rightarrow> string \<Rightarrow> timestamp \<Rightarrow> retry_fact" where
  "failure_fact st op i round m now =
     (let failure = (case rt_latest st of None \<Rightarrow> 0 | Some f \<Rightarrow> rtf_failure (fact_of f)) + 1;
          fact = (\<lambda>n. \<lparr>rtf_operation = op, rtf_rewriteId = i, rtf_round = round,
                       rtf_anchor = rt_anchor st, rtf_failure = n, rtf_error = m\<rparr>)
      in if failure \<le> length PUBLICATION_RETRY_SECONDS
         then Scheduled (fact failure) (now + PUBLICATION_RETRY_SECONDS ! (failure - 1) * 1000)
         else Exhausted (fact 7))"

fun fact_event :: "retry_fact \<Rightarrow> event_body" where
  "fact_event (Scheduled f t) = EPublication (PublicationRetryScheduled f t)"
| "fact_event (Exhausted f) = EPublication (PublicationRetryExhausted f)"

definition exhaustion_raises ::
  "retry_state \<Rightarrow> string list \<Rightarrow> publication_op \<Rightarrow> string \<Rightarrow> timestamp \<Rightarrow> (timestamp \<Rightarrow> string) \<Rightarrow>
   retry_fact \<Rightarrow> event_body list" where
  "exhaustion_raises st openIds op i now show_time f =
     (if \<not> exhausted (Some f) then []
      else case publicationRetryGate (st\<lparr>rt_latest := Some f\<rparr>) openIds op i now show_time of
             RaiseAndDefer p _ \<Rightarrow> [EEscalation (EscalationRaised p)]
           | _ \<Rightarrow> [])"

definition recordPublicationFailure ::
  "retry_state \<Rightarrow> string list \<Rightarrow> publication_op \<Rightarrow> string \<Rightarrow> nat \<Rightarrow> timestamp \<Rightarrow> (timestamp \<Rightarrow> string) \<Rightarrow>
   forge_error \<Rightarrow> forge_error + event_body list" where
  "recordPublicationFailure st openIds op i round now show_time err =
     (case err of
        AlreadyDeferred m \<Rightarrow> Inl (AlreadyDeferred m)
      | RateLimited t \<Rightarrow> Inl (AlreadyDeferred (''forge cooldown until '' @ t))
      | OtherError m \<Rightarrow> Inl (OtherError m)
      | Transient m \<Rightarrow>
          (let f = failure_fact st op i round m now
           in Inr (fact_event f # exhaustion_raises st openIds op i now show_time f)))"

text \<open>
  The effect between the gate and the record of its failure. The facts are read again after the
  effect: \<open>st\<close> is the state at the gate, \<open>st'\<close> the one the failure finds.
\<close>

datatype 'a effect_result =
    Returned 'a | GateStopped gate_outcome | Thrown forge_error | Recorded "event_body list"

definition retryPublicationEffect ::
  "retry_state \<Rightarrow> retry_state \<Rightarrow> string list \<Rightarrow> publication_op \<Rightarrow> string \<Rightarrow> nat \<Rightarrow> timestamp \<Rightarrow>
   (timestamp \<Rightarrow> string) \<Rightarrow> forge_error + 'a \<Rightarrow> 'a effect_result" where
  "retryPublicationEffect st st' openIds op i round now show_time effect =
     (case publicationRetryGate st openIds op i now show_time of
        Proceed \<Rightarrow>
          (case effect of
             Inr x \<Rightarrow> Returned x
           | Inl err \<Rightarrow>
               (case recordPublicationFailure st' openIds op i round now show_time err of
                  Inl e \<Rightarrow> Thrown e | Inr bs \<Rightarrow> Recorded bs))
      | g \<Rightarrow> GateStopped g)"

section \<open>The logs of a publication\<close>

definition fresh :: "ab_event list \<Rightarrow> ab_event \<Rightarrow> bool" where
  "fresh es e \<longleftrightarrow> ev_seq e > 0 \<and> (\<forall>x \<in> set es. ev_seq x < ev_seq e)"

fun all_fresh :: "ab_event list \<Rightarrow> ab_event list \<Rightarrow> bool" where
  "all_fresh es [] = True"
| "all_fresh es (e # later) = (fresh es e \<and> all_fresh (es @ [e]) later)"

definition unrelated :: "publication_op \<Rightarrow> string \<Rightarrow> ab_event \<Rightarrow> bool" where
  "unrelated op i e \<longleftrightarrow> (\<forall>f. retry_fact_of (ev_body e) = Some f \<longrightarrow> \<not> about op i (fact_of f))"

text \<open>
  One writer retries the publication; any other events may land around it, also while its effect runs
  (\<open>mid\<close>).
\<close>

inductive publishing :: "publication_op \<Rightarrow> string \<Rightarrow> ab_event list \<Rightarrow> bool" for op i where
  start: "publishing op i []"
| other: "publishing op i es \<Longrightarrow> fresh es e \<Longrightarrow> unrelated op i e \<Longrightarrow> publishing op i (es @ [e])"
| failed: "publishing op i es \<Longrightarrow> all_fresh es (mid @ facts) \<Longrightarrow> list_all (unrelated op i) mid \<Longrightarrow>
    retryPublicationEffect (publicationRetryState es op i) (publicationRetryState (es @ mid) op i)
      openIds op i round now show_time (Inl err :: forge_error + unit) = Recorded (map ev_body facts) \<Longrightarrow>
    publishing op i (es @ mid @ facts)"

text \<open>The retry numbers recorded under one anchor, in log order.\<close>

definition numbers :: "publication_op \<Rightarrow> string \<Rightarrow> nat \<Rightarrow> ab_event list \<Rightarrow> nat list" where
  "numbers op i b es = List.map_filter (\<lambda>e. case retry_fact_of (ev_body e) of
       Some f \<Rightarrow> if about op i (fact_of f) \<and> rtf_anchor (fact_of f) = b then Some (rtf_failure (fact_of f)) else None
     | None \<Rightarrow> None) es"

lemma numbers_simps:
  "numbers op i b [] = []"
  "numbers op i b (es @ [e]) = numbers op i b es @
     (case retry_fact_of (ev_body e) of
        Some f \<Rightarrow> if about op i (fact_of f) \<and> rtf_anchor (fact_of f) = b then [rtf_failure (fact_of f)] else []
      | None \<Rightarrow> [])"
  by (simp_all add: numbers_def List.map_filter_def split: option.split)

text \<open>The numbers 1 to k.\<close>

definition rungs :: "nat \<Rightarrow> nat list" where
  "rungs k = [1..<Suc k]"

lemma rungs_simps: "rungs 0 = []" "rungs (Suc k) = rungs k @ [Suc k]"
  by (simp_all add: rungs_def)

lemma rungs_inj: "rungs j = rungs k \<Longrightarrow> j = k"
  unfolding rungs_def by (metis diff_Suc_1 length_upt)

definition last_number :: "retry_state \<Rightarrow> nat" where
  "last_number st = (case rt_latest st of None \<Rightarrow> 0 | Some f \<Rightarrow> rtf_failure (fact_of f))"

definition ladder :: "publication_op \<Rightarrow> string \<Rightarrow> ab_event list \<Rightarrow> bool" where
  "ladder op i es \<longleftrightarrow>
     (let st = publicationRetryState es op i in
      (rt_anchor st = 0 \<or> rt_anchor st \<in> ev_seq ` set es) \<and>
      (\<forall>b > rt_anchor st. numbers op i b es = []) \<and>
      (\<forall>b. \<exists>k \<le> 7. numbers op i b es = rungs k) \<and>
      numbers op i (rt_anchor st) es = rungs (last_number st) \<and>
      (exhausted (rt_latest st) \<longleftrightarrow> last_number st = 7))"

lemma ladderD:
  assumes "ladder op i es"
  shows "rt_anchor (publicationRetryState es op i) = 0 \<or> rt_anchor (publicationRetryState es op i) \<in> ev_seq ` set es"
    and "b > rt_anchor (publicationRetryState es op i) \<Longrightarrow> numbers op i b es = []"
    and "\<exists>k \<le> 7. numbers op i b es = rungs k"
    and "numbers op i (rt_anchor (publicationRetryState es op i)) es = rungs (last_number (publicationRetryState es op i))"
    and "exhausted (rt_latest (publicationRetryState es op i)) \<longleftrightarrow> last_number (publicationRetryState es op i) = 7"
  using assms by (simp_all add: ladder_def Let_def)

lemma state_snoc: "publicationRetryState (es @ [e]) op i = retry_step op i (publicationRetryState es op i) e"
  by (simp add: publicationRetryState_def)

lemma answer_no_fact: "answered_id b \<noteq> None \<Longrightarrow> retry_fact_of b = None"
  by (auto simp: answered_id_def split: event_body.splits escalation_ev.splits)

lemma fact_no_answer: "retry_fact_of b = Some f \<Longrightarrow> answered_id b = None"
  using answer_no_fact by force

lemma ladder_other:
  assumes inv: "ladder op i es" and "fresh es e" and "unrelated op i e"
  shows "ladder op i (es @ [e])"
proof -
  have same: "numbers op i b (es @ [e]) = numbers op i b es" for b
    using assms(3) by (auto simp: numbers_simps unrelated_def split: option.split)
  let ?st = "publicationRetryState es op i"
  have "retry_step op i ?st e = ?st \<or>
      exhausted (rt_latest ?st) \<and> retry_step op i ?st e = \<lparr>rt_anchor = ev_seq e, rt_latest = None\<rparr>"
    using assms(3)
    by (cases "answered_id (ev_body e)"; cases "retry_fact_of (ev_body e)")
      (auto simp: retry_step_def unrelated_def)
  then consider (keep) "retry_step op i ?st e = ?st"
    | (answer) "exhausted (rt_latest ?st)" "retry_step op i ?st e = \<lparr>rt_anchor = ev_seq e, rt_latest = None\<rparr>"
    by blast
  then show ?thesis
  proof cases
    case keep
    then show ?thesis using inv unfolding ladder_def state_snoc same by (auto simp: Let_def)
  next
    case answer
    have "rt_anchor ?st < ev_seq e" using ladderD(1) [OF inv] assms(2) by (auto simp: fresh_def)
    then have none: "numbers op i b es = []" if "b \<ge> ev_seq e" for b
      using ladderD(2) [OF inv] that by simp
    show ?thesis
      using none ladderD(3) [OF inv]
      unfolding ladder_def state_snoc same answer(2) by (simp add: Let_def last_number_def rungs_simps)
  qed
qed

lemma ladder_others:
  "ladder op i es \<Longrightarrow> all_fresh es later \<Longrightarrow> list_all (unrelated op i) later \<Longrightarrow> ladder op i (es @ later)"
proof (induction later arbitrary: es)
  case (Cons e later)
  then have "ladder op i (es @ [e])" by (auto intro: ladder_other)
  with Cons.IH [of "es @ [e]"] Cons.prems show ?case by simp
qed simp

text \<open>Unrelated events move an exhausted state only.\<close>

lemma unrelated_keeps:
  "\<not> exhausted (rt_latest (publicationRetryState es op i)) \<Longrightarrow> list_all (unrelated op i) later \<Longrightarrow>
   publicationRetryState (es @ later) op i = publicationRetryState es op i"
proof (induction later arbitrary: es)
  case (Cons e later)
  have "retry_step op i (publicationRetryState es op i) e = publicationRetryState es op i"
    using Cons.prems by (auto simp: retry_step_def unrelated_def split: option.split)
  with Cons.IH [of "es @ [e]"] Cons.prems show ?case by (simp add: state_snoc)
qed simp

text \<open>A recorded failure continues the ladder of the current anchor by one.\<close>

lemma gate_proceeds:
  "publicationRetryGate st openIds op i now show_time = Proceed \<Longrightarrow> \<not> exhausted (rt_latest st)"
  by (auto simp: publicationRetryGate_def Let_def split: option.splits retry_fact.splits if_splits)

lemma failure_fact_number:
  "about op i (fact_of (failure_fact st op i round m now)) \<and>
   rtf_anchor (fact_of (failure_fact st op i round m now)) = rt_anchor st \<and>
   (if last_number st < 6
    then rtf_failure (fact_of (failure_fact st op i round m now)) = last_number st + 1 \<and>
         \<not> exhausted (Some (failure_fact st op i round m now))
    else rtf_failure (fact_of (failure_fact st op i round m now)) = 7 \<and>
         exhausted (Some (failure_fact st op i round m now)))"
  by (cases "rt_latest st")
    (auto simp: failure_fact_def about_def last_number_def PUBLICATION_RETRY_SECONDS_def Let_def)

lemma retry_fact_event [simp]: "retry_fact_of (fact_event f) = Some f"
  by (cases f) simp_all

lemma raises_no_fact:
  "b \<in> set (exhaustion_raises st openIds op i now show_time f) \<Longrightarrow> retry_fact_of b = None"
  by (auto simp: exhaustion_raises_def split: if_splits gate_outcome.splits)

lemma recorded_facts:
  assumes "retryPublicationEffect st st' openIds op i round now show_time (Inl err :: forge_error + 'a) =
    Recorded bs"
  shows "\<not> exhausted (rt_latest st) \<and> (\<exists>m rest. bs = fact_event (failure_fact st' op i round m now) # rest \<and>
    (\<forall>b \<in> set rest. retry_fact_of b = None))"
  using assms gate_proceeds [of st openIds op i now show_time] raises_no_fact
  by (auto simp: retryPublicationEffect_def recordPublicationFailure_def Let_def
      split: gate_outcome.splits forge_error.splits)

lemma ladder_failed:
  assumes inv: "ladder op i es" and op_en: "\<not> exhausted (rt_latest (publicationRetryState es op i))"
    and body: "ev_body e = fact_event (failure_fact (publicationRetryState es op i) op i round m now)"
  shows "ladder op i (es @ [e])"
proof -
  let ?st = "publicationRetryState es op i"
  obtain f where f: "f = failure_fact ?st op i round m now" by blast
  have fact: "retry_fact_of (ev_body e) = Some f" "about op i (fact_of f)" "rtf_anchor (fact_of f) = rt_anchor ?st"
    and num: "if last_number ?st < 6 then rtf_failure (fact_of f) = last_number ?st + 1 \<and> \<not> exhausted (Some f)
      else rtf_failure (fact_of f) = 7 \<and> exhausted (Some f)"
    using failure_fact_number [of op i ?st round m now] body unfolding f by simp_all
  have st: "retry_step op i ?st e = ?st\<lparr>rt_latest := Some f\<rparr>"
    using fact fact_no_answer by (simp add: retry_step_def)
  have nums: "numbers op i b (es @ [e]) =
      (if b = rt_anchor ?st then numbers op i b es @ [rtf_failure (fact_of f)] else numbers op i b es)" for b
    using fact by (auto simp: numbers_simps)
  have "last_number ?st \<le> 7"
    using ladderD(3) [OF inv, of "rt_anchor ?st"] ladderD(4) [OF inv] rungs_inj by metis
  then have low: "last_number ?st < 7" using op_en ladderD(5) [OF inv] by simp
  with num have n: "rtf_failure (fact_of f) = Suc (last_number ?st)" "rtf_failure (fact_of f) \<le> 7"
    "exhausted (Some f) \<longleftrightarrow> rtf_failure (fact_of f) = 7"
    by (auto split: if_splits)
  have grown: "numbers op i (rt_anchor ?st) (es @ [e]) = rungs (rtf_failure (fact_of f))"
    by (simp add: nums n(1) rungs_simps ladderD(4) [OF inv])
  have "\<exists>k \<le> 7. numbers op i b (es @ [e]) = rungs k" for b
    using grown n(2) ladderD(3) [OF inv, of b] by (cases "b = rt_anchor ?st") (auto simp: nums)
  moreover have "\<forall>b > rt_anchor ?st. numbers op i b (es @ [e]) = []"
    using ladderD(2) [OF inv] by (simp add: nums)
  moreover have "rt_anchor ?st = 0 \<or> rt_anchor ?st \<in> ev_seq ` set (es @ [e])"
    using ladderD(1) [OF inv] by auto
  ultimately show ?thesis
    using grown n(3) unfolding ladder_def state_snoc st by (simp add: Let_def last_number_def)
qed

lemma all_fresh_append: "all_fresh es (a @ b) \<longleftrightarrow> all_fresh es a \<and> all_fresh (es @ a) b"
  by (induction a arbitrary: es) auto

lemma publishing_ladder: "publishing op i es \<Longrightarrow> ladder op i es"
proof (induction rule: publishing.induct)
  case start
  show ?case
    by (auto simp: ladder_def publicationRetryState_def numbers_simps last_number_def rungs_simps Let_def
        intro!: exI [of _ 0])
next
  case (other es e)
  then show ?case by (blast intro: ladder_other)
next
  case (failed es mid facts openIds round now show_time err)
  from recorded_facts [OF failed.hyps(4)] obtain m e rest where
    op_en: "\<not> exhausted (rt_latest (publicationRetryState es op i))" and facts: "facts = e # rest"
    and body: "ev_body e = fact_event (failure_fact (publicationRetryState (es @ mid) op i) op i round m now)"
    and rest: "list_all (unrelated op i) rest"
    by (auto simp: Cons_eq_map_conv unrelated_def list_all_iff)
  have fresh_mid: "all_fresh es mid" and fresh_e: "all_fresh ((es @ mid) @ [e]) rest"
    using failed.hyps(2) by (simp_all add: all_fresh_append facts)
  have "ladder op i (es @ mid)" using failed fresh_mid by (blast intro: ladder_others)
  moreover have "\<not> exhausted (rt_latest (publicationRetryState (es @ mid) op i))"
    using op_en unrelated_keeps [OF op_en failed.hyps(3)] by simp
  ultimately have "ladder op i ((es @ mid) @ [e])" using body by (rule ladder_failed)
  from ladder_others [OF this fresh_e rest] show ?case by (simp add: facts)
qed

section \<open>Properties\<close>


abbreviation failed_once :: ab_event where
  "failed_once \<equiv> \<lparr>ev_seq = 1, ev_ts = 0, ev_actor = Kernel, ev_body = EPublication
     (PublicationRetryScheduled \<lparr>rtf_operation = OpRestack, rtf_rewriteId = ''r'', rtf_round = 1,
        rtf_anchor = 0, rtf_failure = 1, rtf_error = ''x''\<rparr> 30000)\<rparr>"


end
