(* ===== verification/NodePolling.thy ===== *)
theory NodePolling
  imports Reducer "HOL-Library.Multiset" "HOL-Library.List_Lexorder" "HOL-Library.Char_ord"
begin

text \<open>
  The schedule of a node's polls, \<^verbatim>\<open>packages/core/src/kernel/node-polling.ts\<close>: what keeps a node
  unsettled, when recorded evidence still holds, when a new checkpoint is due. The key of an activity
  is a digest of its canonical text; the digest is a parameter, applied to the entries in key order.
\<close>

record polling_policy =
  py_idleAfter :: nat
  py_idlePoll :: nat

type_synonym activity_map = "(string, activity) jsmap"
type_synonym canonical_activity = "(string \<times> activity) list \<times> (string \<times> (string \<times> activity) list) list"

definition canonical_entries :: "activity_map \<Rightarrow> (string \<times> activity) list" where
  "canonical_entries act = sort_key fst act"

definition nodeActivityKey ::
  "(canonical_activity \<Rightarrow> string) \<Rightarrow> activity_map \<Rightarrow> (string \<times> activity_map) list \<Rightarrow> string" where
  "nodeActivityKey digest own children =
     digest (canonical_entries own,
             map (\<lambda>(slug, act). (slug, canonical_entries act)) (sort_key fst children))"

definition select_types :: "string list \<Rightarrow> activity_map \<Rightarrow> activity_map" where
  "select_types types act =
     List.map_filter (\<lambda>t. map_option (Pair t) (map_of act t)) types"

definition own_ticket_types :: "string list" where
  "own_ticket_types =
     [''build.land-requested'', ''build.hold-requested'', ''node.restack-requested'',
      ''escalation.answered'', ''node.parent-requested'', ''node.parent-accepted'']"

definition child_ticket_types :: "string list" where
  "child_ticket_types =
     [''build.created'', ''pr.opened'', ''finalize.completed'', ''pr.merged'', ''pr.closed'',
      ''build.completed'', ''build.aborted'', ''node.contribution-recorded'', ''integration.landed'']"

definition nodeTicketObservationKey ::
  "(canonical_activity \<Rightarrow> string) \<Rightarrow> activity_map \<Rightarrow> (string \<times> activity_map) list \<Rightarrow> string" where
  "nodeTicketObservationKey digest own children =
     nodeActivityKey digest (select_types own_ticket_types own)
       (map (\<lambda>(slug, act). (slug, select_types child_ticket_types act)) children)"

section \<open>Unsettled nodes\<close>

definition restack_unsettled :: "node_restack_state \<Rightarrow> bool" where
  "restack_unsettled r \<longleftrightarrow>
     map_option pd_count (nrs_distance r) = Some None \<or> nrs_active r \<noteq> None \<or>
     nrs_parentRequest r \<noteq> None \<or> nrs_parentChange r \<noteq> None \<or> nrs_requests r \<noteq> []"

definition native_unsettled :: "landing_state \<Rightarrow> bool" where
  "native_unsettled l \<longleftrightarrow>
     (case ln_native l of None \<Rightarrow> False | Some (n, _) \<Rightarrow> na_operation n \<noteq> None \<or> na_enabled n)"

definition command_unacknowledged :: "build_acc \<Rightarrow> bool" where
  "command_unacknowledged acc \<longleftrightarrow>
     ba_pr acc \<noteq> None \<and>
     (case ln_command (ba_landing acc) of
        None \<Rightarrow> False | Some c \<Rightarrow> Some (cm_seq c) \<noteq> ln_acknowledgedSeq (ba_landing acc))"

definition landing_unsettled :: "build_acc \<Rightarrow> bool" where
  "landing_unsettled acc \<longleftrightarrow>
     native_unsettled (ba_landing acc) \<or> ln_nativeEnablePending (ba_landing acc) \<noteq> None \<or>
     ln_applicationFailure (ba_landing acc) \<noteq> None \<or> command_unacknowledged acc"

definition nodePollingUnsettled :: "build_state \<Rightarrow> bool" where
  "nodePollingUnsettled st \<longleftrightarrow>
     (let acc = bs_acc st in
      ba_nodeOpened acc = None \<or> ba_nodeComparison acc = None \<or> ba_currentPhase acc \<noteq> None \<or>
      bs_status st \<in> {StDone, StAborted} \<or> ba_prState acc \<in> {Some PrIsClosed, Some PrIsMerged} \<or>
      bs_pendingCommands st \<noteq> [] \<or> ba_openSessions acc \<noteq> [] \<or> landing_unsettled acc \<or>
      (case ba_nodeRestack acc of None \<Rightarrow> False | Some r \<Rightarrow> restack_unsettled r) \<or>
      (case ba_integration acc of None \<Rightarrow> False | Some i \<Rightarrow> is_intent i \<noteq> None))"

section \<open>Evidence and schedule\<close>

text \<open>The times of a check are numbers here: its \<^verbatim>\<open>checkedAt\<close> is the second component.\<close>

definition nodePollingEvidenceValid :: "build_state \<Rightarrow> string \<Rightarrow> polling_policy \<Rightarrow> timestamp \<Rightarrow> bool" where
  "nodePollingEvidenceValid st key policy now =
     (case ba_nodePolling (bs_acc st) of
        None \<Rightarrow> False
      | Some (check, checked) \<Rightarrow>
          pk_activityKey check = key \<and> pk_idleAfterSeconds check = py_idleAfter policy \<and>
          pk_idlePollSeconds check = py_idlePoll policy \<and> pk_unchangedSince check \<le> now \<and> checked \<le> now)"

definition quiet_for :: "timestamp \<Rightarrow> timestamp \<Rightarrow> nat \<Rightarrow> bool" where
  "quiet_for now since seconds \<longleftrightarrow> now - since \<ge> int seconds * 1000"

definition nodePollingCheckpointRequired :: "build_state \<Rightarrow> string \<Rightarrow> polling_policy \<Rightarrow> timestamp \<Rightarrow> bool" where
  "nodePollingCheckpointRequired st key policy now =
     (if \<not> nodePollingEvidenceValid st key policy now then True
      else case ba_nodePolling (bs_acc st) of
             None \<Rightarrow> True
           | Some (check, checked) \<Rightarrow>
               quiet_for now (pk_unchangedSince check) (py_idleAfter policy) \<and>
               quiet_for now checked (py_idlePoll policy))"

datatype polling_mode = Idle | Active

record polling_schedule =
  pg_mode :: polling_mode
  pg_due :: bool
  pg_intervalSeconds :: nat
  pg_lastChecked :: "timestamp option"

definition nodePollingSchedule ::
  "build_state \<Rightarrow> string \<Rightarrow> polling_policy \<Rightarrow> timestamp \<Rightarrow> bool \<Rightarrow> polling_schedule" where
  "nodePollingSchedule st key policy now unsettled =
     (let check = ba_nodePolling (bs_acc st);
          quiet = (case check of None \<Rightarrow> False
                   | Some (c, _) \<Rightarrow> quiet_for now (pk_unchangedSince c) (py_idleAfter policy));
          idle = (\<not> unsettled \<and> nodePollingEvidenceValid st key policy now \<and> quiet)
      in \<lparr>pg_mode = (if idle then Idle else Active),
          pg_due = (\<not> idle \<or> (case check of None \<Rightarrow> False | Some (_, checked) \<Rightarrow> quiet_for now checked (py_idlePoll policy))),
          pg_intervalSeconds = py_idlePoll policy,
          pg_lastChecked = map_option snd check\<rparr>)"

section \<open>The schedule and the checkpoints agree\<close>

lemma idle_due_checkpoint:
  "pg_mode (nodePollingSchedule st key policy now unsettled) = Idle \<Longrightarrow>
   pg_due (nodePollingSchedule st key policy now unsettled) \<longleftrightarrow> nodePollingCheckpointRequired st key policy now"
  by (cases "ba_nodePolling (bs_acc st)")
    (auto simp: nodePollingSchedule_def nodePollingCheckpointRequired_def nodePollingEvidenceValid_def Let_def
      split: if_splits)

lemma valid_poll_before:
  "nodePollingEvidenceValid st key policy now \<Longrightarrow> now \<le> later \<Longrightarrow> nodePollingEvidenceValid st key policy later"
  by (auto simp: nodePollingEvidenceValid_def split: option.splits)

text \<open>The insertion order of the entries does not show in the key.\<close>

lemma canonical_perm:
  assumes "distinct (map fst act)" and "mset act = mset act'"
  shows "canonical_entries act = canonical_entries act'"
proof -
  have "inj_on fst (set act)" using assms(1) by (simp add: distinct_map)
  then have "sort_key fst act = sort_key fst act'"
    using assms(2) by (intro sort_key_inj_key_eq) simp_all
  then show ?thesis by (simp add: canonical_entries_def)
qed

section \<open>Properties\<close>

text \<open>an idle node is polled at its cadence. A settled node whose recorded evidence holds and has been
  quiet for the idle period is idle; it is due exactly when a new checkpoint is required, which is
  when the last check is a poll interval old, and any other node is due at every turn.\<close>

lemma idle_cadence:
  "pg_mode (nodePollingSchedule st key policy now (nodePollingUnsettled st)) = Idle \<and>
     pg_due (nodePollingSchedule st key policy now (nodePollingUnsettled st)) =
       nodePollingCheckpointRequired st key policy now \<or>
   pg_mode (nodePollingSchedule st key policy now (nodePollingUnsettled st)) = Active \<and>
     pg_due (nodePollingSchedule st key policy now (nodePollingUnsettled st))"
  using idle_due_checkpoint [of st key policy now "nodePollingUnsettled st"]
  by (auto simp: nodePollingSchedule_def Let_def)

end
