(* ===== verification/HarvestEvents.thy ===== *)
theory HarvestEvents
  imports Incremental
begin

text \<open>
  The harvest facts of a repository journal: \<^verbatim>\<open>harvestEventPayloadSchemas\<close> of
  \<^verbatim>\<open>packages/core/src/events/repository.ts\<close> with the values of \<^verbatim>\<open>packages/core/src/harvest/schema.ts\<close>.
  The \<^verbatim>\<open>harvest.execution.*\<close> facts, which no fold here reads, are \<open>OtherFact\<close> of the journal. Of a
  session the account and the substitution are left out, of a failure the provider attempts.
\<close>

record occurrence =
  oc_build :: string
  oc_seq :: nat

definition occurrenceKey :: "occurrence \<Rightarrow> string" where
  "occurrenceKey k = oc_build k @ '':'' @ nat_text (oc_seq k)"

datatype harvest_trigger = CountTrigger | DriftTrigger | BothTriggers

datatype harvest_step = ScanStep | SynthesizeStep | ReviewStep | FileStep

datatype disposition_action = ActionFiled | ActionJoined | ActionSuppressed

record disposition =
  hd_occurrence :: occurrence
  hd_action :: disposition_action
  hd_proposalKey :: "string option"
  hd_ticket :: "ticket_ref option"
  hd_reason :: "string option"

datatype proposal_action = CreateProposal | JoinProposal | SuppressProposal

record pending_proposal =
  hp_proposalKey :: string
  hp_action :: proposal_action
  hp_observations :: "occurrence list"

record blocker_provenance =
  bp_declared :: "string list"
  bp_derived :: "string list"

record exhausted_fact =
  hx_run :: string
  hx_step :: harvest_step
  hx_round :: "nat option"
  hx_error :: string
  hx_attempts :: nat
  hx_limit :: nat
  hx_released :: "occurrence list"
  hx_committed :: "disposition list"
  hx_pending :: "pending_proposal list"

record started_fact =
  hb_run :: string
  hb_observations :: "occurrence list"
  hb_scan :: artifact_ref
  hb_trigger :: "harvest_trigger option"

datatype harvest_outcome = StepCompleted | StepApproved | StepRevised | StepEscalated | StepFailed

record completed_fact =
  hc_run :: string
  hc_step :: harvest_step
  hc_outcome :: harvest_outcome
  hc_round :: "nat option"
  hc_artifact :: "artifact_ref option"
  hc_detail :: "string option"

record verdict_fact =
  hv_run :: string
  hv_round :: nat
  hv_verdict :: review_verdict_kind
  hv_findings :: "finding list"
  hv_artifact :: artifact_ref
  hv_reason :: "string option"

record filed_fact =
  hf_run :: string
  hf_proposalKey :: string
  hf_ticket :: ticket_ref
  hf_blockers :: "blocker_provenance option"

datatype escalation_origin = AgentOrigin | StallOrigin | PolicyOrigin

record escalated_fact =
  he_source :: escalation_origin
  he_reason :: string
  he_round :: "nat option"

record failed_fact =
  hl_step :: harvest_step
  hl_round :: "nat option"
  hl_attempt :: nat
  hl_error :: string
  hl_willRetry :: bool

datatype continuation_cause = ByShutdown | ByCutover | ByRunnerLoss

record harvest_continuation =
  hk_predecessor :: string
  hk_root :: string
  hk_handle :: "native_handle option"
  hk_cause :: continuation_cause

datatype harvest_role = HarvestRole | HarvestReviewRole

record harvest_session =
  hz_session :: string
  hz_continuation :: "harvest_continuation option"
  hz_role :: harvest_role
  hz_runner :: string
  hz_model :: "string option"
  hz_args :: "string list option"
  hz_step :: harvest_step
  hz_round :: nat
  hz_stream :: "string option"

datatype suspend_cause = SuspendShutdown | SuspendCutover

text \<open>A session fact carries its run and its session first.\<close>

datatype harvest_session_ev =
    HandleRecorded native_handle
  | HSessionSuspended suspend_cause artifact_ref
  | HSessionResumed string string native_handle
  | ResumeFallback
  | HSessionEnded artifact_ref

datatype harvest_ev =
    HPauseRequested
  | HResumeRequested
  | HPaused
  | HResumed
  | HRecoveryRequested string nat nat
  | HRecoveryExhausted exhausted_fact
  | HStarted started_fact
  | HStepStarted string harvest_step "nat option"
  | HStepCompleted completed_fact
  | HProposalsSubmitted string nat artifact_ref
  | HReviewVerdict verdict_fact
  | HIdReserved string string string
  | HFiled filed_fact
  | HCompleted string "disposition list" artifact_ref
  | HEscalated string escalated_fact
  | HFailed string failed_fact
  | HSessionStarted string harvest_session
  | HSessionFact string string harvest_session_ev

fun harvest_run_of :: "harvest_ev \<Rightarrow> string option" where
  "harvest_run_of HPauseRequested = None"
| "harvest_run_of HResumeRequested = None"
| "harvest_run_of HPaused = None"
| "harvest_run_of HResumed = None"
| "harvest_run_of (HRecoveryRequested r _ _) = Some r"
| "harvest_run_of (HRecoveryExhausted p) = Some (hx_run p)"
| "harvest_run_of (HStarted p) = Some (hb_run p)"
| "harvest_run_of (HStepStarted r _ _) = Some r"
| "harvest_run_of (HStepCompleted p) = Some (hc_run p)"
| "harvest_run_of (HProposalsSubmitted r _ _) = Some r"
| "harvest_run_of (HReviewVerdict p) = Some (hv_run p)"
| "harvest_run_of (HIdReserved r _ _) = Some r"
| "harvest_run_of (HFiled p) = Some (hf_run p)"
| "harvest_run_of (HCompleted r _ _) = Some r"
| "harvest_run_of (HEscalated r _) = Some r"
| "harvest_run_of (HFailed r _) = Some r"
| "harvest_run_of (HSessionStarted r _) = Some r"
| "harvest_run_of (HSessionFact r _ _) = Some r"

section \<open>Occurrence keys\<close>

lemma nat_text_digits: "c \<in> set (nat_text n) \<Longrightarrow> (of_char c :: nat) \<in> {48..57}"
  by (induction n rule: nat_text.induct) (subst (asm) (2) nat_text.simps, auto split: if_splits)

lemma nat_text_value: "foldl (\<lambda>a c. a * 10 + (of_char c - 48)) 0 (nat_text n) = n"
  by (induction n rule: nat_text.induct) (subst nat_text.simps, auto)

lemma nat_text_inj [simp]: "nat_text m = nat_text n \<longleftrightarrow> m = n"
  by (metis nat_text_value)

lemma colon_not_digit: "CHR '':'' \<notin> set (nat_text n)"
  using nat_text_digits by fastforce

text \<open>The last colon of a key ends the build's name: the key determines the occurrence.\<close>

lemma last_colon:
  assumes "x \<notin> set ds" and "x \<notin> set es" and "xs @ x # ds = ys @ x # es"
  shows "xs = ys \<and> ds = es"
proof -
  have after: "takeWhile (\<lambda>c. c \<noteq> x) (rev (zs @ x # fs)) = rev fs" if "x \<notin> set fs" for zs fs
    using that by (auto simp: takeWhile_append)
  have "rev ds = rev es" using after [OF assms(1)] after [OF assms(2)] assms(3) by metis
  with assms(3) show ?thesis by simp
qed

lemma occurrenceKey_inj [simp]: "occurrenceKey a = occurrenceKey b \<longleftrightarrow> a = b"
proof
  assume "occurrenceKey a = occurrenceKey b"
  then have "oc_build a @ CHR '':'' # nat_text (oc_seq a) = oc_build b @ CHR '':'' # nat_text (oc_seq b)"
    by (simp only: occurrenceKey_def append_Cons append_Nil)
  from last_colon [OF colon_not_digit colon_not_digit this] show "a = b" by simp
qed simp

end
