(* ===== verification/JournalEvents.thy ===== *)
theory JournalEvents
  imports HarvestEvents
begin

text \<open>
  Further facts of a repository journal, \<^verbatim>\<open>packages/core/src/events/repository.ts\<close>: ticket migrations, the
  preparation of tickets, the operator's sandbox and the hosted executions of a harvest. The path of a
  provisioned sandbox and the snapshot outcome of a released environment, which no fold here reads, are
  left out; \<^verbatim>\<open>orchestrator.sandbox.published\<close> and \<^verbatim>\<open>publish-failed\<close> are \<open>OtherFact\<close> of the journal.
\<close>

text \<open>A mapping is an object: its ids in insertion order, each once.\<close>

record migration =
  mg_identity :: string
  mg_from :: string
  mg_to :: string
  mg_mapping :: "(string, string) jsmap"

record preparation_failure =
  pf_stage :: string
  pf_claimed :: bool
  pf_handback :: string
  pf_error :: string

record recovery_failure =
  py_claimed :: "bool option"
  py_preparationError :: "string option"
  py_handback :: "string option"
  py_error :: string
  py_retryAt :: timestamp

text \<open>A preparation fact carries its attempt first; only the intent's ticket is read.\<close>

datatype preparation_ev =
    PrepIntended string ticket_ref string string
  | PrepClaimed string
  | PrepCreationSelected string string
  | PrepFailed string preparation_failure
  | PrepRecoveryFailed string recovery_failure
  | PrepHandbackSelected string string
  | PrepResolved string

record sandbox_opened =
  sx_operator :: string
  sx_environmentId :: string
  sx_provider :: string
  sx_sessionId :: "string option"

text \<open>A sandbox fact names its operator and its environment; a provision may name the base commit.\<close>

datatype sandbox_ev =
    SandboxProvisioned sandbox_opened "sha option"
  | SandboxResumed sandbox_opened
  | SandboxActivity string string
  | SandboxStopped string string
  | SandboxReleased string string
  | SandboxReset string string

datatype launch_kind = LaunchStarted | LaunchResumed

record harvest_authorized =
  hu_execution :: string
  hu_run :: string
  hu_launch :: launch_kind
  hu_leaseHolder :: string

record harvest_execution_started =
  hj_execution :: string
  hj_provider :: string
  hj_environmentId :: string
  hj_sessionId :: "string option"
  hj_commandId :: "string option"

datatype harvest_execution_ev =
    HarvestAuthorized harvest_authorized
  | HarvestExecutionEnded string string
  | HarvestExecutionStarted harvest_execution_started
  | HarvestExecutionReleased string string

fun harvest_execution_run :: "harvest_execution_ev \<Rightarrow> string option" where
  "harvest_execution_run (HarvestAuthorized p) = Some (hu_run p)"
| "harvest_execution_run (HarvestExecutionEnded _ r) = Some r"
| "harvest_execution_run (HarvestExecutionStarted _) = None"
| "harvest_execution_run (HarvestExecutionReleased _ _) = None"

end
