(* ===== verification/RepositoryEvents.thy ===== *)
theory RepositoryEvents
  imports JournalEvents
begin

text \<open>
  The repository journal, \<^verbatim>\<open>packages/core/src/events/repository.ts\<close>: the facts a dispatcher run leaves
  (runs, ticks, configuration, upgrades and handoffs, settings, source and forge health), the harvest
  facts of \<open>HarvestEvents\<close> and those of \<open>JournalEvents\<close>, with the
  payload fields the modelled reducers read. A runtime identity is its JSON text. The other types are
  \<open>OtherFact\<close>, with their \<^verbatim>\<open>run\<close> if they have one; \<open>UnknownFact\<close> is a type outside the catalog.
\<close>

record upgrade_target =
  ut_mode :: string
  ut_key :: string
  ut_source :: string
  ut_version :: "string option"
  ut_base :: "string option"
  ut_sha :: "string option"

record upgrade_identity =
  ui_correlation :: string
  ui_run :: string
  ui_lineage :: string
  ui_from :: string
  ui_target :: upgrade_target

record handoff =
  ho_identity :: upgrade_identity
  ho_to :: string
  ho_root :: string
  ho_cacheId :: string

abbreviation ho_correlation :: "handoff \<Rightarrow> string" where
  "ho_correlation h \<equiv> ui_correlation (ho_identity h)"

abbreviation ho_run :: "handoff \<Rightarrow> string" where
  "ho_run h \<equiv> ui_run (ho_identity h)"

datatype handoff_mode = DrainMode | CutoverMode
datatype drain_outcome = Drained | DrainSuspended | DrainUnknown

record rollback =
  rb_correlation :: string
  rb_run :: string
  rb_lineage :: string
  rb_target :: upgrade_target

record yield_request =
  yq_handoff :: handoff
  yq_successor :: string
  yq_mode :: handoff_mode

record handoff_start =
  hs_handoff :: handoff
  hs_successor :: "string option"
  hs_mode :: "handoff_mode option"
  hs_deadline :: "timestamp option"
  hs_builds :: "(string \<times> string) list option"

datatype upgrade_ev =
    UpgradeTargetResolved string string upgrade_target
  | UpgradeDetected upgrade_identity
  | UpgradeFailed upgrade_identity string
  | TargetPrepared handoff
  | YieldRequested yield_request
  | HandoffStarted handoff_start
  | TerminalReleased handoff
  | Takeover handoff string
  | DrainDeadline handoff timestamp
  | DrainSettled handoff string string drain_outcome
  | HandoffCompleted handoff string
  | RuntimeRolledBack rollback
  | RollbackHoldCleared rollback

record run_started =
  sr_run :: string
  sr_lineage :: "string option"
  sr_effectiveConfig :: artifact_ref
  sr_roleWarnings :: "string list"

datatype run_outcome = NormalStop | AbnormalStop | ForcedStop

record run_stopped =
  sp_run :: string
  sp_outcome :: run_outcome
  sp_error :: "string option"
  sp_superseded :: bool

record tick_completed =
  tc_run :: string
  tc_queued :: nat
  tc_triage :: "nat option"
  tc_creationWithheld :: "nat option"
  tc_janitorDiagnostics :: "string list"
  tc_ticketDiagnostics :: "string list"
  tc_creationDiagnostics :: "string list option"
  tc_dependencyDiagnostics :: "string list"

datatype settled_outcome = Parked | LeaseHeld | LaunchFailed | RunnerFailed | Relaunch

record runner_settled =
  st_run :: string
  st_slug :: string
  st_outcome :: settled_outcome
  st_status :: "string option"
  st_error :: "string option"

record config_reloaded =
  rc_restartRequired :: "string list"
  rc_run :: "string option"
  rc_effectiveConfig :: "artifact_ref option"
  rc_roleWarnings :: "string list option"

record readiness_failure =
  rdf_run :: string
  rdf_check :: string
  rdf_detail :: string

datatype dispatch_ev =
    RunStarted run_started
  | RunStopped run_stopped
  | StopRequested string
  | RuntimeRecorded string
  | TickYielded "string option" string
  | TickStarted string "timestamp option"
  | TickCompleted tick_completed
  | TickFailed string string
  | RunnerSettled runner_settled
  | SummaryHandoff string
  | HarvestRunnerFailed string string
  | UpgradeAvailable string string
  | OperatorReported string bool string
  | ConfigReloaded config_reloaded
  | ConfigRejected string string
  | ConfigPublicationFailed string string
  | ForgeReadinessFailed readiness_failure

datatype setting_ev =
    IntakeSet bool "string option"
  | PauseSet bool
  | AutoMergeDefaultSet bool "string option"

text \<open>A degraded source: \<open>Some\<close> reset time when rate limited, \<open>None\<close> when the ready scan failed.\<close>

datatype source_operation = ReadyScan | DependencyCheck

record source_degraded =
  sd_source :: string
  sd_operation :: source_operation
  sd_message :: string
  sd_resetAt :: "timestamp option"

record forge_degraded =
  fg_forge :: string
  fg_message :: string
  fg_resetAt :: timestamp

datatype health_ev =
    SourceDegraded source_degraded
  | SourceDependencyLimited string
  | SourceRecovered string
  | ForgeDegraded forge_degraded
  | ForgeRecovered string

datatype repository_body =
    RUpgrade upgrade_ev
  | RDispatch dispatch_ev
  | RSetting setting_ev
  | RHealth health_ev
  | RHarvest harvest_ev
  | RMigration migration
  | RPreparation preparation_ev
  | RSandbox sandbox_ev
  | RHarvestExecution harvest_execution_ev
  | OtherFact string "string option"
  | UnknownFact string "string option"

record repository_event =
  re_seq :: nat
  re_ts :: timestamp
  re_actor :: actor
  re_body :: repository_body

text \<open>\<^verbatim>\<open>event.payload.run\<close>, when the payload has one.\<close>

fun upgrade_run :: "upgrade_ev \<Rightarrow> string" where
  "upgrade_run (UpgradeTargetResolved r _ _) = r"
| "upgrade_run (UpgradeDetected i) = ui_run i"
| "upgrade_run (UpgradeFailed i _) = ui_run i"
| "upgrade_run (TargetPrepared h) = ho_run h"
| "upgrade_run (YieldRequested q) = ho_run (yq_handoff q)"
| "upgrade_run (HandoffStarted h) = ho_run (hs_handoff h)"
| "upgrade_run (TerminalReleased h) = ho_run h"
| "upgrade_run (Takeover h _) = ho_run h"
| "upgrade_run (DrainDeadline h _) = ho_run h"
| "upgrade_run (DrainSettled h _ _ _) = ho_run h"
| "upgrade_run (HandoffCompleted h _) = ho_run h"
| "upgrade_run (RuntimeRolledBack r) = rb_run r"
| "upgrade_run (RollbackHoldCleared r) = rb_run r"

fun dispatch_run :: "dispatch_ev \<Rightarrow> string option" where
  "dispatch_run (RunStarted p) = Some (sr_run p)"
| "dispatch_run (RunStopped p) = Some (sp_run p)"
| "dispatch_run (StopRequested r) = Some r"
| "dispatch_run (RuntimeRecorded r) = Some r"
| "dispatch_run (TickYielded r _) = r"
| "dispatch_run (TickStarted r _) = Some r"
| "dispatch_run (TickCompleted p) = Some (tc_run p)"
| "dispatch_run (TickFailed r _) = Some r"
| "dispatch_run (RunnerSettled p) = Some (st_run p)"
| "dispatch_run (SummaryHandoff r) = Some r"
| "dispatch_run (HarvestRunnerFailed r _) = Some r"
| "dispatch_run (UpgradeAvailable r _) = Some r"
| "dispatch_run (OperatorReported r _ _) = Some r"
| "dispatch_run (ConfigReloaded p) = rc_run p"
| "dispatch_run (ConfigRejected r _) = Some r"
| "dispatch_run (ConfigPublicationFailed r _) = Some r"
| "dispatch_run (ForgeReadinessFailed p) = Some (rdf_run p)"

fun setting_run :: "setting_ev \<Rightarrow> string option" where
  "setting_run (IntakeSet _ r) = r"
| "setting_run (PauseSet _) = None"
| "setting_run (AutoMergeDefaultSet _ r) = r"

fun body_run :: "repository_body \<Rightarrow> string option" where
  "body_run (RUpgrade u) = Some (upgrade_run u)"
| "body_run (RDispatch d) = dispatch_run d"
| "body_run (RSetting t) = setting_run t"
| "body_run (OtherFact _ r) = r"
| "body_run (UnknownFact _ r) = r"
| "body_run (RHealth _) = None"
| "body_run (RHarvest h) = harvest_run_of h"
| "body_run (RMigration _) = None"
| "body_run (RPreparation _) = None"
| "body_run (RSandbox _) = None"
| "body_run (RHarvestExecution h) = harvest_execution_run h"

definition known_fact :: "repository_event \<Rightarrow> bool" where
  "known_fact e = (case re_body e of UnknownFact _ _ \<Rightarrow> False | _ \<Rightarrow> True)"

section \<open>Reducers of the journal\<close>

definition journal_events :: "('acc, repository_event, 'st) reducer \<Rightarrow> repository_event list \<Rightarrow> repository_event list" where
  "journal_events r events = (if rd_rawEvents r then events else filter known_fact events)"

definition journal_advance :: "('acc, repository_event, 'st) reducer \<Rightarrow> 'acc \<Rightarrow> repository_event list \<Rightarrow> 'acc" where
  "journal_advance r acc events = rd_fold r acc (journal_events r events)"

definition reduce_journal :: "('acc, repository_event, 'st) reducer \<Rightarrow> repository_event list \<Rightarrow> 'st" where
  "reduce_journal r events = rd_finish r (rd_fold r (rd_initial r) (journal_events r events))"

locale journal_reducer =
  fixes r :: "('acc, repository_event, 'st) reducer"
  assumes fold_nil: "rd_fold r acc [] = acc"
    and fold_append: "rd_fold r acc (xs @ ys) = rd_fold r (rd_fold r acc xs) ys"
begin

lemma advance_append: "journal_advance r acc (xs @ ys) = journal_advance r (journal_advance r acc xs) ys"
  by (simp add: journal_advance_def journal_events_def fold_append)

lemma advance_nil: "journal_advance r acc [] = acc"
  by (simp add: journal_advance_def journal_events_def fold_nil)

lemma split_point: "rd_finish r (journal_advance r (journal_advance r (rd_initial r) xs) ys) = reduce_journal r (xs @ ys)"
  by (simp add: reduce_journal_def journal_advance_def journal_events_def fold_append)

lemma chunked: "foldl (journal_advance r) acc chunks = journal_advance r acc (concat chunks)"
  by (induction chunks arbitrary: acc) (simp_all add: advance_nil advance_append)

end

end
