(* ===== verification/AutoMergeDefault.thy ===== *)
theory AutoMergeDefault
  imports Reducer RepositoryEvents
begin

text \<open>
  \<^verbatim>\<open>packages/core/src/kernel/auto-merge-default.ts\<close>: the repository's auto-merge default, folded from its
  journal, and what one default fact asks of one build.
\<close>

record default_fact =
  df_enabled :: bool
  df_seq :: nat
  df_actor :: actor

record default_facts =
  dfs_latest :: "default_fact option"
  dfs_enabled :: "default_fact option"
  dfs_disabled :: "default_fact option"

definition default_fact_of :: "repository_event \<Rightarrow> default_fact option" where
  "default_fact_of e =
     (case re_body e of
        RSetting (AutoMergeDefaultSet on _) \<Rightarrow> Some \<lparr>df_enabled = on, df_seq = re_seq e, df_actor = re_actor e\<rparr>
      | _ \<Rightarrow> None)"

definition default_step :: "default_facts \<Rightarrow> repository_event \<Rightarrow> default_facts" where
  "default_step acc e =
     (case default_fact_of e of
        None \<Rightarrow> acc
      | Some f \<Rightarrow>
          if df_enabled f then acc\<lparr>dfs_latest := Some f, dfs_enabled := Some f\<rparr>
          else acc\<lparr>dfs_latest := Some f, dfs_disabled := Some f\<rparr>)"

definition initialDefaults :: default_facts where
  "initialDefaults = \<lparr>dfs_latest = None, dfs_enabled = None, dfs_disabled = None\<rparr>"

definition autoMergeDefaultReducer :: "(default_facts, repository_event, default_facts) reducer" where
  "autoMergeDefaultReducer =
     \<lparr>rd_version = 1, rd_rawEvents = False, rd_initial = initialDefaults,
      rd_fold = fold_events default_step, rd_finish = (\<lambda>acc. acc)\<rparr>"

interpretation auto_merge_default: journal_reducer autoMergeDefaultReducer
  by unfold_locales (simp_all add: autoMergeDefaultReducer_def)

definition pickAutoMergeDefault :: "default_facts \<Rightarrow> bool option \<Rightarrow> default_fact option" where
  "pickAutoMergeDefault facts enabled =
     (case enabled of
        None \<Rightarrow> dfs_latest facts
      | Some on \<Rightarrow> if on then dfs_enabled facts else dfs_disabled facts)"

definition latestAutoMergeDefault :: "repository_event list \<Rightarrow> bool option \<Rightarrow> default_fact option" where
  "latestAutoMergeDefault es enabled = pickAutoMergeDefault (reduce_journal autoMergeDefaultReducer es) enabled"

section \<open>What a fact asks of a build\<close>

definition autoMergeDefaultEligible :: "build_state \<Rightarrow> bool" where
  "autoMergeDefaultEligible st =
     (if ba_kind (bs_acc st) = Some Node then False
      else if bs_status st = StDone \<or> bs_status st = StAborted then False
      else if bs_lastSeq st = 0 then False
      else if discardInFlight st then False
      else \<not> list_ex (\<lambda>p. pd_command p = AbortCommand) (bs_pendingCommands st))"

datatype default_target = RequestMerge | CancelMerge | ObserveDefault

definition autoMergeDefaultTarget :: "build_state \<Rightarrow> default_fact \<Rightarrow> default_target option" where
  "autoMergeDefaultTarget st f =
     (let am = ba_autoMerge (bs_acc st) in
      if \<not> autoMergeDefaultEligible st then None
      else if (case am_defaultSeq am of None \<Rightarrow> 0 | Some s \<Rightarrow> s) \<ge> df_seq f then None
      else if am_requested am = df_enabled f then Some ObserveDefault
      else Some (if df_enabled f then RequestMerge else CancelMerge))"

section \<open>Lookup and convergence\<close>

definition fact_matches :: "bool option \<Rightarrow> repository_event \<Rightarrow> bool" where
  "fact_matches enabled e =
     (case default_fact_of e of None \<Rightarrow> False
      | Some f \<Rightarrow> (case enabled of None \<Rightarrow> True | Some b \<Rightarrow> df_enabled f = b))"

lemma fold_default:
  "pickAutoMergeDefault (fold_events default_step initialDefaults es) enabled =
   Option.bind (find_last (fact_matches enabled) es) default_fact_of"
proof (induction es rule: rev_induct)
  case (snoc e es)
  have "fact_matches enabled e \<longleftrightarrow>
      (\<exists>f. default_fact_of e = Some f \<and> (enabled = None \<or> enabled = Some (df_enabled f)))"
    by (auto simp: fact_matches_def split: option.split)
  with snoc show ?case
    by (cases "default_fact_of e"; cases enabled) (auto simp: pickAutoMergeDefault_def find_last_def default_step_def)
qed (simp add: pickAutoMergeDefault_def initialDefaults_def find_last_def split: option.split)

text \<open>An unknown type is no default fact.\<close>

lemma latest_default:
  "latestAutoMergeDefault es enabled = Option.bind (find_last (fact_matches enabled) es) default_fact_of"
proof -
  have "fact_matches enabled e \<Longrightarrow> known_fact e" for e
    by (auto simp: fact_matches_def known_fact_def default_fact_of_def split: repository_body.splits)
  then have "filter (fact_matches enabled) (filter known_fact es) = filter (fact_matches enabled) es"
    by (auto intro: filter_cong)
  then show ?thesis
    unfolding latestAutoMergeDefault_def reduce_journal_def
    by (simp add: autoMergeDefaultReducer_def journal_events_def fold_default find_last_def)
qed

text \<open>The command that answers a target carries the fact's seq; afterwards the fact asks nothing more.\<close>

fun answering_command :: "default_fact \<Rightarrow> default_target \<Rightarrow> build_ev" where
  "answering_command f RequestMerge = AutoMergeRequested False (Some (df_seq f))"
| "answering_command f CancelMerge = AutoMergeCancelled (Some (df_seq f))"
| "answering_command f ObserveDefault = AutoMergeDefaultObserved (df_seq f)"

lemma answered_default:
  assumes "autoMergeDefaultTarget (finishBuild acc) f = Some t"
  shows "am_requested (ba_autoMerge (build_step acc (answering_command f t) who seq)) = df_enabled f \<and>
    am_defaultSeq (ba_autoMerge (build_step acc (answering_command f t) who seq)) = Some (df_seq f)"
  using assms
  by (auto simp: autoMergeDefaultTarget_def finishBuild_def Let_def set_default_def split: if_splits option.splits)

section \<open>Properties\<close>

text \<open>the default converges on every build. Once the command that answers a default fact is folded
  into the build, the build's request agrees with the fact, and neither that fact nor any earlier
  one asks anything of the build again.\<close>

lemma default_converges:
  assumes "autoMergeDefaultTarget (finishBuild acc) f = Some t" and "df_seq f' \<le> df_seq f"
  shows "am_requested (ba_autoMerge (build_step acc (answering_command f t) who seq)) = df_enabled f \<and>
     autoMergeDefaultTarget (finishBuild (build_step acc (answering_command f t) who seq)) f' = None"
  using answered_default [OF assms(1), of who seq] assms(2)
  by (simp add: autoMergeDefaultTarget_def finishBuild_def Let_def)

lemma default_converges_witness:
  "autoMergeDefaultTarget (finishBuild (build_step
     (initialBuildAcc\<lparr>ba_lastEvent := Some \<lparr>ev_seq = 1, ev_ts = 0, ev_actor = Kernel, ev_body = EBuild BuildPaused\<rparr>\<rparr>)
     (AutoMergeRequested False (Some 7)) Kernel 2)) \<lparr>df_enabled = True, df_seq = 7, df_actor = Kernel\<rparr> = None"
proof -
  have "autoMergeDefaultTarget (finishBuild
     (initialBuildAcc\<lparr>ba_lastEvent := Some \<lparr>ev_seq = 1, ev_ts = 0, ev_actor = Kernel, ev_body = EBuild BuildPaused\<rparr>\<rparr>))
     \<lparr>df_enabled = True, df_seq = 7, df_actor = Kernel\<rparr> = Some RequestMerge"
    by code_simp
  from default_converges [OF this, of "\<lparr>df_enabled = True, df_seq = 7, df_actor = Kernel\<rparr>" Kernel 2]
  show ?thesis by simp
qed

end
