(* ===== verification/DispatchUpgrade.thy ===== *)
theory DispatchUpgrade
  imports RepositoryEvents "HOL-Library.List_Lexorder" "HOL-Library.Char_ord"
begin

text \<open>
  Dispatcher upgrades and handoffs, \<^verbatim>\<open>packages/core/src/kernel/dispatch-upgrade.ts\<close>: what one run knows of
  its own upgrade, who holds the repository's authority, the rollback holds, and the retention that
  keeps every map within 16 entries. A stored fact is its payload with its seq. A step that would
  throw or never return is \<open>None\<close>: the retention loop is a partial function, and the reduction of an
  empty list of holds throws.
\<close>

record upgrade_state =
  us_resolved :: "(upgrade_target \<times> nat) option"
  us_detected :: "(upgrade_identity \<times> nat) option"
  us_failure :: "(upgrade_identity \<times> nat) option"
  us_prepared :: "(handoff \<times> nat) option"
  us_request :: "(yield_request \<times> nat) option"
  us_handoff :: "(handoff_start \<times> nat) option"
  us_released :: "(handoff \<times> nat) option"
  us_takeover :: "(handoff \<times> string \<times> nat) option"
  us_completed :: "(handoff \<times> string \<times> nat) option"
  us_deadline :: "timestamp option"
  us_outstanding :: "(string, string) jsmap"
  us_drained :: nat
  us_suspended :: nat

definition initialUpgrade :: upgrade_state where
  "initialUpgrade =
     \<lparr>us_resolved = None, us_detected = None, us_failure = None, us_prepared = None, us_request = None,
      us_handoff = None, us_released = None, us_takeover = None, us_completed = None, us_deadline = None,
      us_outstanding = [], us_drained = 0, us_suspended = 0\<rparr>"

record dispatch_upgrade =
  du_authoritativeRun :: "string option"
  du_runs :: "(string, upgrade_state) jsmap"
  du_lineages :: "(string, string) jsmap"
  du_rollbackIds :: "string list"
  du_lastRollback :: "(rollback \<times> nat) option"
  du_holds :: "(string, rollback \<times> nat) jsmap"

definition initialDispatchUpgrade :: dispatch_upgrade where
  "initialDispatchUpgrade =
     \<lparr>du_authoritativeRun = None, du_runs = [], du_lineages = [], du_rollbackIds = [],
      du_lastRollback = None, du_holds = []\<rparr>"

definition UPGRADE_HISTORY_LIMIT :: nat where
  "UPGRADE_HISTORY_LIMIT = 16"

section \<open>Retention\<close>

text \<open>\<^verbatim>\<open>fact?.seq ?? -1\<close>\<close>

definition seq_or :: "nat option \<Rightarrow> int" where
  "seq_or s = (case s of None \<Rightarrow> -1 | Some n \<Rightarrow> int n)"

definition upgradeRunRecency :: "upgrade_state \<Rightarrow> int" where
  "upgradeRunRecency r =
     fold max
       (map seq_or
          [map_option snd (us_resolved r), map_option snd (us_detected r), map_option snd (us_failure r),
           map_option snd (us_prepared r), map_option snd (us_request r), map_option snd (us_handoff r),
           map_option snd (us_released r), map_option (snd \<circ> snd) (us_takeover r),
           map_option (snd \<circ> snd) (us_completed r)]) (-1)"

definition settledSeq :: "upgrade_state \<Rightarrow> int" where
  "settledSeq r =
     seq_or (case us_completed r of Some (_, _, s) \<Rightarrow> Some s | None \<Rightarrow> map_option snd (us_failure r))"

definition evictionTier :: "upgrade_state \<Rightarrow> nat" where
  "evictionTier r = (if us_handoff r = None then 0 else if us_completed r \<noteq> None then 1 else 2)"

definition handoff_seq :: "upgrade_state \<Rightarrow> nat" where
  "handoff_seq r = (case us_handoff r of None \<Rightarrow> 0 | Some (_, s) \<Rightarrow> s)"

text \<open>The first run of greatest handoff seq.\<close>

definition newest_step :: "(string \<times> upgrade_state) option \<Rightarrow> string \<times> upgrade_state \<Rightarrow> (string \<times> upgrade_state) option" where
  "newest_step best entry =
     (if us_handoff (snd entry) = None then best
      else case best of
             None \<Rightarrow> Some entry
           | Some b \<Rightarrow> if handoff_seq (snd entry) > handoff_seq (snd b) then Some entry else best)"

definition newestHandoff :: "(string, upgrade_state) jsmap \<Rightarrow> string option" where
  "newestHandoff runs = map_option fst (foldl newest_step None runs)"

definition newest_settled :: "(string, upgrade_state) jsmap \<Rightarrow> string list" where
  "newest_settled runs =
     map fst (take 3 (sort_key (\<lambda>(_, r). - settledSeq r) (filter (\<lambda>(_, r). settledSeq r \<ge> 0) runs)))"

definition protected_run :: "dispatch_upgrade \<Rightarrow> string \<Rightarrow> string \<Rightarrow> bool" where
  "protected_run acc touched i \<longleftrightarrow>
     i = touched \<or> du_authoritativeRun acc = Some i \<or> newestHandoff (du_runs acc) = Some i \<or>
     i \<in> set (newest_settled (du_runs acc))"

definition ranked_before :: "string \<times> upgrade_state \<Rightarrow> string \<times> upgrade_state \<Rightarrow> bool" where
  "ranked_before x y \<longleftrightarrow>
     evictionTier (snd x) < evictionTier (snd y) \<or>
     evictionTier (snd x) = evictionTier (snd y) \<and>
       (upgradeRunRecency (snd x) < upgradeRunRecency (snd y) \<or>
        upgradeRunRecency (snd x) = upgradeRunRecency (snd y) \<and> fst x < fst y)"

definition victim_step ::
  "dispatch_upgrade \<Rightarrow> string \<Rightarrow> (string \<times> upgrade_state) option \<Rightarrow> string \<times> upgrade_state \<Rightarrow>
   (string \<times> upgrade_state) option" where
  "victim_step acc touched v entry =
     (if protected_run acc touched (fst entry) then v
      else case v of
             None \<Rightarrow> Some entry
           | Some w \<Rightarrow> if ranked_before entry w then Some entry else v)"

definition victim :: "dispatch_upgrade \<Rightarrow> string \<Rightarrow> string option" where
  "victim acc touched = map_option fst (foldl (victim_step acc touched) None (du_runs acc))"

text \<open>Without a victim nothing is deleted, and the loop turns for ever.\<close>

definition evict :: "dispatch_upgrade \<Rightarrow> string \<Rightarrow> dispatch_upgrade" where
  "evict acc touched =
     (case victim acc touched of None \<Rightarrow> acc | Some i \<Rightarrow> acc\<lparr>du_runs := jm_del i (du_runs acc)\<rparr>)"

partial_function (option) retainRuns :: "dispatch_upgrade \<Rightarrow> string \<Rightarrow> dispatch_upgrade option" where
  "retainRuns acc touched =
     (if length (du_runs acc) \<le> UPGRADE_HISTORY_LIMIT then Some acc
      else retainRuns (evict acc touched) touched)"

declare retainRuns.simps [code]

fun trim_lineages ::
  "string option \<Rightarrow> string \<Rightarrow> string list \<Rightarrow> (string, string) jsmap \<Rightarrow> (string, string) jsmap" where
  "trim_lineages auth started [] m = m"
| "trim_lineages auth started (k # ks) m =
     (if length m \<le> UPGRADE_HISTORY_LIMIT then m
      else trim_lineages auth started ks (if auth \<noteq> Some k \<and> k \<noteq> started then jm_del k m else m))"

definition note_lineage :: "dispatch_upgrade \<Rightarrow> string \<Rightarrow> string \<Rightarrow> dispatch_upgrade" where
  "note_lineage acc started lineage =
     (let m = jm_set started lineage (jm_del started (du_lineages acc))
      in acc\<lparr>du_lineages := trim_lineages (du_authoritativeRun acc) started (map fst m) m\<rparr>)"

definition oldest_hold :: "string \<times> rollback \<times> nat \<Rightarrow> (string \<times> rollback \<times> nat) list \<Rightarrow> string \<times> rollback \<times> nat" where
  "oldest_hold x xs = foldl (\<lambda>a b. if snd (snd b) < snd (snd a) then b else a) x xs"

lemma oldest_hold_in: "oldest_hold x xs \<in> insert x (set xs)"
  unfolding oldest_hold_def by (induction xs arbitrary: x) auto

lemma delete_shorter: "e \<in> set m \<Longrightarrow> length (jm_del (fst e) m) < length m"
  unfolding AList.delete_eq by (rule length_filter_less) auto

function trim_holds ::
  "string option \<Rightarrow> string \<Rightarrow> (string, rollback \<times> nat) jsmap \<Rightarrow> (string, rollback \<times> nat) jsmap option" where
  "trim_holds current lineage holds =
     (if length holds \<le> UPGRADE_HISTORY_LIMIT then Some holds
      else case filter (\<lambda>(l, _). current \<noteq> Some l \<and> l \<noteq> lineage) holds of
             [] \<Rightarrow> None
           | x # xs \<Rightarrow> trim_holds current lineage (jm_del (fst (oldest_hold x xs)) holds))"
  by pat_completeness auto

termination
proof (relation "measure (\<lambda>(current, lineage, holds). length holds)")
  fix current lineage x xs and holds :: "(string, rollback \<times> nat) jsmap"
  assume rest: "filter (\<lambda>(l, _). current \<noteq> Some l \<and> l \<noteq> lineage) holds = x # xs"
  have "set (x # xs) \<subseteq> set holds" unfolding rest [symmetric] by (rule filter_is_subset)
  moreover have "oldest_hold x xs \<in> set (x # xs)" using oldest_hold_in by (simp only: list.set)
  ultimately have "oldest_hold x xs \<in> set holds" by (rule subsetD)
  from delete_shorter [OF this]
  show "((current, lineage, jm_del (fst (oldest_hold x xs)) holds), current, lineage, holds)
      \<in> measure (\<lambda>(current, lineage, holds). length holds)" by (simp only: in_measure prod.case)
qed (rule wf_measure)

section \<open>One run\<close>

definition same_handoff :: "handoff \<Rightarrow> handoff \<Rightarrow> bool" where
  "same_handoff a b \<longleftrightarrow>
     ho_correlation a = ho_correlation b \<and> ho_run a = ho_run b \<and>
     ui_lineage (ho_identity a) = ui_lineage (ho_identity b) \<and> ho_root a = ho_root b \<and>
     ho_cacheId a = ho_cacheId b \<and>
     ut_key (ui_target (ho_identity a)) = ut_key (ui_target (ho_identity b)) \<and>
     ui_from (ho_identity a) = ui_from (ho_identity b) \<and> ho_to a = ho_to b"

definition handed_off :: "upgrade_state \<Rightarrow> handoff \<Rightarrow> bool" where
  "handed_off r h = (case us_handoff r of None \<Rightarrow> False | Some (s, _) \<Rightarrow> same_handoff (hs_handoff s) h)"

definition upgrade_failed :: "upgrade_state \<Rightarrow> upgrade_identity \<Rightarrow> nat \<Rightarrow> upgrade_state" where
  "upgrade_failed r i seq =
     (if map_option (ho_correlation \<circ> hs_handoff \<circ> fst) (us_handoff r) = Some (ui_correlation i) then r
      else (let r1 = r\<lparr>us_failure := Some (i, seq)\<rparr>
            in if map_option (ho_correlation \<circ> yq_handoff \<circ> fst) (us_request r) = Some (ui_correlation i)
               then r1\<lparr>us_request := None\<rparr> else r1))"

definition target_prepared :: "upgrade_state \<Rightarrow> handoff \<Rightarrow> nat \<Rightarrow> upgrade_state" where
  "target_prepared r h seq =
     (if us_handoff r \<noteq> None \<and> us_completed r = None then r
      else if map_option (ho_correlation \<circ> fst) (us_prepared r) = Some (ho_correlation h) \<or>
              us_request r \<noteq> None \<and> us_failure r = None then r
      else r\<lparr>us_prepared := Some (h, seq), us_failure := None, us_request := None\<rparr>)"

definition yield_requested :: "upgrade_state \<Rightarrow> yield_request \<Rightarrow> nat \<Rightarrow> upgrade_state" where
  "yield_requested r q seq =
     (if us_failure r \<noteq> None \<or> us_request r \<noteq> None \<or> us_handoff r \<noteq> None \<or>
         (case us_prepared r of None \<Rightarrow> True | Some (p, _) \<Rightarrow> \<not> same_handoff p (yq_handoff q)) then r
      else if yq_successor q = ho_run (yq_handoff q) then r
      else r\<lparr>us_request := Some (q, seq)\<rparr>)"

text \<open>A handoff without a mode predates the request protocol.\<close>

definition answers_request :: "upgrade_state \<Rightarrow> handoff_start \<Rightarrow> bool" where
  "answers_request r h =
     (case us_request r of
        None \<Rightarrow> False
      | Some (q, _) \<Rightarrow>
          same_handoff (yq_handoff q) (hs_handoff h) \<and> hs_successor h = Some (yq_successor q) \<and>
          hs_mode h = Some (yq_mode q))"

definition from_entries :: "(string \<times> string) list \<Rightarrow> (string, string) jsmap" where
  "from_entries kvs = fold (\<lambda>(k, v). jm_set k v) kvs []"

definition handoff_started :: "upgrade_state \<Rightarrow> handoff_start \<Rightarrow> nat \<Rightarrow> upgrade_state" where
  "handoff_started r h seq =
     (if us_handoff r \<noteq> None \<or> hs_mode h \<noteq> None \<and> us_failure r \<noteq> None then r
      else if hs_mode h \<noteq> None \<and> \<not> answers_request r h then r
      else r\<lparr>us_handoff := Some (h, seq), us_failure := None, us_deadline := hs_deadline h,
             us_outstanding := from_entries (case hs_builds h of None \<Rightarrow> [] | Some b \<Rightarrow> b)\<rparr>)"

definition terminal_released :: "upgrade_state \<Rightarrow> handoff \<Rightarrow> nat \<Rightarrow> upgrade_state" where
  "terminal_released r h seq =
     (if handed_off r h \<and> us_released r = None then r\<lparr>us_released := Some (h, seq)\<rparr> else r)"

definition takes_over :: "upgrade_state \<Rightarrow> handoff \<Rightarrow> string \<Rightarrow> bool" where
  "takes_over r h successor \<longleftrightarrow>
     (case us_released r of None \<Rightarrow> False | Some (p, _) \<Rightarrow> same_handoff p h) \<and>
     map_option (yq_successor \<circ> fst) (us_request r) = Some successor"

definition taken_over :: "upgrade_state \<Rightarrow> handoff \<Rightarrow> string \<Rightarrow> nat \<Rightarrow> upgrade_state" where
  "taken_over r h successor seq =
     (if takes_over r h successor \<and> us_takeover r = None
      then r\<lparr>us_takeover := Some (h, successor, seq)\<rparr> else r)"

definition drain_deadline :: "upgrade_state \<Rightarrow> handoff \<Rightarrow> timestamp \<Rightarrow> upgrade_state" where
  "drain_deadline r h t =
     (if us_completed r = None \<and> handed_off r h then r\<lparr>us_deadline := Some t\<rparr> else r)"

definition drain_settled :: "upgrade_state \<Rightarrow> handoff \<Rightarrow> string \<Rightarrow> string \<Rightarrow> drain_outcome \<Rightarrow> upgrade_state" where
  "drain_settled r h slug inst outcome =
     (if us_completed r = None \<and> handed_off r h \<and> jm_get (us_outstanding r) slug = Some inst
      then r\<lparr>us_outstanding := jm_del slug (us_outstanding r),
             us_drained := (if outcome = Drained then us_drained r + 1 else us_drained r),
             us_suspended := (if outcome = DrainSuspended then us_suspended r + 1 else us_suspended r)\<rparr>
      else r)"

definition handoff_completed :: "upgrade_state \<Rightarrow> handoff \<Rightarrow> string \<Rightarrow> nat \<Rightarrow> upgrade_state" where
  "handoff_completed r h successor seq =
     (if handed_off r h \<and> us_outstanding r = [] \<and>
         (case us_request r of None \<Rightarrow> True | Some (q, _) \<Rightarrow> yq_successor q = successor) \<and>
         us_completed r = None
      then r\<lparr>us_completed := Some (h, successor, seq)\<rparr> else r)"

fun advance_run :: "upgrade_state \<Rightarrow> upgrade_ev \<Rightarrow> nat \<Rightarrow> upgrade_state" where
  "advance_run r (UpgradeTargetResolved _ _ t) seq = r\<lparr>us_resolved := Some (t, seq)\<rparr>"
| "advance_run r (UpgradeDetected i) seq = r\<lparr>us_detected := Some (i, seq)\<rparr>"
| "advance_run r (UpgradeFailed i _) seq = upgrade_failed r i seq"
| "advance_run r (TargetPrepared h) seq = target_prepared r h seq"
| "advance_run r (YieldRequested q) seq = yield_requested r q seq"
| "advance_run r (HandoffStarted h) seq = handoff_started r h seq"
| "advance_run r (TerminalReleased h) seq = terminal_released r h seq"
| "advance_run r (Takeover h s) seq = taken_over r h s seq"
| "advance_run r (DrainDeadline h t) seq = drain_deadline r h t"
| "advance_run r (DrainSettled h slug i out) seq = drain_settled r h slug i out"
| "advance_run r (HandoffCompleted h s) seq = handoff_completed r h s seq"
| "advance_run r (RuntimeRolledBack _) seq = r"
| "advance_run r (RollbackHoldCleared _) seq = r"

section \<open>The fold\<close>

definition rolled_back :: "dispatch_upgrade \<Rightarrow> rollback \<Rightarrow> nat \<Rightarrow> dispatch_upgrade option" where
  "rolled_back acc p seq =
     (if rb_correlation p \<in> set (du_rollbackIds acc) then Some acc
      else (let ids = du_rollbackIds acc @ [rb_correlation p];
                acc1 = acc\<lparr>du_rollbackIds := drop (length ids - UPGRADE_HISTORY_LIMIT) ids,
                           du_authoritativeRun := Some (rb_run p), du_lastRollback := Some (p, seq)\<rparr>
            in map_option (\<lambda>holds. acc1\<lparr>du_holds := holds\<rparr>)
                 (trim_holds (map_of (du_lineages acc) (rb_run p)) (rb_lineage p)
                    (jm_set (rb_lineage p) (p, seq) (du_holds acc)))))"

definition hold_cleared :: "dispatch_upgrade \<Rightarrow> rollback \<Rightarrow> dispatch_upgrade" where
  "hold_cleared acc p =
     (case map_of (du_holds acc) (rb_lineage p) of
        None \<Rightarrow> acc
      | Some (h, _) \<Rightarrow>
          if rb_correlation h = rb_correlation p \<and> ut_key (rb_target h) \<noteq> ut_key (rb_target p)
          then acc\<lparr>du_holds := jm_del (rb_lineage p) (du_holds acc)\<rparr> else acc)"

definition upgrade_of :: "dispatch_upgrade \<Rightarrow> string \<Rightarrow> upgrade_state" where
  "upgrade_of acc run = (case map_of (du_runs acc) run of None \<Rightarrow> initialUpgrade | Some r \<Rightarrow> r)"

definition upgrade_fact :: "dispatch_upgrade \<Rightarrow> upgrade_ev \<Rightarrow> nat \<Rightarrow> dispatch_upgrade option" where
  "upgrade_fact acc u seq =
     (let run = upgrade_run u; r = upgrade_of acc run;
          auth = (case u of Takeover h s \<Rightarrow> if takes_over r h s then Some s else du_authoritativeRun acc
                  | _ \<Rightarrow> du_authoritativeRun acc)
      in retainRuns (acc\<lparr>du_runs := jm_set run (advance_run r u seq) (du_runs acc),
                         du_authoritativeRun := auth\<rparr>) run)"

definition upgrade_step :: "dispatch_upgrade \<Rightarrow> repository_event \<Rightarrow> dispatch_upgrade option" where
  "upgrade_step acc e =
     (case re_body e of
        RDispatch (RunStarted p) \<Rightarrow>
          Some (case sr_lineage p of None \<Rightarrow> acc | Some l \<Rightarrow> note_lineage acc (sr_run p) l)
      | RDispatch (TickStarted run _) \<Rightarrow> Some (acc\<lparr>du_authoritativeRun := Some run\<rparr>)
      | RUpgrade (RuntimeRolledBack p) \<Rightarrow> rolled_back acc p (re_seq e)
      | RUpgrade (RollbackHoldCleared p) \<Rightarrow> Some (hold_cleared acc p)
      | RUpgrade u \<Rightarrow> upgrade_fact acc u (re_seq e)
      | _ \<Rightarrow> Some acc)"

definition fold_upgrades :: "dispatch_upgrade option \<Rightarrow> repository_event list \<Rightarrow> dispatch_upgrade option" where
  "fold_upgrades acc events = fold_events (\<lambda>a e. Option.bind a (\<lambda>x. upgrade_step x e)) acc events"

definition dispatchUpgradeReducer ::
  "(dispatch_upgrade option, repository_event, dispatch_upgrade option) reducer" where
  "dispatchUpgradeReducer =
     \<lparr>rd_version = 7, rd_rawEvents = False, rd_initial = Some initialDispatchUpgrade,
      rd_fold = fold_upgrades, rd_finish = (\<lambda>acc. acc)\<rparr>"

interpretation dispatch_upgrade: journal_reducer dispatchUpgradeReducer
  by unfold_locales (simp_all add: dispatchUpgradeReducer_def fold_upgrades_def)

end
