(* ===== verification/UpgradeFacts.thy ===== *)
theory UpgradeFacts
  imports DispatchUpgrade
begin

text \<open>
  What the retention of \<^verbatim>\<open>dispatch-upgrade.ts\<close> promises: a victim always exists, so the loops end; the
  maps stay within their limit; the protected runs survive. And what a run knows about its handoff.
\<close>

section \<open>There is always a victim\<close>

lemma victim_step_fold:
  "foldl (victim_step acc touched) v es = None \<longleftrightarrow> v = None \<and> (\<forall>e \<in> set es. protected_run acc touched (fst e))"
  by (induction es arbitrary: v) (auto simp: victim_step_def split: option.split)

lemma victim_step_in:
  "foldl (victim_step acc touched) v es = Some x \<Longrightarrow>
   v = Some x \<or> x \<in> set es \<and> \<not> protected_run acc touched (fst x)"
  by (induction es arbitrary: v) (force simp: victim_step_def split: option.splits if_splits)+

lemma protected_few: "card {i. protected_run acc touched i} \<le> 6" "finite {i. protected_run acc touched i}"
proof -
  let ?opt = "\<lambda>s. case s of None \<Rightarrow> [] | Some i \<Rightarrow> [i]"
  let ?ks = "touched # ?opt (du_authoritativeRun acc) @ ?opt (newestHandoff (du_runs acc)) @ newest_settled (du_runs acc)"
  have set: "{i. protected_run acc touched i} = set ?ks"
    by (auto simp: protected_run_def split: option.splits)
  have "length (newest_settled (du_runs acc)) \<le> 3" by (simp add: newest_settled_def)
  then have "length ?ks \<le> 6" by (simp split: option.split)
  then show "card {i. protected_run acc touched i} \<le> 6"
    unfolding set using card_length [of ?ks] by linarith
  show "finite {i. protected_run acc touched i}" unfolding set by (rule finite_set)
qed

definition keys_distinct :: "('k \<times> 'v) list \<Rightarrow> bool" where
  "keys_distinct m \<longleftrightarrow> distinct (map fst m)"

lemma keys_distinct_maps:
  "keys_distinct m \<Longrightarrow> keys_distinct (jm_set k v m)" "keys_distinct m \<Longrightarrow> keys_distinct (jm_del k m)"
  by (simp_all add: keys_distinct_def distinct_update distinct_delete)

lemma card_keys: "keys_distinct m \<Longrightarrow> card (fst ` set m) = length m"
  unfolding keys_distinct_def by (metis distinct_card length_map list.set_map)

lemma length_set_le: "length (jm_set k v m) \<le> Suc (length m)"
  by (induction m) auto

lemma victim_exists:
  assumes "keys_distinct (du_runs acc)" and "length (du_runs acc) > UPGRADE_HISTORY_LIMIT"
  shows "\<exists>i. victim acc touched = Some i \<and> i \<in> fst ` set (du_runs acc) \<and> \<not> protected_run acc touched i"
proof -
  have "\<not> fst ` set (du_runs acc) \<subseteq> {i. protected_run acc touched i}"
    using card_mono [OF protected_few(2), of "fst ` set (du_runs acc)" acc touched] protected_few(1) [of acc touched]
      card_keys [OF assms(1)] assms(2) by (auto simp: UPGRADE_HISTORY_LIMIT_def)
  then obtain x where "foldl (victim_step acc touched) None (du_runs acc) = Some x"
    by (cases "foldl (victim_step acc touched) None (du_runs acc)") (auto simp: victim_step_fold)
  with victim_step_in [OF this] show ?thesis by (auto simp: victim_def)
qed

section \<open>The protected survive an eviction\<close>

definition has_handoff :: "string \<times> upgrade_state \<Rightarrow> bool" where
  "has_handoff e \<longleftrightarrow> us_handoff (snd e) \<noteq> None"

definition first_newest :: "(string \<times> upgrade_state) list \<Rightarrow> string \<times> upgrade_state \<Rightarrow> bool" where
  "first_newest es x \<longleftrightarrow>
     (\<exists>ys zs. es = ys @ x # zs \<and> has_handoff x \<and>
        (\<forall>y \<in> set ys. has_handoff y \<longrightarrow> handoff_seq (snd y) < handoff_seq (snd x)) \<and>
        (\<forall>z \<in> set zs. has_handoff z \<longrightarrow> handoff_seq (snd z) \<le> handoff_seq (snd x)))"

lemma newest_step_cases:
  "\<not> has_handoff e \<Longrightarrow> newest_step b e = b"
  "has_handoff e \<Longrightarrow> newest_step None e = Some e"
  "has_handoff e \<Longrightarrow> handoff_seq (snd e) > handoff_seq (snd x) \<Longrightarrow> newest_step (Some x) e = Some e"
  "\<not> handoff_seq (snd e) > handoff_seq (snd x) \<Longrightarrow> newest_step (Some x) e = Some x"
  by (auto simp: newest_step_def has_handoff_def)

lemma newest_fold:
  "case foldl newest_step None es of
     None \<Rightarrow> \<forall>e \<in> set es. \<not> has_handoff e
   | Some x \<Rightarrow> first_newest es x"
proof (induction es rule: rev_induct)
  case (snoc e es)
  show ?case
  proof (cases "foldl newest_step None es")
    case None
    show ?thesis
    proof (cases "\<not> has_handoff e")
      case False
      have "first_newest (es @ [e]) e"
        unfolding first_newest_def using None False snoc by (intro exI [of _ es] exI [of _ "[]"]) simp
      then show ?thesis using None False by (simp add: newest_step_cases)
    qed (use None snoc in \<open>simp add: newest_step_cases\<close>)
  next
    case (Some x)
    with snoc obtain ys zs where es: "es = ys @ x # zs" and x: "has_handoff x"
      and before: "\<forall>y \<in> set ys. has_handoff y \<longrightarrow> handoff_seq (snd y) < handoff_seq (snd x)"
      and after: "\<forall>z \<in> set zs. has_handoff z \<longrightarrow> handoff_seq (snd z) \<le> handoff_seq (snd x)"
      by (auto simp: first_newest_def)
    show ?thesis
    proof (cases "has_handoff e \<and> handoff_seq (snd e) > handoff_seq (snd x)")
      case True
      have all: "handoff_seq (snd y) < handoff_seq (snd e)" if "y \<in> set es" "has_handoff y" for y
      proof -
        from that(1) es consider "y \<in> set ys" | "y = x" | "y \<in> set zs" by auto
        then have "handoff_seq (snd y) \<le> handoff_seq (snd x)"
          using before after that(2) by cases auto
        then show ?thesis using True by simp
      qed
      have "first_newest (es @ [e]) e"
        unfolding first_newest_def using True all by (intro exI [of _ es] exI [of _ "[]"]) simp
      then show ?thesis using Some True by (simp add: newest_step_cases)
    next
      case False
      have "first_newest (es @ [e]) x"
        unfolding first_newest_def using False x before after es
        by (intro exI [of _ ys] exI [of _ "zs @ [e]"]) auto
      moreover have "newest_step (Some x) e = Some x" using False newest_step_cases(1,4) by blast
      ultimately show ?thesis using Some by simp
    qed
  qed
qed simp

lemma first_newest_unique: "first_newest es x \<Longrightarrow> foldl newest_step None es = Some x"
proof -
  assume new: "first_newest es x"
  then obtain ys zs where es: "es = ys @ x # zs" and x: "has_handoff x"
    and before: "\<forall>y \<in> set ys. has_handoff y \<longrightarrow> handoff_seq (snd y) < handoff_seq (snd x)"
    and after: "\<forall>z \<in> set zs. has_handoff z \<longrightarrow> handoff_seq (snd z) \<le> handoff_seq (snd x)"
    by (auto simp: first_newest_def)
  have "newest_step (foldl newest_step None ys) x = Some x"
  proof (cases "foldl newest_step None ys")
    case (Some w)
    then have "first_newest ys w" using newest_fold [of ys] by simp
    then have "handoff_seq (snd w) < handoff_seq (snd x)" using before by (auto simp: first_newest_def)
    then show ?thesis using x Some by (simp add: newest_step_cases)
  qed (use x in \<open>simp add: newest_step_cases\<close>)
  moreover have "foldl newest_step (Some x) zs = Some x"
    using after
  proof (induction zs)
    case (Cons z zs)
    then have "newest_step (Some x) z = Some x"
      using newest_step_cases(1) [where e = z and b = "Some x"] newest_step_cases(4) [where e = z and x = x] by (cases "has_handoff z") auto
    with Cons show ?case by simp
  qed simp
  ultimately show ?thesis unfolding es by simp
qed

lemma newest_delete:
  assumes "newestHandoff runs = Some i" and "v \<noteq> i"
  shows "newestHandoff (jm_del v runs) = Some i"
proof -
  from assms(1) obtain x where x: "foldl newest_step None runs = Some x" "fst x = i" by (auto simp: newestHandoff_def)
  then have "first_newest runs x" using newest_fold [of runs] by simp
  then obtain ys zs where runs: "runs = ys @ x # zs" and hx: "has_handoff x"
    and before: "\<forall>y \<in> set ys. has_handoff y \<longrightarrow> handoff_seq (snd y) < handoff_seq (snd x)"
    and after: "\<forall>z \<in> set zs. has_handoff z \<longrightarrow> handoff_seq (snd z) \<le> handoff_seq (snd x)"
    by (auto simp: first_newest_def)
  have del: "jm_del v runs = jm_del v ys @ x # jm_del v zs"
    using x(2) assms(2) unfolding runs by (auto simp: AList.delete_eq)
  have "set (jm_del v ys) \<subseteq> set ys" "set (jm_del v zs) \<subseteq> set zs" by (auto simp: AList.delete_eq)
  with hx before after have "first_newest (jm_del v runs) x"
    unfolding first_newest_def del by (intro exI [of _ "jm_del v ys"] exI [of _ "jm_del v zs"]) blast
  then show ?thesis using first_newest_unique x(2) by (simp add: newestHandoff_def)
qed

lemma take_filter_kept:
  assumes "\<forall>x \<in> set (take n ys). Q x"
  shows "take n (filter Q ys) = take n ys"
proof -
  have "filter Q ys = take n ys @ filter Q (drop n ys)"
    using assms by (metis append_take_drop_id filter_True filter_append)
  then show ?thesis by (cases "n \<le> length ys") simp_all
qed

lemma settled_delete:
  assumes "v \<notin> set (newest_settled runs)"
  shows "newest_settled (jm_del v runs) = newest_settled runs"
proof -
  let ?ys = "sort_key (\<lambda>(_, r). - settledSeq r) (filter (\<lambda>(_, r). settledSeq r \<ge> 0) runs)"
  have "sort_key (\<lambda>(_, r). - settledSeq r) (filter (\<lambda>(_, r). settledSeq r \<ge> 0) (jm_del v runs)) =
      filter (\<lambda>x. fst x \<noteq> v) ?ys"
    unfolding filter_sort AList.delete_eq filter_filter
    by (intro arg_cong [where f = "sort_key _"] filter_cong) auto
  moreover have "take 3 (filter (\<lambda>x. fst x \<noteq> v) ?ys) = take 3 ?ys"
    using assms by (intro take_filter_kept) (auto simp: newest_settled_def)
  ultimately show ?thesis by (simp add: newest_settled_def)
qed

lemma evict_keeps:
  assumes "protected_run acc touched i"
  shows "map_of (du_runs (evict acc touched)) i = map_of (du_runs acc) i \<and> protected_run (evict acc touched) touched i"
proof (cases "victim acc touched")
  case None
  then show ?thesis using assms by (simp add: evict_def)
next
  case (Some v)
  then have v: "\<not> protected_run acc touched v"
    using victim_step_in [of acc touched None "du_runs acc"] by (auto simp: victim_def)
  have "map_of (jm_del v (du_runs acc)) i = map_of (du_runs acc) i"
    using assms v by (simp add: delete_conv') metis
  moreover have "newest_settled (jm_del v (du_runs acc)) = newest_settled (du_runs acc)"
    using v by (intro settled_delete) (simp add: protected_run_def)
  moreover have "newestHandoff (du_runs acc) = Some i \<Longrightarrow> newestHandoff (jm_del v (du_runs acc)) = Some i"
    using v by (intro newest_delete) (auto simp: protected_run_def)
  ultimately show ?thesis
    using assms Some by (auto simp: evict_def protected_run_def)
qed

section \<open>The loops end and the maps stay small\<close>

lemma retain_returns:
  assumes "keys_distinct (du_runs acc)"
  shows "\<exists>runs. retainRuns acc touched = Some (acc\<lparr>du_runs := runs\<rparr>) \<and> length runs \<le> UPGRADE_HISTORY_LIMIT \<and>
    keys_distinct runs \<and> (\<forall>i. protected_run acc touched i \<longrightarrow> map_of runs i = map_of (du_runs acc) i) \<and>
    (\<forall>i r. map_of runs i = Some r \<longrightarrow> map_of (du_runs acc) i = Some r)"
  using assms
proof (induction "length (du_runs acc)" arbitrary: acc rule: less_induct)
  case less
  show ?case
  proof (cases "length (du_runs acc) \<le> UPGRADE_HISTORY_LIMIT")
    case True
    have "retainRuns acc touched = Some acc" using True by (simp add: retainRuns.simps)
    then show ?thesis using True less.prems by (intro exI [of _ "du_runs acc"]) simp
  next
    case False
    then obtain v where v: "victim acc touched = Some v" "v \<in> fst ` set (du_runs acc)"
      using victim_exists [OF less.prems] by (metis linorder_not_less)
    let ?acc = "evict acc touched"
    have ev: "?acc = acc\<lparr>du_runs := jm_del v (du_runs acc)\<rparr>" using v(1) by (simp add: evict_def)
    have "length (du_runs ?acc) < length (du_runs acc)"
      using v(2) delete_shorter by (force simp: ev)
    moreover have "keys_distinct (du_runs ?acc)" using less.prems by (simp add: ev keys_distinct_maps)
    ultimately obtain runs where runs: "retainRuns ?acc touched = Some (?acc\<lparr>du_runs := runs\<rparr>)"
      "length runs \<le> UPGRADE_HISTORY_LIMIT" "keys_distinct runs"
      "\<forall>i. protected_run ?acc touched i \<longrightarrow> map_of runs i = map_of (du_runs ?acc) i"
      "\<forall>i r. map_of runs i = Some r \<longrightarrow> map_of (du_runs ?acc) i = Some r"
      using less.hyps by blast
    have sub: "map_of (du_runs ?acc) i = Some r \<longrightarrow> map_of (du_runs acc) i = Some r" for i r
      by (simp add: ev delete_conv')
    have "retainRuns acc touched = Some (acc\<lparr>du_runs := runs\<rparr>)"
      using False runs(1) by (subst retainRuns.simps) (simp add: ev)
    moreover have "map_of runs i = map_of (du_runs acc) i" if "protected_run acc touched i" for i
      using evict_keeps [OF that] runs(4) by simp
    moreover have "map_of (du_runs acc) i = Some r" if "map_of runs i = Some r" for i r
      using that runs(5) sub by blast
    ultimately show ?thesis using runs(2,3) by blast
  qed
qed

lemma trim_lineages_bound:
  "keys_distinct m \<Longrightarrow> fst ` set m \<subseteq> set ks \<union> {k. auth = Some k} \<union> {started} \<Longrightarrow>
   length (trim_lineages auth started ks m) \<le> UPGRADE_HISTORY_LIMIT \<and> keys_distinct (trim_lineages auth started ks m)"
proof (induction ks arbitrary: m)
  case Nil
  have "{k. auth = Some k} \<subseteq> set (case auth of None \<Rightarrow> [] | Some k \<Rightarrow> [k])" by auto
  with Nil(2) have "fst ` set m \<subseteq> set (started # (case auth of None \<Rightarrow> [] | Some k \<Rightarrow> [k]))" by auto
  from card_mono [OF finite_set this] have "length m \<le> card (set (started # (case auth of None \<Rightarrow> [] | Some k \<Rightarrow> [k])))"
    using card_keys [OF Nil(1)] by simp
  also have "\<dots> \<le> 2" using card_length [of "started # (case auth of None \<Rightarrow> [] | Some k \<Rightarrow> [k])"]
    by (cases auth) simp_all
  finally show ?case using Nil(1) by (simp add: UPGRADE_HISTORY_LIMIT_def)
next
  case (Cons k ks)
  show ?case
  proof (cases "length m \<le> UPGRADE_HISTORY_LIMIT")
    case True
    then show ?thesis using Cons.prems(1) by simp
  next
    case False
    let ?m = "if auth \<noteq> Some k \<and> k \<noteq> started then jm_del k m else m"
    have "keys_distinct ?m" using Cons.prems(1) by (simp add: keys_distinct_maps)
    moreover have "fst ` set ?m \<subseteq> set ks \<union> {k. auth = Some k} \<union> {started}"
      using Cons.prems(2) by (auto simp: AList.delete_eq)
    ultimately show ?thesis using Cons.IH [of ?m] False by simp
  qed
qed

lemma trim_holds_returns:
  assumes "keys_distinct holds"
  shows "\<exists>h. trim_holds current lineage holds = Some h \<and> length h \<le> UPGRADE_HISTORY_LIMIT \<and> keys_distinct h"
  using assms
proof (induction current lineage holds rule: trim_holds.induct)
  case (1 current lineage holds)
  show ?case
  proof (cases "length holds \<le> UPGRADE_HISTORY_LIMIT")
    case True
    then show ?thesis using 1(2) by (subst trim_holds.simps) simp
  next
    case False
    let ?free = "filter (\<lambda>(l, _). current \<noteq> Some l \<and> l \<noteq> lineage) holds"
    have "?free \<noteq> []"
    proof
      assume "?free = []"
      then have "fst ` set holds \<subseteq> set (lineage # (case current of None \<Rightarrow> [] | Some k \<Rightarrow> [k]))"
        by (auto simp: filter_empty_conv)
      from card_mono [OF finite_set this] have "length holds \<le> length (lineage # (case current of None \<Rightarrow> [] | Some k \<Rightarrow> [k]))"
        using card_keys [OF 1(2)] card_length le_trans by metis
      then show False using False by (cases current) (simp_all add: UPGRADE_HISTORY_LIMIT_def)
    qed
    then obtain x xs where free: "?free = x # xs" by (cases ?free) auto
    have "\<exists>h. trim_holds current lineage (jm_del (fst (oldest_hold x xs)) holds) = Some h \<and>
        length h \<le> UPGRADE_HISTORY_LIMIT \<and> keys_distinct h"
      using 1(1) [OF False free] keys_distinct_maps(2) [OF 1(2)] by blast
    then show ?thesis using False free by (subst trim_holds.simps) simp
  qed
qed

definition retained :: "dispatch_upgrade \<Rightarrow> bool" where
  "retained acc \<longleftrightarrow>
     keys_distinct (du_runs acc) \<and> length (du_runs acc) \<le> UPGRADE_HISTORY_LIMIT \<and>
     keys_distinct (du_lineages acc) \<and> length (du_lineages acc) \<le> UPGRADE_HISTORY_LIMIT \<and>
     keys_distinct (du_holds acc) \<and> length (du_holds acc) \<le> UPGRADE_HISTORY_LIMIT \<and>
     length (du_rollbackIds acc) \<le> UPGRADE_HISTORY_LIMIT"

lemma retained_initial: "retained initialDispatchUpgrade"
  by (simp add: retained_def initialDispatchUpgrade_def keys_distinct_def)

lemma note_lineage_retained: "retained acc \<Longrightarrow> retained (note_lineage acc started lineage)"
  using trim_lineages_bound
  by (simp add: retained_def note_lineage_def Let_def keys_distinct_maps subset_iff)

lemma rolled_back_retained: "retained acc \<Longrightarrow> \<exists>acc'. rolled_back acc p seq = Some acc' \<and> retained acc'"
proof -
  assume acc: "retained acc"
  then have "keys_distinct (jm_set (rb_lineage p) (p, seq) (du_holds acc))" by (simp add: retained_def keys_distinct_maps)
  from trim_holds_returns [OF this] show ?thesis using acc by (fastforce simp: rolled_back_def retained_def Let_def)
qed

lemma hold_cleared_retained: "retained acc \<Longrightarrow> retained (hold_cleared acc p)"
proof -
  have "length (jm_del k (du_holds acc)) \<le> length (du_holds acc)" for k by (simp add: AList.delete_eq)
  then show "retained acc \<Longrightarrow> retained (hold_cleared acc p)"
    using le_trans by (fastforce simp: hold_cleared_def retained_def keys_distinct_maps split: option.split)
qed

lemma upgrade_fact_retained: "retained acc \<Longrightarrow> \<exists>acc'. upgrade_fact acc u seq = Some acc' \<and> retained acc'"
proof -
  assume acc: "retained acc"
  let ?r = "advance_run (upgrade_of acc (upgrade_run u)) u seq"
  have "keys_distinct (jm_set (upgrade_run u) ?r (du_runs acc))" using acc by (simp add: retained_def keys_distinct_maps)
  then show ?thesis
    using acc retain_returns [of "acc\<lparr>du_runs := jm_set (upgrade_run u) ?r (du_runs acc), du_authoritativeRun := a\<rparr>" for a]
    by (fastforce simp: upgrade_fact_def Let_def retained_def)
qed

lemma upgrade_step_retained: "retained acc \<Longrightarrow> \<exists>acc'. upgrade_step acc e = Some acc' \<and> retained acc'"
  using note_lineage_retained rolled_back_retained hold_cleared_retained upgrade_fact_retained
  by (auto simp: upgrade_step_def retained_def split: repository_body.split dispatch_ev.split upgrade_ev.split option.split)

section \<open>What a run knows of its handoff\<close>

definition captured :: "upgrade_state \<Rightarrow> (string, string) jsmap" where
  "captured r =
     (case us_handoff r of
        None \<Rightarrow> []
      | Some (h, _) \<Rightarrow> from_entries (case hs_builds h of None \<Rightarrow> [] | Some b \<Rightarrow> b))"

definition handoff_inv :: "upgrade_state \<Rightarrow> bool" where
  "handoff_inv r \<longleftrightarrow>
     (\<forall>h s n. us_completed r = Some (h, s, n) \<longrightarrow> handed_off r h \<and> us_outstanding r = []) \<and>
     (\<forall>h n. us_released r = Some (h, n) \<longrightarrow> handed_off r h) \<and>
     (us_takeover r \<noteq> None \<longrightarrow> us_released r \<noteq> None) \<and>
     (\<forall>h n. us_handoff r = Some (h, n) \<longrightarrow> hs_mode h \<noteq> None \<longrightarrow> us_completed r = None \<longrightarrow> answers_request r h) \<and>
     us_drained r + us_suspended r + length (us_outstanding r) \<le> length (captured r) \<and>
     (us_handoff r = None \<longrightarrow> us_drained r = 0 \<and> us_suspended r = 0)"

lemma handoff_inv_initial: "handoff_inv initialUpgrade"
  by (simp add: handoff_inv_def initialUpgrade_def captured_def)

lemma same_handoff_refl: "same_handoff h h"
  by (simp add: same_handoff_def)

lemma answers_same: "us_request r = us_request r' \<Longrightarrow> answers_request r h = answers_request r' h"
  by (simp add: answers_request_def)

lemma inv_failed: "handoff_inv r \<Longrightarrow> handoff_inv (upgrade_failed r i seq)"
  by (auto simp: handoff_inv_def upgrade_failed_def handed_off_def captured_def answers_request_def
      same_handoff_def Let_def split: option.splits)

lemma inv_prepared: "handoff_inv r \<Longrightarrow> handoff_inv (target_prepared r h seq)"
  by (auto simp: handoff_inv_def target_prepared_def handed_off_def captured_def answers_request_def)

lemma inv_yield: "handoff_inv r \<Longrightarrow> handoff_inv (yield_requested r q seq)"
  by (auto simp: handoff_inv_def yield_requested_def handed_off_def captured_def)

lemma inv_started: "handoff_inv r \<Longrightarrow> handoff_inv (handoff_started r h seq)"
  by (auto simp: handoff_inv_def handoff_started_def handed_off_def captured_def answers_request_def split: option.splits)

lemma inv_released: "handoff_inv r \<Longrightarrow> handoff_inv (terminal_released r h seq)"
  by (auto simp: handoff_inv_def terminal_released_def handed_off_def captured_def answers_request_def)

lemma inv_taken: "handoff_inv r \<Longrightarrow> handoff_inv (taken_over r h s seq)"
  by (auto simp: handoff_inv_def taken_over_def takes_over_def handed_off_def captured_def answers_request_def
      split: option.splits)

lemma inv_deadline: "handoff_inv r \<Longrightarrow> handoff_inv (drain_deadline r h t)"
  by (auto simp: handoff_inv_def drain_deadline_def handed_off_def captured_def answers_request_def)

lemma inv_settled: "handoff_inv r \<Longrightarrow> handoff_inv (drain_settled r h slug i out)"
proof (cases "us_completed r = None \<and> handed_off r h \<and> jm_get (us_outstanding r) slug = Some i")
  case True
  assume inv: "handoff_inv r"
  obtain st n where st: "us_handoff r = Some (st, n)"
    using True by (auto simp: handed_off_def split: option.splits)
  have "(slug, i) \<in> set (us_outstanding r)" using True by (simp add: map_of_SomeD)
  from delete_shorter [OF this] have "Suc (length (jm_del slug (us_outstanding r))) \<le> length (us_outstanding r)" by simp
  then show ?thesis
    using inv True st
    by (auto simp: handoff_inv_def drain_settled_def handed_off_def captured_def answers_request_def)
next
  case False
  then have "drain_settled r h slug i out = r" unfolding drain_settled_def by (rule if_not_P)
  then show "handoff_inv r \<Longrightarrow> handoff_inv (drain_settled r h slug i out)" by simp
qed

lemma inv_completed: "handoff_inv r \<Longrightarrow> handoff_inv (handoff_completed r h s seq)"
  by (auto simp: handoff_inv_def handoff_completed_def handed_off_def captured_def answers_request_def)

lemma handoff_inv_advance: "handoff_inv r \<Longrightarrow> handoff_inv (advance_run r u seq)"
proof (cases u)
  case (UpgradeTargetResolved a b t)
  assume "handoff_inv r"
  then show ?thesis unfolding UpgradeTargetResolved
    by (auto simp: handoff_inv_def handed_off_def captured_def answers_request_def)
next
  case (UpgradeDetected i)
  assume "handoff_inv r"
  then show ?thesis unfolding UpgradeDetected
    by (auto simp: handoff_inv_def handed_off_def captured_def answers_request_def)
qed (simp_all add: inv_failed inv_prepared inv_yield inv_started inv_released inv_taken inv_deadline inv_settled inv_completed)

definition all_runs :: "dispatch_upgrade \<Rightarrow> bool" where
  "all_runs acc \<longleftrightarrow> (\<forall>i r. map_of (du_runs acc) i = Some r \<longrightarrow> handoff_inv r)"

lemma upgrade_fact_inv:
  assumes "retained acc" and "all_runs acc" and "upgrade_fact acc u seq = Some acc'"
  shows "all_runs acc'"
proof -
  let ?r = "advance_run (upgrade_of acc (upgrade_run u)) u seq"
  have "handoff_inv ?r"
    using assms(2) handoff_inv_initial
    by (auto intro!: handoff_inv_advance simp: upgrade_of_def all_runs_def split: option.split)
  then have set: "map_of (jm_set (upgrade_run u) ?r (du_runs acc)) i = Some r \<longrightarrow> handoff_inv r" for i r
    using assms(2) by (auto simp: update_conv' all_runs_def)
  have keys: "keys_distinct (jm_set (upgrade_run u) ?r (du_runs acc))" using assms(1) by (simp add: retained_def keys_distinct_maps)
  obtain a where eq: "retainRuns (acc\<lparr>du_runs := jm_set (upgrade_run u) ?r (du_runs acc), du_authoritativeRun := a\<rparr>)
      (upgrade_run u) = Some acc'"
    using assms(3) unfolding upgrade_fact_def Let_def by blast
  let ?acc = "acc\<lparr>du_runs := jm_set (upgrade_run u) ?r (du_runs acc), du_authoritativeRun := a\<rparr>"
  obtain runs where "retainRuns ?acc (upgrade_run u) = Some (?acc\<lparr>du_runs := runs\<rparr>)"
      "\<forall>i r. map_of runs i = Some r \<longrightarrow> map_of (du_runs ?acc) i = Some r"
    using retain_returns [of ?acc "upgrade_run u"] keys by auto
  with eq have acc': "acc' = ?acc\<lparr>du_runs := runs\<rparr>"
    and sub: "map_of runs i = Some r \<longrightarrow> map_of (jm_set (upgrade_run u) ?r (du_runs acc)) i = Some r" for i r
    by simp_all
  have "map_of runs i = Some r \<longrightarrow> handoff_inv r" for i r using sub set by blast
  then show ?thesis unfolding all_runs_def acc' by simp
qed

lemma upgrade_step_inv:
  assumes "retained acc" and "all_runs acc" and "upgrade_step acc e = Some acc'"
  shows "all_runs acc'"
proof -
  have "all_runs acc'" if "rolled_back acc p n = Some acc'" for p n
    using that assms(2) by (auto simp: rolled_back_def all_runs_def Let_def split: if_splits)
  moreover have "all_runs (hold_cleared acc p)" for p
    using assms(2) by (auto simp: hold_cleared_def all_runs_def split: option.split)
  moreover have "all_runs (note_lineage acc a b)" for a b
    using assms(2) by (simp add: note_lineage_def all_runs_def Let_def)
  ultimately show ?thesis
  proof (cases "re_body e")
    case (RUpgrade u)
    then show ?thesis
      using assms upgrade_fact_inv [OF assms(1,2)] \<open>\<And>p n. rolled_back acc p n = Some acc' \<Longrightarrow> all_runs acc'\<close>
        \<open>\<And>p. all_runs (hold_cleared acc p)\<close>
      by (cases u) (auto simp: upgrade_step_def)
  next
    case (RDispatch d)
    then show ?thesis
      using assms \<open>\<And>a b. all_runs (note_lineage acc a b)\<close>
      by (cases d) (auto simp: upgrade_step_def all_runs_def split: option.splits)
  qed (use assms in \<open>auto simp: upgrade_step_def\<close>)
qed

lemma fold_upgrades_inv:
  assumes "retained acc" and "all_runs acc"
  shows "\<exists>acc'. fold_upgrades (Some acc) es = Some acc' \<and> retained acc' \<and> all_runs acc'"
  using assms
proof (induction es arbitrary: acc)
  case (Cons e es)
  obtain a where "upgrade_step acc e = Some a" "retained a" using upgrade_step_retained Cons.prems(1) by blast
  moreover then have "all_runs a" using upgrade_step_inv Cons.prems by blast
  ultimately show ?case using Cons.IH [of a] by (simp add: fold_upgrades_def)
qed (simp add: fold_upgrades_def)

lemma reduce_upgrades:
  "\<exists>acc. reduce_journal dispatchUpgradeReducer es = Some acc \<and> retained acc \<and> all_runs acc"
  using fold_upgrades_inv [OF retained_initial]
  by (simp add: reduce_journal_def dispatchUpgradeReducer_def all_runs_def initialDispatchUpgrade_def)

section \<open>Properties\<close>

text \<open>C39: the fold of dispatcher upgrades returns on every journal and stays bounded. The retention loop
  always finds a run to evict and the list of holds it reduces is never empty, so no journal makes the
  fold throw or loop, and each of the four histories holds at most 16 entries.\<close>

theorem upgrade_history_bounded:
  "\<exists>acc. reduce_journal dispatchUpgradeReducer es = Some acc \<and>
     length (du_runs acc) \<le> 16 \<and> length (du_lineages acc) \<le> 16 \<and> length (du_holds acc) \<le> 16 \<and>
     length (du_rollbackIds acc) \<le> 16"
  using reduce_upgrades [of es] by (auto simp: retained_def UPGRADE_HISTORY_LIMIT_def)

text \<open>eviction spares what decisions read. Whatever else goes, the run just written, the
  authoritative run, the run of the newest accepted handoff and the three newest settled runs keep
  their state.\<close>

lemma eviction_spares_protected:
  assumes "distinct (map fst (du_runs acc))" and "protected_run acc touched i"
  shows "\<exists>acc'. retainRuns acc touched = Some acc' \<and> map_of (du_runs acc') i = map_of (du_runs acc) i"
  using retain_returns [of acc touched] assms by (auto simp: keys_distinct_def)

lemma eviction_spares_protected_witness:
  "\<exists>acc'. retainRuns (initialDispatchUpgrade\<lparr>du_runs := [(''a'', initialUpgrade)]\<rparr>) ''a'' = Some acc' \<and>
     map_of (du_runs acc') ''a'' = Some initialUpgrade"
  using eviction_spares_protected [of "initialDispatchUpgrade\<lparr>du_runs := [(''a'', initialUpgrade)]\<rparr>" "''a''" "''a''"]
  by (simp add: protected_run_def)

text \<open>C40: a completed handoff has drained everything it captured. In the reduced state of any journal, a
  run whose handoff completed has no execution outstanding, its completion names the very handoff
  that was started, a takeover of it was preceded by the terminal's release, and no more executions
  were counted drained or suspended than the handoff captured.\<close>

theorem completed_handoff_drained:
  assumes "reduce_journal dispatchUpgradeReducer es = Some acc" and "map_of (du_runs acc) run = Some r"
    and "us_completed r = Some (h, successor, seq)"
  shows "us_outstanding r = [] \<and> handed_off r h \<and> (us_takeover r \<noteq> None \<longrightarrow> us_released r \<noteq> None) \<and>
     us_drained r + us_suspended r \<le> length (captured r)"
proof -
  have "handoff_inv r" using reduce_upgrades [of es] assms(1,2) by (auto simp: all_runs_def)
  then show ?thesis using assms(3) by (auto simp: handoff_inv_def)
qed

abbreviation sample_handoff :: handoff where
  "sample_handoff \<equiv>
     \<lparr>ho_identity = \<lparr>ui_correlation = ''c'', ui_run = ''a'', ui_lineage = ''l'', ui_from = ''1'',
        ui_target = \<lparr>ut_mode = ''source'', ut_key = ''k'', ut_source = ''s'', ut_version = None, ut_base = None, ut_sha = None\<rparr>\<rparr>,
      ho_to = ''2'', ho_root = ''/'', ho_cacheId = ''x''\<rparr>"

abbreviation journal_event :: "nat \<Rightarrow> repository_body \<Rightarrow> repository_event" where
  "journal_event n b \<equiv> \<lparr>re_seq = n, re_ts = 0, re_actor = Dispatcher, re_body = b\<rparr>"

abbreviation handoff_journal :: "repository_event list" where
  "handoff_journal \<equiv>
     [journal_event 1 (RUpgrade (HandoffStarted
        \<lparr>hs_handoff = sample_handoff, hs_successor = None, hs_mode = None, hs_deadline = None,
         hs_builds = Some [(''b'', ''i'')]\<rparr>)),
      journal_event 2 (RUpgrade (DrainSettled sample_handoff ''b'' ''i'' Drained)),
      journal_event 3 (RUpgrade (HandoffCompleted sample_handoff ''z''))]"

lemma handoff_sample:
  "\<exists>acc r. reduce_journal dispatchUpgradeReducer handoff_journal = Some acc \<and>
     map_of (du_runs acc) ''a'' = Some r \<and> us_completed r = Some (sample_handoff, ''z'', 3) \<and> us_drained r = 1"
  by (simp add: reduce_journal_def dispatchUpgradeReducer_def journal_events_def known_fact_def fold_upgrades_def
      upgrade_step_def upgrade_fact_def upgrade_of_def initialDispatchUpgrade_def initialUpgrade_def Let_def
      handoff_started_def from_entries_def drain_settled_def handed_off_def same_handoff_def handoff_completed_def
      retainRuns.simps UPGRADE_HISTORY_LIMIT_def)

theorem completed_handoff_drained_witness:
  "\<exists>acc r. reduce_journal dispatchUpgradeReducer handoff_journal = Some acc \<and>
     map_of (du_runs acc) ''a'' = Some r \<and> us_outstanding r = [] \<and> handed_off r sample_handoff"
  using handoff_sample completed_handoff_drained [of handoff_journal _ "''a''" _ sample_handoff "''z''" 3] by blast

end
