(* ===== verification/RepositoryAttention.thy ===== *)
theory RepositoryAttention
  imports RepositoryEvents
begin

text \<open>
  \<^verbatim>\<open>packages/core/src/kernel/repository-attention.ts\<close>: which repository conditions have persisted long
  enough to ask for a person. An episode of a limited source or forge ends only with its recovery;
  repeated evidence may bring its deadline forward; crossing the deadline is not enough, a tick must
  have retried after it. Times are parsed timestamps in milliseconds.
\<close>

record source_attention =
  at_event :: "source_degraded \<times> nat"
  at_deadline :: timestamp
  at_dependencyLimited :: bool
  at_requiresRetry :: bool
  at_retryObserved :: bool

record forge_attention =
  fa_event :: "forge_degraded \<times> nat"
  fa_deadline :: timestamp
  fa_retryObserved :: bool

record tick_failure =
  tf_run :: string
  tf_error :: string
  tf_seq :: nat
  tf_ts :: timestamp

record attention =
  an_forge :: "forge_attention option"
  an_sources :: "(string, source_attention) jsmap"
  an_failure :: "tick_failure option"
  an_tickStarts :: "(string, timestamp) jsmap"

definition initialAttention :: attention where
  "initialAttention = \<lparr>an_forge = None, an_sources = [], an_failure = None, an_tickStarts = []\<rparr>"

definition defers_at :: "timestamp \<Rightarrow> source_attention \<Rightarrow> bool" where
  "defers_at now s \<longleftrightarrow> now < at_deadline s \<or> at_requiresRetry s \<and> \<not> at_retryObserved s"

definition sourceDefersTick :: "attention \<Rightarrow> timestamp \<Rightarrow> bool" where
  "sourceDefersTick st now = list_ex (\<lambda>(_, s). defers_at now s) (an_sources st)"

definition note_retry :: "timestamp \<Rightarrow> source_attention \<Rightarrow> source_attention" where
  "note_retry startedAt s = (if startedAt \<ge> at_deadline s then s\<lparr>at_retryObserved := True\<rparr> else s)"

definition note_forge_retry :: "timestamp \<Rightarrow> forge_attention \<Rightarrow> forge_attention" where
  "note_forge_retry startedAt f = (if startedAt \<ge> fa_deadline f then f\<lparr>fa_retryObserved := True\<rparr> else f)"

definition observeRetry :: "attention \<Rightarrow> string \<Rightarrow> attention" where
  "observeRetry st run =
     (let st1 = st\<lparr>an_tickStarts := jm_del run (an_tickStarts st)\<rparr> in
      case map_of (an_tickStarts st) run of
        None \<Rightarrow> st1
      | Some t \<Rightarrow> st1\<lparr>an_forge := map_option (note_forge_retry t) (an_forge st),
                      an_sources := map (\<lambda>(k, s). (k, note_retry t s)) (an_sources st)\<rparr>)"

definition drop_failure_of :: "string \<Rightarrow> attention \<Rightarrow> attention" where
  "drop_failure_of run st =
     (if map_option tf_run (an_failure st) = Some run then st\<lparr>an_failure := None\<rparr> else st)"

definition forge_degraded_step :: "attention \<Rightarrow> forge_degraded \<Rightarrow> nat \<Rightarrow> attention" where
  "forge_degraded_step st p seq =
     st\<lparr>an_forge := Some (case an_forge st of
          None \<Rightarrow> \<lparr>fa_event = (p, seq), fa_deadline = fg_resetAt p, fa_retryObserved = False\<rparr>
        | Some f \<Rightarrow> f\<lparr>fa_deadline := min (fa_deadline f) (fg_resetAt p)\<rparr>)\<rparr>"

text \<open>A failed scan without a reset time is given fifteen minutes.\<close>

definition source_deadline :: "source_degraded \<Rightarrow> timestamp \<Rightarrow> timestamp" where
  "source_deadline p ts = (case sd_resetAt p of Some t \<Rightarrow> t | None \<Rightarrow> ts + 15 * 60000)"

definition degraded_source :: "source_attention option \<Rightarrow> source_degraded \<Rightarrow> timestamp \<Rightarrow> nat \<Rightarrow> source_attention" where
  "degraded_source existing p ts seq =
     (case existing of
        Some s \<Rightarrow> s\<lparr>at_deadline := min (at_deadline s) (source_deadline p ts),
                    at_requiresRetry := (at_requiresRetry s \<or> sd_resetAt p \<noteq> None)\<rparr>
      | None \<Rightarrow> \<lparr>at_event = (p, seq), at_deadline = source_deadline p ts, at_dependencyLimited = False,
                 at_requiresRetry = (sd_resetAt p \<noteq> None), at_retryObserved = False\<rparr>)"

definition source_degraded_step :: "attention \<Rightarrow> source_degraded \<Rightarrow> timestamp \<Rightarrow> nat \<Rightarrow> attention" where
  "source_degraded_step st p ts seq =
     (let st1 = st\<lparr>an_sources := jm_set (sd_source p)
                     (degraded_source (map_of (an_sources st) (sd_source p)) p ts seq) (an_sources st)\<rparr>
      in if sourceDefersTick st1 ts then st1\<lparr>an_failure := None\<rparr> else st1)"

definition dependency_limited_step :: "attention \<Rightarrow> string \<Rightarrow> attention" where
  "dependency_limited_step st source =
     (case map_of (an_sources st) source of
        None \<Rightarrow> st
      | Some s \<Rightarrow> st\<lparr>an_sources := jm_set source (s\<lparr>at_dependencyLimited := True\<rparr>) (an_sources st)\<rparr>)"

fun health_step :: "attention \<Rightarrow> health_ev \<Rightarrow> timestamp \<Rightarrow> nat \<Rightarrow> attention" where
  "health_step st (ForgeDegraded p) ts seq = forge_degraded_step st p seq"
| "health_step st (ForgeRecovered _) ts seq = st\<lparr>an_forge := None\<rparr>"
| "health_step st (SourceDegraded p) ts seq = source_degraded_step st p ts seq"
| "health_step st (SourceDependencyLimited s) ts seq = dependency_limited_step st s"
| "health_step st (SourceRecovered s) ts seq = st\<lparr>an_sources := jm_del s (an_sources st)\<rparr>"

definition tick_failed_step :: "attention \<Rightarrow> string \<Rightarrow> string \<Rightarrow> timestamp \<Rightarrow> nat \<Rightarrow> attention" where
  "tick_failed_step st run err ts seq =
     (let st1 = observeRetry st run in
      if sourceDefersTick st1 ts then st1\<lparr>an_failure := None\<rparr>
      else if map_option tf_run (an_failure st1) \<noteq> Some run
           then st1\<lparr>an_failure := Some \<lparr>tf_run = run, tf_error = err, tf_seq = seq, tf_ts = ts\<rparr>\<rparr>
           else st1)"

fun tick_step :: "attention \<Rightarrow> dispatch_ev \<Rightarrow> timestamp \<Rightarrow> nat \<Rightarrow> attention" where
  "tick_step st (RunStarted _) ts seq = st\<lparr>an_failure := None, an_tickStarts := []\<rparr>"
| "tick_step st (RunStopped p) ts seq =
     drop_failure_of (sp_run p) (st\<lparr>an_tickStarts := jm_del (sp_run p) (an_tickStarts st)\<rparr>)"
| "tick_step st (TickStarted run startedAt) ts seq =
     st\<lparr>an_tickStarts := jm_set run (case startedAt of Some t \<Rightarrow> t | None \<Rightarrow> ts) (an_tickStarts st)\<rparr>"
| "tick_step st (TickCompleted p) ts seq = drop_failure_of (tc_run p) (observeRetry st (tc_run p))"
| "tick_step st (TickFailed run err) ts seq = tick_failed_step st run err ts seq"
| "tick_step st _ ts seq = st"

definition attention_step :: "attention \<Rightarrow> repository_event \<Rightarrow> attention" where
  "attention_step st e =
     (case re_body e of
        RHealth h \<Rightarrow> health_step st h (re_ts e) (re_seq e)
      | RDispatch d \<Rightarrow> tick_step st d (re_ts e) (re_seq e)
      | _ \<Rightarrow> st)"

definition repositoryAttentionReducer :: "(attention, repository_event, attention) reducer" where
  "repositoryAttentionReducer =
     \<lparr>rd_version = 2, rd_rawEvents = False, rd_initial = initialAttention,
      rd_fold = fold_events attention_step, rd_finish = (\<lambda>acc. acc)\<rparr>"

interpretation repository_attention: journal_reducer repositoryAttentionReducer
  by unfold_locales (simp_all add: repositoryAttentionReducer_def)

section \<open>What is reported\<close>

datatype persistence =
    SourcePersistent source_degraded nat bool
  | ForgePersistent forge_degraded nat
  | TickFailurePersistent tick_failure

definition source_reports :: "attention \<Rightarrow> timestamp \<Rightarrow> persistence list" where
  "source_reports st now =
     List.map_filter
       (\<lambda>(_, s). if now < at_deadline s \<or> at_requiresRetry s \<and> \<not> at_retryObserved s then None
                 else Some (SourcePersistent (fst (at_event s)) (snd (at_event s)) (at_dependencyLimited s)))
       (an_sources st)"

definition forge_reports :: "attention \<Rightarrow> timestamp \<Rightarrow> persistence list" where
  "forge_reports st now =
     (case an_forge st of
        None \<Rightarrow> []
      | Some f \<Rightarrow> if fa_retryObserved f \<and> now \<ge> fa_deadline f
                  then [ForgePersistent (fst (fa_event f)) (snd (fa_event f))] else [])"

definition failure_reports :: "attention \<Rightarrow> timestamp \<Rightarrow> persistence list" where
  "failure_reports st now =
     (case an_failure st of
        None \<Rightarrow> []
      | Some f \<Rightarrow> if \<not> sourceDefersTick st now \<and> now \<ge> tf_ts f + 5 * 60000 then [TickFailurePersistent f] else [])"

definition pending_attention :: "attention \<Rightarrow> timestamp \<Rightarrow> persistence list" where
  "pending_attention st now = source_reports st now @ forge_reports st now @ failure_reports st now"

definition report_identity :: "persistence \<Rightarrow> string" where
  "report_identity p =
     (case p of
        SourcePersistent _ n _ \<Rightarrow> ''source:'' @ nat_text n
      | ForgePersistent _ n \<Rightarrow> ''forge:'' @ nat_text n
      | TickFailurePersistent f \<Rightarrow> ''tick:'' @ nat_text (tf_seq f))"

section \<open>Episodes\<close>

definition attention_of :: "repository_event list \<Rightarrow> attention" where
  "attention_of es = fold_events attention_step initialAttention es"

lemma attention_snoc: "attention_of (es @ [e]) = attention_step (attention_of es) e"
  by (simp add: attention_of_def)

definition source_recovery :: "string \<Rightarrow> repository_event \<Rightarrow> bool" where
  "source_recovery s e \<longleftrightarrow> re_body e = RHealth (SourceRecovered s)"

lemma map_of_note: "map_of (map (\<lambda>(k, s). (k, note_retry t s)) m) k = map_option (note_retry t) (map_of m k)"
  by (induction m) auto

text \<open>One step keeps an episode and never postpones its deadline.\<close>

definition not_later :: "source_attention \<Rightarrow> source_attention \<Rightarrow> bool" where
  "not_later a b \<longleftrightarrow> at_event b = at_event a \<and> at_deadline b \<le> at_deadline a \<and>
     (at_requiresRetry a \<longrightarrow> at_requiresRetry b) \<and> (at_retryObserved a \<longrightarrow> at_retryObserved b)"

lemma not_later_refl [simp]: "not_later a a" by (simp add: not_later_def)

lemma not_later_trans: "not_later a b \<Longrightarrow> not_later b c \<Longrightarrow> not_later a c"
  by (auto simp: not_later_def)

lemma note_not_later [simp]: "not_later a (note_retry t a)"
  by (simp add: note_retry_def not_later_def)

lemma observe_sources:
  "map_of (an_sources (observeRetry st run)) k = Some b \<Longrightarrow> \<exists>a. map_of (an_sources st) k = Some a \<and>
     (b = a \<or> (\<exists>t. map_of (an_tickStarts st) run = Some t \<and> b = note_retry t a))"
  by (auto simp: observeRetry_def Let_def map_of_note split: option.splits)

lemma observe_keeps:
  "map_of (an_sources st) k = Some a \<Longrightarrow> \<exists>b. map_of (an_sources (observeRetry st run)) k = Some b \<and> not_later a b"
  by (auto simp: observeRetry_def Let_def map_of_note split: option.splits)

lemma drop_failure_sources [simp]: "an_sources (drop_failure_of run st) = an_sources st"
  "an_tickStarts (drop_failure_of run st) = an_tickStarts st"
  by (simp_all add: drop_failure_of_def)

lemma tick_failed_sources [simp]: "an_sources (tick_failed_step st run err ts seq) = an_sources (observeRetry st run)"
  "an_tickStarts (tick_failed_step st run err ts seq) = an_tickStarts (observeRetry st run)"
  by (simp_all add: tick_failed_step_def Let_def)

lemma source_degraded_sources [simp]:
  "an_sources (source_degraded_step st p ts seq) = jm_set (sd_source p)
     (degraded_source (map_of (an_sources st) (sd_source p)) p ts seq) (an_sources st)"
  "an_tickStarts (source_degraded_step st p ts seq) = an_tickStarts st"
  by (simp_all add: source_degraded_step_def Let_def)

lemma episode_step:
  assumes a: "map_of (an_sources st) k = Some a" and "\<not> source_recovery k e"
  shows "\<exists>b. map_of (an_sources (attention_step st e)) k = Some b \<and> not_later a b"
proof (cases "re_body e")
  case (RHealth h)
  then show ?thesis
    using assms
    by (cases h)
      (auto simp: attention_step_def source_recovery_def forge_degraded_step_def dependency_limited_step_def
        update_conv' delete_conv' degraded_source_def not_later_def split: option.splits)
next
  case (RDispatch d)
  then show ?thesis
    using a observe_keeps [OF a] by (cases d) (auto simp: attention_step_def)
qed (use a in \<open>auto simp: attention_step_def\<close>)

lemma episode_fold:
  "map_of (an_sources st) k = Some a \<Longrightarrow> \<forall>e \<in> set es. \<not> source_recovery k e \<Longrightarrow>
   \<exists>b. map_of (an_sources (fold_events attention_step st es)) k = Some b \<and> not_later a b"
proof (induction es arbitrary: st a)
  case (Cons e es)
  obtain b where b: "map_of (an_sources (attention_step st e)) k = Some b" "not_later a b"
    using episode_step Cons.prems by (metis list.set_intros(1))
  from Cons.IH [OF b(1)] Cons.prems(2) b(2) show ?case by (auto intro: not_later_trans)
qed auto

section \<open>A report of a limited source has been retried\<close>

definition tick_start_of :: "repository_event \<Rightarrow> (string \<times> timestamp) option" where
  "tick_start_of e =
     (case re_body e of
        RDispatch (TickStarted run t) \<Rightarrow> Some (run, case t of Some x \<Rightarrow> x | None \<Rightarrow> re_ts e)
      | _ \<Rightarrow> None)"

definition tick_end_of :: "repository_event \<Rightarrow> string option" where
  "tick_end_of e =
     (case re_body e of
        RDispatch (TickCompleted p) \<Rightarrow> Some (tc_run p)
      | RDispatch (TickFailed run _) \<Rightarrow> Some run
      | _ \<Rightarrow> None)"

definition started_in :: "repository_event list \<Rightarrow> string \<Rightarrow> timestamp \<Rightarrow> bool" where
  "started_in es run t \<longleftrightarrow> (\<exists>e \<in> set es. tick_start_of e = Some (run, t))"

text \<open>Some run started a tick at or after \<open>d\<close> and later finished one.\<close>

definition retried :: "repository_event list \<Rightarrow> timestamp \<Rightarrow> bool" where
  "retried es d \<longleftrightarrow>
     (\<exists>before e after run t. es = before @ e # after \<and> tick_end_of e = Some run \<and> started_in before run t \<and> t \<ge> d)"

lemma retried_append: "retried es d \<Longrightarrow> retried (es @ later) d"
  unfolding retried_def by (metis append.assoc append_Cons)

lemma retried_earlier: "retried es d \<Longrightarrow> d' \<le> d \<Longrightarrow> retried es d'"
  unfolding retried_def using order_trans by blast

lemma retried_now: "tick_end_of e = Some run \<Longrightarrow> started_in es run t \<Longrightarrow> t \<ge> d \<Longrightarrow> retried (es @ [e]) d"
  unfolding retried_def by blast

definition starts_inv :: "repository_event list \<Rightarrow> bool" where
  "starts_inv es \<longleftrightarrow> (\<forall>run t. map_of (an_tickStarts (attention_of es)) run = Some t \<longrightarrow> started_in es run t)"

lemma tick_starts_step:
  assumes "map_of (an_tickStarts (attention_step st e)) run = Some t"
  shows "map_of (an_tickStarts st) run = Some t \<or> tick_start_of e = Some (run, t)"
proof (cases "re_body e")
  case (RHealth h)
  then show ?thesis using assms
    by (cases h) (auto simp: attention_step_def forge_degraded_step_def dependency_limited_step_def split: option.splits)
next
  case (RDispatch d)
  then show ?thesis using assms
    by (cases d)
      (auto simp: attention_step_def tick_start_of_def observeRetry_def Let_def update_conv' delete_conv'
        split: option.splits if_splits)
qed (use assms in \<open>auto simp: attention_step_def\<close>)

lemma starts_inv_holds: "starts_inv es"
proof (induction es rule: rev_induct)
  case (snoc e es)
  then show ?case
    using tick_starts_step by (fastforce simp: starts_inv_def attention_snoc started_in_def)
qed (simp add: starts_inv_def attention_of_def initialAttention_def)

text \<open>Where a source of the next state comes from.\<close>

lemma source_origin:
  assumes "map_of (an_sources (attention_step st e)) k = Some b" and "at_retryObserved b"
  shows "\<exists>a. map_of (an_sources st) k = Some a \<and>
     (at_retryObserved a \<and> at_deadline b \<le> at_deadline a \<or>
      (\<exists>run t. tick_end_of e = Some run \<and> map_of (an_tickStarts st) run = Some t \<and> t \<ge> at_deadline b))"
proof (cases "re_body e")
  case (RHealth h)
  then show ?thesis
    using assms
    by (cases h)
      (auto simp: attention_step_def forge_degraded_step_def dependency_limited_step_def update_conv' delete_conv'
        degraded_source_def split: option.splits if_splits)
next
  case (RDispatch d)
  have obs: "\<exists>a. map_of (an_sources st) k = Some a \<and>
      (at_retryObserved a \<and> at_deadline b \<le> at_deadline a \<or>
       (\<exists>t. map_of (an_tickStarts st) run = Some t \<and> t \<ge> at_deadline b))"
    if "map_of (an_sources (observeRetry st run)) k = Some b" for run
    using observe_sources [OF that] assms(2) by (auto simp: note_retry_def split: if_splits)
  show ?thesis
    using assms obs RDispatch
    by (cases d) (force simp: attention_step_def tick_end_of_def)+
qed (use assms in \<open>auto simp: attention_step_def\<close>)

lemma retried_inv:
  "map_of (an_sources (attention_of es)) k = Some s \<Longrightarrow> at_retryObserved s \<Longrightarrow> retried es (at_deadline s)"
proof (induction es arbitrary: s rule: rev_induct)
  case (snoc e es)
  from source_origin [OF snoc.prems(1) [unfolded attention_snoc] snoc.prems(2)]
  obtain a where a: "map_of (an_sources (attention_of es)) k = Some a"
    and cases: "at_retryObserved a \<and> at_deadline s \<le> at_deadline a \<or>
      (\<exists>run t. tick_end_of e = Some run \<and> map_of (an_tickStarts (attention_of es)) run = Some t \<and> t \<ge> at_deadline s)"
    by blast
  from cases show ?case
  proof
    assume "at_retryObserved a \<and> at_deadline s \<le> at_deadline a"
    then show ?thesis using snoc.IH [OF a] retried_earlier retried_append by blast
  next
    assume "\<exists>run t. tick_end_of e = Some run \<and> map_of (an_tickStarts (attention_of es)) run = Some t \<and> t \<ge> at_deadline s"
    then obtain run t where "tick_end_of e = Some run" "map_of (an_tickStarts (attention_of es)) run = Some t"
      "t \<ge> at_deadline s" by blast
    then show ?thesis using starts_inv_holds [of es] retried_now by (metis starts_inv_def)
  qed
qed (simp add: attention_of_def initialAttention_def)

section \<open>Properties\<close>

lemma attention_reduced: "reduce_journal repositoryAttentionReducer es = attention_of (filter known_fact es)"
  by (simp add: reduce_journal_def repositoryAttentionReducer_def journal_events_def attention_of_def)

lemma sources_distinct: "distinct (map fst (an_sources (attention_of es)))"
proof (induction es rule: rev_induct)
  case (snoc e es)
  let ?st = "attention_of es"
  have obs: "distinct (map fst (an_sources (observeRetry ?st run)))" for run
    using snoc by (simp add: observeRetry_def Let_def comp_def case_prod_beta split: option.split)
  show ?case
  proof (cases "re_body e")
    case (RHealth h)
    then show ?thesis using snoc
      by (cases h) (simp_all add: attention_snoc attention_step_def forge_degraded_step_def dependency_limited_step_def
          distinct_update distinct_delete split: option.split)
  next
    case (RDispatch d)
    then show ?thesis using snoc obs by (cases d) (simp_all add: attention_snoc attention_step_def)
  qed (use snoc in \<open>simp_all add: attention_snoc attention_step_def\<close>)
qed (simp add: attention_of_def initialAttention_def)

text \<open>a condition is reported only when it has outlived its chance to heal. A ticket source reported as
  persistent is past its deadline; if it was rate limited, a dispatcher tick that began after that
  deadline has since finished without the source recovering.\<close>

lemma persistent_source_was_retried:
  assumes "SourcePersistent p n limited \<in> set (source_reports (reduce_journal repositoryAttentionReducer es) now)"
  shows "\<exists>k s. map_of (an_sources (reduce_journal repositoryAttentionReducer es)) k = Some s \<and>
     at_event s = (p, n) \<and> at_deadline s \<le> now \<and>
     (at_requiresRetry s \<longrightarrow> retried (filter known_fact es) (at_deadline s))"
proof -
  let ?es = "filter known_fact es"
  obtain k s where ks: "(k, s) \<in> set (an_sources (attention_of ?es))"
    and s: "at_event s = (p, n)" "\<not> now < at_deadline s" "at_requiresRetry s \<longrightarrow> at_retryObserved s"
    using assms by (auto simp: source_reports_def List.map_filter_def attention_reduced split: if_splits)
  have m: "map_of (an_sources (attention_of ?es)) k = Some s" using ks sources_distinct by simp
  moreover have "at_requiresRetry s \<longrightarrow> retried ?es (at_deadline s)" using retried_inv [OF m] s(3) by blast
  ultimately show ?thesis
    unfolding attention_reduced using s(1,2) by (intro exI [of _ k] exI [of _ s]) simp
qed

text \<open>evidence never postpones a deadline. While a ticket source does not recover, its episode keeps
  the event that opened it, and whatever else happens its deadline only moves forward.\<close>

lemma episode_deadline_never_postponed:
  assumes "map_of (an_sources (reduce_journal repositoryAttentionReducer es)) k = Some a"
    and "\<forall>e \<in> set later. \<not> source_recovery k e"
  shows "\<exists>b. map_of (an_sources (reduce_journal repositoryAttentionReducer (es @ later))) k = Some b \<and>
     at_event b = at_event a \<and> at_deadline b \<le> at_deadline a"
proof -
  have "\<forall>e \<in> set (filter known_fact later). \<not> source_recovery k e" using assms(2) by simp
  from episode_fold [OF assms(1) [unfolded attention_reduced] this] show ?thesis
    by (auto simp: attention_reduced attention_of_def not_later_def)
qed

abbreviation health_event :: "nat \<Rightarrow> timestamp \<Rightarrow> repository_body \<Rightarrow> repository_event" where
  "health_event n t b \<equiv> \<lparr>re_seq = n, re_ts = t, re_actor = Dispatcher, re_body = b\<rparr>"

abbreviation limited_source :: source_degraded where
  "limited_source \<equiv> \<lparr>sd_source = ''s'', sd_operation = ReadyScan, sd_message = ''m'', sd_resetAt = Some 100\<rparr>"

abbreviation limited_journal :: "repository_event list" where
  "limited_journal \<equiv>
     [health_event 1 0 (RHealth (SourceDegraded limited_source)),
      health_event 2 200 (RDispatch (TickStarted ''r'' None)),
      health_event 3 250 (RDispatch (TickFailed ''r'' ''e''))]"

lemma limited_sample:
  "SourcePersistent limited_source 1 False \<in> set (source_reports (reduce_journal repositoryAttentionReducer limited_journal) 300) \<and>
   map_of (an_sources (reduce_journal repositoryAttentionReducer (take 1 limited_journal))) ''s'' =
     Some \<lparr>at_event = (limited_source, 1), at_deadline = 100, at_dependencyLimited = False,
           at_requiresRetry = True, at_retryObserved = False\<rparr> \<and>
   drop 1 limited_journal = [limited_journal ! 1, limited_journal ! 2] \<and>
   (\<forall>e \<in> set [limited_journal ! 1, limited_journal ! 2]. re_body e \<noteq> RHealth (SourceRecovered ''s''))"
  by code_simp

lemma persistent_source_was_retried_witness:
  "\<exists>k s. map_of (an_sources (reduce_journal repositoryAttentionReducer limited_journal)) k = Some s \<and>
     at_event s = (limited_source, 1) \<and> at_deadline s \<le> 300"
  using persistent_source_was_retried [OF conjunct1 [OF limited_sample]] by blast

lemma episode_deadline_never_postponed_witness:
  "\<exists>b. map_of (an_sources (reduce_journal repositoryAttentionReducer
        (take 1 limited_journal @ [limited_journal ! 1, limited_journal ! 2]))) ''s'' = Some b \<and>
     at_event b = (limited_source, 1) \<and> at_deadline b \<le> 100"
  using episode_deadline_never_postponed
    [of "take 1 limited_journal" "''s''" _ "[limited_journal ! 1, limited_journal ! 2]"] limited_sample
  by (fastforce simp: source_recovery_def)

end
