(* ===== verification/DispatchStatus.thy ===== *)
theory DispatchStatus
  imports RepositoryEvents
begin

text \<open>
  \<^verbatim>\<open>packages/core/src/kernel/dispatch-status.ts\<close>: what a terminal shows of one dispatcher run. The
  projection skips what it has seen, by seq, so a journal may be delivered again or in pieces.
  Continuing the status of another run throws, which is \<open>None\<close>.
\<close>

datatype dispatch_health = Starting | RunningHealth | StoppedHealth | FailedHealth

record dispatch_status =
  ds_run :: string
  ds_health :: dispatch_health
  ds_effectiveConfig :: "artifact_ref option"
  ds_queued :: "nat option"
  ds_creationWithheld :: "nat option"
  ds_triage :: "nat option"
  ds_yieldedHolder :: "string option"
  ds_availableUpgrade :: "string option"
  ds_readinessFailures :: "readiness_failure list option"
  ds_roleWarnings :: "string list"
  ds_diagnostics :: "string list"
  ds_warningNotice :: "string option"
  ds_notice :: "string option"
  ds_lastSeq :: nat

definition initialStatus :: "string \<Rightarrow> dispatch_status" where
  "initialStatus run =
     \<lparr>ds_run = run, ds_health = Starting, ds_effectiveConfig = None, ds_queued = None,
      ds_creationWithheld = None, ds_triage = None, ds_yieldedHolder = None, ds_availableUpgrade = None,
      ds_readinessFailures = None, ds_roleWarnings = [], ds_diagnostics = [], ds_warningNotice = None,
      ds_notice = None, ds_lastSeq = 0\<rparr>"

definition errorNotice :: "string \<Rightarrow> string \<Rightarrow> string" where
  "errorNotice prefix err = prefix @ '': '' @ err"

definition or_text :: "string option \<Rightarrow> string \<Rightarrow> string" where
  "or_text s d = (case s of Some x \<Rightarrow> x | None \<Rightarrow> d)"

text \<open>A notice of warning severity is kept apart as well.\<close>

definition warn :: "string \<Rightarrow> dispatch_status \<Rightarrow> dispatch_status" where
  "warn m st = st\<lparr>ds_notice := Some m, ds_warningNotice := Some m\<rparr>"

definition status_reloaded :: "dispatch_status \<Rightarrow> config_reloaded \<Rightarrow> dispatch_status" where
  "status_reloaded st p =
     (let st1 = st\<lparr>ds_effectiveConfig := (case rc_effectiveConfig p of Some c \<Rightarrow> Some c | None \<Rightarrow> ds_effectiveConfig st),
                   ds_roleWarnings := (case rc_roleWarnings p of Some w \<Rightarrow> w | None \<Rightarrow> ds_roleWarnings st)\<rparr>
      in if rc_restartRequired p \<noteq> []
         then warn (''autobuild.toml reload requires dispatch restart for: '' @ join '', '' (rc_restartRequired p)) st1
         else st1\<lparr>ds_notice := Some ''autobuild.toml reloaded''\<rparr>)"

definition status_readiness :: "dispatch_status \<Rightarrow> readiness_failure \<Rightarrow> dispatch_status" where
  "status_readiness st p =
     (let fs = (case ds_readinessFailures st of None \<Rightarrow> [] | Some f \<Rightarrow> f)
      in st\<lparr>ds_readinessFailures := Some (if list_ex (\<lambda>f. rdf_check f = rdf_check p) fs then fs else fs @ [p])\<rparr>)"

definition status_tick :: "dispatch_status \<Rightarrow> tick_completed \<Rightarrow> dispatch_status" where
  "status_tick st p =
     st\<lparr>ds_queued := Some (tc_queued p), ds_creationWithheld := tc_creationWithheld p, ds_triage := tc_triage p,
        ds_diagnostics := tc_janitorDiagnostics p @ tc_ticketDiagnostics p @
          (case tc_creationDiagnostics p of None \<Rightarrow> [] | Some d \<Rightarrow> d) @ tc_dependencyDiagnostics p\<rparr>"

definition outcome_name :: "settled_outcome \<Rightarrow> string" where
  "outcome_name out =
     (case out of
        Parked \<Rightarrow> ''parked'' | LeaseHeld \<Rightarrow> ''lease-held'' | LaunchFailed \<Rightarrow> ''launch-failed''
      | RunnerFailed \<Rightarrow> ''failed'' | Relaunch \<Rightarrow> ''relaunch'')"

text \<open>\<open>dash\<close> is the em dash of the code's text, three bytes of UTF-8 here.\<close>

definition dash :: string where
  "dash = [char_of (226::nat), char_of (128::nat), char_of (148::nat)]"

definition settled_notice :: "runner_settled \<Rightarrow> string" where
  "settled_notice p =
     (let b = ''build '' @ st_slug p in
      case st_outcome p of
        Relaunch \<Rightarrow> b @ '' relaunching on the accepted runtime''
      | Parked \<Rightarrow> b @ '' parked ('' @ or_text (st_status p) ''unknown'' @ '')''
      | LeaseHeld \<Rightarrow> b @ '' already held by another runner '' @ dash @ '' skipped''
      | _ \<Rightarrow> b @ '' runner failed: '' @ or_text (st_error p) (outcome_name (st_outcome p)))"

definition status_stopped :: "dispatch_status \<Rightarrow> run_stopped \<Rightarrow> dispatch_status" where
  "status_stopped st p =
     (let st1 = st\<lparr>ds_health := (if sp_outcome p = NormalStop then StoppedHealth else FailedHealth)\<rparr> in
      if sp_outcome p \<noteq> NormalStop
      then warn (''dispatcher stopped unexpectedly'' @
                 (case sp_error p of None \<Rightarrow> [] | Some e \<Rightarrow> '': '' @ e)) st1
      else if sp_superseded p then st1\<lparr>ds_notice := Some ''dispatcher superseded by another invocation''\<rparr>
      else st1)"

fun status_dispatch :: "dispatch_status \<Rightarrow> dispatch_ev \<Rightarrow> dispatch_status" where
  "status_dispatch st (RunStarted p) =
     st\<lparr>ds_yieldedHolder := None, ds_health := RunningHealth, ds_effectiveConfig := Some (sr_effectiveConfig p),
        ds_roleWarnings := sr_roleWarnings p, ds_readinessFailures := None, ds_notice := None,
        ds_warningNotice := None\<rparr>"
| "status_dispatch st (ConfigReloaded p) = status_reloaded st p"
| "status_dispatch st (ForgeReadinessFailed p) = status_readiness st p"
| "status_dispatch st (ConfigRejected _ e) = warn (errorNotice ''config reload rejected'' e) st"
| "status_dispatch st (ConfigPublicationFailed _ e) =
     warn (errorNotice ''config reload not applied because its durable trace failed'' e) st"
| "status_dispatch st (TickYielded _ h) = st\<lparr>ds_yieldedHolder := Some h\<rparr>"
| "status_dispatch st (TickStarted _ _) = st\<lparr>ds_yieldedHolder := None\<rparr>"
| "status_dispatch st (TickCompleted p) = status_tick st p"
| "status_dispatch st (TickFailed _ e) = warn (errorNotice ''tick failed'' e) st"
| "status_dispatch st (RunnerSettled p) = warn (settled_notice p) st"
| "status_dispatch st (HarvestRunnerFailed _ e) = warn (errorNotice ''harvest runner failed'' e) st"
| "status_dispatch st (UpgradeAvailable _ v) = st\<lparr>ds_availableUpgrade := Some v\<rparr>"
| "status_dispatch st (OperatorReported _ warning m) =
     (if warning then warn m st else st\<lparr>ds_notice := Some m\<rparr>)"
| "status_dispatch st (RunStopped p) = status_stopped st p"
| "status_dispatch st _ = st"

definition status_step :: "string \<Rightarrow> dispatch_status \<Rightarrow> repository_event \<Rightarrow> dispatch_status" where
  "status_step run st e =
     (if re_seq e \<le> ds_lastSeq st \<or> body_run (re_body e) \<noteq> Some run then st
      else (let st1 = st\<lparr>ds_lastSeq := re_seq e\<rparr>
            in case re_body e of RDispatch d \<Rightarrow> status_dispatch st1 d | _ \<Rightarrow> st1))"

definition reduceDispatchStatus ::
  "repository_event list \<Rightarrow> string \<Rightarrow> dispatch_status option \<Rightarrow> dispatch_status option" where
  "reduceDispatchStatus events run previous =
     (case previous of
        None \<Rightarrow> Some (fold_events (status_step run) (initialStatus run) events)
      | Some p \<Rightarrow> if ds_run p \<noteq> run then None else Some (fold_events (status_step run) p events))"

definition dispatchStatusReducer :: "string \<Rightarrow> (dispatch_status, repository_event, dispatch_status) reducer" where
  "dispatchStatusReducer run =
     \<lparr>rd_version = 5, rd_rawEvents = True, rd_initial = initialStatus run, rd_fold = fold_events (status_step run),
      rd_finish = (\<lambda>acc. acc)\<rparr>"

interpretation dispatch_status: journal_reducer "dispatchStatusReducer run"
  by unfold_locales (simp_all add: dispatchStatusReducer_def)

section \<open>Repeated delivery\<close>

lemma status_dispatch_lastSeq [simp]: "ds_lastSeq (status_dispatch st d) = ds_lastSeq st"
  by (cases d) (simp_all add: status_reloaded_def status_readiness_def status_tick_def status_stopped_def warn_def Let_def)

lemma status_dispatch_run [simp]: "ds_run (status_dispatch st d) = ds_run st"
  by (cases d) (simp_all add: status_reloaded_def status_readiness_def status_tick_def status_stopped_def warn_def Let_def)

lemma status_step_lastSeq:
  "ds_lastSeq (status_step run st e) =
     (if body_run (re_body e) = Some run then max (re_seq e) (ds_lastSeq st) else ds_lastSeq st)"
  by (auto simp: status_step_def Let_def split: repository_body.split)

lemma status_step_run [simp]: "ds_run (status_step run st e) = ds_run st"
  by (auto simp: status_step_def Let_def split: repository_body.split)

lemma status_fold_run [simp]: "ds_run (fold_events (status_step run) st es) = ds_run st"
  by (induction es arbitrary: st) simp_all

lemma status_fold_covers:
  "ds_lastSeq st \<le> ds_lastSeq (fold_events (status_step run) st es) \<and>
   (\<forall>e \<in> set es. body_run (re_body e) = Some run \<longrightarrow> re_seq e \<le> ds_lastSeq (fold_events (status_step run) st es))"
proof (induction es arbitrary: st)
  case (Cons e es)
  from Cons [of "status_step run st e"] show ?case
    by (auto simp: status_step_lastSeq split: if_splits intro: le_trans)
qed simp

lemma status_seen: "re_seq e \<le> ds_lastSeq st \<or> body_run (re_body e) \<noteq> Some run \<Longrightarrow> status_step run st e = st"
  by (simp add: status_step_def)

lemma status_redelivered:
  assumes "set old \<subseteq> set es"
  shows "fold_events (status_step run) (fold_events (status_step run) st es) old = fold_events (status_step run) st es"
proof -
  let ?st = "fold_events (status_step run) st es"
  have "status_step run ?st e = ?st" if "e \<in> set es" for e
    using status_fold_covers [of st run es] that by (intro status_seen) auto
  then have "set xs \<subseteq> set es \<Longrightarrow> fold_events (status_step run) ?st xs = ?st" for xs
    by (induction xs) auto
  then show ?thesis using assms by blast
qed

section \<open>Properties\<close>

text \<open>the status of a run survives any delivery. Continuing a projection of the same run with events it
  has already folded, in any order and any number of times, followed by new ones, gives what folding
  the journal once gives; a projection of another run is refused.\<close>

lemma status_delivery_idempotent:
  assumes "reduceDispatchStatus es run None = Some st" and "set old \<subseteq> set es" and "run' \<noteq> run"
  shows "reduceDispatchStatus (old @ new) run (Some st) = reduceDispatchStatus (es @ new) run None \<and>
     reduceDispatchStatus new run' (Some st) = None"
proof -
  have st: "st = fold_events (status_step run) (initialStatus run) es"
    using assms(1) by (simp add: reduceDispatchStatus_def)
  then have "ds_run st = run" by (simp add: initialStatus_def)
  then show ?thesis using assms(2,3) by (simp add: reduceDispatchStatus_def status_redelivered st)
qed

lemma status_delivery_idempotent_witness:
  "reduceDispatchStatus
     ([\<lparr>re_seq = 1, re_ts = 0, re_actor = Dispatcher, re_body = RDispatch (TickFailed ''a'' ''e'')\<rparr>] @ []) ''a''
     (reduceDispatchStatus
       [\<lparr>re_seq = 1, re_ts = 0, re_actor = Dispatcher, re_body = RDispatch (TickFailed ''a'' ''e'')\<rparr>] ''a'' None) =
   reduceDispatchStatus
     ([\<lparr>re_seq = 1, re_ts = 0, re_actor = Dispatcher, re_body = RDispatch (TickFailed ''a'' ''e'')\<rparr>] @ []) ''a'' None"
proof -
  let ?es = "[\<lparr>re_seq = 1, re_ts = 0, re_actor = Dispatcher, re_body = RDispatch (TickFailed ''a'' ''e'')\<rparr>]"
  obtain st where st: "reduceDispatchStatus ?es ''a'' None = Some st" by (simp add: reduceDispatchStatus_def)
  from status_delivery_idempotent [OF this, of ?es "''b''" "[]"] show ?thesis unfolding st by simp
qed

end
