(* ===== verification/JournalFolds.thy ===== *)
theory JournalFolds
  imports RepositoryEvents "HOL-Library.Multiset"
begin

text \<open>
  The small folds of the repository journal under \<^verbatim>\<open>packages/core/src\<close>: the dispatcher settings
  (\<^verbatim>\<open>kernel/dispatch-settings.ts\<close>), the active source and forge degradations
  (\<^verbatim>\<open>kernel/ticket-source-health.ts\<close>, \<^verbatim>\<open>kernel/forge-health.ts\<close>), the effective configuration
  (\<^verbatim>\<open>kernel/service-facts.ts\<close>), the facts of one run (\<^verbatim>\<open>kernel/read-facts.ts\<close>) and its open tick
  (\<^verbatim>\<open>processes/tick-state.ts\<close>).
\<close>

section \<open>Settings\<close>

record dispatch_settings =
  se_intake :: bool
  se_paused :: bool
  se_autoMerge :: bool
  se_intakeSeq :: nat
  se_pausedSeq :: nat
  se_autoMergeSeq :: nat

definition initialSettings :: dispatch_settings where
  "initialSettings =
     \<lparr>se_intake = True, se_paused = False, se_autoMerge = False, se_intakeSeq = 0, se_pausedSeq = 0,
      se_autoMergeSeq = 0\<rparr>"

definition settings_step :: "dispatch_settings \<Rightarrow> repository_event \<Rightarrow> dispatch_settings" where
  "settings_step acc e =
     (case re_body e of
        RSetting (IntakeSet on _) \<Rightarrow>
          if re_seq e > se_intakeSeq acc then acc\<lparr>se_intake := on, se_intakeSeq := re_seq e\<rparr> else acc
      | RSetting (PauseSet on) \<Rightarrow>
          if re_seq e > se_pausedSeq acc then acc\<lparr>se_paused := on, se_pausedSeq := re_seq e\<rparr> else acc
      | RSetting (AutoMergeDefaultSet on _) \<Rightarrow>
          if re_seq e > se_autoMergeSeq acc then acc\<lparr>se_autoMerge := on, se_autoMergeSeq := re_seq e\<rparr> else acc
      | _ \<Rightarrow> acc)"

definition dispatchSettingsReducer :: "(dispatch_settings, repository_event, bool \<times> bool \<times> bool) reducer" where
  "dispatchSettingsReducer =
     \<lparr>rd_version = 1, rd_rawEvents = False, rd_initial = initialSettings, rd_fold = fold_events settings_step,
      rd_finish = (\<lambda>acc. (se_intake acc, se_paused acc, se_autoMerge acc))\<rparr>"

interpretation dispatch_settings: journal_reducer dispatchSettingsReducer
  by unfold_locales (simp_all add: dispatchSettingsReducer_def)

definition reduceDispatchSettings :: "repository_event list \<Rightarrow> bool \<times> bool \<times> bool" where
  "reduceDispatchSettings events = reduce_journal dispatchSettingsReducer events"

section \<open>Health\<close>

definition source_health_step :: "source_degraded option \<Rightarrow> repository_event \<Rightarrow> source_degraded option" where
  "source_health_step active e =
     (case re_body e of
        RHealth (SourceDegraded p) \<Rightarrow> Some p
      | RHealth (SourceDependencyLimited s) \<Rightarrow>
          (case active of
             Some p \<Rightarrow> if sd_resetAt p \<noteq> None \<and> sd_source p = s
                       then Some (p\<lparr>sd_operation := DependencyCheck\<rparr>) else Some p
           | None \<Rightarrow> None)
      | RHealth (SourceRecovered _) \<Rightarrow> None
      | _ \<Rightarrow> active)"

definition ticketSourceHealthReducer :: "(source_degraded option, repository_event, source_degraded option) reducer" where
  "ticketSourceHealthReducer =
     \<lparr>rd_version = 2, rd_rawEvents = False, rd_initial = None, rd_fold = fold_events source_health_step,
      rd_finish = (\<lambda>acc. acc)\<rparr>"

interpretation ticket_source_health: journal_reducer ticketSourceHealthReducer
  by unfold_locales (simp_all add: ticketSourceHealthReducer_def)

definition forge_health_step :: "forge_degraded option \<Rightarrow> repository_event \<Rightarrow> forge_degraded option" where
  "forge_health_step active e =
     (case re_body e of
        RHealth (ForgeDegraded p) \<Rightarrow> Some p
      | RHealth (ForgeRecovered f) \<Rightarrow> if map_option fg_forge active = Some f then None else active
      | _ \<Rightarrow> active)"

definition forgeHealthReducer :: "(forge_degraded option, repository_event, forge_degraded option) reducer" where
  "forgeHealthReducer =
     \<lparr>rd_version = 1, rd_rawEvents = False, rd_initial = None, rd_fold = fold_events forge_health_step,
      rd_finish = (\<lambda>acc. acc)\<rparr>"

interpretation forge_health: journal_reducer forgeHealthReducer
  by unfold_locales (simp_all add: forgeHealthReducer_def)

section \<open>Runs\<close>

definition config_step :: "string option \<times> artifact_ref option \<Rightarrow> repository_event \<Rightarrow> string option \<times> artifact_ref option" where
  "config_step acc e =
     (case re_body e of
        RDispatch (RunStarted p) \<Rightarrow> (Some (sr_run p), Some (sr_effectiveConfig p))
      | RDispatch (ConfigReloaded p) \<Rightarrow>
          if rc_run p = fst acc \<and> rc_effectiveConfig p \<noteq> None then (fst acc, rc_effectiveConfig p) else acc
      | _ \<Rightarrow> acc)"

definition effectiveConfigReducer ::
  "(string option \<times> artifact_ref option, repository_event, string option \<times> artifact_ref option) reducer" where
  "effectiveConfigReducer =
     \<lparr>rd_version = 1, rd_rawEvents = False, rd_initial = (None, None), rd_fold = fold_events config_step,
      rd_finish = (\<lambda>acc. acc)\<rparr>"

interpretation effective_config: journal_reducer effectiveConfigReducer
  by unfold_locales (simp_all add: effectiveConfigReducer_def)

datatype tick_boundary = BoundaryStarted | BoundaryCompleted | BoundaryFailed

definition boundary_of :: "dispatch_ev \<Rightarrow> tick_boundary option" where
  "boundary_of d =
     (case d of
        TickStarted _ _ \<Rightarrow> Some BoundaryStarted | TickCompleted _ \<Rightarrow> Some BoundaryCompleted
      | TickFailed _ _ \<Rightarrow> Some BoundaryFailed | _ \<Rightarrow> None)"

definition boundary_in :: "string \<Rightarrow> repository_event \<Rightarrow> tick_boundary option" where
  "boundary_in run e =
     (case re_body e of
        RDispatch d \<Rightarrow> if dispatch_run d = Some run then boundary_of d else None
      | _ \<Rightarrow> None)"

definition open_tick_step :: "string \<Rightarrow> tick_boundary option \<Rightarrow> repository_event \<Rightarrow> tick_boundary option" where
  "open_tick_step run acc e = (case boundary_in run e of Some b \<Rightarrow> Some b | None \<Rightarrow> acc)"

definition openTickReducer :: "string \<Rightarrow> (tick_boundary option, repository_event, bool) reducer" where
  "openTickReducer run =
     \<lparr>rd_version = 1, rd_rawEvents = False, rd_initial = None, rd_fold = fold_events (open_tick_step run),
      rd_finish = (\<lambda>acc. acc = Some BoundaryStarted)\<rparr>"

interpretation open_tick: journal_reducer "openTickReducer run"
  by unfold_locales (simp_all add: openTickReducer_def)

definition hasOpenTick :: "repository_event list \<Rightarrow> string \<Rightarrow> bool" where
  "hasOpenTick events run = reduce_journal (openTickReducer run) events"

record run_facts =
  rx_runtime :: "repository_event option"
  rx_start :: "repository_event option"
  rx_latestStart :: "repository_event option"
  rx_stop :: "repository_event option"
  rx_tick :: "repository_event option"
  rx_completed :: "repository_event option"
  rx_boundary :: "tick_boundary option"
  rx_stopRequest :: "repository_event option"

definition initialRunFacts :: run_facts where
  "initialRunFacts =
     \<lparr>rx_runtime = None, rx_start = None, rx_latestStart = None, rx_stop = None, rx_tick = None,
      rx_completed = None, rx_boundary = None, rx_stopRequest = None\<rparr>"

text \<open>\<^verbatim>\<open>x ??= event\<close>\<close>

definition keep_first :: "'a option \<Rightarrow> 'a \<Rightarrow> 'a option" where
  "keep_first x e = (case x of None \<Rightarrow> Some e | Some y \<Rightarrow> Some y)"

definition foldDispatcherRunFact :: "run_facts \<Rightarrow> repository_event \<Rightarrow> run_facts" where
  "foldDispatcherRunFact acc e =
     (case re_body e of
        RDispatch (RunStarted _) \<Rightarrow> acc\<lparr>rx_start := keep_first (rx_start acc) e, rx_latestStart := Some e\<rparr>
      | RDispatch (RuntimeRecorded _) \<Rightarrow> acc\<lparr>rx_runtime := Some e\<rparr>
      | RDispatch (RunStopped _) \<Rightarrow> acc\<lparr>rx_stop := Some e\<rparr>
      | RDispatch (StopRequested _) \<Rightarrow> acc\<lparr>rx_stopRequest := keep_first (rx_stopRequest acc) e\<rparr>
      | RDispatch (TickStarted _ _) \<Rightarrow> acc\<lparr>rx_boundary := Some BoundaryStarted\<rparr>
      | RDispatch (TickCompleted _) \<Rightarrow>
          acc\<lparr>rx_boundary := Some BoundaryCompleted, rx_tick := Some e, rx_completed := Some e\<rparr>
      | RDispatch (TickFailed _ _) \<Rightarrow> acc\<lparr>rx_boundary := Some BoundaryFailed, rx_tick := Some e\<rparr>
      | _ \<Rightarrow> acc)"

definition run_facts_step :: "string \<Rightarrow> run_facts \<Rightarrow> repository_event \<Rightarrow> run_facts" where
  "run_facts_step run acc e = (if body_run (re_body e) = Some run then foldDispatcherRunFact acc e else acc)"

definition dispatcherRunFactsReducer :: "string \<Rightarrow> (run_facts, repository_event, run_facts) reducer" where
  "dispatcherRunFactsReducer run =
     \<lparr>rd_version = 3, rd_rawEvents = False, rd_initial = initialRunFacts, rd_fold = fold_events (run_facts_step run),
      rd_finish = (\<lambda>acc. acc)\<rparr>"

interpretation dispatcher_run_facts: journal_reducer "dispatcherRunFactsReducer run"
  by unfold_locales (simp_all add: dispatcherRunFactsReducer_def)

section \<open>The recent runs\<close>

definition RECENT_DISPATCH_RUN_LIMIT :: nat where
  "RECENT_DISPATCH_RUN_LIMIT = 16"

record recent_runs =
  rr_entries :: "(string \<times> run_facts) list"
  rr_latestRun :: "string option"
  rr_latestStopped :: "string option"

text \<open>
  \<^verbatim>\<open>splice(index, 1)\<close> removes the first entry that is neither of the latest two; an index of -1,
  which \<^verbatim>\<open>findIndex\<close> gives when there is none, removes the last one.
\<close>

fun drop_first :: "('a \<Rightarrow> bool) \<Rightarrow> 'a list \<Rightarrow> 'a list" where
  "drop_first p [] = []"
| "drop_first p (x # xs) = (if p x then xs else x # drop_first p xs)"

definition splice_run :: "recent_runs \<Rightarrow> (string \<times> run_facts) list" where
  "splice_run acc =
     (let free = (\<lambda>(i, _). Some i \<noteq> rr_latestRun acc \<and> Some i \<noteq> rr_latestStopped acc)
      in if list_ex free (rr_entries acc) then drop_first free (rr_entries acc) else butlast (rr_entries acc))"

lemma drop_first_shorter: "list_ex p xs \<Longrightarrow> length (drop_first p xs) < length xs"
  by (induction xs) auto

lemma splice_shorter: "rr_entries acc \<noteq> [] \<Longrightarrow> length (splice_run acc) < length (rr_entries acc)"
  using drop_first_shorter by (fastforce simp: splice_run_def Let_def)

function trim_recent :: "recent_runs \<Rightarrow> recent_runs" where
  "trim_recent acc =
     (if length (rr_entries acc) \<le> RECENT_DISPATCH_RUN_LIMIT then acc
      else trim_recent (acc\<lparr>rr_entries := splice_run acc\<rparr>))"
  by pat_completeness auto

termination
  by (relation "measure (length \<circ> rr_entries)") (auto simp: RECENT_DISPATCH_RUN_LIMIT_def intro!: splice_shorter)

definition update_entry :: "string \<Rightarrow> repository_event \<Rightarrow> (string \<times> run_facts) list \<Rightarrow> (string \<times> run_facts) list" where
  "update_entry run e m =
     jm_set run (foldDispatcherRunFact (case map_of m run of None \<Rightarrow> initialRunFacts | Some f \<Rightarrow> f) e) m"

text \<open>Only the types \<^verbatim>\<open>dispatcher.*\<close> with a run count; the upgrade and setting facts are of that kind.\<close>

fun dispatcher_type :: "repository_body \<Rightarrow> bool" where
  "dispatcher_type (RUpgrade _) = True"
| "dispatcher_type (RDispatch _) = True"
| "dispatcher_type (RSetting _) = True"
| "dispatcher_type (RHealth _) = True"
| "dispatcher_type (RHarvest _) = False"
| "dispatcher_type (RMigration _) = False"
| "dispatcher_type (RPreparation _) = False"
| "dispatcher_type (RSandbox _) = False"
| "dispatcher_type (RHarvestExecution _) = False"
| "dispatcher_type (OtherFact t _) = (take 11 t = ''dispatcher.'')"
| "dispatcher_type (UnknownFact t _) = (take 11 t = ''dispatcher.'')"

definition latest_runs :: "recent_runs \<Rightarrow> repository_event \<Rightarrow> recent_runs" where
  "latest_runs acc e =
     (case re_body e of
        RDispatch (RunStarted p) \<Rightarrow> acc\<lparr>rr_latestRun := Some (sr_run p)\<rparr>
      | RDispatch (RunStopped p) \<Rightarrow> acc\<lparr>rr_latestStopped := Some (sp_run p)\<rparr>
      | _ \<Rightarrow> acc)"

definition recent_step :: "recent_runs \<Rightarrow> repository_event \<Rightarrow> recent_runs" where
  "recent_step acc e =
     (let acc1 = latest_runs acc e in
      case body_run (re_body e) of
        Some run \<Rightarrow>
          if dispatcher_type (re_body e)
          then trim_recent (acc1\<lparr>rr_entries := update_entry run e (rr_entries acc1)\<rparr>) else acc1
      | None \<Rightarrow> acc1)"

end
