(* ===== verification/JournalFacts.thy ===== *)
theory JournalFacts
  imports JournalFolds
begin

text \<open>
  What the small journal folds promise: the settings do not depend on the order the facts arrive in,
  and the window of recent runs stays within its limit without losing the run a reader asks for.
\<close>

section \<open>Settings\<close>

lemma settings_commute:
  assumes "re_seq x = re_seq y \<longrightarrow> x = y"
  shows "settings_step (settings_step acc y) x = settings_step (settings_step acc x) y"
proof (cases "(\<exists>t. re_body x = RSetting t) \<and> (\<exists>t. re_body y = RSetting t)")
  case True
  then obtain t u where "re_body x = RSetting t" "re_body y = RSetting u" by blast
  then show ?thesis
    using assms by (cases "x = y"; cases t; cases u) (auto simp: settings_step_def)
next
  case False
  then have "(\<forall>a. settings_step a x = a) \<or> (\<forall>a. settings_step a y = a)"
    by (auto simp: settings_step_def split: repository_body.split)
  then show ?thesis by auto
qed

lemma fold_events_fold: "fold_events step acc xs = fold (\<lambda>e a. step a e) xs acc"
  by (induction xs arbitrary: acc) simp_all

lemma settings_fold_permuted:
  assumes "mset xs = mset ys" and "distinct (map re_seq xs)"
  shows "fold_events settings_step acc xs = fold_events settings_step acc ys"
proof -
  have "re_seq x = re_seq y \<longrightarrow> x = y" if "x \<in> set xs" "y \<in> set xs" for x y
    using assms(2) that by (auto simp: distinct_map inj_on_def)
  then have "fold (\<lambda>e a. settings_step a e) xs = fold (\<lambda>e a. settings_step a e) ys"
    by (intro fold_multiset_equiv [OF _ assms(1)]) (auto simp: fun_eq_iff settings_commute)
  then show ?thesis by (simp add: fold_events_fold)
qed

text \<open>the dispatcher settings do not depend on the order facts are read in. Two journals with the
  same events, each with its own seq, give the same intake gate, the same repository-wide pause and the
  same auto-merge default: the last writer by seq wins, wherever it stands in the array.\<close>

lemma settings_order_independent:
  assumes "mset events = mset events'" and "distinct (map re_seq events)"
  shows "reduceDispatchSettings events = reduceDispatchSettings events'"
proof -
  have "mset (filter known_fact events) = mset (filter known_fact events')" using assms(1) by simp
  moreover have "distinct (map re_seq (filter known_fact events))" using assms(2) by (rule distinct_map_filter)
  ultimately have
    "fold_events settings_step initialSettings (filter known_fact events) =
     fold_events settings_step initialSettings (filter known_fact events')" by (rule settings_fold_permuted)
  then show ?thesis
    by (simp add: reduceDispatchSettings_def reduce_journal_def journal_events_def dispatchSettingsReducer_def)
qed

abbreviation setting_event :: "nat \<Rightarrow> setting_ev \<Rightarrow> repository_event" where
  "setting_event i t \<equiv> \<lparr>re_seq = i, re_ts = 0, re_actor = Human ''operator'' None, re_body = RSetting t\<rparr>"

lemma settings_order_independent_witness:
  "reduceDispatchSettings [setting_event 2 (PauseSet False), setting_event 1 (PauseSet True)] =
   reduceDispatchSettings [setting_event 1 (PauseSet True), setting_event 2 (PauseSet False)]"
  by (rule settings_order_independent) simp_all

section \<open>Recent runs\<close>

definition initialRecent :: recent_runs where
  "initialRecent = \<lparr>rr_entries = [], rr_latestRun = None, rr_latestStopped = None\<rparr>"

definition recentRuns :: "repository_event list \<Rightarrow> recent_runs" where
  "recentRuns events = fold_events recent_step initialRecent (filter known_fact events)"

definition latest_run :: "recent_runs \<Rightarrow> string \<Rightarrow> bool" where
  "latest_run acc i \<longleftrightarrow> rr_latestRun acc = Some i \<or> rr_latestStopped acc = Some i"

definition holds_latest :: "recent_runs \<Rightarrow> bool" where
  "holds_latest acc \<longleftrightarrow>
     distinct (map fst (rr_entries acc)) \<and> (\<forall>i. latest_run acc i \<longrightarrow> i \<in> fst ` set (rr_entries acc))"

lemma drop_first_subset: "set (drop_first p xs) \<subseteq> set xs"
  by (induction xs) auto

lemma drop_first_keeps: "x \<in> set xs \<Longrightarrow> \<not> p x \<Longrightarrow> x \<in> set (drop_first p xs)"
  by (induction xs) auto

lemma drop_first_distinct: "distinct (map f xs) \<Longrightarrow> distinct (map f (drop_first p xs))"
  using drop_first_subset [of p] by (induction xs) force+

lemma length_le_2: "distinct xs \<Longrightarrow> set xs \<subseteq> {a, b} \<Longrightarrow> length xs \<le> 2"
proof -
  assume "distinct xs" and sub: "set xs \<subseteq> {a, b}"
  then have "length xs = card (set xs)" by (simp add: distinct_card)
  also have "\<dots> \<le> card {a, b}" using sub by (intro card_mono) simp_all
  also have "\<dots> \<le> 2" by (simp add: card_insert_if)
  finally show ?thesis .
qed

text \<open>Beyond two entries there is one the window may drop.\<close>

lemma some_free:
  assumes "holds_latest acc" and "2 < length (rr_entries acc)"
  shows "list_ex (\<lambda>(i, _). Some i \<noteq> rr_latestRun acc \<and> Some i \<noteq> rr_latestStopped acc) (rr_entries acc)"
proof (rule ccontr)
  assume "\<not> ?thesis"
  then have latest: "rr_latestRun acc = Some i \<or> rr_latestStopped acc = Some i"
    if "(i, f) \<in> set (rr_entries acc)" for i f
    using that unfolding list_ex_iff by (metis (mono_tags, lifting) case_prod_conv)
  have "set (map fst (rr_entries acc)) \<subseteq> {the (rr_latestRun acc), the (rr_latestStopped acc)}"
  proof
    fix i assume "i \<in> set (map fst (rr_entries acc))"
    then obtain f where "(i, f) \<in> set (rr_entries acc)" by auto
    from latest [OF this] show "i \<in> {the (rr_latestRun acc), the (rr_latestStopped acc)}"
      by (elim disjE) simp_all
  qed
  then have "length (map fst (rr_entries acc)) \<le> 2"
    using assms(1) by (intro length_le_2) (auto simp: holds_latest_def)
  with assms(2) show False by simp
qed

lemma splice_holds_latest:
  assumes "holds_latest acc" and "2 < length (rr_entries acc)"
  shows "holds_latest (acc\<lparr>rr_entries := splice_run acc\<rparr>)"
proof -
  let ?free = "\<lambda>(i, _). Some i \<noteq> rr_latestRun acc \<and> Some i \<noteq> rr_latestStopped acc"
  have splice: "splice_run acc = drop_first ?free (rr_entries acc)"
    using some_free [OF assms] by (simp add: splice_run_def Let_def)
  have "i \<in> fst ` set (drop_first ?free (rr_entries acc))" if latest: "latest_run acc i" for i
  proof -
    from assms(1) latest obtain f where "(i, f) \<in> set (rr_entries acc)"
      by (auto simp: holds_latest_def)
    then have "(i, f) \<in> set (drop_first ?free (rr_entries acc))"
      using latest by (intro drop_first_keeps) (auto simp: latest_run_def)
    then show ?thesis by force
  qed
  then show ?thesis
    using assms(1) by (simp add: holds_latest_def splice drop_first_distinct latest_run_def)
qed

lemma trim_holds_latest: "holds_latest acc \<Longrightarrow> holds_latest (trim_recent acc)"
proof (induction acc rule: trim_recent.induct)
  case (1 acc)
  then show ?case
    using splice_holds_latest [of acc]
    by (subst trim_recent.simps) (simp add: RECENT_DISPATCH_RUN_LIMIT_def del: trim_recent.simps)
qed

lemma trim_bounded: "length (rr_entries (trim_recent acc)) \<le> RECENT_DISPATCH_RUN_LIMIT"
proof (induction acc rule: trim_recent.induct)
  case (1 acc)
  then show ?case by (subst trim_recent.simps) (simp del: trim_recent.simps)
qed

definition recent_inv :: "recent_runs \<Rightarrow> bool" where
  "recent_inv acc \<longleftrightarrow> holds_latest acc \<and> length (rr_entries acc) \<le> RECENT_DISPATCH_RUN_LIMIT"

lemma update_entry_distinct: "distinct (map fst m) \<Longrightarrow> distinct (map fst (update_entry run e m))"
  by (simp add: update_entry_def distinct_update)

lemma update_entry_keys: "fst ` set (update_entry run e m) = insert run (fst ` set m)"
  by (simp add: update_entry_def dom_update)

lemma recorded_holds_latest:
  assumes "holds_latest acc" and "body_run (re_body e) = Some run"
  shows "holds_latest ((latest_runs acc e)\<lparr>rr_entries := update_entry run e (rr_entries (latest_runs acc e))\<rparr>)"
  using assms
  by (auto simp: holds_latest_def latest_run_def latest_runs_def update_entry_distinct update_entry_keys
      split: repository_body.splits dispatch_ev.splits)

lemma recent_step_inv: "recent_inv acc \<Longrightarrow> recent_inv (recent_step acc e)"
  using trim_holds_latest [OF recorded_holds_latest] trim_bounded
  by (auto simp: recent_inv_def recent_step_def Let_def latest_runs_def holds_latest_def latest_run_def
      simp del: trim_recent.simps split: option.splits repository_body.splits dispatch_ev.splits)

text \<open>the window of recent dispatcher runs is bounded and keeps what status readers ask for. After
  any journal it holds at most 16 runs, and the latest run that started and the latest that stopped are
  among them.\<close>

lemma recent_window_keeps_latest:
  "length (rr_entries (recentRuns events)) \<le> RECENT_DISPATCH_RUN_LIMIT \<and>
   {i. latest_run (recentRuns events) i} \<subseteq> fst ` set (rr_entries (recentRuns events))"
proof -
  have "recent_inv (recentRuns events)"
    unfolding recentRuns_def
    by (rule fold_events_invariant) (simp_all add: recent_step_inv, simp add: recent_inv_def holds_latest_def latest_run_def initialRecent_def)
  then show ?thesis by (auto simp: recent_inv_def holds_latest_def)
qed

end
