(* ===== verification/Strings.thy ===== *)
theory Strings
  imports Prelude "HOL-Library.Sublist"
begin

text \<open>
  Operations on ASCII text: \<^verbatim>\<open>toLowerCase\<close>, and the test whether a text contains another one, which is what
  the alternatives of a regular expression without operators ask.
\<close>

definition lower_char :: "char \<Rightarrow> char" where
  "lower_char c = (let n = of_char c :: nat in if 65 \<le> n \<and> n \<le> 90 then char_of (n + 32) else c)"

definition lower_case :: "string \<Rightarrow> string" where
  "lower_case t = map lower_char t"

definition contains_text :: "string \<Rightarrow> string \<Rightarrow> bool" where
  "contains_text t part \<longleftrightarrow> list_ex (prefix part) (suffixes t)"

lemma lower_char_idem [simp]: "lower_char (lower_char c) = lower_char c"
  by (auto simp: lower_char_def Let_def)

lemma lower_case_idem [simp]: "lower_case (lower_case t) = lower_case t"
  by (simp add: lower_case_def comp_def)

lemma contains_text_iff: "contains_text t part \<longleftrightarrow> sublist part t"
  by (auto simp: contains_text_def list_ex_iff sublist_altdef')

end
