(* ===== verification/Harvest.thy ===== *)
theory Harvest
  imports RepositoryEvents Results Strings
begin

text \<open>
  The harvest journal, \<^verbatim>\<open>packages/core/src/kernel/harvest.ts\<close>: the runs that turn observations into
  tickets, the occurrences they have claimed, the ledger of committed dispositions, the operator's
  pause and resume, and the bounded automatic recovery. Every throw of the fold is a \<open>harvest_error\<close>;
  fields the code sets and deletes together are one pair.
\<close>

datatype harvest_error =
    UnknownRun string
  | NotOrdinaryFailed string
  | RequestPending string
  | WrongAttempt string nat
  | LimitChanged string nat
  | BeyondLimit string nat
  | DuplicateExhaustion string
  | NotStopped string
  | BoundaryMismatch string
  | InexactCount string
  | UnacknowledgedRequest string
  | BadCommitted string string
  | BadReleased string string
  | NotPartitioned string "string list"
  | RepeatedProposal string string
  | BadPending string string string
  | ForeignClaim string string "string option"
  | DuplicateStart string
  | AlreadyClaimed string string string
  | KeyReserved string string
  | IdReserved string string
  | BadPolicy nat

section \<open>State\<close>

record step_occurrence =
  ht_step :: harvest_step
  ht_round :: "nat option"
  ht_startedSeq :: nat
  ht_startedAt :: timestamp
  ht_completed :: "(nat \<times> timestamp) option"
  ht_outcome :: "harvest_outcome option"
  ht_artifact :: "artifact_ref option"
  ht_detail :: "string option"

record reservation =
  hi_proposalKey :: string
  hi_id :: string
  hi_seq :: nat

record recovery_request =
  hq_attempt :: nat
  hq_limit :: nat
  hq_requested :: "nat \<times> timestamp"
  hq_acknowledged :: "(nat \<times> timestamp) option"

record exhaustion =
  hn_fact :: exhausted_fact
  hn_at :: "nat \<times> timestamp"
  hn_acknowledged :: "(nat \<times> timestamp) option"

datatype bracket_status = BracketOpen | BracketSuspended | BracketEnded

record session_bracket =
  hw_session :: harvest_session
  hw_status :: bracket_status
  hw_started :: "nat \<times> timestamp"
  hw_suspendedAt :: "timestamp option"
  hw_cause :: "suspend_cause option"
  hw_nativeHandle :: "native_handle option"
  hw_transcript :: "artifact_ref option"
  hw_resumed :: bool
  hw_fallback :: bool

datatype harvest_status = HarvestRunning | HarvestCompleted | HarvestEscalated | HarvestFailed

record harvest_run =
  hr_run :: string
  hr_status :: harvest_status
  hr_started :: "nat \<times> timestamp"
  hr_observations :: "occurrence list"
  hr_scan :: artifact_ref
  hr_trigger :: "harvest_trigger option"
  hr_sessions :: "session_bracket list"
  hr_steps :: "step_occurrence list"
  hr_proposals :: "(nat \<times> artifact_ref \<times> nat) list"
  hr_reviews :: "(verdict_fact \<times> nat) list"
  hr_reservations :: "reservation list"
  hr_filed :: "(filed_fact \<times> nat) list"
  hr_dispositions :: "disposition list"
  hr_report :: "artifact_ref option"
  hr_escalation :: "escalated_fact option"
  hr_failure :: "(failed_fact \<times> nat) option"
  hr_recoveries :: "recovery_request list"
  hr_exhaustion :: "exhaustion option"
  hr_terminal :: "(nat \<times> timestamp) option"

datatype harvest_command = PauseCommand | ResumeCommand

record harvest_request =
  hm_command :: harvest_command
  hm_seq :: nat
  hm_actor :: actor

record harvest_acc =
  ha_runs :: "harvest_run list"
  ha_claimed :: "(string, occurrence \<times> string) jsmap"
  ha_ledger :: "(disposition \<times> string \<times> nat) list"
  ha_pause :: "harvest_request list"
  ha_resume :: "harvest_request list"
  ha_paused :: bool
  ha_pausedAt :: "(nat \<times> timestamp) option"
  ha_lastSeq :: nat

definition initialHarvest :: harvest_acc where
  "initialHarvest =
     \<lparr>ha_runs = [], ha_claimed = [], ha_ledger = [], ha_pause = [], ha_resume = [], ha_paused = False,
      ha_pausedAt = None, ha_lastSeq = 0\<rparr>"

definition isOrdinaryParkedRun :: "harvest_run \<Rightarrow> bool" where
  "isOrdinaryParkedRun r \<longleftrightarrow> hr_status r = HarvestFailed \<and> hr_exhaustion r = None"

definition hasUnresolvedExhaustion :: "harvest_run \<Rightarrow> bool" where
  "hasUnresolvedExhaustion r \<longleftrightarrow>
     hr_status r = HarvestFailed \<and>
     (case hr_exhaustion r of None \<Rightarrow> False | Some x \<Rightarrow> hn_acknowledged x = None)"

definition suspendedHarvestSession :: "harvest_run \<Rightarrow> session_bracket option" where
  "suspendedHarvestSession r =
     (case last_opt (hr_sessions r) of
        None \<Rightarrow> None
      | Some s \<Rightarrow> if hr_status r = HarvestRunning \<and> hw_status s = BracketSuspended then Some s else None)"

section \<open>Runs\<close>

fun edit_first :: "('a \<Rightarrow> bool) \<Rightarrow> ('a \<Rightarrow> 'a) \<Rightarrow> 'a list \<Rightarrow> 'a list" where
  "edit_first p f [] = []"
| "edit_first p f (x # xs) = (if p x then f x # xs else x # edit_first p f xs)"

definition edit_last :: "('a \<Rightarrow> bool) \<Rightarrow> ('a \<Rightarrow> 'a) \<Rightarrow> 'a list \<Rightarrow> 'a list" where
  "edit_last p f xs = rev (edit_first p f (rev xs))"

definition run_at :: "harvest_acc \<Rightarrow> string \<Rightarrow> harvest_run option" where
  "run_at acc i = List.find (\<lambda>r. hr_run r = i) (ha_runs acc)"

definition requireRun :: "harvest_acc \<Rightarrow> string \<Rightarrow> harvest_error + harvest_run" where
  "requireRun acc i = (case run_at acc i of None \<Rightarrow> Inl (UnknownRun i) | Some r \<Rightarrow> Inr r)"

definition put_run :: "harvest_acc \<Rightarrow> harvest_run \<Rightarrow> harvest_acc" where
  "put_run acc r = acc\<lparr>ha_runs := map (\<lambda>x. if hr_run x = hr_run r then r else x) (ha_runs acc)\<rparr>"

text \<open>A step that changes one run and may throw.\<close>

definition edit_run ::
  "harvest_acc \<Rightarrow> string \<Rightarrow> (harvest_run \<Rightarrow> harvest_error + harvest_run) \<Rightarrow> harvest_error + harvest_acc" where
  "edit_run acc i f = bind_result (requireRun acc i) (\<lambda>r. map_result (put_run acc) (f r))"

section \<open>Pause, resume and recovery\<close>

definition unacknowledged :: "recovery_request \<Rightarrow> bool" where
  "unacknowledged q \<longleftrightarrow> hq_acknowledged q = None"

definition resume_exhausted :: "bool \<Rightarrow> nat \<times> timestamp \<Rightarrow> exhaustion \<Rightarrow> exhaustion" where
  "resume_exhausted human at x =
     (if human \<and> hn_acknowledged x = None then x\<lparr>hn_acknowledged := Some at\<rparr> else x)"

text \<open>
  A human resume reopens every ordinary parked run; without one, the resumed fact answers only the runs
  with an automatic request.
\<close>

definition resume_run :: "bool \<Rightarrow> nat \<times> timestamp \<Rightarrow> harvest_run \<Rightarrow> harvest_run" where
  "resume_run human at r =
     (case hr_exhaustion r of
        Some x \<Rightarrow> r\<lparr>hr_exhaustion := Some (resume_exhausted human at x)\<rparr>
      | None \<Rightarrow>
          if \<not> isOrdinaryParkedRun r then r
          else (let automatic = list_ex unacknowledged (hr_recoveries r);
                    r1 = r\<lparr>hr_recoveries := edit_last unacknowledged (\<lambda>q. q\<lparr>hq_acknowledged := Some at\<rparr>) (hr_recoveries r)\<rparr>
                in if human \<or> automatic
                   then r1\<lparr>hr_status := HarvestRunning, hr_failure := None, hr_terminal := None\<rparr>
                   else r1))"

definition harvest_resumed :: "harvest_acc \<Rightarrow> nat \<times> timestamp \<Rightarrow> harvest_acc" where
  "harvest_resumed acc at =
     acc\<lparr>ha_paused := False, ha_pausedAt := None, ha_resume := [],
         ha_runs := map (resume_run (ha_resume acc \<noteq> []) at) (ha_runs acc)\<rparr>"

definition request_recovery ::
  "nat \<Rightarrow> nat \<Rightarrow> nat \<times> timestamp \<Rightarrow> harvest_run \<Rightarrow> harvest_error + harvest_run" where
  "request_recovery attempt limit at r =
     (if hr_status r \<noteq> HarvestFailed \<or> hr_exhaustion r \<noteq> None then Inl (NotOrdinaryFailed (hr_run r))
      else if list_ex unacknowledged (hr_recoveries r) then Inl (RequestPending (hr_run r))
      else if attempt \<noteq> length (hr_recoveries r) + 1 then Inl (WrongAttempt (hr_run r) attempt)
      else if (case hr_recoveries r of [] \<Rightarrow> False | q # _ \<Rightarrow> limit \<noteq> hq_limit q) then Inl (LimitChanged (hr_run r) limit)
      else if attempt > limit then Inl (BeyondLimit (hr_run r) attempt)
      else Inr (r\<lparr>hr_recoveries := hr_recoveries r @
             [\<lparr>hq_attempt = attempt, hq_limit = limit, hq_requested = at, hq_acknowledged = None\<rparr>]\<rparr>))"

section \<open>Exhaustion\<close>

definition boundary_matches :: "exhausted_fact \<Rightarrow> failed_fact \<Rightarrow> bool" where
  "boundary_matches p f \<longleftrightarrow> hl_step f = hx_step p \<and> hl_round f = hx_round p \<and> hl_error f = hx_error p"

definition check_stopped :: "exhausted_fact \<Rightarrow> harvest_run \<Rightarrow> harvest_error + unit" where
  "check_stopped p r =
     (if hr_exhaustion r \<noteq> None then Inl (DuplicateExhaustion (hr_run r))
      else if hr_status r \<noteq> HarvestFailed \<or> hr_failure r = None then Inl (NotStopped (hr_run r))
      else if \<not> boundary_matches p (fst (the (hr_failure r))) then Inl (BoundaryMismatch (hr_run r))
      else if hx_attempts p \<noteq> length (hr_recoveries r) \<or> hx_attempts p \<noteq> hx_limit p \<or>
              list_ex (\<lambda>q. hq_limit q \<noteq> hx_limit p) (hr_recoveries r) then Inl (InexactCount (hr_run r))
      else if list_ex unacknowledged (hr_recoveries r) then Inl (UnacknowledgedRequest (hr_run r))
      else Inr ())"

definition admit :: "string list \<Rightarrow> (string \<Rightarrow> harvest_error) \<Rightarrow> string list \<Rightarrow> string \<Rightarrow> harvest_error + string list" where
  "admit expected err part key = (if key \<notin> set expected \<or> key \<in> set part then Inl (err key) else Inr (part @ [key]))"

definition check_committed :: "harvest_run \<Rightarrow> exhausted_fact \<Rightarrow> harvest_error + string list" where
  "check_committed r p =
     try_fold (admit (map occurrenceKey (hr_observations r)) (BadCommitted (hr_run r))) (Inr [])
       (map (occurrenceKey \<circ> hd_occurrence) (hx_committed p))"

definition check_released :: "harvest_run \<Rightarrow> exhausted_fact \<Rightarrow> string list \<Rightarrow> harvest_error + string list" where
  "check_released r p committed =
     try_fold (admit (map occurrenceKey (hr_observations r)) (BadReleased (hr_run r))) (Inr committed)
       (map occurrenceKey (hx_released p))"

text \<open>\<^verbatim>\<open>partition.size !== expected.size\<close>: both are sets, so the observations count once each.\<close>

definition check_partition :: "harvest_run \<Rightarrow> exhausted_fact \<Rightarrow> harvest_error + unit" where
  "check_partition r p =
     bind_result (check_committed r p) (\<lambda>committed.
     bind_result (check_released r p committed) (\<lambda>part.
       (let expected = set_of_list (map occurrenceKey (hr_observations r))
        in if length part \<noteq> length expected
           then Inl (NotPartitioned (hr_run r) (filter (\<lambda>k. k \<notin> set part) expected)) else Inr ())))"

definition pend_occurrence ::
  "harvest_run \<Rightarrow> exhausted_fact \<Rightarrow> string \<Rightarrow> string list \<Rightarrow> string \<Rightarrow> harvest_error + string list" where
  "pend_occurrence r p proposal seen key =
     (if key \<notin> set (map occurrenceKey (hx_released p)) \<or> key \<in> set seen
      then Inl (BadPending (hr_run r) proposal key) else Inr (seen @ [key]))"

definition pend_proposal ::
  "harvest_run \<Rightarrow> exhausted_fact \<Rightarrow> string list \<times> string list \<Rightarrow> pending_proposal \<Rightarrow>
   harvest_error + string list \<times> string list" where
  "pend_proposal r p = (\<lambda>(keys, seen) proposal.
     if hp_proposalKey proposal \<in> set keys then Inl (RepeatedProposal (hr_run r) (hp_proposalKey proposal))
     else map_result (\<lambda>seen'. (keys @ [hp_proposalKey proposal], seen'))
            (try_fold (pend_occurrence r p (hp_proposalKey proposal)) (Inr seen)
               (map occurrenceKey (hp_observations proposal))))"

definition check_pending :: "harvest_run \<Rightarrow> exhausted_fact \<Rightarrow> harvest_error + unit" where
  "check_pending r p = map_result (\<lambda>_. ()) (try_fold (pend_proposal r p) (Inr ([], [])) (hx_pending p))"

definition release_claim ::
  "string \<Rightarrow> (string, occurrence \<times> string) jsmap \<Rightarrow> string \<Rightarrow> harvest_error + (string, occurrence \<times> string) jsmap" where
  "release_claim run claimed key =
     (let owner = map_option snd (jm_get claimed key)
      in if owner \<noteq> Some run then Inl (ForeignClaim run key owner) else Inr (jm_del key claimed))"

definition exhaust_run :: "exhausted_fact \<Rightarrow> nat \<times> timestamp \<Rightarrow> harvest_run \<Rightarrow> harvest_run" where
  "exhaust_run p at r =
     r\<lparr>hr_dispositions := hx_committed p,
       hr_exhaustion := Some \<lparr>hn_fact = p, hn_at = at, hn_acknowledged = None\<rparr>, hr_terminal := Some at\<rparr>"

definition ledger_entries :: "string \<Rightarrow> nat \<Rightarrow> disposition list \<Rightarrow> (disposition \<times> string \<times> nat) list" where
  "ledger_entries run seq ds = map (\<lambda>d. (d, run, seq)) ds"

definition recovery_exhausted :: "harvest_acc \<Rightarrow> exhausted_fact \<Rightarrow> nat \<times> timestamp \<Rightarrow> harvest_error + harvest_acc" where
  "recovery_exhausted acc p at =
     bind_result (requireRun acc (hx_run p)) (\<lambda>r.
     bind_result (check_stopped p r) (\<lambda>_.
     bind_result (check_partition r p) (\<lambda>_.
     bind_result (check_pending r p) (\<lambda>_.
     map_result
       (\<lambda>claimed. (put_run acc (exhaust_run p at r))
          \<lparr>ha_claimed := claimed, ha_ledger := ha_ledger acc @ ledger_entries (hr_run r) (fst at) (hx_committed p)\<rparr>)
       (try_fold (release_claim (hr_run r)) (Inr (ha_claimed acc)) (map occurrenceKey (hx_released p)))))))"

section \<open>The workflow of a run\<close>

definition new_run :: "started_fact \<Rightarrow> nat \<times> timestamp \<Rightarrow> harvest_run" where
  "new_run p at =
     \<lparr>hr_run = hb_run p, hr_status = HarvestRunning, hr_started = at, hr_observations = hb_observations p,
      hr_scan = hb_scan p, hr_trigger = hb_trigger p, hr_sessions = [], hr_steps = [], hr_proposals = [],
      hr_reviews = [], hr_reservations = [], hr_filed = [], hr_dispositions = [], hr_report = None,
      hr_escalation = None, hr_failure = None, hr_recoveries = [], hr_exhaustion = None, hr_terminal = None\<rparr>"

definition claim ::
  "string \<Rightarrow> (string, occurrence \<times> string) jsmap \<Rightarrow> occurrence \<Rightarrow> harvest_error + (string, occurrence \<times> string) jsmap" where
  "claim run claimed k =
     (case jm_get claimed (occurrenceKey k) of
        Some (_, owner) \<Rightarrow> Inl (AlreadyClaimed run (occurrenceKey k) owner)
      | None \<Rightarrow> Inr (jm_set (occurrenceKey k) (k, run) claimed))"

definition open_run :: "harvest_acc \<Rightarrow> started_fact \<Rightarrow> nat \<times> timestamp \<Rightarrow> harvest_error + harvest_acc" where
  "open_run acc p at =
     (if run_at acc (hb_run p) \<noteq> None then Inl (DuplicateStart (hb_run p))
      else map_result (\<lambda>claimed. acc\<lparr>ha_runs := ha_runs acc @ [new_run p at], ha_claimed := claimed\<rparr>)
             (try_fold (claim (hb_run p)) (Inr (ha_claimed acc)) (hb_observations p)))"

definition new_step :: "harvest_step \<Rightarrow> nat option \<Rightarrow> nat \<times> timestamp \<Rightarrow> step_occurrence" where
  "new_step st rnd at =
     \<lparr>ht_step = st, ht_round = rnd, ht_startedSeq = fst at, ht_startedAt = snd at, ht_completed = None,
      ht_outcome = None, ht_artifact = None, ht_detail = None\<rparr>"

definition step_started :: "harvest_step \<Rightarrow> nat option \<Rightarrow> nat \<times> timestamp \<Rightarrow> harvest_run \<Rightarrow> harvest_run" where
  "step_started st rnd at r = r\<lparr>hr_steps := hr_steps r @ [new_step st rnd at]\<rparr>"

definition awaits_completion :: "completed_fact \<Rightarrow> step_occurrence \<Rightarrow> bool" where
  "awaits_completion p x \<longleftrightarrow> ht_step x = hc_step p \<and> ht_round x = hc_round p \<and> ht_completed x = None"

definition complete_step :: "completed_fact \<Rightarrow> nat \<times> timestamp \<Rightarrow> step_occurrence \<Rightarrow> step_occurrence" where
  "complete_step p at x =
     x\<lparr>ht_completed := Some at, ht_outcome := Some (hc_outcome p),
       ht_artifact := (case hc_artifact p of None \<Rightarrow> ht_artifact x | Some a \<Rightarrow> Some a),
       ht_detail := (case hc_detail p of None \<Rightarrow> ht_detail x | Some d \<Rightarrow> Some d)\<rparr>"

definition step_completed :: "completed_fact \<Rightarrow> nat \<times> timestamp \<Rightarrow> harvest_run \<Rightarrow> harvest_run" where
  "step_completed p at r =
     r\<lparr>hr_steps :=
         (if list_ex (awaits_completion p) (hr_steps r)
          then edit_last (awaits_completion p) (complete_step p at) (hr_steps r)
          else hr_steps r @ [complete_step p at (new_step (hc_step p) (hc_round p) at)])\<rparr>"

definition id_reserved :: "string \<Rightarrow> string \<Rightarrow> nat \<Rightarrow> harvest_run \<Rightarrow> harvest_error + harvest_run" where
  "id_reserved key i seq r =
     (case List.find (\<lambda>e. hi_proposalKey e = key) (hr_reservations r) of
        Some e \<Rightarrow> if lower_case (hi_id e) \<noteq> lower_case i then Inl (KeyReserved key (hi_id e)) else Inr r
      | None \<Rightarrow>
          (case List.find (\<lambda>e. lower_case (hi_id e) = lower_case i) (hr_reservations r) of
             Some e \<Rightarrow> Inl (IdReserved i (hi_proposalKey e))
           | None \<Rightarrow> Inr (r\<lparr>hr_reservations := hr_reservations r @
                          [\<lparr>hi_proposalKey = key, hi_id = i, hi_seq = seq\<rparr>]\<rparr>)))"

definition proposal_filed :: "filed_fact \<Rightarrow> nat \<Rightarrow> harvest_run \<Rightarrow> harvest_run" where
  "proposal_filed p seq r =
     (if list_ex (\<lambda>(e, _). hf_proposalKey e = hf_proposalKey p) (hr_filed r) then r
      else r\<lparr>hr_filed := hr_filed r @ [(p, seq)]\<rparr>)"

definition complete_run :: "disposition list \<Rightarrow> artifact_ref \<Rightarrow> nat \<times> timestamp \<Rightarrow> harvest_run \<Rightarrow> harvest_run" where
  "complete_run ds report at r =
     r\<lparr>hr_status := HarvestCompleted, hr_dispositions := ds, hr_report := Some report, hr_terminal := Some at\<rparr>"

definition run_completed ::
  "harvest_acc \<Rightarrow> string \<Rightarrow> disposition list \<Rightarrow> artifact_ref \<Rightarrow> nat \<times> timestamp \<Rightarrow> harvest_error + harvest_acc" where
  "run_completed acc i ds report at =
     map_result
       (\<lambda>r. if hr_status r \<noteq> HarvestRunning then acc
            else (put_run acc (complete_run ds report at r))
                   \<lparr>ha_ledger := ha_ledger acc @ ledger_entries (hr_run r) (fst at) ds\<rparr>)
       (requireRun acc i)"

definition run_escalated :: "escalated_fact \<Rightarrow> nat \<times> timestamp \<Rightarrow> harvest_run \<Rightarrow> harvest_run" where
  "run_escalated p at r =
     (if hr_status r \<noteq> HarvestRunning then r
      else r\<lparr>hr_status := HarvestEscalated, hr_escalation := Some p, hr_terminal := Some at\<rparr>)"

definition run_failed :: "failed_fact \<Rightarrow> nat \<Rightarrow> harvest_run \<Rightarrow> harvest_run" where
  "run_failed p seq r =
     (if hr_status r \<noteq> HarvestRunning then r
      else (let r1 = r\<lparr>hr_failure := Some (p, seq)\<rparr>
            in if hl_willRetry p then r1 else r1\<lparr>hr_status := HarvestFailed\<rparr>))"

section \<open>Sessions\<close>

definition bracket_root :: "session_bracket \<Rightarrow> string" where
  "bracket_root s =
     (case hz_continuation (hw_session s) of None \<Rightarrow> hz_session (hw_session s) | Some c \<Rightarrow> hk_root c)"

definition bracket_of :: "harvest_run \<Rightarrow> string \<Rightarrow> session_bracket option" where
  "bracket_of r i = List.find (\<lambda>s. hz_session (hw_session s) = i) (hr_sessions r)"

definition new_bracket :: "harvest_session \<Rightarrow> nat \<times> timestamp \<Rightarrow> session_bracket" where
  "new_bracket p at =
     \<lparr>hw_session = p, hw_status = BracketOpen, hw_started = at, hw_suspendedAt = None, hw_cause = None,
      hw_nativeHandle = (case hz_continuation p of None \<Rightarrow> None | Some c \<Rightarrow> hk_handle c),
      hw_transcript = None, hw_resumed = False, hw_fallback = False\<rparr>"

definition edit_bracket :: "string \<Rightarrow> (session_bracket \<Rightarrow> session_bracket) \<Rightarrow> harvest_run \<Rightarrow> harvest_run" where
  "edit_bracket i f r = r\<lparr>hr_sessions := edit_first (\<lambda>s. hz_session (hw_session s) = i) f (hr_sessions r)\<rparr>"

definition continues :: "harvest_session \<Rightarrow> harvest_continuation \<Rightarrow> session_bracket \<Rightarrow> bool" where
  "continues p c prior \<longleftrightarrow>
     hz_step (hw_session prior) = hz_step p \<and> hz_round (hw_session prior) = hz_round p \<and>
     hw_status prior \<noteq> BracketEnded \<and> bracket_root prior = hk_root c"

definition session_opened :: "harvest_session \<Rightarrow> nat \<times> timestamp \<Rightarrow> harvest_run \<Rightarrow> harvest_run" where
  "session_opened p at r =
     (let opened = (\<lambda>r'. r'\<lparr>hr_sessions := hr_sessions r' @ [new_bracket p at]\<rparr>) in
      if bracket_of r (hz_session p) \<noteq> None then r
      else case hz_continuation p of
             None \<Rightarrow> opened r
           | Some c \<Rightarrow>
               (case bracket_of r (hk_predecessor c) of
                  None \<Rightarrow> r
                | Some prior \<Rightarrow>
                    if continues p c prior
                    then opened (edit_bracket (hk_predecessor c) (\<lambda>s. s\<lparr>hw_status := BracketEnded\<rparr>) r)
                    else r))"

definition other_handle :: "session_bracket \<Rightarrow> native_handle \<Rightarrow> bool" where
  "other_handle s h = (case hw_nativeHandle s of None \<Rightarrow> False | Some h' \<Rightarrow> h' \<noteq> h)"

fun session_fact :: "harvest_session_ev \<Rightarrow> timestamp \<Rightarrow> session_bracket \<Rightarrow> session_bracket" where
  "session_fact (HandleRecorded h) ts s = (if other_handle s h then s else s\<lparr>hw_nativeHandle := Some h\<rparr>)"
| "session_fact (HSessionResumed pred root h) ts s =
     (if other_handle s h \<or> hw_resumed s \<or> hw_fallback s \<or>
         (case hz_continuation (hw_session s) of
            None \<Rightarrow> True | Some c \<Rightarrow> hk_predecessor c \<noteq> pred \<or> hk_root c \<noteq> root) then s
      else s\<lparr>hw_resumed := True, hw_nativeHandle := Some h\<rparr>)"
| "session_fact ResumeFallback ts s =
     (if hz_continuation (hw_session s) = None \<or> hw_resumed s \<or> hw_fallback s then s
      else s\<lparr>hw_fallback := True, hw_nativeHandle := None\<rparr>)"
| "session_fact (HSessionSuspended cause transcript) ts s =
     s\<lparr>hw_status := BracketSuspended, hw_suspendedAt := Some ts, hw_cause := Some cause,
       hw_transcript := Some transcript\<rparr>"
| "session_fact (HSessionEnded transcript) ts s =
     s\<lparr>hw_status := BracketEnded, hw_transcript := Some transcript\<rparr>"

definition session_recorded :: "string \<Rightarrow> harvest_session_ev \<Rightarrow> timestamp \<Rightarrow> harvest_run \<Rightarrow> harvest_run" where
  "session_recorded i ev ts r =
     edit_bracket i (\<lambda>s. if hw_status s = BracketOpen then session_fact ev ts s else s) r"

text \<open>Session facts of an unknown run are passed over.\<close>

definition known_run :: "harvest_acc \<Rightarrow> string \<Rightarrow> (harvest_run \<Rightarrow> harvest_run) \<Rightarrow> harvest_acc" where
  "known_run acc i f = (case run_at acc i of None \<Rightarrow> acc | Some r \<Rightarrow> put_run acc (f r))"

section \<open>The fold\<close>

definition command_of :: "harvest_command \<Rightarrow> nat \<Rightarrow> actor \<Rightarrow> harvest_request" where
  "command_of c seq who = \<lparr>hm_command = c, hm_seq = seq, hm_actor = who\<rparr>"

fun harvest_fact :: "harvest_acc \<Rightarrow> harvest_ev \<Rightarrow> nat \<times> timestamp \<Rightarrow> actor \<Rightarrow> harvest_error + harvest_acc" where
  "harvest_fact acc HPauseRequested at who =
     Inr (acc\<lparr>ha_resume := [], ha_pause := ha_pause acc @ [command_of PauseCommand (fst at) who]\<rparr>)"
| "harvest_fact acc HResumeRequested at who =
     Inr (acc\<lparr>ha_pause := [], ha_resume := ha_resume acc @ [command_of ResumeCommand (fst at) who]\<rparr>)"
| "harvest_fact acc HPaused at who =
     Inr (acc\<lparr>ha_paused := True, ha_pausedAt := Some at, ha_pause := []\<rparr>)"
| "harvest_fact acc HResumed at who = Inr (harvest_resumed acc at)"
| "harvest_fact acc (HRecoveryRequested i attempt limit) at who =
     edit_run acc i (request_recovery attempt limit at)"
| "harvest_fact acc (HRecoveryExhausted p) at who = recovery_exhausted acc p at"
| "harvest_fact acc (HStarted p) at who = open_run acc p at"
| "harvest_fact acc (HStepStarted i st rnd) at who = edit_run acc i (\<lambda>r. Inr (step_started st rnd at r))"
| "harvest_fact acc (HStepCompleted p) at who = edit_run acc (hc_run p) (\<lambda>r. Inr (step_completed p at r))"
| "harvest_fact acc (HProposalsSubmitted i rnd art) at who =
     edit_run acc i (\<lambda>r. Inr (r\<lparr>hr_proposals := hr_proposals r @ [(rnd, art, fst at)]\<rparr>))"
| "harvest_fact acc (HReviewVerdict p) at who =
     edit_run acc (hv_run p) (\<lambda>r. Inr (r\<lparr>hr_reviews := hr_reviews r @ [(p, fst at)]\<rparr>))"
| "harvest_fact acc (HIdReserved i key rid) at who = edit_run acc i (id_reserved key rid (fst at))"
| "harvest_fact acc (HFiled p) at who = edit_run acc (hf_run p) (\<lambda>r. Inr (proposal_filed p (fst at) r))"
| "harvest_fact acc (HCompleted i ds report) at who = run_completed acc i ds report at"
| "harvest_fact acc (HEscalated i p) at who = edit_run acc i (\<lambda>r. Inr (run_escalated p at r))"
| "harvest_fact acc (HFailed i p) at who = edit_run acc i (\<lambda>r. Inr (run_failed p (fst at) r))"
| "harvest_fact acc (HSessionStarted i p) at who = Inr (known_run acc i (session_opened p at))"
| "harvest_fact acc (HSessionFact i sid ev) at who = Inr (known_run acc i (session_recorded sid ev (snd at)))"

definition harvest_event :: "harvest_acc \<Rightarrow> repository_event \<Rightarrow> harvest_error + harvest_acc" where
  "harvest_event acc e =
     (let acc1 = acc\<lparr>ha_lastSeq := max (ha_lastSeq acc) (re_seq e)\<rparr> in
      case re_body e of
        RHarvest h \<Rightarrow> harvest_fact acc1 h (re_seq e, re_ts e) (re_actor e)
      | _ \<Rightarrow> Inr acc1)"

record harvest_state =
  hy_lastSeq :: nat
  hy_runs :: "harvest_run list"
  hy_latest :: "harvest_run option"
  hy_paused :: bool
  hy_pausedAt :: "(nat \<times> timestamp) option"
  hy_pendingCommands :: "harvest_request list"
  hy_claimed :: "occurrence list"
  hy_ledger :: "(disposition \<times> string \<times> nat) list"

definition finishHarvest :: "harvest_acc \<Rightarrow> harvest_state" where
  "finishHarvest acc =
     \<lparr>hy_lastSeq = ha_lastSeq acc, hy_runs = ha_runs acc, hy_latest = last_opt (ha_runs acc),
      hy_paused = ha_paused acc, hy_pausedAt = ha_pausedAt acc,
      hy_pendingCommands = sort_key hm_seq (ha_pause acc @ ha_resume acc),
      hy_claimed = map (fst \<circ> snd) (ha_claimed acc), hy_ledger = ha_ledger acc\<rparr>"

definition harvestReducer ::
  "(harvest_error + harvest_acc, repository_event, harvest_error + harvest_state) reducer" where
  "harvestReducer =
     \<lparr>rd_version = 3, rd_rawEvents = False, rd_initial = Inr initialHarvest, rd_fold = try_fold harvest_event,
      rd_finish = map_result finishHarvest\<rparr>"

interpretation harvest: journal_reducer harvestReducer
  by unfold_locales (simp_all add: harvestReducer_def)

definition reduceHarvest :: "repository_event list \<Rightarrow> harvest_error + harvest_state" where
  "reduceHarvest events = reduce_journal harvestReducer events"

end
