(* ===== verification/HarvestControl.thy ===== *)
theory HarvestControl
  imports Harvest
begin

text \<open>
  What callers ask of a reduced harvest journal, \<^verbatim>\<open>packages/core/src/kernel/harvest.ts\<close>: the creations in
  flight during a ready scan, the runs in each state, and the control decision of the harvest runner.
\<close>

section \<open>Creations in flight\<close>

record creation =
  ct_run :: string
  ct_proposalKey :: string
  ct_creationKey :: string
  ct_reservationSeq :: nat

definition creation_of :: "harvest_run \<Rightarrow> reservation \<Rightarrow> creation" where
  "creation_of r e =
     \<lparr>ct_run = hr_run r, ct_proposalKey = hi_proposalKey e, ct_creationKey = hi_id e, ct_reservationSeq = hi_seq e\<rparr>"

definition filed_key :: "harvest_run \<Rightarrow> string \<Rightarrow> bool" where
  "filed_key r key \<longleftrightarrow> key \<in> (\<lambda>(p, _). hf_proposalKey p) ` set (hr_filed r)"

definition run_creations :: "harvest_run \<Rightarrow> creation list" where
  "run_creations r =
     (if hr_status r \<noteq> HarvestRunning then []
      else map (creation_of r) (filter (\<lambda>e. \<not> filed_key r (hi_proposalKey e)) (hr_reservations r)))"

definition inFlightHarvestCreations :: "harvest_state \<Rightarrow> creation list" where
  "inFlightHarvestCreations st = concat (map run_creations (hy_runs st))"

definition creation_key :: "string \<Rightarrow> string \<Rightarrow> string" where
  "creation_key run key = run @ CHR 0x00 # key"

definition reserved_keys :: "harvest_state \<Rightarrow> string list" where
  "reserved_keys st =
     concat (map (\<lambda>r. map (\<lambda>e. creation_key (hr_run r) (hi_proposalKey e)) (hr_reservations r)) (hy_runs st))"

definition set_creation :: "(string, creation) jsmap \<Rightarrow> creation \<Rightarrow> (string, creation) jsmap" where
  "set_creation m c = jm_set (creation_key (ct_run c) (ct_proposalKey c)) c m"

definition note_reservation ::
  "nat \<Rightarrow> string list \<times> (string, creation) jsmap \<Rightarrow> creation \<Rightarrow> string list \<times> (string, creation) jsmap" where
  "note_reservation since = (\<lambda>(known, m) c.
     (let key = creation_key (ct_run c) (ct_proposalKey c)
      in if key \<in> set known \<or> ct_reservationSeq c \<le> since then (known, m)
         else (set_add key known, set_creation m c)))"

definition harvestCreationsFromStates :: "harvest_state \<Rightarrow> harvest_state \<Rightarrow> creation list" where
  "harvestCreationsFromStates before after =
     map snd (snd
       (foldl (note_reservation (hy_lastSeq before))
          (set_of_list (reserved_keys before), foldl set_creation [] (inFlightHarvestCreations before))
          (concat (map (\<lambda>r. map (creation_of r) (hr_reservations r)) (hy_runs after)))))"

definition harvestCreationsDuringReadyScan ::
  "repository_event list \<Rightarrow> repository_event list \<Rightarrow> harvest_error + creation list" where
  "harvestCreationsDuringReadyScan beforeEvents afterEvents =
     bind_result (reduceHarvest beforeEvents) (\<lambda>before.
     map_result (harvestCreationsFromStates before) (reduceHarvest afterEvents))"

section \<open>Runs by state\<close>

definition claimedOccurrenceKeys :: "harvest_state \<Rightarrow> string list" where
  "claimedOccurrenceKeys st = set_of_list (map occurrenceKey (hy_claimed st))"

definition parkedHarvestRuns :: "harvest_state \<Rightarrow> harvest_run list" where
  "parkedHarvestRuns st = filter isOrdinaryParkedRun (hy_runs st)"

definition unresolvedHarvestAttentionRuns :: "harvest_state \<Rightarrow> harvest_run list" where
  "unresolvedHarvestAttentionRuns st = filter hasUnresolvedExhaustion (hy_runs st)"

definition openHarvestRuns :: "harvest_state \<Rightarrow> harvest_run list" where
  "openHarvestRuns st = filter (\<lambda>r. hr_status r = HarvestRunning) (hy_runs st)"

definition head_opt :: "'a list \<Rightarrow> 'a option" where
  "head_opt xs = (case xs of [] \<Rightarrow> None | x # _ \<Rightarrow> Some x)"

definition openHarvestRun :: "harvest_state \<Rightarrow> harvest_run option" where
  "openHarvestRun st = head_opt (openHarvestRuns st)"

definition actionableHarvestRun :: "harvest_state \<Rightarrow> harvest_run option" where
  "actionableHarvestRun st =
     head_opt (unresolvedHarvestAttentionRuns st @ parkedHarvestRuns st @ openHarvestRuns st)"

definition proposalArtifactForRound :: "harvest_run \<Rightarrow> nat \<Rightarrow> artifact_ref option" where
  "proposalArtifactForRound r rnd = map_option (fst \<circ> snd) (find_last (\<lambda>(n, _). n = rnd) (hr_proposals r))"

section \<open>Control\<close>

datatype harvest_control =
    Acknowledge harvest_command
  | RequestRecovery string nat nat
  | ExhaustRecovery string nat nat
  | ParkHarvest
  | ProceedHarvest

definition DEFAULT_MAX_HARVEST_RECOVERY_ATTEMPTS :: nat where
  "DEFAULT_MAX_HARVEST_RECOVERY_ATTEMPTS = 2"

definition wants :: "harvest_state \<Rightarrow> harvest_command \<Rightarrow> bool" where
  "wants st c \<longleftrightarrow> list_ex (\<lambda>p. hm_command p = c) (hy_pendingCommands st)"

definition appliedLimit :: "nat \<Rightarrow> harvest_run \<Rightarrow> nat" where
  "appliedLimit policy r = (case hr_recoveries r of [] \<Rightarrow> policy | q # _ \<Rightarrow> hq_limit q)"

definition recovery_decision :: "nat \<Rightarrow> harvest_run \<Rightarrow> harvest_control" where
  "recovery_decision policy r =
     (let attempts = length (hr_recoveries r); limit = appliedLimit policy r
      in if attempts < limit then RequestRecovery (hr_run r) (attempts + 1) limit
         else ExhaustRecovery (hr_run r) attempts limit)"

definition decideHarvestControl :: "harvest_state \<Rightarrow> nat \<Rightarrow> harvest_error + harvest_control" where
  "decideHarvestControl st policy =
     (if policy = 0 then Inl (BadPolicy policy)
      else Inr
        (if hy_paused st then (if wants st ResumeCommand then Acknowledge ResumeCommand else ParkHarvest)
         else if wants st PauseCommand then Acknowledge PauseCommand
         else if wants st ResumeCommand then Acknowledge ResumeCommand
         else if unresolvedHarvestAttentionRuns st \<noteq> [] then ParkHarvest
         else if list_ex (\<lambda>r. list_ex unacknowledged (hr_recoveries r)) (parkedHarvestRuns st)
         then Acknowledge ResumeCommand
         else case parkedHarvestRuns st of
                [] \<Rightarrow> ProceedHarvest
              | r # _ \<Rightarrow> recovery_decision policy r))"

end
