(* ===== verification/HarvestFacts.thy ===== *)
theory HarvestFacts
  imports HarvestControl
begin

text \<open>
  How a harvest run evolves: \<open>evolves\<close> is the step relation of one run, with a rule per operation of the
  fold, and every accepted event moves each run by one such step and starts at most one new run. The
  invariants of runs, claims and ledger are proved over it.
\<close>

section \<open>The step relation of a run\<close>

inductive evolves :: "harvest_run \<Rightarrow> harvest_run \<Rightarrow> bool" where
  stays: "evolves r r"
| resumed: "evolves r (resume_run human at r)"
| requested: "request_recovery attempt limit at r = Inr r' \<Longrightarrow> evolves r r'"
| exhausted: "check_stopped p r = Inr () \<Longrightarrow> check_partition r p = Inr () \<Longrightarrow> evolves r (exhaust_run p at r)"
| stepped: "evolves r (step_started st rnd at r)"
| step_done: "evolves r (step_completed d at r)"
| proposed: "evolves r (r\<lparr>hr_proposals := ps\<rparr>)"
| reviewed_by: "evolves r (r\<lparr>hr_reviews := vs\<rparr>)"
| reserved: "id_reserved key i seq r = Inr r' \<Longrightarrow> evolves r r'"
| filed: "evolves r (proposal_filed ff seq r)"
| finished: "hr_status r = HarvestRunning \<Longrightarrow> evolves r (complete_run ds report at r)"
| escalated: "evolves r (run_escalated x at r)"
| failed: "evolves r (run_failed fl seq r)"
| opened: "evolves r (session_opened s at r)"
| recorded: "evolves r (session_recorded sid ev ts r)"

lemma list_all2_source: "list_all2 P xs ys \<Longrightarrow> y \<in> set ys \<Longrightarrow> \<exists>x \<in> set xs. P x y"
  by (induction rule: list_all2_induct) auto

lemma edit_run_Inr:
  "edit_run acc i f = Inr acc' \<longleftrightarrow> (\<exists>r r'. run_at acc i = Some r \<and> f r = Inr r' \<and> acc' = put_run acc r')"
  by (auto simp: edit_run_def requireRun_def bind_result_Inr_iff map_result_Inr_iff split: option.splits)

lemma run_at_SomeD: "run_at acc i = Some r \<Longrightarrow> r \<in> set (ha_runs acc) \<and> hr_run r = i"
  by (auto simp: run_at_def dest: find_SomeD)

lemma run_at_None: "run_at acc i = None \<longleftrightarrow> (\<forall>r \<in> set (ha_runs acc). hr_run r \<noteq> i)"
  by (auto simp: run_at_def find_None_iff)

lemma evolves_run: "evolves r r' \<Longrightarrow> hr_run r' = hr_run r"
  by (induction rule: evolves.induct)
     (auto simp: resume_run_def request_recovery_def exhaust_run_def step_started_def step_completed_def
        id_reserved_def proposal_filed_def complete_run_def run_escalated_def run_failed_def session_opened_def
        edit_bracket_def session_recorded_def Let_def split: option.splits if_splits)

definition run_ids :: "harvest_acc \<Rightarrow> string list" where
  "run_ids acc = map hr_run (ha_runs acc)"

definition grows :: "harvest_acc \<Rightarrow> harvest_acc \<Rightarrow> bool" where
  "grows acc acc' \<longleftrightarrow>
     (\<exists>rs new. ha_runs acc' = rs @ new \<and> list_all2 evolves (ha_runs acc) rs \<and>
        (new = [] \<or> (\<exists>p at. new = [new_run p at] \<and> run_at acc (hb_run p) = None)))"

lemma grows_evolves:
  assumes "list_all2 evolves (ha_runs acc) (ha_runs acc')"
  shows "grows acc acc'"
  unfolding grows_def using assms by (intro exI [of _ "ha_runs acc'"] exI [of _ "[]"]) simp

lemma put_run_evolves:
  assumes "distinct (run_ids acc)" and "run_at acc i = Some r" and "evolves r r'"
  shows "list_all2 evolves (ha_runs acc) (ha_runs (put_run acc r'))"
proof -
  have r: "r \<in> set (ha_runs acc)" using run_at_SomeD [OF assms(2)] by simp
  have "evolves x (if hr_run x = hr_run r' then r' else x)" if x: "x \<in> set (ha_runs acc)" for x
  proof (cases "hr_run x = hr_run r")
    case True
    then have "x = r" using assms(1) x r by (auto simp: run_ids_def distinct_map inj_on_def)
    then show ?thesis using assms(3) evolves_run [OF assms(3)] by simp
  next
    case False
    then show ?thesis using evolves_run [OF assms(3)] by (simp add: evolves.stays)
  qed
  then show ?thesis by (simp add: put_run_def list_all2_map2 list.rel_refl_strong list_all2_same)
qed

lemma edit_run_grows:
  assumes "edit_run acc i f = Inr acc'" and "distinct (run_ids acc)"
    and "\<And>r r'. f r = Inr r' \<Longrightarrow> evolves r r'"
  shows "grows acc acc'"
  using assms by (auto simp: edit_run_Inr intro!: grows_evolves intro: put_run_evolves)

lemma known_run_grows:
  assumes "distinct (run_ids acc)" and "\<And>r. evolves r (f r)"
  shows "grows acc (known_run acc i f)"
proof (cases "run_at acc i")
  case None
  then show ?thesis by (auto simp: known_run_def intro!: grows_evolves list.rel_refl evolves.stays)
next
  case (Some r)
  then show ?thesis
    using assms by (simp add: known_run_def grows_evolves put_run_evolves)
qed

lemma ledger_frame [simp]:
  "ha_runs (acc\<lparr>ha_ledger := l\<rparr>) = ha_runs acc" "ha_runs (acc\<lparr>ha_claimed := c\<rparr>) = ha_runs acc"
  "ha_runs (acc\<lparr>ha_lastSeq := n\<rparr>) = ha_runs acc"
  by simp_all

lemma check_partition_unit: "check_partition r p = Inr u \<Longrightarrow> check_partition r p = Inr ()"
  by simp

lemma harvest_fact_grows:
  assumes "harvest_fact acc h at who = Inr acc'" and "distinct (run_ids acc)"
  shows "grows acc acc'"
proof -
  have same: "grows acc acc'" if "ha_runs acc' = ha_runs acc"
    unfolding that [symmetric] by (rule grows_evolves) (simp add: that list_all2_same evolves.stays)
  have edit: "grows acc acc'" if "edit_run acc i f = Inr acc'" "\<And>r r'. f r = Inr r' \<Longrightarrow> evolves r r'" for i f
    using edit_run_grows [OF that(1) assms(2) that(2)] .
  show ?thesis
  proof (cases h)
    case HResumed
    then have "ha_runs acc' = map (resume_run (ha_resume acc \<noteq> []) at) (ha_runs acc)"
      using assms(1) by (auto simp: harvest_resumed_def)
    then show ?thesis by (intro grows_evolves) (simp add: list_all2_map2 list_all2_same evolves.resumed)
  next
    case (HRecoveryExhausted p)
    then obtain r claimed where r: "run_at acc (hx_run p) = Some r" "check_stopped p r = Inr ()" "check_partition r p = Inr ()"
      and acc': "acc' = (put_run acc (exhaust_run p at r))\<lparr>ha_claimed := claimed,
        ha_ledger := ha_ledger acc @ ledger_entries (hr_run r) (fst at) (hx_committed p)\<rparr>"
      using assms(1)
      by (auto simp: recovery_exhausted_def requireRun_def bind_result_Inr_iff map_result_Inr_iff split: option.splits)
    then show ?thesis
      using put_run_evolves [OF assms(2) r(1) evolves.exhausted [OF r(2,3), of at]] by (simp add: grows_evolves)
  next
    case (HStarted p)
    then obtain claimed where "run_at acc (hb_run p) = None"
      and "acc' = acc\<lparr>ha_runs := ha_runs acc @ [new_run p at], ha_claimed := claimed\<rparr>"
      using assms(1) by (auto simp: open_run_def map_result_Inr_iff split: if_splits)
    then have "ha_runs acc' = ha_runs acc @ [new_run p at]" by simp
    moreover have "list_all2 evolves (ha_runs acc) (ha_runs acc)" by (simp add: list_all2_same evolves.stays)
    ultimately show ?thesis unfolding grows_def using \<open>run_at acc (hb_run p) = None\<close> by blast
  next
    case (HCompleted i ds report)
    then obtain r where r: "run_at acc i = Some r"
      and acc': "acc' = (if hr_status r \<noteq> HarvestRunning then acc
        else (put_run acc (complete_run ds report at r))\<lparr>ha_ledger := ha_ledger acc @ ledger_entries (hr_run r) (fst at) ds\<rparr>)"
      using assms(1) by (auto simp: run_completed_def requireRun_def map_result_Inr_iff split: option.splits)
    show ?thesis
    proof (cases "hr_status r = HarvestRunning")
      case True
      then show ?thesis
        unfolding acc' using put_run_evolves [OF assms(2) r evolves.finished [OF True, of ds report at]]
        by (simp add: grows_evolves)
    qed (simp add: acc' grows_evolves list_all2_same evolves.stays)
  next
    case (HSessionStarted i p)
    then show ?thesis using assms known_run_grows by (auto intro: evolves.opened)
  next
    case (HSessionFact i sid ev)
    then show ?thesis using assms known_run_grows by (auto intro: evolves.recorded)
  qed (use assms(1) edit same in \<open>auto intro: evolves.intros\<close>)
qed

lemma grows_ids:
  assumes "grows acc acc'" and "distinct (run_ids acc)"
  shows "distinct (run_ids acc')"
proof -
  obtain rs new where acc': "ha_runs acc' = rs @ new" and rs: "list_all2 evolves (ha_runs acc) rs"
    and new: "new = [] \<or> (\<exists>p at. new = [new_run p at] \<and> run_at acc (hb_run p) = None)"
    using assms(1) unfolding grows_def by blast
  have "map hr_run rs = run_ids acc"
    using rs unfolding run_ids_def by (induction rule: list_all2_induct) (auto dest: evolves_run)
  then show ?thesis using assms(2) new by (auto simp: run_ids_def acc' run_at_None new_run_def)
qed

lemma harvest_event_cases:
  assumes "harvest_event acc e = Inr acc'"
  shows "ha_runs acc' = ha_runs acc \<and> ha_claimed acc' = ha_claimed acc \<and> ha_ledger acc' = ha_ledger acc \<or>
    (\<exists>h. re_body e = RHarvest h \<and>
       harvest_fact (acc\<lparr>ha_lastSeq := max (ha_lastSeq acc) (re_seq e)\<rparr>) h (re_seq e, re_ts e) (re_actor e) = Inr acc')"
  using assms by (auto simp: harvest_event_def Let_def split: repository_body.splits)

lemma harvest_event_grows:
  assumes "harvest_event acc e = Inr acc'" and "distinct (run_ids acc)"
  shows "grows acc acc'"
  using harvest_event_cases [OF assms(1)]
proof (elim disjE exE conjE)
  assume "ha_runs acc' = ha_runs acc"
  then show ?thesis by (intro grows_evolves) (simp add: list_all2_same evolves.stays)
next
  fix h
  assume "harvest_fact (acc\<lparr>ha_lastSeq := max (ha_lastSeq acc) (re_seq e)\<rparr>) h (re_seq e, re_ts e) (re_actor e) = Inr acc'"
  from harvest_fact_grows [OF this] assms(2) show ?thesis by (simp add: grows_def run_ids_def run_at_def)
qed

definition folded :: "repository_event list \<Rightarrow> harvest_error + harvest_acc" where
  "folded events = try_fold harvest_event (Inr initialHarvest) (filter known_fact events)"

lemma reduceHarvest_folded: "reduceHarvest events = map_result finishHarvest (folded events)"
  by (simp add: reduceHarvest_def reduce_journal_def journal_events_def harvestReducer_def folded_def)

lemma reduceHarvest_InrE:
  assumes "reduceHarvest events = Inr st"
  obtains acc where "folded events = Inr acc" "st = finishHarvest acc"
  using assms unfolding reduceHarvest_folded map_result_Inr_iff by blast

lemma folded_append:
  "folded (xs @ ys) = bind_result (folded xs) (\<lambda>acc. try_fold harvest_event (Inr acc) (filter known_fact ys))"
  by (cases "folded xs") (simp_all add: folded_def)

text \<open>An invariant of the fold, with the distinct run ids at hand.\<close>

lemma fold_harvest_invariant:
  assumes "try_fold harvest_event (Inr a) es = Inr b" and "distinct (run_ids a)" and "P a"
    and "\<And>acc e acc'. P acc \<Longrightarrow> distinct (run_ids acc) \<Longrightarrow> harvest_event acc e = Inr acc' \<Longrightarrow> P acc'"
  shows "P b \<and> distinct (run_ids b)"
  using assms(1)
proof (rule try_fold_invariant [where P = "\<lambda>acc. P acc \<and> distinct (run_ids acc)"])
  show "P a \<and> distinct (run_ids a)" using assms by simp
next
  fix acc e acc'
  assume "P acc \<and> distinct (run_ids acc)" and "harvest_event acc e = Inr acc'"
  then show "P acc' \<and> distinct (run_ids acc')"
    using assms(4) grows_ids [OF harvest_event_grows] by blast
qed

lemma folded_invariant:
  assumes "folded events = Inr acc" and "P initialHarvest"
    and "\<And>acc e acc'. P acc \<Longrightarrow> distinct (run_ids acc) \<Longrightarrow> harvest_event acc e = Inr acc' \<Longrightarrow> P acc'"
  shows "P acc \<and> distinct (run_ids acc)"
  using assms(1) unfolding folded_def
  by (rule fold_harvest_invariant) (use assms(2,3) in \<open>auto simp: run_ids_def initialHarvest_def\<close>)

text \<open>An invariant of one run.\<close>

lemma run_invariant:
  assumes "folded events = Inr acc" and "r \<in> set (ha_runs acc)"
    and "\<And>p at. Q (new_run p at)" and "\<And>r r'. Q r \<Longrightarrow> evolves r r' \<Longrightarrow> Q r'"
  shows "Q r"
proof -
  have "(\<forall>r \<in> set (ha_runs acc). Q r) \<and> distinct (run_ids acc)"
  proof (rule folded_invariant [OF assms(1), where P = "\<lambda>acc. \<forall>r \<in> set (ha_runs acc). Q r"])
    fix acc e acc'
    assume Q: "\<forall>r \<in> set (ha_runs acc). Q r"
      and ids: "distinct (run_ids acc)" and step: "harvest_event acc e = Inr acc'"
    obtain rs new where acc': "ha_runs acc' = rs @ new" and rs: "list_all2 evolves (ha_runs acc) rs"
      and new: "new = [] \<or> (\<exists>p at. new = [new_run p at] \<and> run_at acc (hb_run p) = None)"
      using harvest_event_grows [OF step ids] unfolding grows_def by blast
    have "Q r'" if mem: "r' \<in> set rs" for r'
    proof -
      obtain r where "r \<in> set (ha_runs acc)" and step: "evolves r r'"
        using list_all2_source [OF rs mem] by blast
      then have "Q r" using Q by blast
      then show ?thesis using step by (rule assms(4))
    qed
    moreover have "Q r'" if "r' \<in> set new" for r' using new that assms(3) by auto
    ultimately show "\<forall>r \<in> set (ha_runs acc'). Q r" by (auto simp: acc')
  qed (simp add: initialHarvest_def)
  then show ?thesis using assms(2) by blast
qed

lemma grows_run_at:
  assumes "grows acc acc'" and "run_at acc i = Some r"
  shows "\<exists>r'. run_at acc' i = Some r' \<and> evolves r r'"
proof -
  obtain rs new where acc': "ha_runs acc' = rs @ new" and rs: "list_all2 evolves (ha_runs acc) rs"
    using assms(1) unfolding grows_def by blast
  have "List.find (\<lambda>r. hr_run r = i) xs = Some r \<Longrightarrow> list_all2 evolves xs ys \<Longrightarrow>
      \<exists>r'. List.find (\<lambda>r. hr_run r = i) (ys @ new) = Some r' \<and> evolves r r'" for xs ys
    by (induction xs arbitrary: ys) (auto simp: list_all2_Cons1 dest: evolves_run split: if_splits)
  then show ?thesis using assms(2) rs unfolding run_at_def acc' by blast
qed

section \<open>Recovery and outcome of one run\<close>

definition recovery_inv :: "harvest_run \<Rightarrow> bool" where
  "recovery_inv r \<longleftrightarrow>
     map hq_attempt (hr_recoveries r) = [1..<Suc (length (hr_recoveries r))] \<and>
     (\<exists>limit. length (hr_recoveries r) \<le> limit \<and>
        map hq_limit (hr_recoveries r) = replicate (length (hr_recoveries r)) limit) \<and>
     (\<forall>q \<in> set (butlast (hr_recoveries r)). \<not> unacknowledged q)"

definition exhaustion_inv :: "harvest_run \<Rightarrow> bool" where
  "exhaustion_inv r \<longleftrightarrow>
     (hr_status r = HarvestFailed \<longrightarrow> hr_failure r \<noteq> None) \<and>
     (case hr_exhaustion r of
        None \<Rightarrow> True
      | Some x \<Rightarrow>
          hr_status r = HarvestFailed \<and> hr_dispositions r = hx_committed (hn_fact x) \<and>
          length (hr_recoveries r) = hx_limit (hn_fact x) \<and>
          check_partition r (hn_fact x) = Inr ())"

lemma edit_first_length [simp]: "length (edit_first p f xs) = length xs"
  by (induction xs) auto

lemma edit_last_length [simp]: "length (edit_last p f xs) = length xs"
  by (simp add: edit_last_def)

lemma edit_first_map: "(\<And>x. g (f x) = g x) \<Longrightarrow> map g (edit_first p f xs) = map g xs"
  by (induction xs) auto

lemma edit_last_map: "(\<And>x. g (f x) = g x) \<Longrightarrow> map g (edit_last p f xs) = map g xs"
  by (simp add: edit_last_def edit_first_map rev_map [symmetric])

lemma edit_first_last: "edit_last p f (xs @ [x]) = (if p x then xs @ [f x] else edit_last p f xs @ [x])"
  by (simp add: edit_last_def)

lemma edit_last_absent: "\<forall>x \<in> set xs. \<not> p x \<Longrightarrow> edit_last p f xs = xs"
proof -
  have "\<forall>x \<in> set ys. \<not> p x \<Longrightarrow> edit_first p f ys = ys" for ys by (induction ys) auto
  then show "\<forall>x \<in> set xs. \<not> p x \<Longrightarrow> edit_last p f xs = xs" by (simp add: edit_last_def)
qed

lemma acknowledged_all:
  assumes "\<forall>q \<in> set (butlast qs). \<not> unacknowledged q"
  shows "\<forall>q \<in> set (edit_last unacknowledged (\<lambda>q. q\<lparr>hq_acknowledged := Some at\<rparr>) qs). \<not> unacknowledged q"
proof (cases qs rule: rev_cases)
  case (snoc ys q)
  then show ?thesis
    using assms by (auto simp: edit_first_last edit_last_absent unacknowledged_def)
qed (simp add: edit_last_def)

text \<open>The fields only recovery and the end of a run touch.\<close>

definition lifecycle where
  "lifecycle r = (hr_status r, hr_observations r, hr_dispositions r, hr_report r, hr_escalation r, hr_failure r,
     hr_recoveries r, hr_exhaustion r, hr_terminal r)"

lemma lifecycle_eq:
  "lifecycle r' = lifecycle r \<longleftrightarrow>
     hr_status r' = hr_status r \<and> hr_observations r' = hr_observations r \<and> hr_dispositions r' = hr_dispositions r \<and>
     hr_report r' = hr_report r \<and> hr_escalation r' = hr_escalation r \<and> hr_failure r' = hr_failure r \<and>
     hr_recoveries r' = hr_recoveries r \<and> hr_exhaustion r' = hr_exhaustion r \<and> hr_terminal r' = hr_terminal r"
  by (auto simp: lifecycle_def)

lemma workflow_lifecycle:
  "lifecycle (step_started st rnd at r) = lifecycle r" "lifecycle (step_completed d at r) = lifecycle r"
  "lifecycle (r\<lparr>hr_proposals := ps\<rparr>) = lifecycle r" "lifecycle (r\<lparr>hr_reviews := vs\<rparr>) = lifecycle r"
  "lifecycle (proposal_filed ff seq r) = lifecycle r" "lifecycle (session_opened s at r) = lifecycle r"
  "lifecycle (session_recorded sid ev ts r) = lifecycle r"
  by (auto simp: lifecycle_def step_started_def step_completed_def proposal_filed_def session_opened_def
      edit_bracket_def session_recorded_def Let_def split: option.split)

lemma reserved_lifecycle: "id_reserved key i seq r = Inr r' \<Longrightarrow> lifecycle r' = lifecycle r"
  by (auto simp: lifecycle_def id_reserved_def split: option.splits if_splits)

text \<open>The steps that matter to the end of a run.\<close>

lemma evolves_lifecycle:
  assumes "evolves r r'"
  obtains (same) "lifecycle r' = lifecycle r"
    | (resumed) human at where "r' = resume_run human at r"
    | (requested) attempt limit at where "request_recovery attempt limit at r = Inr r'"
    | (exhausted) p at where "check_stopped p r = Inr ()" "check_partition r p = Inr ()" "r' = exhaust_run p at r"
    | (finished) ds report at where "hr_status r = HarvestRunning" "r' = complete_run ds report at r"
    | (escalated) x at where "r' = run_escalated x at r"
    | (failed) fl seq where "r' = run_failed fl seq r"
  using assms
  by (cases rule: evolves.cases) (auto simp: workflow_lifecycle reserved_lifecycle)

lemma resume_recoveries:
  "hr_recoveries (resume_run human at r) = hr_recoveries r \<or>
   hr_recoveries (resume_run human at r) =
     edit_last unacknowledged (\<lambda>q. q\<lparr>hq_acknowledged := Some at\<rparr>) (hr_recoveries r)"
  by (auto simp: resume_run_def Let_def split: option.split)

lemma recovery_inv_cong: "hr_recoveries r' = hr_recoveries r \<Longrightarrow> recovery_inv r' = recovery_inv r"
  by (simp only: recovery_inv_def)

lemma recovery_inv_step:
  assumes "recovery_inv r" and "evolves r r'"
  shows "recovery_inv r'"
  using assms(2)
proof (cases rule: evolves_lifecycle)
  case same
  then show ?thesis using assms(1) by (simp add: recovery_inv_def lifecycle_eq)
next
  case (resumed human at)
  let ?ack = "\<lambda>q. q\<lparr>hq_acknowledged := Some at\<rparr>"
  have "\<forall>q \<in> set (butlast (edit_last unacknowledged ?ack (hr_recoveries r))). \<not> unacknowledged q"
    using acknowledged_all [of "hr_recoveries r" at] assms(1) in_set_butlastD unfolding recovery_inv_def by metis
  then show ?thesis
    using resume_recoveries [of human at r] assms(1) unfolding resumed
    by (elim disjE) (simp_all add: recovery_inv_def edit_last_map)
next
  case (requested attempt limit at)
  let ?qs = "hr_recoveries r"
  from requested have r': "hr_recoveries r' = ?qs @
      [\<lparr>hq_attempt = attempt, hq_limit = limit, hq_requested = at, hq_acknowledged = None\<rparr>]"
    and attempt: "attempt = length ?qs + 1" "attempt \<le> limit"
    and acked: "\<forall>q \<in> set ?qs. \<not> unacknowledged q" and first: "?qs \<noteq> [] \<Longrightarrow> limit = hq_limit (hd ?qs)"
    by (auto simp: request_recovery_def list_ex_iff split: if_splits list.splits)
  obtain l where l: "map hq_limit ?qs = replicate (length ?qs) l"
    using assms(1) unfolding recovery_inv_def by blast
  have "map hq_limit ?qs = replicate (length ?qs) limit"
  proof (cases ?qs)
    case (Cons q qs)
    then have "l = limit" using l first by simp
    then show ?thesis using l by simp
  qed simp
  then have "map hq_limit (hr_recoveries r') = replicate (length (hr_recoveries r')) limit"
    by (simp add: r' replicate_append_same)
  then show ?thesis
    using assms(1) attempt acked unfolding recovery_inv_def by (intro conjI exI [of _ limit]) (simp_all add: r')
next
  case (exhausted p at)
  then show ?thesis using assms(1) by (simp add: recovery_inv_def exhaust_run_def)
next
  case (finished ds report at)
  then show ?thesis using assms(1) by (simp add: recovery_inv_def complete_run_def)
next
  case (escalated x at)
  then have "hr_recoveries r' = hr_recoveries r" by (simp add: run_escalated_def)
  from recovery_inv_cong [OF this] assms(1) show ?thesis by (rule iffD2)
next
  case (failed fl seq)
  then have "hr_recoveries r' = hr_recoveries r" by (simp add: run_failed_def Let_def)
  from recovery_inv_cong [OF this] assms(1) show ?thesis by (rule iffD2)
qed

lemma check_partition_frame:
  "hr_run r' = hr_run r \<Longrightarrow> hr_observations r' = hr_observations r \<Longrightarrow> check_partition r' p = check_partition r p"
proof -
  assume "hr_run r' = hr_run r" and "hr_observations r' = hr_observations r"
  then show ?thesis
    unfolding check_partition_def check_committed_def check_released_def by (simp only:)
qed

lemma check_stopped_Inr:
  "check_stopped p r = Inr u \<longleftrightarrow>
     hr_exhaustion r = None \<and> hr_status r = HarvestFailed \<and>
     (\<exists>f n. hr_failure r = Some (f, n) \<and> boundary_matches p f) \<and>
     hx_attempts p = length (hr_recoveries r) \<and> hx_attempts p = hx_limit p \<and>
     (\<forall>q \<in> set (hr_recoveries r). hq_limit q = hx_limit p \<and> \<not> unacknowledged q)"
  by (auto simp: check_stopped_def list_ex_iff)

lemma exhaustion_inv_step:
  assumes "exhaustion_inv r" and "evolves r r'"
  shows "exhaustion_inv r'"
  using assms(2)
proof (cases rule: evolves_lifecycle)
  case same
  then show ?thesis
    using assms(1) check_partition_frame [OF evolves_run [OF assms(2)]]
    by (simp add: exhaustion_inv_def lifecycle_eq split: option.splits)
next
  case (resumed human at)
  have "hr_observations r' = hr_observations r"
    unfolding resumed by (simp add: resume_run_def Let_def split: option.split)
  then show ?thesis
    using assms(1) check_partition_frame [OF evolves_run [OF assms(2)]]
    by (auto simp: resumed exhaustion_inv_def resume_run_def resume_exhausted_def isOrdinaryParkedRun_def Let_def
        split: option.splits)
next
  case (requested attempt limit at)
  then show ?thesis
    using assms(1) by (auto simp: exhaustion_inv_def request_recovery_def split: if_splits option.splits)
next
  case (exhausted p at)
  then show ?thesis
    using check_partition_frame [of r' r p]
    by (auto simp: exhaustion_inv_def exhaust_run_def check_stopped_Inr)
next
  case (finished ds report at)
  then show ?thesis using assms(1) by (auto simp: exhaustion_inv_def complete_run_def split: option.splits)
next
  case (escalated x at)
  then show ?thesis using assms(1) by (auto simp: exhaustion_inv_def run_escalated_def split: option.splits)
next
  case (failed fl seq)
  then show ?thesis
    using assms(1) by (auto simp: exhaustion_inv_def run_failed_def Let_def split: option.splits)
qed

lemma reduced_run_inv:
  assumes "folded events = Inr acc" and "r \<in> set (ha_runs acc)"
  shows "recovery_inv r" "exhaustion_inv r"
proof -
  show "recovery_inv r"
    by (rule run_invariant [OF assms]) (simp add: recovery_inv_def new_run_def, rule recovery_inv_step)
  show "exhaustion_inv r"
    by (rule run_invariant [OF assms]) (simp add: exhaustion_inv_def new_run_def, rule exhaustion_inv_step)
qed

section \<open>Settled runs\<close>

definition settled_run :: "harvest_run \<Rightarrow> bool" where
  "settled_run r \<longleftrightarrow> hr_status r \<in> {HarvestCompleted, HarvestEscalated} \<or> hr_exhaustion r \<noteq> None"

definition end_of_run where
  "end_of_run r = (hr_status r, hr_dispositions r, hr_report r, hr_escalation r, hr_terminal r)"

lemma settled_step:
  assumes "settled_run r" and "exhaustion_inv r" and "evolves r r'"
  shows "settled_run r' \<and> end_of_run r' = end_of_run r"
  using assms(3)
proof (cases rule: evolves_lifecycle)
  case same
  then show ?thesis using assms(1) by (simp add: settled_run_def end_of_run_def lifecycle_eq)
next
  case (resumed human at)
  then show ?thesis
    using assms(1) by (auto simp: settled_run_def end_of_run_def resume_run_def isOrdinaryParkedRun_def Let_def split: option.splits)
next
  case (requested attempt limit at)
  then show ?thesis
    using assms(1) by (auto simp: settled_run_def end_of_run_def request_recovery_def split: if_splits)
next
  case (exhausted p at)
  then show ?thesis using assms(1) by (auto simp: settled_run_def check_stopped_Inr)
next
  case (finished ds report at)
  then show ?thesis using assms(1,2) by (auto simp: settled_run_def exhaustion_inv_def)
next
  case (escalated x at)
  then show ?thesis
    using assms(1,2) by (auto simp: settled_run_def exhaustion_inv_def end_of_run_def run_escalated_def)
next
  case (failed fl seq)
  then show ?thesis
    using assms(1,2) by (auto simp: settled_run_def exhaustion_inv_def end_of_run_def run_failed_def Let_def)
qed

end
