(* ===== verification/HarvestClaims.thy ===== *)
theory HarvestClaims
  imports HarvestFacts
begin

text \<open>
  Claims and ledger of the harvest fold. The claim table is the unreleased observations of the runs, in
  start order and without repetition, so an occurrence has one owner; the ledger is the dispositions of
  the runs that ended with some.
\<close>

section \<open>The partition an exhaustion must record\<close>

lemma try_fold_admit:
  "try_fold (admit expected err) (Inr part) keys = Inr part' \<longleftrightarrow>
     part' = part @ keys \<and> set keys \<subseteq> set expected \<and> distinct keys \<and> set keys \<inter> set part = {}"
proof (induction keys arbitrary: part)
  case (Cons k keys)
  show ?case
  proof (cases "k \<notin> set expected \<or> k \<in> set part")
    case True
    then show ?thesis by (auto simp: admit_def)
  next
    case False
    then show ?thesis using Cons [of "part @ [k]"] by (auto simp: admit_def)
  qed
qed auto

definition partition_keys :: "exhausted_fact \<Rightarrow> string list" where
  "partition_keys p = map (occurrenceKey \<circ> hd_occurrence) (hx_committed p) @ map occurrenceKey (hx_released p)"

lemma check_partition_iff:
  "check_partition r p = Inr () \<longleftrightarrow>
     distinct (partition_keys p) \<and> set (partition_keys p) = set (map occurrenceKey (hr_observations r))"
proof -
  let ?exp = "map occurrenceKey (hr_observations r)"
  have "check_partition r p = Inr () \<longleftrightarrow>
      set (partition_keys p) \<subseteq> set ?exp \<and> distinct (partition_keys p) \<and>
      length (partition_keys p) = length (set_of_list ?exp)"
    unfolding check_partition_def bind_result_Inr_iff check_committed_def check_released_def try_fold_admit Let_def
      partition_keys_def
    by (auto split: if_splits)
  also have "\<dots> \<longleftrightarrow> distinct (partition_keys p) \<and> set (partition_keys p) = set ?exp"
  proof -
    have "length (set_of_list ?exp) = card (set ?exp)"
      by (metis distinct_card distinct_set_of_list set_set_of_list)
    moreover have "distinct (partition_keys p) \<Longrightarrow> length (partition_keys p) = card (set (partition_keys p))"
      by (simp add: distinct_card)
    ultimately show ?thesis
      by (metis List.finite_set card_subset_eq order_refl)
  qed
  finally show ?thesis .
qed

section \<open>Claims\<close>

definition held_by :: "harvest_run \<Rightarrow> occurrence \<Rightarrow> bool" where
  "held_by r k \<longleftrightarrow> (case hr_exhaustion r of None \<Rightarrow> True | Some x \<Rightarrow> k \<notin> set (hx_released (hn_fact x)))"

definition run_claims :: "harvest_run \<Rightarrow> (string \<times> occurrence \<times> string) list" where
  "run_claims r = map (\<lambda>k. (occurrenceKey k, k, hr_run r)) (filter (held_by r) (hr_observations r))"

definition claims_of :: "harvest_run list \<Rightarrow> (string \<times> occurrence \<times> string) list" where
  "claims_of rs = concat (map run_claims rs)"

lemma update_absent: "jm_get m k = None \<Longrightarrow> jm_set k v m = m @ [(k, v)]"
  by (induction m) (auto split: if_splits)

lemma claim_fold:
  assumes "try_fold (claim run) (Inr claimed) ks = Inr claimed'"
  shows "claimed' = claimed @ map (\<lambda>k. (occurrenceKey k, k, run)) ks \<and>
    (distinct (map fst claimed) \<longrightarrow> distinct (map fst claimed'))"
  using assms
proof (induction ks arbitrary: claimed)
  case (Cons k ks)
  then have free: "jm_get claimed (occurrenceKey k) = None"
    by (auto simp: claim_def split: option.splits)
  then have new: "jm_set (occurrenceKey k) (k, run) claimed = claimed @ [(occurrenceKey k, k, run)]"
    by (rule update_absent)
  have "claim run claimed k = Inr (claimed @ [(occurrenceKey k, k, run)])" by (simp add: claim_def free new)
  then have "try_fold (claim run) (Inr (claimed @ [(occurrenceKey k, k, run)])) ks = Inr claimed'"
    using Cons.prems by simp
  note IH = Cons.IH [OF this]
  have "distinct (map fst (claimed @ [(occurrenceKey k, k, run)]))" if "distinct (map fst claimed)"
    using that free by (simp add: map_of_eq_None_iff)
  with IH have "distinct (map fst claimed) \<longrightarrow> distinct (map fst claimed')" by blast
  with IH show ?case by simp
qed simp

lemma release_fold:
  assumes "try_fold (release_claim run) (Inr claimed) keys = Inr claimed'"
  shows "claimed' = filter (\<lambda>c. fst c \<notin> set keys) claimed \<and>
    (\<forall>k \<in> set keys. map_option snd (jm_get claimed k) = Some run)"
  using assms
proof (induction keys arbitrary: claimed)
  case (Cons key keys)
  then have owner: "map_option snd (jm_get claimed key) = Some run"
    by (auto simp: release_claim_def Let_def split: if_splits)
  then have "release_claim run claimed key = Inr (jm_del key claimed)" by (simp add: release_claim_def)
  then have "try_fold (release_claim run) (Inr (jm_del key claimed)) keys = Inr claimed'"
    using Cons.prems by simp
  from Cons.IH [OF this] have IH: "claimed' = filter (\<lambda>c. fst c \<notin> set keys) (jm_del key claimed)"
    "\<forall>k \<in> set keys. map_option snd (jm_get (jm_del key claimed) k) = Some run" by auto
  have "claimed' = filter (\<lambda>c. fst c \<notin> set (key # keys)) claimed"
    unfolding IH(1) AList.delete_eq by (auto intro: filter_cong)
  moreover have "map_option snd (jm_get claimed k) = Some run" if "k \<in> set (key # keys)" for k
    using that owner IH(2) by (cases "k = key") (auto simp: delete_conv')
  ultimately show ?case by blast
qed (simp add: filter_True)

lemma claims_of_append [simp]: "claims_of (xs @ ys) = claims_of xs @ claims_of ys"
  by (simp add: claims_of_def)

lemma run_claims_new: "run_claims (new_run p at) = map (\<lambda>k. (occurrenceKey k, k, hb_run p)) (hb_observations p)"
  by (simp add: run_claims_def new_run_def held_by_def)

section \<open>Ledger\<close>

definition ledger_of :: "harvest_run \<Rightarrow> (disposition \<times> string \<times> nat) set" where
  "ledger_of r =
     (case hr_terminal r of None \<Rightarrow> {} | Some (seq, _) \<Rightarrow> (\<lambda>d. (d, hr_run r, seq)) ` set (hr_dispositions r))"

text \<open>Only completion and exhaustion leave dispositions.\<close>

definition disposed_inv :: "harvest_run \<Rightarrow> bool" where
  "disposed_inv r \<longleftrightarrow> (hr_status r \<noteq> HarvestCompleted \<and> hr_exhaustion r = None \<longrightarrow> hr_dispositions r = [])"

lemma disposed_inv_step:
  assumes "disposed_inv r" and "evolves r r'"
  shows "disposed_inv r'"
  using assms(2)
proof (cases rule: evolves_lifecycle)
  case (resumed human at)
  then show ?thesis
    using assms(1) by (auto simp: disposed_inv_def resume_run_def isOrdinaryParkedRun_def Let_def split: option.splits)
next
  case (requested attempt limit at)
  then show ?thesis using assms(1) by (auto simp: disposed_inv_def request_recovery_def split: if_splits)
qed (use assms(1) in \<open>auto simp: disposed_inv_def lifecycle_eq exhaust_run_def complete_run_def run_escalated_def
      run_failed_def Let_def\<close>)

text \<open>A step that leaves claims and ledger of a run alone.\<close>

definition quiet :: "harvest_run \<Rightarrow> harvest_run \<Rightarrow> bool" where
  "quiet r r' \<longleftrightarrow> run_claims r' = run_claims r \<and> (disposed_inv r \<longrightarrow> ledger_of r' = ledger_of r)"

lemma quiet_refl [simp]: "quiet r r"
  by (simp add: quiet_def)

lemma quiet_lifecycle: "lifecycle r' = lifecycle r \<Longrightarrow> hr_run r' = hr_run r \<Longrightarrow> quiet r r'"
  by (simp add: quiet_def run_claims_def ledger_of_def lifecycle_eq held_by_def [abs_def] split: option.split)

lemma quiet_resume: "quiet r (resume_run human at r)"
  by (auto simp: quiet_def run_claims_def ledger_of_def held_by_def [abs_def] resume_run_def resume_exhausted_def
      isOrdinaryParkedRun_def disposed_inv_def Let_def split: option.splits)

lemma quiet_request: "request_recovery attempt limit at r = Inr r' \<Longrightarrow> quiet r r'"
  by (auto simp: quiet_def run_claims_def ledger_of_def held_by_def [abs_def] request_recovery_def
      split: option.splits if_splits)

lemma quiet_escalated: "hr_exhaustion r = None \<or> hr_status r \<noteq> HarvestRunning \<Longrightarrow> quiet r (run_escalated x at r)"
  by (auto simp: quiet_def run_claims_def ledger_of_def held_by_def [abs_def] run_escalated_def
      disposed_inv_def split: option.splits)

lemma quiet_failed: "quiet r (run_failed fl seq r)"
  by (auto simp: quiet_def run_claims_def ledger_of_def held_by_def [abs_def] run_failed_def Let_def
      split: option.splits)

section \<open>The effect of an event on claims and ledger\<close>

lemma list_all2_put:
  assumes "distinct (run_ids acc)" and "run_at acc i = Some r" and "R r r'" and "hr_run r' = hr_run r" and "\<And>x. R x x"
  shows "list_all2 R (ha_runs acc) (ha_runs (put_run acc r'))"
proof -
  have r: "r \<in> set (ha_runs acc)" using run_at_SomeD [OF assms(2)] by simp
  have "R x (if hr_run x = hr_run r' then r' else x)" if x: "x \<in> set (ha_runs acc)" for x
  proof (cases "hr_run x = hr_run r")
    case True
    then have "x = r" using assms(1) x r by (auto simp: run_ids_def distinct_map inj_on_def)
    then show ?thesis using assms(3,4) by simp
  qed (simp add: assms(4,5))
  then show ?thesis by (simp add: put_run_def list_all2_map2 list_all2_same)
qed

definition quiet_step :: "harvest_acc \<Rightarrow> harvest_acc \<Rightarrow> bool" where
  "quiet_step acc acc' \<longleftrightarrow>
     list_all2 quiet (ha_runs acc) (ha_runs acc') \<and> ha_claimed acc' = ha_claimed acc \<and> ha_ledger acc' = ha_ledger acc"

lemma quiet_same: "ha_runs acc' = ha_runs acc \<Longrightarrow> ha_claimed acc' = ha_claimed acc \<Longrightarrow> ha_ledger acc' = ha_ledger acc \<Longrightarrow> quiet_step acc acc'"
  by (simp add: quiet_step_def list_all2_same)

lemma quiet_edit:
  assumes "edit_run acc i f = Inr acc'" and "distinct (run_ids acc)"
    and "\<And>r r'. r \<in> set (ha_runs acc) \<Longrightarrow> f r = Inr r' \<Longrightarrow> quiet r r' \<and> hr_run r' = hr_run r"
  shows "quiet_step acc acc'"
proof -
  obtain r r' where r: "run_at acc i = Some r" "f r = Inr r'" and acc': "acc' = put_run acc r'"
    using assms(1) unfolding edit_run_Inr by blast
  have "quiet r r' \<and> hr_run r' = hr_run r" using assms(3) r run_at_SomeD by blast
  then show ?thesis
    unfolding acc' quiet_step_def using list_all2_put [OF assms(2) r(1), of quiet r'] by (simp add: put_run_def)
qed

lemma quiet_known:
  assumes "distinct (run_ids acc)" and "\<And>r. quiet r (f r) \<and> hr_run (f r) = hr_run r"
  shows "quiet_step acc (known_run acc i f)"
proof (cases "run_at acc i")
  case None
  then show ?thesis by (simp add: known_run_def quiet_same)
next
  case (Some r)
  then show ?thesis
    using list_all2_put [OF assms(1) Some, of quiet "f r"] assms(2)
    by (simp add: known_run_def quiet_step_def put_run_def)
qed

lemma quiet_workflow:
  "quiet r (step_started st rnd at r)" "quiet r (step_completed d at r)" "quiet r (r\<lparr>hr_proposals := ps\<rparr>)"
  "quiet r (r\<lparr>hr_reviews := vs\<rparr>)" "quiet r (proposal_filed ff seq r)" "quiet r (session_opened s at r)"
  "quiet r (session_recorded sid ev ts r)" "id_reserved key i seq r = Inr r' \<Longrightarrow> quiet r r'"
  by (auto intro!: quiet_lifecycle simp: workflow_lifecycle reserved_lifecycle evolves_run evolves.intros)

text \<open>Start, exhaustion and completion are the events that move claims or ledger.\<close>

lemma harvest_fact_effect:
  assumes "harvest_fact acc h at who = Inr acc'" and "distinct (run_ids acc)"
    and "\<forall>r \<in> set (ha_runs acc). exhaustion_inv r"
  obtains (quiet) "quiet_step acc acc'"
  | (started) p claimed where "run_at acc (hb_run p) = None"
      "try_fold (claim (hb_run p)) (Inr (ha_claimed acc)) (hb_observations p) = Inr claimed"
      "acc' = acc\<lparr>ha_runs := ha_runs acc @ [new_run p at], ha_claimed := claimed\<rparr>"
  | (exhausted) p r claimed where "run_at acc (hx_run p) = Some r" "check_stopped p r = Inr ()" "check_partition r p = Inr ()"
      "try_fold (release_claim (hr_run r)) (Inr (ha_claimed acc)) (map occurrenceKey (hx_released p)) = Inr claimed"
      "acc' = (put_run acc (exhaust_run p at r))\<lparr>ha_claimed := claimed,
         ha_ledger := ha_ledger acc @ ledger_entries (hr_run r) (fst at) (hx_committed p)\<rparr>"
  | (finished) r ds report where "run_at acc (hr_run r) = Some r" "hr_status r = HarvestRunning"
      "acc' = (put_run acc (complete_run ds report at r))
         \<lparr>ha_ledger := ha_ledger acc @ ledger_entries (hr_run r) (fst at) ds\<rparr>"
proof -
  have same: thesis if "ha_runs acc' = ha_runs acc" "ha_claimed acc' = ha_claimed acc" "ha_ledger acc' = ha_ledger acc"
    using that by (intro quiet quiet_same)
  have edit: thesis if "edit_run acc i (\<lambda>r. Inr (g r)) = Inr acc'" "\<And>r. quiet r (g r) \<and> hr_run (g r) = hr_run r" for i g
    using quiet_edit [OF that(1) assms(2)] that(2) by (intro quiet) auto
  show thesis
  proof (cases h)
  case HResumed
  then have "quiet_step acc acc'"
    using assms(1) by (auto simp: harvest_resumed_def quiet_step_def list_all2_map2 list_all2_same quiet_resume)
  then show ?thesis by (rule that(1))
next
  case (HRecoveryExhausted p)
  then show ?thesis
    using assms(1) that(3)
    by (auto simp: recovery_exhausted_def requireRun_def bind_result_Inr_iff map_result_Inr_iff split: option.splits)
next
  case (HStarted p)
  then show ?thesis
    using assms(1) that(2) by (auto simp: open_run_def map_result_Inr_iff split: if_splits)
next
  case (HCompleted i ds report)
  then obtain r where r: "run_at acc i = Some r"
    and acc': "acc' = (if hr_status r \<noteq> HarvestRunning then acc
      else (put_run acc (complete_run ds report at r))\<lparr>ha_ledger := ha_ledger acc @ ledger_entries (hr_run r) (fst at) ds\<rparr>)"
    using assms(1) by (auto simp: run_completed_def requireRun_def map_result_Inr_iff split: option.splits)
  show ?thesis
  proof (cases "hr_status r = HarvestRunning")
    case True
    show ?thesis
    proof (rule that(4))
      show "run_at acc (hr_run r) = Some r" using r run_at_SomeD [OF r] by simp
    qed (use True acc' in simp_all)
  next
    case False
    then show ?thesis using that(1) acc' by (simp add: quiet_same)
  qed
next
  case (HEscalated i x)
  have "quiet_step acc acc'"
  proof (rule quiet_edit [OF _ assms(2)])
    show "edit_run acc i (\<lambda>r. Inr (run_escalated x at r)) = Inr acc'" using assms(1) HEscalated by simp
  next
    fix r r' assume "r \<in> set (ha_runs acc)" and "Inr (run_escalated x at r) = (Inr r' :: harvest_error + harvest_run)"
    then show "quiet r r' \<and> hr_run r' = hr_run r"
      using bspec [OF assms(3), of r] quiet_escalated [of r x at] by (auto simp: exhaustion_inv_def run_escalated_def split: option.splits)
  qed
  then show ?thesis by (rule that(1))
next
  case (HSessionStarted i p)
  then have "quiet_step acc acc'"
    using assms(1) by (auto intro!: quiet_known [OF assms(2)] simp: quiet_workflow evolves_run evolves.intros)
  then show ?thesis by (rule that(1))
next
  case (HSessionFact i sid ev)
  then have "quiet_step acc acc'"
    using assms(1) by (auto intro!: quiet_known [OF assms(2)] simp: quiet_workflow evolves_run evolves.intros)
  then show ?thesis by (rule that(1))
next
  case (HRecoveryRequested i attempt limit)
  then have "quiet_step acc acc'"
    using assms(1) by (auto intro!: quiet_edit [OF _ assms(2)] dest: quiet_request evolves_run [OF evolves.requested])
  then show ?thesis by (rule that(1))
next
  case (HIdReserved i key rid)
  then have "quiet_step acc acc'"
    using assms(1) by (auto intro!: quiet_edit [OF _ assms(2)] dest: quiet_workflow(8) evolves_run [OF evolves.reserved])
  then show ?thesis by (rule that(1))
next
  case (HFailed i fl)
  then have "quiet_step acc acc'"
    using assms(1) by (auto intro!: quiet_edit [OF _ assms(2)] simp: quiet_failed evolves_run [OF evolves.failed])
  then show ?thesis by (rule that(1))
qed (use assms(1) in \<open>auto intro: same edit simp: quiet_workflow evolves_run evolves.intros\<close>)
qed

section \<open>The invariant of claims and ledger\<close>

definition books_match :: "harvest_acc \<Rightarrow> bool" where
  "books_match acc \<longleftrightarrow>
     ha_claimed acc = claims_of (ha_runs acc) \<and> distinct (map fst (ha_claimed acc)) \<and>
     set (ha_ledger acc) = (\<Union>r \<in> set (ha_runs acc). ledger_of r)"

definition claims_inv :: "harvest_acc \<Rightarrow> bool" where
  "claims_inv acc \<longleftrightarrow> books_match acc \<and> (\<forall>r \<in> set (ha_runs acc). exhaustion_inv r \<and> disposed_inv r)"

lemma quiet_claims: "list_all2 quiet rs rs' \<Longrightarrow> claims_of rs' = claims_of rs"
  unfolding claims_of_def by (induction rule: list_all2_induct) (simp_all add: quiet_def)

lemma quiet_ledger:
  "list_all2 quiet rs rs' \<Longrightarrow> \<forall>r \<in> set rs. disposed_inv r \<Longrightarrow> (\<Union>r \<in> set rs'. ledger_of r) = (\<Union>r \<in> set rs. ledger_of r)"
  by (induction rule: list_all2_induct) (simp_all add: quiet_def)

text \<open>Replacing one run, when ids are unique.\<close>

lemma put_run_split:
  assumes "distinct (run_ids acc)" and "run_at acc i = Some r" and "hr_run r' = hr_run r"
  obtains xs ys where "ha_runs acc = xs @ r # ys" "ha_runs (put_run acc r') = xs @ r' # ys"
    "r \<notin> set xs" "r \<notin> set ys" "\<forall>x \<in> set (xs @ ys). hr_run x \<noteq> hr_run r"
proof -
  obtain xs ys where runs: "ha_runs acc = xs @ r # ys" using run_at_SomeD [OF assms(2)] split_list by metis
  then have fresh: "hr_run r \<notin> hr_run ` set (xs @ ys)" using assms(1) by (auto simp: run_ids_def)
  have other: "\<forall>x \<in> set (xs @ ys). hr_run x \<noteq> hr_run r"
  proof
    fix x assume "x \<in> set (xs @ ys)"
    from imageI [OF this, of hr_run] fresh show "hr_run x \<noteq> hr_run r" by metis
  qed
  then have "map (\<lambda>x. if hr_run x = hr_run r' then r' else x) zs = zs" if "set zs \<subseteq> set (xs @ ys)" for zs
    using that assms(3) by (auto intro!: map_idI)
  then have "ha_runs (put_run acc r') = xs @ r' # ys" by (simp add: put_run_def runs assms(3))
  then show ?thesis using that runs other by auto
qed

lemma key_in_image: "occurrenceKey k \<in> occurrenceKey ` ks \<longleftrightarrow> k \<in> ks"
  by auto

lemma exhausted_claims:
  assumes claims: "ha_claimed acc = claims_of (ha_runs acc)" and ids: "distinct (run_ids acc)"
    and dist: "distinct (map fst (ha_claimed acc))" and r: "run_at acc i = Some r" "hr_exhaustion r = None"
    and rel: "try_fold (release_claim (hr_run r)) (Inr (ha_claimed acc)) (map occurrenceKey (hx_released p)) = Inr claimed"
  shows "claimed = claims_of (ha_runs (put_run acc (exhaust_run p at r)))"
proof -
  have id: "hr_run (exhaust_run p at r) = hr_run r" by (simp add: exhaust_run_def)
  obtain xs ys where runs: "ha_runs acc = xs @ r # ys" "ha_runs (put_run acc (exhaust_run p at r)) = xs @ exhaust_run p at r # ys"
    and other: "\<forall>x \<in> set (xs @ ys). hr_run x \<noteq> hr_run r"
    using put_run_split [OF ids r(1) id] by metis
  let ?rel = "set (map occurrenceKey (hx_released p))"
  from release_fold [OF rel] have claimed: "claimed = filter (\<lambda>c. fst c \<notin> ?rel) (ha_claimed acc)"
    and owner: "\<forall>k \<in> ?rel. map_option snd (jm_get (ha_claimed acc) k) = Some (hr_run r)" by auto
  have keep: "filter (\<lambda>c. fst c \<notin> ?rel) (run_claims x) = run_claims x" if x: "x \<in> set (xs @ ys)" for x
  proof (rule filter_True, rule ballI)
    fix c assume c: "c \<in> set (run_claims x)"
    show "fst c \<notin> ?rel"
    proof
      assume "fst c \<in> ?rel"
      then have "map_option snd (jm_get (ha_claimed acc) (fst c)) = Some (hr_run r)" using owner by blast
      moreover have "c \<in> set (ha_claimed acc)" using c x by (auto simp: claims claims_of_def runs)
      then have "jm_get (ha_claimed acc) (fst c) = Some (snd c)" using dist by (metis map_of_eq_Some_iff prod.collapse)
      ultimately have "snd (snd c) = hr_run r" by simp
      moreover have "snd (snd c) = hr_run x" using c by (auto simp: run_claims_def)
      ultimately show False using other x by simp
    qed
  qed
  have self: "filter (\<lambda>c. fst c \<notin> ?rel) (run_claims r) = run_claims (exhaust_run p at r)"
    using r(2) by (auto simp: run_claims_def held_by_def [abs_def] exhaust_run_def filter_map comp_def key_in_image)
  have "filter (\<lambda>c. fst c \<notin> ?rel) (claims_of zs) = claims_of zs" if "set zs \<subseteq> set (xs @ ys)" for zs
    using that keep by (induction zs) (auto simp: claims_of_def)
  then show ?thesis
    unfolding claimed claims runs by (simp add: self [simplified] claims_of_def)
qed

text \<open>A run that ends with dispositions adds them to the ledger.\<close>

lemma ended_ledger:
  assumes ids: "distinct (run_ids acc)" and r: "run_at acc i = Some r" and id: "hr_run r' = hr_run r"
    and none: "ledger_of r = {}" and new: "ledger_of r' = set entries"
    and ledger: "set (ha_ledger acc) = (\<Union>r \<in> set (ha_runs acc). ledger_of r)"
  shows "set (ha_ledger acc @ entries) = (\<Union>r \<in> set (ha_runs (put_run acc r')). ledger_of r)"
proof -
  obtain xs ys where "ha_runs acc = xs @ r # ys" "ha_runs (put_run acc r') = xs @ r' # ys"
    using put_run_split [OF ids r id] by metis
  then show ?thesis using none new ledger by auto
qed

lemma undisposed_ledger: "hr_dispositions r = [] \<Longrightarrow> ledger_of r = {}"
  by (simp add: ledger_of_def split: option.split)

lemma put_claims:
  assumes "distinct (run_ids acc)" and "run_at acc i = Some r" and "hr_run r' = hr_run r" and "run_claims r' = run_claims r"
  shows "claims_of (ha_runs (put_run acc r')) = claims_of (ha_runs acc)"
proof -
  obtain xs ys where "ha_runs acc = xs @ r # ys" "ha_runs (put_run acc r') = xs @ r' # ys"
    using put_run_split [OF assms(1-3)] by metis
  then show ?thesis using assms(4) by (simp add: claims_of_def)
qed

lemma harvest_fact_claims:
  assumes step: "harvest_fact acc h at who = Inr acc'" and ids: "distinct (run_ids acc)"
    and books: "books_match acc" and runs: "\<forall>r \<in> set (ha_runs acc). exhaustion_inv r \<and> disposed_inv r"
  shows "books_match acc'"
proof -
  have claims: "ha_claimed acc = claims_of (ha_runs acc)" "distinct (map fst (ha_claimed acc))"
    and ledger: "set (ha_ledger acc) = (\<Union>r \<in> set (ha_runs acc). ledger_of r)"
    using books unfolding books_match_def by blast+
  have exh: "\<forall>r \<in> set (ha_runs acc). exhaustion_inv r" using runs by blast
  note effect = harvest_fact_effect [OF step ids exh]
  show ?thesis
  proof (cases rule: effect [case_names quiet started exhausted finished])
    case quiet
    then have q: "list_all2 quiet (ha_runs acc) (ha_runs acc')" and same: "ha_claimed acc' = ha_claimed acc" "ha_ledger acc' = ha_ledger acc"
      unfolding quiet_step_def by blast+
    have "\<forall>r \<in> set (ha_runs acc). disposed_inv r" using runs by blast
    note led = quiet_ledger [OF q this]
    show ?thesis using books unfolding books_match_def quiet_claims [OF q] led same by blast
  next
    case (started p claimed)
    have one: "claims_of [new_run p at] = map (\<lambda>k. (occurrenceKey k, k, hb_run p)) (hb_observations p)"
      by (simp add: claims_of_def run_claims_new)
    have none: "ledger_of (new_run p at) = {}" by (simp add: undisposed_ledger new_run_def)
    note fold = claim_fold [OF started(2)]
    have new: "claimed = claims_of (ha_runs acc @ [new_run p at])" using fold claims(1) one by simp
    have dist: "distinct (map fst claimed)" using fold claims(2) by blast
    show ?thesis
      unfolding books_match_def started(3)
      by (intro conjI) (use new in simp, use dist in simp, use ledger none in simp)
  next
    case (exhausted p r claimed)
    have stop: "hr_exhaustion r = None" "hr_status r = HarvestFailed" using exhausted(2) by (simp_all add: check_stopped_Inr)
    then have "hr_dispositions r = []" using runs run_at_SomeD [OF exhausted(1)] by (auto simp: disposed_inv_def)
    then have "set (ha_ledger acc @ ledger_entries (hr_run r) (fst at) (hx_committed p)) =
        (\<Union>r \<in> set (ha_runs (put_run acc (exhaust_run p at r))). ledger_of r)"
      by (intro ended_ledger [OF ids exhausted(1) _ undisposed_ledger _ ledger])
         (auto simp: exhaust_run_def ledger_of_def ledger_entries_def split: prod.split)
    moreover have "claimed = claims_of (ha_runs (put_run acc (exhaust_run p at r)))"
      by (rule exhausted_claims [OF claims(1) ids claims(2) exhausted(1) stop(1) exhausted(4)])
    moreover have "distinct (map fst claimed)"
      using release_fold [OF exhausted(4)] claims(2) by (simp add: distinct_map_filter)
    ultimately show ?thesis by (simp add: books_match_def exhausted(5))
  next
    case (finished r ds report)
    have inv: "exhaustion_inv r" "disposed_inv r" using runs run_at_SomeD [OF finished(1)] by auto
    then have none: "hr_exhaustion r = None" using finished(2) by (auto simp: exhaustion_inv_def split: option.splits)
    then have "hr_dispositions r = []" using inv(2) finished(2) by (auto simp: disposed_inv_def)
    then have "set (ha_ledger acc @ ledger_entries (hr_run r) (fst at) ds) =
        (\<Union>r \<in> set (ha_runs (put_run acc (complete_run ds report at r))). ledger_of r)"
      by (intro ended_ledger [OF ids finished(1) _ undisposed_ledger _ ledger])
         (auto simp: complete_run_def ledger_of_def ledger_entries_def split: prod.split)
    moreover have "claims_of (ha_runs (put_run acc (complete_run ds report at r))) = claims_of (ha_runs acc)"
      by (rule put_claims [OF ids finished(1)]) (simp_all add: complete_run_def run_claims_def held_by_def [abs_def])
    ultimately show ?thesis using claims by (simp add: books_match_def finished(3) put_run_def)
  qed
qed

lemma claims_inv_step:
  assumes inv: "claims_inv acc" and ids: "distinct (run_ids acc)" and step: "harvest_event acc e = Inr acc'"
  shows "claims_inv acc'"
proof -
  have "\<forall>r \<in> set (ha_runs acc'). exhaustion_inv r \<and> disposed_inv r"
  proof
    fix r' assume r': "r' \<in> set (ha_runs acc')"
    obtain rs new where acc': "ha_runs acc' = rs @ new" and rs: "list_all2 evolves (ha_runs acc) rs"
      and new: "new = [] \<or> (\<exists>p at. new = [new_run p at] \<and> run_at acc (hb_run p) = None)"
      using harvest_event_grows [OF step ids] unfolding grows_def by blast
    show "exhaustion_inv r' \<and> disposed_inv r'"
    proof (cases "r' \<in> set rs")
      case True
      from list_all2_source [OF rs this] obtain r where "r \<in> set (ha_runs acc)" "evolves r r'" by blast
      then show ?thesis using inv exhaustion_inv_step disposed_inv_step unfolding claims_inv_def by metis
    next
      case False
      then obtain p at where "r' = new_run p at" using r' new acc' by auto
      then show ?thesis by (simp add: exhaustion_inv_def disposed_inv_def new_run_def)
    qed
  qed
  moreover have "books_match acc'"
    using harvest_event_cases [OF step]
  proof (elim disjE conjE exE)
    assume eq: "ha_runs acc' = ha_runs acc" "ha_claimed acc' = ha_claimed acc" "ha_ledger acc' = ha_ledger acc"
    show ?thesis using inv unfolding claims_inv_def books_match_def eq by blast
  next
    fix h
    let ?a = "acc\<lparr>ha_lastSeq := max (ha_lastSeq acc) (re_seq e)\<rparr>"
    assume fact: "harvest_fact ?a h (re_seq e, re_ts e) (re_actor e) = Inr acc'"
    have "books_match ?a \<longleftrightarrow> books_match acc" by (simp add: books_match_def)
    then have "books_match ?a" using inv unfolding claims_inv_def by blast
    moreover have "distinct (run_ids ?a)" using ids by (simp add: run_ids_def)
    ultimately show ?thesis using harvest_fact_claims [OF fact] inv by (simp add: claims_inv_def)
  qed
  ultimately show ?thesis unfolding claims_inv_def by blast
qed

lemma folded_claims: "folded events = Inr acc \<Longrightarrow> claims_inv acc \<and> distinct (run_ids acc)"
  by (rule folded_invariant [where P = claims_inv])
     (simp_all add: claims_inv_step, simp add: claims_inv_def books_match_def claims_of_def initialHarvest_def)

end
