(* ===== verification/HarvestProperties.thy ===== *)
theory HarvestProperties
  imports HarvestClaims
begin

text \<open>
  The properties of the harvest journal: claims, recovery, outcomes, exhaustion, the control decision and
  the creations withheld from a ready scan.
\<close>

lemma finish_fields [simp]:
  "hy_runs (finishHarvest acc) = ha_runs acc" "hy_ledger (finishHarvest acc) = ha_ledger acc"
  "hy_paused (finishHarvest acc) = ha_paused acc" "hy_claimed (finishHarvest acc) = map (fst \<circ> snd) (ha_claimed acc)"
  "hy_lastSeq (finishHarvest acc) = ha_lastSeq acc"
  by (simp_all add: finishHarvest_def)

section \<open>A sample journal\<close>

abbreviation sample_run :: string where
  "sample_run \<equiv> ''h1''"

definition sample_observations :: "occurrence list" where
  "sample_observations = [\<lparr>oc_build = ''b1'', oc_seq = 3\<rparr>, \<lparr>oc_build = ''b2'', oc_seq = 4\<rparr>]"

definition sample_start :: harvest_ev where
  "sample_start = HStarted \<lparr>hb_run = sample_run, hb_observations = sample_observations,
     hb_scan = \<lparr>art_kind = ''scan'', art_rev = 1\<rparr>, hb_trigger = Some CountTrigger\<rparr>"

definition sample_failure :: harvest_ev where
  "sample_failure = HFailed sample_run
     \<lparr>hl_step = SynthesizeStep, hl_round = None, hl_attempt = 3, hl_error = ''no answer'', hl_willRetry = False\<rparr>"

definition sample_exhausted :: exhausted_fact where
  "sample_exhausted =
     \<lparr>hx_run = sample_run, hx_step = SynthesizeStep, hx_round = None, hx_error = ''no answer'', hx_attempts = 2,
      hx_limit = 2, hx_released = [hd sample_observations],
      hx_committed = [\<lparr>hd_occurrence = last sample_observations, hd_action = ActionSuppressed, hd_proposalKey = None,
        hd_ticket = None, hd_reason = None\<rparr>], hx_pending = []\<rparr>"

definition sample_event :: "nat \<Rightarrow> harvest_ev \<Rightarrow> repository_event" where
  "sample_event n h = \<lparr>re_seq = n, re_ts = 0, re_actor = Kernel, re_body = RHarvest h\<rparr>"

definition sample_journal :: "repository_event list" where
  "sample_journal = map2 sample_event [1..<10]
     [sample_start, sample_failure, HRecoveryRequested sample_run 1 2, HResumed, sample_failure,
      HRecoveryRequested sample_run 2 2, HResumed, sample_failure, HRecoveryExhausted sample_exhausted]"

text \<open>The journal up to the first failure, up to the last, and whole.\<close>

definition sample_check :: "nat \<Rightarrow> (harvest_state \<Rightarrow> harvest_run \<Rightarrow> bool) \<Rightarrow> bool" where
  "sample_check n p \<longleftrightarrow>
     (case reduceHarvest (take n sample_journal) of
        Inl _ \<Rightarrow> False | Inr st \<Rightarrow> (case hy_runs st of [] \<Rightarrow> False | r # _ \<Rightarrow> p st r))"

lemma sample_checkE:
  assumes "sample_check n p"
  obtains st r where "reduceHarvest (take n sample_journal) = Inr st" and "r \<in> set (hy_runs st)" and "p st r"
proof -
  obtain st r rs where "reduceHarvest (take n sample_journal) = Inr st" "hy_runs st = r # rs" "p st r"
    using assms by (auto simp: sample_check_def split: sum.splits list.splits)
  then show thesis using that by force
qed

lemma sample_checks:
  "sample_check 2 (\<lambda>st r. decideHarvestControl st 2 = Inr (RequestRecovery sample_run 1 2)) \<and>
   sample_check 8 (\<lambda>st r. decideHarvestControl st 2 = Inr (ExhaustRecovery sample_run 2 2)) \<and>
   sample_check 9 (\<lambda>st r. settled_run r \<and> \<not> Option.is_none (hr_exhaustion r))"
  by code_simp

lemmas sample_failed = sample_checks [THEN conjunct1]
  and sample_spent = sample_checks [THEN conjunct2, THEN conjunct1]
  and sample_exhausts = sample_checks [THEN conjunct2, THEN conjunct2]

lemma sample_ends_early: "sample_check 9 (\<lambda>st r. settled_run r)"
  using sample_exhausts by (auto simp: sample_check_def split: sum.splits list.splits)

section \<open>Claims and recovery\<close>

text \<open>C17: an observation has one owner and the ledger has no other source. The occurrences a reduced
  journal reports as claimed are the observations of its runs, in start order, that no exhaustion has
  released, none of them twice; the ledger holds exactly the dispositions of the runs that ended with
  some, under the seq they ended at.\<close>

theorem claims_have_one_owner:
  assumes "reduceHarvest events = Inr st"
  shows "hy_claimed st = concat (map (\<lambda>r. filter (held_by r) (hr_observations r)) (hy_runs st)) \<and>
    distinct (hy_claimed st) \<and> set (hy_ledger st) = (\<Union>r \<in> set (hy_runs st). ledger_of r)"
proof -
  obtain acc where acc: "folded events = Inr acc" and st: "st = finishHarvest acc"
    using reduceHarvest_InrE [OF assms] .
  have books: "ha_claimed acc = claims_of (ha_runs acc)" "distinct (map fst (ha_claimed acc))"
    "set (ha_ledger acc) = (\<Union>r \<in> set (ha_runs acc). ledger_of r)"
    using folded_claims [OF acc] unfolding claims_inv_def books_match_def by blast+
  have claimed: "map (fst \<circ> snd) (claims_of rs) = concat (map (\<lambda>r. filter (held_by r) (hr_observations r)) rs)" for rs
    by (induction rs) (simp_all add: claims_of_def run_claims_def comp_def)
  have "map fst (claims_of rs) = map occurrenceKey (map (fst \<circ> snd) (claims_of rs))" for rs
    by (induction rs) (simp_all add: claims_of_def run_claims_def comp_def)
  then have "distinct (map (fst \<circ> snd) (ha_claimed acc))"
    using books(1,2) by (metis distinct_map)
  then show ?thesis using books(1,3) claimed by (simp add: st)
qed

theorem claims_have_one_owner_witness:
  "\<exists>st. reduceHarvest (take 9 sample_journal) = Inr st \<and> distinct (hy_claimed st) \<and> hy_runs st \<noteq> []"
proof -
  obtain st r where "reduceHarvest (take 9 sample_journal) = Inr st" "r \<in> set (hy_runs st)"
    by (rule sample_checkE [OF sample_exhausts])
  with claims_have_one_owner [OF this(1)] show ?thesis by auto
qed

text \<open>C19: automatic recovery is bounded by the limit its first request applied. The requests of any run
  of a reduced journal are numbered 1, 2, 3 and on, all carry one limit, and there are no more of them
  than the limit; an exhausted run has used it up.\<close>

theorem recovery_budget_respected:
  assumes "reduceHarvest events = Inr st" and "r \<in> set (hy_runs st)"
  shows "map hq_attempt (hr_recoveries r) = [1..<Suc (length (hr_recoveries r))] \<and>
    (\<exists>limit. length (hr_recoveries r) \<le> limit \<and>
       map hq_limit (hr_recoveries r) = replicate (length (hr_recoveries r)) limit) \<and>
    (case hr_exhaustion r of None \<Rightarrow> True | Some x \<Rightarrow> length (hr_recoveries r) = hx_limit (hn_fact x))"
proof -
  obtain acc where acc: "folded events = Inr acc" and st: "st = finishHarvest acc"
    using reduceHarvest_InrE [OF assms(1)] .
  have "recovery_inv r" "exhaustion_inv r" using reduced_run_inv [OF acc] assms(2) by (auto simp: st)
  then show ?thesis unfolding recovery_inv_def exhaustion_inv_def by (auto split: option.splits)
qed

theorem recovery_budget_respected_witness:
  "\<exists>st. reduceHarvest (take 9 sample_journal) = Inr st \<and>
    (\<exists>r \<in> set (hy_runs st). \<exists>x. hr_exhaustion r = Some x \<and> length (hr_recoveries r) = hx_limit (hn_fact x))"
proof -
  obtain st r where "reduceHarvest (take 9 sample_journal) = Inr st" "r \<in> set (hy_runs st)"
    "settled_run r \<and> \<not> Option.is_none (hr_exhaustion r)"
    by (rule sample_checkE [OF sample_exhausts])
  moreover from this(3) obtain x where "hr_exhaustion r = Some x" by (auto simp: Option.is_none_def)
  ultimately show ?thesis using recovery_budget_respected [of "take 9 sample_journal" st r] by fastforce
qed

text \<open>C20: giving up accounts for the whole snapshot. The committed dispositions and the released
  observations of an exhausted run partition its observations, and the run's dispositions are the
  committed ones.\<close>

theorem exhaustion_partitions_snapshot:
  assumes "reduceHarvest events = Inr st" and "r \<in> set (hy_runs st)" and "hr_exhaustion r = Some x"
  shows "distinct (map hd_occurrence (hx_committed (hn_fact x)) @ hx_released (hn_fact x)) \<and>
    set (map hd_occurrence (hx_committed (hn_fact x)) @ hx_released (hn_fact x)) = set (hr_observations r) \<and>
    hr_dispositions r = hx_committed (hn_fact x)"
proof -
  let ?part = "map hd_occurrence (hx_committed (hn_fact x)) @ hx_released (hn_fact x)"
  obtain acc where acc: "folded events = Inr acc" and st: "st = finishHarvest acc"
    using reduceHarvest_InrE [OF assms(1)] .
  have inv: "exhaustion_inv r" using reduced_run_inv [OF acc] assms(2) by (auto simp: st)
  then have "distinct (partition_keys (hn_fact x)) \<and>
      set (partition_keys (hn_fact x)) = set (map occurrenceKey (hr_observations r))"
    using assms(3) by (simp add: exhaustion_inv_def check_partition_iff)
  moreover have "partition_keys (hn_fact x) = map occurrenceKey ?part" by (simp add: partition_keys_def comp_def)
  ultimately have "distinct ?part" "occurrenceKey ` set ?part = occurrenceKey ` set (hr_observations r)"
    by (metis distinct_map, metis set_map)
  moreover have "inj occurrenceKey" by (simp add: inj_def)
  ultimately show ?thesis using inv assms(3) by (simp add: exhaustion_inv_def inj_image_eq_iff)
qed

theorem exhaustion_partitions_snapshot_witness:
  "\<exists>st r x. reduceHarvest (take 9 sample_journal) = Inr st \<and> r \<in> set (hy_runs st) \<and> hr_exhaustion r = Some x \<and>
    hr_dispositions r = hx_committed (hn_fact x)"
proof -
  obtain st r where "reduceHarvest (take 9 sample_journal) = Inr st" "r \<in> set (hy_runs st)"
    "settled_run r \<and> \<not> Option.is_none (hr_exhaustion r)"
    by (rule sample_checkE [OF sample_exhausts])
  then show ?thesis using exhaustion_partitions_snapshot by (auto simp: Option.is_none_def)
qed

section \<open>Outcomes\<close>

text \<open>C21: an outcome is final. Once a run has completed, escalated or given up, no later event of the
  journal changes its status, its dispositions, its report, its escalation or the moment it ended.\<close>

theorem outcome_is_final:
  assumes "reduceHarvest events = Inr st" and "reduceHarvest (events @ later) = Inr st'"
    and "r \<in> set (hy_runs st)" and "settled_run r"
  shows "\<exists>r' \<in> set (hy_runs st'). hr_run r' = hr_run r \<and> settled_run r' \<and> end_of_run r' = end_of_run r"
proof -
  obtain acc where acc: "folded events = Inr acc" and st: "st = finishHarvest acc"
    using reduceHarvest_InrE [OF assms(1)] .
  obtain acc' where "folded (events @ later) = Inr acc'" and st': "st' = finishHarvest acc'"
    using reduceHarvest_InrE [OF assms(2)] .
  then have fold: "try_fold harvest_event (Inr acc) (filter known_fact later) = Inr acc'"
    by (simp add: folded_append acc)
  have ids: "distinct (run_ids acc)" using folded_claims [OF acc] by blast
  have "r \<in> set (ha_runs acc)" using assms(3) by (simp add: st)
  then have at: "run_at acc (hr_run r) = Some r"
    using ids by (metis run_at_None run_at_SomeD option.exhaust run_ids_def distinct_map inj_onD)
  let ?kept = "\<lambda>a. \<exists>r'. run_at a (hr_run r) = Some r' \<and> exhaustion_inv r' \<and> settled_run r' \<and> end_of_run r' = end_of_run r"
  have "?kept acc' \<and> distinct (run_ids acc')"
  proof (rule fold_harvest_invariant [OF fold ids, where P = ?kept])
    show "?kept acc" using at assms(4) reduced_run_inv(2) [OF acc \<open>r \<in> set (ha_runs acc)\<close>] by blast
  next
    fix a e a'
    assume "?kept a" and "distinct (run_ids a)" and "harvest_event a e = Inr a'"
    then obtain r1 r2 where "run_at a (hr_run r) = Some r1" "exhaustion_inv r1" "settled_run r1"
      "end_of_run r1 = end_of_run r" "run_at a' (hr_run r) = Some r2" "evolves r1 r2"
      using grows_run_at [OF harvest_event_grows] by metis
    then show "?kept a'" using settled_step exhaustion_inv_step by metis
  qed
  then obtain r' where "run_at acc' (hr_run r) = Some r'" "settled_run r'" "end_of_run r' = end_of_run r" by blast
  then show ?thesis using run_at_SomeD by (auto simp: st')
qed

theorem outcome_is_final_witness:
  "\<exists>st. reduceHarvest (take 9 sample_journal) = Inr st \<and>
    (\<exists>r \<in> set (hy_runs st). settled_run r \<and> (\<exists>r' \<in> set (hy_runs st). end_of_run r' = end_of_run r))"
proof -
  obtain st r where sample: "reduceHarvest (take 9 sample_journal) = Inr st" "r \<in> set (hy_runs st)" "settled_run r"
    by (rule sample_checkE [OF sample_ends_early])
  then have "reduceHarvest (take 9 sample_journal @ []) = Inr st" by simp
  from outcome_is_final [OF sample(1) this sample(2,3)] sample show ?thesis by blast
qed

section \<open>Control\<close>

lemma recovery_decided:
  assumes "decideHarvestControl st policy = Inr d" and "(\<exists>i n l. d = RequestRecovery i n l) \<or> (\<exists>i n l. d = ExhaustRecovery i n l)"
  shows "policy \<noteq> 0 \<and> \<not> hy_paused st \<and> \<not> wants st PauseCommand \<and> \<not> wants st ResumeCommand \<and>
    unresolvedHarvestAttentionRuns st = [] \<and>
    (\<forall>r \<in> set (parkedHarvestRuns st). \<forall>q \<in> set (hr_recoveries r). \<not> unacknowledged q) \<and>
    (\<exists>r \<in> set (parkedHarvestRuns st). d = recovery_decision policy r)"
  using assms by (auto simp: decideHarvestControl_def list_ex_iff split: if_splits list.splits)

lemma run_at_member:
  assumes "distinct (run_ids acc)" and "r \<in> set (ha_runs acc)"
  shows "run_at acc (hr_run r) = Some r"
  using assms by (metis run_at_None run_at_SomeD option.exhaust run_ids_def distinct_map inj_onD)

lemma known_harvest: "re_body e = RHarvest h \<Longrightarrow> known_fact e"
  by (simp add: known_fact_def)

lemma folded_snoc:
  assumes "folded events = Inr acc" and "re_body e = RHarvest h"
  shows "folded (events @ [e]) =
    harvest_fact (acc\<lparr>ha_lastSeq := max (ha_lastSeq acc) (re_seq e)\<rparr>) h (re_seq e, re_ts e) (re_actor e)"
  using assms by (simp add: folded_append known_harvest harvest_event_def)

text \<open>The request the controller decides on is one the fold accepts.\<close>

lemma decided_request:
  assumes "recovery_decision policy r = RequestRecovery i attempt limit" and "isOrdinaryParkedRun r"
    and "\<forall>q \<in> set (hr_recoveries r). \<not> unacknowledged q"
  shows "request_recovery attempt limit at r = Inr (r\<lparr>hr_recoveries := hr_recoveries r @
    [\<lparr>hq_attempt = attempt, hq_limit = limit, hq_requested = at, hq_acknowledged = None\<rparr>]\<rparr>) \<and> i = hr_run r \<and>
    attempt = length (hr_recoveries r) + 1"
  using assms
  by (auto simp: recovery_decision_def appliedLimit_def request_recovery_def isOrdinaryParkedRun_def list_ex_iff Let_def
      split: if_splits list.splits)

text \<open>C18: a parked run with recovery budget left is reopened. When the controller decides on a recovery
  request, appending that request is accepted, the controller's next decision is to acknowledge it, and
  the acknowledgement leaves the run running, with as many requests recorded as attempts made.\<close>

theorem recovery_reopens_run:
  assumes "reduceHarvest events = Inr st"
    and "decideHarvestControl st policy = Inr (RequestRecovery i attempt limit)"
    and "re_body e1 = RHarvest (HRecoveryRequested i attempt limit)" and "re_body e2 = RHarvest HResumed"
  shows "\<exists>st1 st2. reduceHarvest (events @ [e1]) = Inr st1 \<and>
    decideHarvestControl st1 policy = Inr (Acknowledge ResumeCommand) \<and>
    reduceHarvest (events @ [e1, e2]) = Inr st2 \<and>
    (\<exists>r \<in> set (hy_runs st2). hr_run r = i \<and> hr_status r = HarvestRunning \<and> length (hr_recoveries r) = attempt)"
proof -
  obtain acc where acc: "folded events = Inr acc" and st: "st = finishHarvest acc"
    using reduceHarvest_InrE [OF assms(1)] .
  have ids: "distinct (run_ids acc)" using folded_claims [OF acc] by blast
  from recovery_decided [OF assms(2)] obtain r where dec: "policy \<noteq> 0" "\<not> hy_paused st" "\<not> wants st PauseCommand"
    "\<not> wants st ResumeCommand" "unresolvedHarvestAttentionRuns st = []" "r \<in> set (parkedHarvestRuns st)"
    "recovery_decision policy r = RequestRecovery i attempt limit"
    and acked: "\<forall>q \<in> set (hr_recoveries r). \<not> unacknowledged q" by force
  have r: "r \<in> set (ha_runs acc)" "isOrdinaryParkedRun r" using dec(6) by (auto simp: parkedHarvestRuns_def st)
  let ?a = "acc\<lparr>ha_lastSeq := max (ha_lastSeq acc) (re_seq e1)\<rparr>"
  let ?q = "\<lparr>hq_attempt = attempt, hq_limit = limit, hq_requested = (re_seq e1, re_ts e1), hq_acknowledged = None\<rparr>"
  let ?r1 = "r\<lparr>hr_recoveries := hr_recoveries r @ [?q]\<rparr>"
  let ?acc1 = "put_run ?a ?r1"
  note req = decided_request [OF dec(7) r(2) acked, of "(re_seq e1, re_ts e1)"]
  have at: "run_at ?a i = Some r" using run_at_member [OF ids r(1)] req by (simp add: run_at_def)
  then have one: "folded (events @ [e1]) = Inr ?acc1"
    unfolding folded_snoc [OF acc assms(3)] harvest_fact.simps edit_run_Inr using req by blast
  have parked1: "isOrdinaryParkedRun ?r1" "list_ex unacknowledged (hr_recoveries ?r1)"
    using r(2) by (auto simp: isOrdinaryParkedRun_def unacknowledged_def)
  have mem1: "?r1 \<in> set (ha_runs ?acc1)" using r(1) by (auto simp: put_run_def)
  let ?st1 = "finishHarvest ?acc1"
  have "decideHarvestControl ?st1 policy = Inr (Acknowledge ResumeCommand)"
  proof -
    have same: "ha_paused ?acc1 = hy_paused st" "wants ?st1 = wants st"
      by (auto simp: st put_run_def wants_def [abs_def] finishHarvest_def)
    have "\<not> hasUnresolvedExhaustion x" if "x \<in> set (ha_runs ?acc1)" for x
    proof (cases "x = ?r1")
      case True
      then show ?thesis using r(2) by (simp add: hasUnresolvedExhaustion_def isOrdinaryParkedRun_def)
    next
      case False
      then have "x \<in> set (ha_runs acc)" using that by (auto simp: put_run_def split: if_splits)
      then show ?thesis using dec(5) by (simp add: unresolvedHarvestAttentionRuns_def st filter_empty_conv)
    qed
    then have "unresolvedHarvestAttentionRuns ?st1 = []" by (simp add: unresolvedHarvestAttentionRuns_def filter_empty_conv)
    moreover have "list_ex (\<lambda>r. list_ex unacknowledged (hr_recoveries r)) (parkedHarvestRuns ?st1)"
    proof -
      have "?r1 \<in> set (parkedHarvestRuns ?st1)" using parked1(1) mem1 by (simp add: parkedHarvestRuns_def)
      then show ?thesis using parked1(2) unfolding list_ex_iff [of _ "parkedHarvestRuns ?st1"] by blast
    qed
    ultimately show ?thesis using dec(1-4) by (simp add: decideHarvestControl_def same)
  qed
  moreover have "folded (events @ [e1, e2]) = Inr (harvest_resumed
      (?acc1\<lparr>ha_lastSeq := max (ha_lastSeq ?acc1) (re_seq e2)\<rparr>) (re_seq e2, re_ts e2))"
    using folded_snoc [OF one assms(4)] by simp
  moreover have "\<exists>x \<in> set (map (resume_run human at) (ha_runs ?acc1)).
      hr_run x = i \<and> hr_status x = HarvestRunning \<and> length (hr_recoveries x) = attempt" for human at
  proof (rule bexI)
    show "resume_run human at ?r1 \<in> set (map (resume_run human at) (ha_runs ?acc1))" using mem1 by (simp add: image_iff) blast
    show "hr_run (resume_run human at ?r1) = i \<and> hr_status (resume_run human at ?r1) = HarvestRunning \<and>
        length (hr_recoveries (resume_run human at ?r1)) = attempt"
      using parked1 req by (simp add: resume_run_def isOrdinaryParkedRun_def Let_def)
  qed
  ultimately show ?thesis
    using one by (auto simp: reduceHarvest_folded harvest_resumed_def)
qed

theorem recovery_reopens_run_witness:
  "\<exists>st. reduceHarvest (take 2 sample_journal @
       [sample_event 3 (HRecoveryRequested sample_run 1 2), sample_event 4 HResumed]) = Inr st \<and>
     (\<exists>r \<in> set (hy_runs st). hr_status r = HarvestRunning)"
proof -
  obtain st where sample: "reduceHarvest (take 2 sample_journal) = Inr st"
    "decideHarvestControl st 2 = Inr (RequestRecovery sample_run 1 2)"
    by (rule sample_checkE [OF sample_failed])
  have body: "re_body (sample_event n h) = RHarvest h" for n h by (simp add: sample_event_def)
  show ?thesis using recovery_reopens_run [OF sample body body] by blast
qed

text \<open>the controller gives up only on a spent budget, and the fold agrees. When it decides to exhaust a
  run, the attempts it names are the applied limit, and an exhaustion recorded with those numbers and
  the boundary the run failed at passes every check on the run.\<close>

lemma exhaustion_is_accepted:
  assumes "reduceHarvest events = Inr st"
    and "decideHarvestControl st policy = Inr (ExhaustRecovery i attempts limit)"
    and "hx_run p = i" and "hx_attempts p = attempts" and "hx_limit p = limit"
  shows "attempts = limit \<and>
    (\<exists>r \<in> set (hy_runs st). hr_run r = i \<and>
       (\<exists>f seq. hr_failure r = Some (f, seq) \<and> (boundary_matches p f \<longrightarrow> check_stopped p r = Inr ())))"
proof -
  obtain acc where acc: "folded events = Inr acc" and st: "st = finishHarvest acc"
    using reduceHarvest_InrE [OF assms(1)] .
  from recovery_decided [OF assms(2)] obtain r where dec: "policy \<noteq> 0" "r \<in> set (parkedHarvestRuns st)"
    "recovery_decision policy r = ExhaustRecovery i attempts limit"
    and acked: "\<forall>q \<in> set (hr_recoveries r). \<not> unacknowledged q" by force
  have r: "r \<in> set (ha_runs acc)" "isOrdinaryParkedRun r" using dec(2) by (auto simp: parkedHarvestRuns_def st)
  from reduced_run_inv [OF acc r(1)] have inv: "recovery_inv r" "exhaustion_inv r" .
  have d: "hr_run r = i" "attempts = length (hr_recoveries r)" "limit = appliedLimit policy r" "\<not> attempts < limit"
    using dec(3) by (auto simp: recovery_decision_def Let_def split: if_splits)
  obtain l where l: "length (hr_recoveries r) \<le> l" "map hq_limit (hr_recoveries r) = replicate (length (hr_recoveries r)) l"
    using inv(1) unfolding recovery_inv_def by blast
  have some: "hr_recoveries r \<noteq> []" using d dec(1) by (auto simp: appliedLimit_def)
  then have "limit = l" using l(2) d(3) by (cases "hr_recoveries r") (auto simp: appliedLimit_def)
  then have eq: "attempts = limit" using l(1) d(2,4) by simp
  have limits: "\<forall>q \<in> set (hr_recoveries r). hq_limit q = limit"
    using l(2) \<open>limit = l\<close> by (metis in_set_replicate list.set_map imageI)
  obtain f seq where f: "hr_failure r = Some (f, seq)"
    using inv(2) r(2) by (auto simp: exhaustion_inv_def isOrdinaryParkedRun_def)
  have "boundary_matches p f \<longrightarrow> check_stopped p r = Inr ()"
    using f r(2) assms(3-5) d(2) eq limits acked by (simp add: check_stopped_Inr isOrdinaryParkedRun_def)
  then show ?thesis using eq r(1) d(1) f by (auto simp: st)
qed

lemma exhaustion_is_accepted_witness:
  "\<exists>st. reduceHarvest (take 8 sample_journal) = Inr st \<and>
    (\<exists>r \<in> set (hy_runs st). hr_run r = sample_run \<and> hr_failure r \<noteq> None)"
proof -
  obtain st where sample: "reduceHarvest (take 8 sample_journal) = Inr st"
    "decideHarvestControl st 2 = Inr (ExhaustRecovery sample_run 2 2)"
    by (rule sample_checkE [OF sample_spent])
  have "hx_run sample_exhausted = sample_run" "hx_attempts sample_exhausted = 2" "hx_limit sample_exhausted = 2"
    by (simp_all add: sample_exhausted_def)
  from exhaustion_is_accepted [OF sample this] sample show ?thesis by auto
qed

section \<open>Creations withheld from a ready scan\<close>

definition keyed :: "(string, creation) jsmap \<Rightarrow> bool" where
  "keyed m \<longleftrightarrow> (\<forall>(k, c) \<in> set m. k = creation_key (ct_run c) (ct_proposalKey c)) \<and> distinct (map fst m)"

abbreviation key_of :: "creation \<Rightarrow> string" where
  "key_of c \<equiv> creation_key (ct_run c) (ct_proposalKey c)"

lemma keyed_set_creation:
  assumes "keyed m"
  shows "keyed (set_creation m c)" and "fst ` set (set_creation m c) = insert (key_of c) (fst ` set m)"
    and "snd ` set (set_creation m c) \<subseteq> insert c (snd ` set m)"
proof -
  have sub: "set (set_creation m c) \<subseteq> insert (key_of c, c) (set m)"
    unfolding set_creation_def by (induction m) auto
  then show "keyed (set_creation m c)"
    using assms unfolding keyed_def set_creation_def by (auto simp: distinct_update)
  show "fst ` set (set_creation m c) = insert (key_of c) (fst ` set m)"
    unfolding set_creation_def by (induction m) auto
  show "snd ` set (set_creation m c) \<subseteq> insert c (snd ` set m)" using sub by auto
qed

lemma keyed_all:
  assumes "keyed m"
  shows "keyed (foldl set_creation m cs) \<and> fst ` set (foldl set_creation m cs) = fst ` set m \<union> key_of ` set cs \<and>
    snd ` set (foldl set_creation m cs) \<subseteq> snd ` set m \<union> set cs"
  using assms
proof (induction cs arbitrary: m)
  case (Cons c cs)
  note ih = Cons.IH [OF keyed_set_creation(1) [OF Cons.prems], of c]
  have keys: "fst ` set (foldl set_creation m (c # cs)) = fst ` set m \<union> key_of ` set (c # cs)"
    using ih keyed_set_creation(2) [OF Cons.prems, of c] by (simp only: foldl_Cons list.set image_insert) blast
  have "snd ` set (foldl set_creation m (c # cs)) \<subseteq> snd ` set m \<union> set (c # cs)"
    using ih keyed_set_creation(3) [OF Cons.prems, of c] by (simp only: foldl_Cons list.set) blast
  with ih keys show ?case by (simp only: foldl_Cons simp_thms)
qed simp


text \<open>The second pass: a reservation is added when it is new since the first scan and not yet known.\<close>

definition new_since :: "nat \<Rightarrow> string list \<Rightarrow> creation \<Rightarrow> bool" where
  "new_since since known c \<longleftrightarrow> key_of c \<notin> set known \<and> since < ct_reservationSeq c"

lemma keyed_noted:
  assumes "keyed m"
  shows "case foldl (note_reservation since) (known, m) cs of (known', m') \<Rightarrow>
    keyed m' \<and> fst ` set m' = fst ` set m \<union> key_of ` {c \<in> set cs. new_since since known c} \<and>
    snd ` set m' \<subseteq> snd ` set m \<union> {c \<in> set cs. since < ct_reservationSeq c}"
  using assms
proof (induction cs arbitrary: known m)
  case (Cons c cs)
  show ?case
  proof (cases "new_since since known c")
    case True
    then have step: "note_reservation since (known, m) c = (set_add (key_of c) known, set_creation m c)"
      by (simp add: note_reservation_def new_since_def Let_def)
    have known: "new_since since (set_add (key_of c) known) x \<longleftrightarrow> new_since since known x \<and> key_of x \<noteq> key_of c" for x
      by (auto simp: new_since_def)
    have "key_of ` {x \<in> set (c # cs). new_since since known x} =
        insert (key_of c) (key_of ` {x \<in> set cs. new_since since (set_add (key_of c) known) x})"
      using True by (auto simp: known)
    note new = this
    obtain known' m' where m': "foldl (note_reservation since) (set_add (key_of c) known, set_creation m c) cs = (known', m')"
      by (metis prod.exhaust)
    then have rest: "keyed m'" "fst ` set m' = fst ` set (set_creation m c) \<union>
          key_of ` {x \<in> set cs. new_since since (set_add (key_of c) known) x}"
        "snd ` set m' \<subseteq> snd ` set (set_creation m c) \<union> {x \<in> set cs. since < ct_reservationSeq x}"
      using Cons.IH [OF keyed_set_creation(1) [OF Cons.prems], of c "set_add (key_of c) known"] by (simp_all only: prod.case)
    have "fst ` set m' = fst ` set m \<union> key_of ` {x \<in> set (c # cs). new_since since known x}"
      unfolding rest(2) new keyed_set_creation(2) [OF Cons.prems] by simp
    moreover have "snd ` set m' \<subseteq> snd ` set m \<union> {x \<in> set (c # cs). since < ct_reservationSeq x}"
    proof (rule order_trans [OF rest(3)])
      have "insert c (snd ` set m) \<union> {x \<in> set cs. since < ct_reservationSeq x}
          \<subseteq> snd ` set m \<union> {x \<in> set (c # cs). since < ct_reservationSeq x}"
        using True by (auto simp: new_since_def)
      with keyed_set_creation(3) [OF Cons.prems, of c]
      show "snd ` set (set_creation m c) \<union> {x \<in> set cs. since < ct_reservationSeq x}
          \<subseteq> snd ` set m \<union> {x \<in> set (c # cs). since < ct_reservationSeq x}" by (rule order_trans [OF Un_mono [OF _ order_refl]])
    qed
    ultimately show ?thesis
      using rest(1) unfolding foldl_Cons step m' prod.case by (intro conjI)
  next
    case False
    then have step: "note_reservation since (known, m) c = (known, m)"
      by (auto simp: note_reservation_def new_since_def Let_def)
    have "{x \<in> set (c # cs). new_since since known x} = {x \<in> set cs. new_since since known x}" using False by auto
    then show ?thesis using Cons.IH [OF Cons.prems, of known] by (auto simp: step split: prod.splits)
  qed
qed simp


definition reservations_of :: "harvest_state \<Rightarrow> creation list" where
  "reservations_of st = concat (map (\<lambda>r. map (creation_of r) (hr_reservations r)) (hy_runs st))"

lemma reserved_keys_are: "set (reserved_keys st) = key_of ` set (reservations_of st)"
  by (force simp: reserved_keys_def reservations_of_def creation_of_def)

text \<open>C22: a ready scan withholds exactly the creations it cannot see settled. Between the journal read before
  the scan and the one read after it, the result names, once each, the proposals in flight before and the
  proposals whose reservation is later than everything read before and was not reserved before; each
  entry is the creation of one of those reservations.\<close>

theorem creations_during_scan:
  "set (map (\<lambda>c. creation_key (ct_run c) (ct_proposalKey c)) (harvestCreationsFromStates before after)) =
     (\<lambda>c. creation_key (ct_run c) (ct_proposalKey c)) `
       (set (inFlightHarvestCreations before) \<union>
        {c \<in> set (reservations_of after). hy_lastSeq before < ct_reservationSeq c \<and>
           creation_key (ct_run c) (ct_proposalKey c) \<notin> set (reserved_keys before)}) \<and>
   distinct (map (\<lambda>c. creation_key (ct_run c) (ct_proposalKey c)) (harvestCreationsFromStates before after)) \<and>
   set (harvestCreationsFromStates before after) \<subseteq>
     set (inFlightHarvestCreations before) \<union> {c \<in> set (reservations_of after). hy_lastSeq before < ct_reservationSeq c}"
proof -
  let ?m = "foldl set_creation [] (inFlightHarvestCreations before)"
  let ?known = "set_of_list (reserved_keys before)"
  obtain known' m' where m': "foldl (note_reservation (hy_lastSeq before)) (?known, ?m) (reservations_of after) = (known', m')"
    by (metis prod.exhaust)
  have "keyed []" by (simp add: keyed_def)
  note first = keyed_all [OF this, of "inFlightHarvestCreations before"]
  have noted: "keyed m'" "fst ` set m' = fst ` set ?m \<union>
        key_of ` {c \<in> set (reservations_of after). new_since (hy_lastSeq before) ?known c}"
    "snd ` set m' \<subseteq> snd ` set ?m \<union> {c \<in> set (reservations_of after). hy_lastSeq before < ct_reservationSeq c}"
    using keyed_noted [where m = ?m and since = "hy_lastSeq before" and known = ?known and cs = "reservations_of after"] first by (simp_all add: m')
  have result: "harvestCreationsFromStates before after = map snd m'"
    using m' by (simp add: harvestCreationsFromStates_def reservations_of_def)
  have keys: "map key_of (map snd m') = map fst m'" using noted(1) by (auto simp: keyed_def)
  have new: "new_since s ?known c \<longleftrightarrow> s < ct_reservationSeq c \<and> key_of c \<notin> set (reserved_keys before)" for s c
    by (auto simp: new_since_def set_of_list_def)
  have "set (map key_of (map snd m')) = key_of ` (set (inFlightHarvestCreations before) \<union>
      {c \<in> set (reservations_of after). hy_lastSeq before < ct_reservationSeq c \<and> key_of c \<notin> set (reserved_keys before)})"
    unfolding keys set_map noted(2) image_Un using first by (simp add: new)
  moreover have "distinct (map key_of (map snd m'))" using noted(1) unfolding keys by (simp add: keyed_def)
  moreover have "set (map snd m') \<subseteq> set (inFlightHarvestCreations before) \<union>
      {c \<in> set (reservations_of after). hy_lastSeq before < ct_reservationSeq c}"
    using noted(3) first by auto
  ultimately show ?thesis unfolding result by blast
qed

end
