(* ===== verification/TicketMigrations.thy ===== *)
theory TicketMigrations
  imports RepositoryEvents Results "HOL-Library.List_Lexorder" "HOL-Library.Char_ord"
begin

text \<open>
  Ticket continuity, \<^verbatim>\<open>packages/core/src/kernel/ticket-migrations.ts\<close>: the recorded moves of tickets from
  one source to another, the check that admits a migration, and the walk that follows a ticket to the
  source in use. A throw is a \<open>migration_error\<close>. Two refs have one key when source and id agree, so the
  key is that pair.
\<close>

datatype migration_error =
    ConflictingMigration string
  | ConflictingRoute string string
  | MigrationCycle string string
  | IdNotCovered string string string
  | SourceNotFrozen string string string

type_synonym ticket_key = "string \<times> string"

abbreviation ref_key :: "ticket_ref \<Rightarrow> ticket_key" where
  "ref_key r \<equiv> (tk_source r, tk_id r)"

section \<open>Following a ticket\<close>

definition moves :: "migration \<Rightarrow> bool" where
  "moves m \<longleftrightarrow> mg_from m \<noteq> mg_to m"

definition routes_from :: "migration list \<Rightarrow> string \<Rightarrow> migration list" where
  "routes_from st source = filter (\<lambda>m. mg_from m = source \<and> moves m) st"

definition route_of :: "migration list \<Rightarrow> ticket_ref \<Rightarrow> migration option" where
  "route_of st r = List.find (\<lambda>m. jm_has (mg_mapping m) (tk_id r)) (routes_from st (tk_source r))"

definition step_along :: "migration \<Rightarrow> ticket_ref \<Rightarrow> ticket_ref" where
  "step_along m r = r\<lparr>tk_source := mg_to m, tk_id := the (jm_get (mg_mapping m) (tk_id r))\<rparr>"

definition uncovered :: "migration list \<Rightarrow> string \<Rightarrow> ticket_ref \<Rightarrow> ticket_ref \<Rightarrow> migration_error" where
  "uncovered st build original r =
     (if routes_from st (tk_source r) \<noteq> [] then IdNotCovered build (tk_source original) (tk_id original)
      else SourceNotFrozen build (tk_source original) (tk_id original))"

definition routed_keys :: "migration list \<Rightarrow> ticket_key set" where
  "routed_keys st = (\<Union>m \<in> set st. (\<lambda>i. (mg_from m, i)) ` fst ` set (mg_mapping m))"

lemma finite_routed_keys [simp]: "finite (routed_keys st)"
  by (simp add: routed_keys_def)

lemma route_of_SomeD:
  assumes "route_of st r = Some m"
  shows "m \<in> set st" "mg_from m = tk_source r" "moves m" "jm_has (mg_mapping m) (tk_id r)"
  using assms unfolding route_of_def routes_from_def find_Some_iff by (auto dest!: nth_mem)

lemma route_of_routed: "route_of st r = Some m \<Longrightarrow> ref_key r \<in> routed_keys st"
  using route_of_SomeD [of st r m] by (auto simp: routed_keys_def map_of_eq_None_iff image_iff) force

lemma fewer_keys:
  assumes "route_of st r = Some m" and "ref_key r \<notin> set visited"
  shows "card (routed_keys st - insert (ref_key r) (set visited)) < card (routed_keys st - set visited)"
proof (rule psubset_card_mono)
  have "ref_key r \<in> routed_keys st - set visited" using assms route_of_routed by simp
  then show "routed_keys st - insert (ref_key r) (set visited) \<subset> routed_keys st - set visited" by blast
qed simp

function walk_from ::
  "migration list \<Rightarrow> string option \<Rightarrow> string \<Rightarrow> ticket_ref \<Rightarrow> ticket_key list \<Rightarrow> ticket_ref \<Rightarrow> migration_error + ticket_ref"
where
  "walk_from st dest build original visited r =
     (if Some (tk_source r) = dest then Inr r
      else if ref_key r \<in> set visited then Inl (MigrationCycle (tk_source r) (tk_id r))
      else case route_of st r of
             None \<Rightarrow> if dest = None then Inr r else Inl (uncovered st build original r)
           | Some m \<Rightarrow>
               if mg_to m = tk_source r \<and> jm_get (mg_mapping m) (tk_id r) = Some (tk_id r) then Inr r
               else walk_from st dest build original (ref_key r # visited) (step_along m r))"
  by pat_completeness auto
termination
  by (relation "measure (\<lambda>(st, _, _, _, visited, _). card (routed_keys st - set visited))")
    (auto dest: fewer_keys)

declare walk_from.simps [simp del]

definition walk :: "migration list \<Rightarrow> ticket_ref \<Rightarrow> string option \<Rightarrow> string \<Rightarrow> migration_error + ticket_ref" where
  "walk st original dest build = walk_from st dest build original [] original"

section \<open>Recording a migration\<close>

definition entry_text :: "string \<times> string \<Rightarrow> string" where
  "entry_text = (\<lambda>(i, j). i @ '','' @ j)"

text \<open>\<^verbatim>\<open>Object.entries(mapping).sort()\<close> sorts by the text of an entry, stably.\<close>

definition stable :: "migration \<Rightarrow> string \<times> string \<times> (string \<times> string) list" where
  "stable m = (mg_from m, mg_to m, sort_key entry_text (mg_mapping m))"

definition route_conflict :: "migration \<Rightarrow> migration \<Rightarrow> string \<times> string \<Rightarrow> bool" where
  "route_conflict old m = (\<lambda>(i, j).
     jm_has (mg_mapping old) i \<and> (mg_to old \<noteq> mg_to m \<or> jm_get (mg_mapping old) i \<noteq> Some j))"

definition check_routes :: "migration \<Rightarrow> migration \<Rightarrow> migration_error + unit" where
  "check_routes m old =
     (if moves old \<and> moves m \<and> mg_from old = mg_from m
      then (case List.find (route_conflict old m) (mg_mapping m) of
              Some (i, _) \<Rightarrow> Inl (ConflictingRoute (mg_from m) i)
            | None \<Rightarrow> Inr ())
      else Inr ())"

definition check_walk :: "migration list \<Rightarrow> ticket_key \<Rightarrow> migration_error + unit" where
  "check_walk st = (\<lambda>(source, i).
     map_result (\<lambda>_. ()) (walk st \<lparr>tk_source = source, tk_id = i, tk_url = None, tk_title = None\<rparr> None ''unknown''))"

definition starts :: "migration list \<Rightarrow> ticket_key list" where
  "starts st = concat (map (\<lambda>m. map (\<lambda>(i, _). (mg_from m, i)) (mg_mapping m)) st)"

definition add_migration :: "migration list \<Rightarrow> migration \<Rightarrow> migration_error + migration list" where
  "add_migration st m =
     (case List.find (\<lambda>p. mg_identity p = mg_identity m) st of
        Some p \<Rightarrow> if stable p \<noteq> stable m then Inl (ConflictingMigration (mg_identity m)) else Inr st
      | None \<Rightarrow>
          bind_result (try_fold (\<lambda>_. check_routes m) (Inr ()) st) (\<lambda>_.
          (let st1 = st @ [m]
           in map_result (\<lambda>_. st1) (try_fold (\<lambda>_. check_walk st1) (Inr ()) (starts st1)))))"

definition migration_step :: "migration list \<Rightarrow> repository_event \<Rightarrow> migration_error + migration list" where
  "migration_step st e = (case re_body e of RMigration m \<Rightarrow> add_migration st m | _ \<Rightarrow> Inr st)"

definition ticketMigrationsReducer ::
  "(migration_error + migration list, repository_event, migration_error + migration list) reducer" where
  "ticketMigrationsReducer =
     \<lparr>rd_version = 1, rd_rawEvents = False, rd_initial = Inr [], rd_fold = try_fold migration_step, rd_finish = id\<rparr>"

interpretation migrations: journal_reducer ticketMigrationsReducer
  by unfold_locales (simp_all add: ticketMigrationsReducer_def)

abbreviation reduceMigrations :: "repository_event list \<Rightarrow> migration_error + migration list" where
  "reduceMigrations events \<equiv> reduce_journal ticketMigrationsReducer events"

text \<open>\<^verbatim>\<open>recordTicketMigration\<close>: the fact it appends, if the migration is new.\<close>

definition recordTicketMigration :: "migration list \<Rightarrow> migration \<Rightarrow> migration_error + migration option" where
  "recordTicketMigration st m =
     map_result (\<lambda>_. if list_ex (\<lambda>p. mg_identity p = mg_identity m) st then None else Some m) (add_migration st m)"

section \<open>Resolving a ticket\<close>

text \<open>The two names of the hosted source.\<close>

definition hosted_source :: "string \<Rightarrow> bool" where
  "hosted_source d \<longleftrightarrow> d = ''hosted'' \<or> d = ''database''"

definition compatible_ref :: "ticket_ref \<Rightarrow> string \<Rightarrow> ticket_ref" where
  "compatible_ref r d = (if tk_source r = ''database'' \<and> hosted_source d then r\<lparr>tk_source := ''hosted''\<rparr> else r)"

definition resolveTicketRef :: "migration list \<Rightarrow> ticket_ref \<Rightarrow> string \<Rightarrow> string \<Rightarrow> migration_error + ticket_ref" where
  "resolveTicketRef st r d build =
     map_result (\<lambda>r'. if d = ''database'' then r'\<lparr>tk_source := ''database''\<rparr> else r')
       (walk st (compatible_ref r d) (Some (if d = ''database'' then ''hosted'' else d)) build)"

definition migrationIdentity :: "migration list \<Rightarrow> string \<Rightarrow> ticket_ref \<Rightarrow> string \<Rightarrow> migration_error + ticket_key" where
  "migrationIdentity st d r build =
     (case resolveTicketRef st r d build of
        Inr r' \<Rightarrow> Inr (ref_key r')
      | Inl x \<Rightarrow> if list_ex (\<lambda>m. mg_from m = tk_source r \<and> moves m) st then Inl x else Inr (ref_key r))"

definition historicalTicketIdentity :: "migration list \<Rightarrow> string \<Rightarrow> ticket_ref \<Rightarrow> string \<Rightarrow> ticket_key" where
  "historicalTicketIdentity st d r build =
     (case migrationIdentity st d r build of Inr k \<Rightarrow> k | Inl _ \<Rightarrow> ref_key r)"

end
