(* ===== verification/TicketContinuity.thy ===== *)
theory TicketContinuity
  imports TicketMigrations
begin

text \<open>
  What the journal of migrations promises of a resolution: it ends, in the source asked for, without a
  cycle; no later migration changes it; and it does not depend on the order of the journal.
\<close>

section \<open>One step\<close>

lemma route_of_cong: "ref_key r = ref_key r' \<Longrightarrow> route_of st r = route_of st r'"
  by (simp add: route_of_def)

lemma step_along_key [simp]: "ref_key (step_along m r) = (mg_to m, the (jm_get (mg_mapping m) (tk_id r)))"
  by (simp add: step_along_def)

lemma find_append: "List.find P (xs @ ys) = (case List.find P xs of None \<Rightarrow> List.find P ys | Some x \<Rightarrow> Some x)"
  by (induction xs) simp_all

lemma route_of_append: "route_of st r = Some m \<Longrightarrow> route_of (st @ ext) r = Some m"
  by (simp add: route_of_def routes_from_def find_append)

lemma try_unit_iff: "try_fold (\<lambda>_. f) (Inr ()) xs = Inr u \<longleftrightarrow> (\<forall>x \<in> set xs. f x = Inr ())"
proof (induction xs)
  case (Cons x xs)
  then show ?case by (cases "f x") auto
qed simp

section \<open>The walk\<close>

lemma walk_source:
  "walk_from st (Some d) build original visited r = Inr r' \<Longrightarrow> tk_source r' = d"
proof (induction st "Some d" build original visited r rule: walk_from.induct)
  case (1 st build original visited r)
  show ?case
  proof (cases "route_of st r")
    case None
    then show ?thesis using 1(2) by (subst (asm) walk_from.simps) (auto split: if_splits)
  next
    case (Some m)
    then have "mg_to m \<noteq> tk_source r" using route_of_SomeD [OF Some] by (auto simp: moves_def)
    then show ?thesis using 1 Some by (subst (asm) (2) walk_from.simps) (auto split: if_splits)
  qed
qed

text \<open>A walk to a destination that meets a cycle meets it as well without one.\<close>

lemma cycle_without_destination:
  assumes "walk_from st dest build original visited r = Inl (MigrationCycle s i)" and "ref_key r = ref_key r'"
  shows "walk_from st None build' original' visited r' = Inl (MigrationCycle s i)"
  using assms
proof (induction st dest build original visited r arbitrary: r' rule: walk_from.induct)
  case (1 st dest build original visited r)
  have same: "route_of st r' = route_of st r" using route_of_cong 1(3) by metis
  have go: "Some (tk_source r) \<noteq> dest" using 1(2) by (subst (asm) walk_from.simps) (auto split: if_splits)
  show ?case
  proof (cases "ref_key r \<in> set visited")
    case True
    then show ?thesis using 1(2,3) go by (simp add: walk_from.simps [of st _ _ _ visited])
  next
    case False
    show ?thesis
    proof (cases "route_of st r")
      case None
      then show ?thesis using 1(2) go False
        by (simp add: walk_from.simps [of st dest _ _ visited] uncovered_def split: if_splits)
    next
      case (Some m)
      have further: "\<not> (mg_to m = tk_source r \<and> jm_get (mg_mapping m) (tk_id r) = Some (tk_id r))"
        using 1(2) go False Some by (auto simp: walk_from.simps [of st dest _ _ visited])
      then have step: "walk_from st dest build original (ref_key r # visited) (step_along m r) = Inl (MigrationCycle s i)"
        using 1(2) go False Some by (simp add: walk_from.simps [of st dest _ _ visited] split: if_splits)
      have "ref_key (step_along m r) = ref_key (step_along m r')" using 1(3) by simp
      from 1(1) [OF go False Some further step this]
      show ?thesis using same Some False further 1(3) by (simp add: walk_from.simps [of st None _ _ visited])
    qed
  qed
qed

lemma walk_error:
  "walk_from st dest build original visited r = Inl x \<Longrightarrow>
   \<exists>s i. x = MigrationCycle s i \<or> x = IdNotCovered build s i \<or> x = SourceNotFrozen build s i"
proof (induction st dest build original visited r rule: walk_from.induct)
  case (1 st dest build original visited r)
  show ?case
  proof (cases "\<exists>m. Some (tk_source r) \<noteq> dest \<and> ref_key r \<notin> set visited \<and> route_of st r = Some m \<and>
      \<not> (mg_to m = tk_source r \<and> jm_get (mg_mapping m) (tk_id r) = Some (tk_id r))")
    case True
    then obtain m where m: "Some (tk_source r) \<noteq> dest" "ref_key r \<notin> set visited" "route_of st r = Some m"
      "\<not> (mg_to m = tk_source r \<and> jm_get (mg_mapping m) (tk_id r) = Some (tk_id r))" by blast
    then have "walk_from st dest build original (ref_key r # visited) (step_along m r) = Inl x"
      using 1(2) by (simp add: walk_from.simps [of st _ _ _ visited] split: if_splits)
    then show ?thesis using 1(1) [OF m] by blast
  next
    case False
    then show ?thesis using 1(2)
      by (auto simp: walk_from.simps [of st _ _ _ visited] uncovered_def split: if_splits option.splits)
  qed
qed

lemma walk_survives:
  "walk_from st (Some d) build original visited r = Inr r' \<Longrightarrow>
   walk_from (st @ ext) (Some d) build original visited r = Inr r'"
proof (induction st "Some d" build original visited r rule: walk_from.induct)
  case (1 st build original visited r)
  show ?case
  proof (cases "Some (tk_source r) = Some d \<or> route_of st r = None")
    case True
    then show ?thesis using 1(2) by (auto simp: walk_from.simps [of _ "Some d" _ _ visited] split: if_splits)
  next
    case False
    then obtain m where m: "route_of st r = Some m" by auto
    note m' = route_of_append [OF m, of ext]
    have fresh: "ref_key r \<notin> set visited"
      using 1(2) False by (auto simp: walk_from.simps [of st _ _ _ visited] split: if_splits)
    have "mg_to m \<noteq> tk_source r" using route_of_SomeD [OF m] by (auto simp: moves_def)
    then show ?thesis
      using 1(1) [of m] 1(2) False m m' fresh by (simp add: walk_from.simps [of _ _ _ _ visited])
  qed
qed

section \<open>The recorded migrations\<close>

definition clear_routes :: "migration list \<Rightarrow> bool" where
  "clear_routes st \<longleftrightarrow> (\<forall>k \<in> set (starts st). check_walk st k = Inr ())"

definition agree :: "migration \<Rightarrow> migration \<Rightarrow> bool" where
  "agree old m \<longleftrightarrow> (moves old \<and> moves m \<and> mg_from old = mg_from m \<longrightarrow>
     (\<forall>(i, j) \<in> set (mg_mapping m). \<not> route_conflict old m (i, j)))"

definition routes_agree :: "migration list \<Rightarrow> bool" where
  "routes_agree st \<longleftrightarrow> (\<forall>i < length st. \<forall>j < i. agree (st ! j) (st ! i))"

lemma check_routes_iff: "check_routes m old = Inr () \<longleftrightarrow> agree old m"
  by (auto simp: check_routes_def agree_def find_None_iff split: option.splits prod.splits if_splits dest!: find_SomeD)

lemma add_migration_cases:
  assumes "add_migration st m = Inr st'"
  obtains "st' = st" | "st' = st @ [m]" and "\<forall>old \<in> set st. agree old m" and "clear_routes st'"
proof (cases "List.find (\<lambda>p. mg_identity p = mg_identity m) st")
  case None
  then have "st' = st @ [m]" "\<forall>old \<in> set st. agree old m" "clear_routes (st @ [m])"
    using assms by (auto simp: add_migration_def bind_result_Inr_iff map_result_Inr_iff Let_def try_unit_iff
        check_routes_iff clear_routes_def)
  then show thesis using that(2) by simp
next
  case (Some p)
  then show thesis using assms that(1) by (simp add: add_migration_def split: if_splits)
qed

definition migrations_inv :: "migration list \<Rightarrow> bool" where
  "migrations_inv st \<longleftrightarrow> clear_routes st \<and> routes_agree st"

lemma add_migration_inv:
  assumes "migrations_inv st" and "add_migration st m = Inr st'"
  shows "migrations_inv st'"
  using assms(2)
proof (cases rule: add_migration_cases)
  case 2
  then have "routes_agree st'"
    using assms(1) by (auto simp: migrations_inv_def routes_agree_def nth_append less_Suc_eq)
  with 2 show ?thesis by (simp add: migrations_inv_def)
qed (use assms in simp)

lemma reduceMigrations_fold: "reduceMigrations events = try_fold migration_step (Inr []) (filter known_fact events)"
  by (simp add: reduce_journal_def journal_events_def ticketMigrationsReducer_def)

lemma migrations_reduced:
  assumes "reduceMigrations events = Inr st"
  shows "migrations_inv st"
proof (rule try_fold_invariant [where P = migrations_inv])
  show "try_fold migration_step (Inr []) (filter known_fact events) = Inr st"
    using assms by (simp add: reduceMigrations_fold)
  show "migrations_inv []" by (simp add: migrations_inv_def clear_routes_def starts_def routes_agree_def)
  show "migrations_inv b" if "migrations_inv a" and "migration_step a e = Inr b" for a e b
    using that add_migration_inv by (auto simp: migration_step_def split: repository_body.splits)
qed

lemma reduced_extends:
  assumes "reduceMigrations xs = Inr st" and "reduceMigrations (xs @ ys) = Inr st'"
  obtains ext where "st' = st @ ext"
proof -
  have "\<exists>ext. st' = st @ ext"
  proof (rule try_fold_invariant [where P = "\<lambda>b. \<exists>ext. b = st @ ext"])
    show "try_fold migration_step (Inr st) (filter known_fact ys) = Inr st'"
      using assms by (simp add: reduceMigrations_fold)
    show "\<exists>ext. b = st @ ext" if kept: "\<exists>ext. a = st @ ext" and step: "migration_step a e = Inr b" for a e b
    proof -
      obtain ext where a: "a = st @ ext" using kept by blast
      show ?thesis
      proof (cases "re_body e")
        case (RMigration m)
        then have "add_migration a m = Inr b" using step by (simp add: migration_step_def)
        then show ?thesis by (cases rule: add_migration_cases) (auto simp: a)
      qed (use step a in \<open>auto simp: migration_step_def\<close>)
    qed
  qed simp
  then show thesis using that by blast
qed

section \<open>A sample journal\<close>

text \<open>A ticket moves twice.\<close>

definition sample_moves :: "migration list" where
  "sample_moves =
     [\<lparr>mg_identity = ''m1'', mg_from = ''files'', mg_to = ''linear'', mg_mapping = [(''7'', ''AUT-1'')]\<rparr>,
      \<lparr>mg_identity = ''m2'', mg_from = ''linear'', mg_to = ''hosted'', mg_mapping = [(''AUT-1'', ''41''), (''AUT-2'', ''42'')]\<rparr>]"

definition migration_event :: "nat \<Rightarrow> migration \<Rightarrow> repository_event" where
  "migration_event n m = \<lparr>re_seq = n, re_ts = 0, re_actor = Kernel, re_body = RMigration m\<rparr>"

definition sample_ticket :: ticket_ref where
  "sample_ticket = \<lparr>tk_source = ''files'', tk_id = ''7'', tk_url = None, tk_title = None\<rparr>"

lemma sample_journal_accepted:
  "reduceMigrations (map2 migration_event [1, 2] sample_moves) = Inr sample_moves"
  "reduceMigrations (map2 migration_event [2, 1] (rev sample_moves)) = Inr (rev sample_moves)"
  "reduceMigrations (map2 migration_event [1] sample_moves) = Inr (take 1 sample_moves)"
  by code_simp+

section \<open>Properties\<close>

lemma route_of_starts: "route_of st r = Some m \<Longrightarrow> ref_key r \<in> set (starts st)"
  using route_of_SomeD [of st r m] by (force simp: starts_def map_of_eq_None_iff)

lemma no_cycle:
  assumes "clear_routes st"
  shows "walk_from st dest build original [] r \<noteq> Inl (MigrationCycle s i)"
proof
  assume cycle: "walk_from st dest build original [] r = Inl (MigrationCycle s i)"
  let ?r = "\<lparr>tk_source = tk_source r, tk_id = tk_id r, tk_url = None, tk_title = None\<rparr>"
  have bad: "walk_from st None ''unknown'' ?r [] ?r = Inl (MigrationCycle s i)"
    using cycle_without_destination [OF cycle] by simp
  show False
  proof (cases "route_of st r")
    case None
    then show ?thesis using cycle by (auto simp: walk_from.simps [of st] uncovered_def split: if_splits)
  next
    case (Some m)
    then have "check_walk st (ref_key r) = Inr ()" using assms route_of_starts unfolding clear_routes_def by blast
    then show ?thesis using bad by (simp add: check_walk_def walk_def)
  qed
qed

text \<open>C25: a ticket's route never turns in a circle. Over the migrations of a journal that was accepted,
  resolving any ticket for any source ends in a ticket of that source or in an error naming a gap in
  the evidence, never in a cycle; and resolving the result again gives it back.\<close>

theorem resolution_ends:
  assumes "reduceMigrations events = Inr st"
  shows "(\<exists>r'. resolveTicketRef st r d build = Inr r' \<and> tk_source r' = d \<and> resolveTicketRef st r' d build' = Inr r') \<or>
    (\<exists>s i. resolveTicketRef st r d build = Inl (IdNotCovered build s i)) \<or>
    (\<exists>s i. resolveTicketRef st r d build = Inl (SourceNotFrozen build s i))"
proof -
  let ?d = "if d = ''database'' then ''hosted'' else d"
  note clear = migrations_reduced [OF assms, unfolded migrations_inv_def, THEN conjunct1]
  show ?thesis
  proof (cases "walk st (compatible_ref r d) (Some ?d) build")
    case (Inr r')
    then have source: "tk_source r' = ?d" using walk_source unfolding walk_def by blast
    let ?r = "if d = ''database'' then r'\<lparr>tk_source := ''database''\<rparr> else r'"
    have "compatible_ref ?r d = r'" using source by (auto simp: compatible_ref_def hosted_source_def)
    moreover have "walk st r' (Some ?d) build' = Inr r'" using source by (simp add: walk_def walk_from.simps [of st])
    ultimately have "resolveTicketRef st ?r d build' = Inr ?r" by (simp add: resolveTicketRef_def)
    then show ?thesis using Inr source by (auto simp: resolveTicketRef_def)
  next
    case (Inl x)
    have "\<exists>s i. x = IdNotCovered build s i \<or> x = SourceNotFrozen build s i"
      using Inl walk_error [of st "Some ?d" build] no_cycle [OF clear] unfolding walk_def by blast
    then show ?thesis using Inl by (auto simp: resolveTicketRef_def)
  qed
qed

theorem resolution_ends_witness:
  "\<exists>r'. resolveTicketRef sample_moves sample_ticket ''database'' ''b'' = Inr r' \<and> tk_source r' = ''database'' \<and> tk_id r' = ''41''"
proof -
  have "resolveTicketRef sample_moves sample_ticket ''database'' ''b'' =
      Inr (sample_ticket\<lparr>tk_source := ''database'', tk_id := ''41''\<rparr>)" by code_simp
  with resolution_ends [OF sample_journal_accepted(1), of sample_ticket "''database''" "''b''" "''b''"]
  show ?thesis by auto
qed

text \<open>C24: continuity is never rewritten. Once a ticket resolves for a source, it resolves to the same ticket
  over every longer journal that is accepted.\<close>

theorem resolution_is_stable:
  assumes "reduceMigrations events = Inr st" and "reduceMigrations (events @ later) = Inr st'"
    and "resolveTicketRef st r d build = Inr r'"
  shows "resolveTicketRef st' r d build = Inr r'"
proof -
  obtain ext where "st' = st @ ext" using reduced_extends [OF assms(1,2)] .
  then show ?thesis using assms(3) walk_survives
    by (auto simp: resolveTicketRef_def walk_def map_result_Inr_iff)
qed


theorem resolution_is_stable_witness:
  "resolveTicketRef sample_moves sample_ticket ''linear'' ''b'' = Inr (sample_ticket\<lparr>tk_source := ''linear'', tk_id := ''AUT-1''\<rparr>)"
proof (rule resolution_is_stable [OF sample_journal_accepted(3)])
  show "reduceMigrations (map2 migration_event [1] sample_moves @ [migration_event 2 (sample_moves ! 1)]) = Inr sample_moves"
    by code_simp
  show "resolveTicketRef (take 1 sample_moves) sample_ticket ''linear'' ''b'' =
      Inr (sample_ticket\<lparr>tk_source := ''linear'', tk_id := ''AUT-1''\<rparr>)" by code_simp
qed

section \<open>Order\<close>

lemma agreeing_routes:
  assumes "routes_agree st" and "m \<in> set st" and "m' \<in> set st" and "moves m" and "moves m'"
    and "mg_from m = mg_from m'" and "jm_has (mg_mapping m) i" and "jm_has (mg_mapping m') i"
  shows "mg_to m = mg_to m' \<and> jm_get (mg_mapping m) i = jm_get (mg_mapping m') i"
proof -
  have one: "mg_to old = mg_to new \<and> jm_get (mg_mapping old) i = jm_get (mg_mapping new) i"
    if a: "agree old new" "moves old" "moves new" "mg_from old = mg_from new"
      "jm_has (mg_mapping old) i" "jm_has (mg_mapping new) i" for old new
  proof -
    obtain j where j: "jm_get (mg_mapping new) i = Some j" using a(6) by blast
    then have "\<not> route_conflict old new (i, j)" using a(1-4) map_of_SomeD [OF j] by (auto simp: agree_def)
    then show ?thesis using a(5) j by (simp add: route_conflict_def)
  qed
  obtain a b where ab: "a < length st" "b < length st" "st ! a = m" "st ! b = m'"
    using assms(2,3) by (metis in_set_conv_nth)
  consider "a = b" | "agree m m'" | "agree m' m"
    using assms(1) ab unfolding routes_agree_def by (metis linorder_neqE_nat)
  then show ?thesis
  proof cases
    case 1
    then show ?thesis using ab by simp
  next
    case 2
    then show ?thesis using one [OF 2 assms(4,5,6,7,8)] by blast
  next
    case 3
    then show ?thesis using one [OF 3 assms(5,4) assms(6) [symmetric] assms(8,7)] by simp
  qed
qed

lemma routes_from_set: "set st = set st' \<Longrightarrow> routes_from st x = [] \<longleftrightarrow> routes_from st' x = []"
  by (simp add: routes_from_def filter_empty_conv)

lemma route_of_None: "route_of st r = None \<longleftrightarrow>
    (\<forall>m \<in> set st. mg_from m = tk_source r \<and> moves m \<longrightarrow> \<not> jm_has (mg_mapping m) (tk_id r))"
  by (auto simp: route_of_def find_None_iff routes_from_def)

lemma walk_set:
  assumes "routes_agree st" and "set st = set st'"
  shows "walk_from st dest build original visited r = walk_from st' dest build original visited r"
  using assms
proof (induction st dest build original visited r rule: walk_from.induct)
  case (1 st dest build original visited r)
  note gap = routes_from_set [OF 1(3), of "tk_source r"]
  show ?case
  proof (cases "route_of st r")
    case None
    then have "route_of st' r = None" using 1(3) by (simp add: route_of_None)
    then show ?thesis using None gap
      by (simp add: walk_from.simps [of st _ _ _ visited] walk_from.simps [of st' _ _ _ visited] uncovered_def)
  next
    case (Some m)
    then have "route_of st' r \<noteq> None" using route_of_None [of st r] route_of_None [of st' r] 1(3) by force
    then obtain m' where m': "route_of st' r = Some m'" by auto
    have same: "mg_to m = mg_to m'" "jm_get (mg_mapping m) (tk_id r) = jm_get (mg_mapping m') (tk_id r)"
      using agreeing_routes [OF 1(2), of m m' "tk_id r"] route_of_SomeD [OF Some] route_of_SomeD [OF m'] 1(3) by auto
    then have step: "step_along m r = step_along m' r" by (simp add: step_along_def)
    show ?thesis
    proof (cases "Some (tk_source r) = dest \<or> ref_key r \<in> set visited \<or>
        mg_to m = tk_source r \<and> jm_get (mg_mapping m) (tk_id r) = Some (tk_id r)")
      case True
      then show ?thesis using Some m' same
        by (auto simp: walk_from.simps [of st _ _ _ visited] walk_from.simps [of st' _ _ _ visited])
    next
      case False
      then have ih: "walk_from st dest build original (ref_key r # visited) (step_along m r) =
          walk_from st' dest build original (ref_key r # visited) (step_along m r)"
        using 1(1) [OF _ _ Some _ 1(2,3)] by blast
      show ?thesis using False Some m' same ih step
        by (auto simp: walk_from.simps [of st _ _ _ visited] walk_from.simps [of st' _ _ _ visited])
    qed
  qed
qed

text \<open>C23: the journal's order does not matter. Two accepted journals with the same migrations resolve
  every ticket alike, with the same errors.\<close>

theorem resolution_order_independent:
  assumes "reduceMigrations events = Inr st" and "reduceMigrations events' = Inr st'" and "set st = set st'"
  shows "resolveTicketRef st r d build = resolveTicketRef st' r d build"
proof -
  have "routes_agree st" using migrations_reduced [OF assms(1)] by (simp add: migrations_inv_def)
  from walk_set [OF this assms(3)] show ?thesis by (simp add: resolveTicketRef_def walk_def)
qed

theorem resolution_order_independent_witness:
  "resolveTicketRef sample_moves sample_ticket ''hosted'' ''b'' = resolveTicketRef (rev sample_moves) sample_ticket ''hosted'' ''b''"
  by (rule resolution_order_independent [OF sample_journal_accepted(1,2)]) simp

end
