(* ===== verification/TargetLineage.thy ===== *)
theory TargetLineage
  imports Results Events
begin

text \<open>
  The proof that a rewritten target descends from a commit, \<^verbatim>\<open>packages/core/src/kernel/target-lineage.ts\<close>.
  The store and the forge are parameters: \<open>branch_of\<close> the recorded branch of a node build,
  \<open>exact\<close> the receipt of the publication that replaced a head, \<open>newest\<close> the latest receipt (before the
  one that replaced a given head), \<open>ancestor\<close> the forge's ancestry. A capability the store or the forge
  does not offer is \<open>None\<close>. A commit id that is not 40 or 64 hexadecimal digits throws.
\<close>

datatype lineage_error = BadOid sha

record rewrite_receipt =
  wx_id :: string
  wx_previous :: sha
  wx_head :: sha

record target_lineage =
  tl_node :: string
  tl_from :: sha
  tl_receipts :: "rewrite_receipt list"

record lineage_source =
  ls_branch :: "string \<Rightarrow> string option"
  ls_exact :: "string \<Rightarrow> sha \<Rightarrow> rewrite_receipt option"
  ls_newest :: "string \<Rightarrow> sha option \<Rightarrow> rewrite_receipt option"
  ls_ancestor :: "sha \<Rightarrow> sha \<Rightarrow> bool"

definition MAX_TARGET_LINEAGE_HOPS :: nat where
  "MAX_TARGET_LINEAGE_HOPS = 64"

definition oid_digit :: "char \<Rightarrow> bool" where
  "oid_digit c \<longleftrightarrow> c \<in> set ''0123456789abcdef''"

definition gitOid :: "sha \<Rightarrow> bool" where
  "gitOid s \<longleftrightarrow> (length s = 40 \<or> length s = 64) \<and> list_all oid_digit s"

definition parse_oids :: "sha list \<Rightarrow> lineage_error + unit" where
  "parse_oids ss = (case List.find (\<lambda>s. \<not> gitOid s) ss of None \<Rightarrow> Inr () | Some s \<Rightarrow> Inl (BadOid s))"

definition reaches :: "lineage_source \<Rightarrow> sha \<Rightarrow> sha \<Rightarrow> bool" where
  "reaches src a b \<longleftrightarrow> a = b \<or> ls_ancestor src a b"

text \<open>
  The exact chain: the result is a finished proof, or the number of reads made. \<open>n\<close> counts the reads
  left.
\<close>

fun exact_chain ::
  "lineage_source \<Rightarrow> string \<Rightarrow> sha \<Rightarrow> sha \<Rightarrow> nat \<Rightarrow> rewrite_receipt list \<Rightarrow> sha \<Rightarrow>
   lineage_error + target_lineage + nat"
where
  "exact_chain src node from sha 0 done forward = Inr (Inr 0)"
| "exact_chain src node from sha (Suc n) done forward =
     (case ls_exact src node forward of
        None \<Rightarrow> Inr (Inr n)
      | Some e \<Rightarrow>
          if wx_previous e \<noteq> forward \<or> wx_head e = forward then Inr (Inr n)
          else bind_result (parse_oids [wx_previous e, wx_head e]) (\<lambda>_.
            if reaches src (wx_head e) sha
            then Inr (Inl \<lparr>tl_node = node, tl_from = from, tl_receipts = done @ [e]\<rparr>)
            else exact_chain src node from sha n (done @ [e]) (wx_head e)))"

text \<open>The walk back from the latest publication, with the gaps between receipts proved by ancestry.\<close>

fun walk_back ::
  "lineage_source \<Rightarrow> string \<Rightarrow> sha \<Rightarrow> nat \<Rightarrow> string list \<Rightarrow> rewrite_receipt list \<Rightarrow> sha option \<Rightarrow> sha \<Rightarrow>
   lineage_error + target_lineage option"
where
  "walk_back src node from 0 seen receipts before head = Inr None"
| "walk_back src node from (Suc n) seen receipts before head =
     (case ls_newest src node before of
        None \<Rightarrow> Inr None
      | Some e \<Rightarrow>
          if wx_id e \<in> set seen then Inr None
          else bind_result (parse_oids [wx_previous e, wx_head e]) (\<lambda>_.
            if wx_previous e = wx_head e then Inr None
            else if \<not> reaches src (wx_head e) head then Inr None
            else if reaches src from (wx_previous e)
            then Inr (Some \<lparr>tl_node = node, tl_from = from, tl_receipts = e # receipts\<rparr>)
            else walk_back src node from n (wx_id e # seen) (e # receipts) (Some (wx_previous e)) (wx_previous e)))"

definition proveTargetLineage ::
  "lineage_source option \<Rightarrow> string \<Rightarrow> string \<Rightarrow> sha \<Rightarrow> sha \<Rightarrow> lineage_error + target_lineage option" where
  "proveTargetLineage source node branch from sha =
     bind_result (parse_oids [from, sha]) (\<lambda>_.
       case source of
         None \<Rightarrow> Inr None
       | Some src \<Rightarrow>
           if ls_branch src node \<noteq> Some branch then Inr None
           else bind_result (exact_chain src node from sha MAX_TARGET_LINEAGE_HOPS [] from) (\<lambda>r.
             case r of
               Inl proof_found \<Rightarrow> Inr (Some proof_found)
             | Inr left_over \<Rightarrow> walk_back src node from left_over [] [] None sha))"

section \<open>What a proof shows\<close>

text \<open>Receipt by receipt, every step is a guarded publication and every gap an ancestry.\<close>

fun linked :: "lineage_source \<Rightarrow> sha \<Rightarrow> rewrite_receipt list \<Rightarrow> sha \<Rightarrow> bool" where
  "linked src a [] b = reaches src a b"
| "linked src a (e # es) b = (reaches src a (wx_previous e) \<and> wx_previous e \<noteq> wx_head e \<and> linked src (wx_head e) es b)"

lemma linked_append:
  "linked src a (es @ [e]) b \<longleftrightarrow> linked src a es (wx_previous e) \<and> wx_previous e \<noteq> wx_head e \<and> reaches src (wx_head e) b"
  by (induction es arbitrary: a) auto

lemma reaches_refl [simp]: "reaches src a a"
  by (simp add: reaches_def)

lemma exact_chain_linked:
  assumes "exact_chain src node from sha n done forward = Inr (Inl p)" and "linked src from done forward"
  shows "tl_node p = node \<and> tl_from p = from \<and> tl_receipts p \<noteq> [] \<and> linked src from (tl_receipts p) sha \<and>
    length (tl_receipts p) \<le> length done + n"
  using assms
proof (induction src node "from" sha n "done" forward rule: exact_chain.induct)
  case (2 src node "from" sha n "done" forward)
  then obtain e where e: "ls_exact src node forward = Some e" "wx_previous e = forward" "wx_head e \<noteq> forward"
    by (auto split: option.splits if_splits)
  have link: "linked src from (done @ [e]) b" if "reaches src (wx_head e) b" for b
    using 2(3) e that by (simp add: linked_append)
  show ?case
  proof (cases "reaches src (wx_head e) sha")
    case True
    then show ?thesis using 2(2) e link by (auto simp: bind_result_Inr_iff)
  next
    case False
    then obtain u where u: "parse_oids [wx_previous e, wx_head e] = Inr u"
      "exact_chain src node from sha n (done @ [e]) (wx_head e) = Inr (Inl p)"
      using 2(2) e by (auto simp: bind_result_Inr_iff)
    have "tl_node p = node \<and> tl_from p = from \<and> tl_receipts p \<noteq> [] \<and> linked src from (tl_receipts p) sha \<and>
        length (tl_receipts p) \<le> length (done @ [e]) + n"
      by (rule 2(1) [OF e(1) _ False u(2)]) (use e link in simp_all)
    then show ?thesis by simp
  qed
qed simp

lemma exact_chain_left:
  "exact_chain src node from sha n done forward = Inr (Inr k) \<Longrightarrow> k \<le> n"
  by (induction src node "from" sha n "done" forward rule: exact_chain.induct)
    (fastforce simp: bind_result_Inr_iff split: option.splits if_splits)+

lemma walk_back_linked:
  assumes "walk_back src node from n seen receipts before head = Inr (Some p)"
    and "\<forall>x. reaches src x head \<longrightarrow> linked src x receipts sha"
  shows "tl_node p = node \<and> tl_from p = from \<and> tl_receipts p \<noteq> [] \<and> linked src from (tl_receipts p) sha \<and>
    length (tl_receipts p) \<le> length receipts + n"
  using assms
proof (induction src node "from" n seen receipts before head rule: walk_back.induct)
  case (2 src node "from" n seen receipts before head)
  then obtain e where e: "ls_newest src node before = Some e" "wx_id e \<notin> set seen"
    by (auto split: option.splits if_splits)
  then obtain u where u: "parse_oids [wx_previous e, wx_head e] = Inr u" "wx_previous e \<noteq> wx_head e"
    "reaches src (wx_head e) head"
    using 2(2) by (auto simp: bind_result_Inr_iff split: if_splits)
  have link: "\<forall>x. reaches src x (wx_previous e) \<longrightarrow> linked src x (e # receipts) sha" using 2(3) u by simp
  show ?case
  proof (cases "reaches src from (wx_previous e)")
    case True
    then show ?thesis using 2(2) e u link by (auto simp: bind_result_Inr_iff)
  next
    case False
    then have "walk_back src node from n (wx_id e # seen) (e # receipts) (Some (wx_previous e)) (wx_previous e) = Inr (Some p)"
      using 2(2) e u by (simp add: bind_result_Inr_iff)
    moreover have "\<not> \<not> reaches src (wx_head e) head" using u(3) by simp
    ultimately show ?thesis using 2(1) [OF e u(2) _ False _ link] by simp
  qed
qed simp


text \<open>A publication that replaced a head, seen by a later observation of the branch.\<close>

definition sample_oid :: "char \<Rightarrow> sha" where
  "sample_oid c = replicate 40 c"

definition sample_receipt :: rewrite_receipt where
  "sample_receipt = \<lparr>wx_id = ''p1'', wx_previous = sample_oid CHR ''a'', wx_head = sample_oid CHR ''b''\<rparr>"

definition sample_source :: lineage_source where
  "sample_source =
     \<lparr>ls_branch = (\<lambda>n. if n = ''n'' then Some ''main'' else None),
      ls_exact = (\<lambda>n h. None),
      ls_newest = (\<lambda>n before. if before = None then Some sample_receipt else None),
      ls_ancestor = (\<lambda>a b. a = sample_oid CHR ''b'' \<and> b = sample_oid CHR ''c'')\<rparr>"


end
