(* ===== verification/JournalStates.thy ===== *)
theory JournalStates
  imports TicketMigrations HarvestControl
begin

text \<open>
  States derived from the repository journal: the preparation of tickets
  (\<^verbatim>\<open>packages/core/src/kernel/ticket-preparation.ts\<close>), the operator's sandboxes
  (\<^verbatim>\<open>packages/core/src/processes/sandbox-state.ts\<close>), the hosted executions of a harvest and how a finished
  one is classified (\<^verbatim>\<open>packages/core/src/processes/harvest-execution-state.ts\<close>).
\<close>

section \<open>Preparation of tickets\<close>

record preparation =
  pn_attempt :: string
  pn_ticket :: ticket_ref
  pn_readyState :: string
  pn_claimedState :: string
  pn_claimed :: bool
  pn_slug :: "string option"
  pn_handback :: "string option"
  pn_stage :: "string option"
  pn_error :: "string option"
  pn_recoveryError :: "string option"
  pn_retryAt :: "timestamp option"

definition new_preparation :: "string \<Rightarrow> ticket_ref \<Rightarrow> string \<Rightarrow> string \<Rightarrow> preparation" where
  "new_preparation a t ready claimed =
     \<lparr>pn_attempt = a, pn_ticket = t, pn_readyState = ready, pn_claimedState = claimed, pn_claimed = False,
      pn_slug = None, pn_handback = None, pn_stage = None, pn_error = None, pn_recoveryError = None, pn_retryAt = None\<rparr>"

definition first_error :: "string option \<Rightarrow> string \<Rightarrow> string option" where
  "first_error held e = (case held of None \<Rightarrow> Some e | Some x \<Rightarrow> Some x)"

definition prep_failed :: "preparation_failure \<Rightarrow> preparation \<Rightarrow> preparation" where
  "prep_failed f p =
     p\<lparr>pn_claimed := pf_claimed f, pn_error := first_error (pn_error p) (pf_error f),
       pn_stage := Some (pf_stage f), pn_handback := Some (pf_handback f)\<rparr>"

definition prep_recovery_failed :: "recovery_failure \<Rightarrow> preparation \<Rightarrow> preparation" where
  "prep_recovery_failed f p =
     p\<lparr>pn_claimed := (pn_claimed p \<or> py_claimed f = Some True),
       pn_handback := (case py_handback f of None \<Rightarrow> pn_handback p | Some h \<Rightarrow> Some h),
       pn_error := (case py_preparationError f of None \<Rightarrow> pn_error p | Some e \<Rightarrow> first_error (pn_error p) e),
       pn_recoveryError := Some (py_error f), pn_retryAt := Some (py_retryAt f)\<rparr>"

definition held_preparation ::
  "(string, preparation) jsmap \<Rightarrow> string \<Rightarrow> (preparation \<Rightarrow> preparation) \<Rightarrow> (string, preparation) jsmap" where
  "held_preparation acc a f = (case jm_get acc a of None \<Rightarrow> acc | Some p \<Rightarrow> jm_set a (f p) acc)"

fun preparation_fact :: "(string, preparation) jsmap \<Rightarrow> preparation_ev \<Rightarrow> (string, preparation) jsmap" where
  "preparation_fact acc (PrepIntended a t ready claimed) = jm_set a (new_preparation a t ready claimed) acc"
| "preparation_fact acc (PrepClaimed a) = held_preparation acc a (\<lambda>p. p\<lparr>pn_claimed := True\<rparr>)"
| "preparation_fact acc (PrepCreationSelected a slug) = held_preparation acc a (\<lambda>p. p\<lparr>pn_slug := Some slug\<rparr>)"
| "preparation_fact acc (PrepHandbackSelected a st) = held_preparation acc a (\<lambda>p. p\<lparr>pn_handback := Some st\<rparr>)"
| "preparation_fact acc (PrepFailed a f) = held_preparation acc a (prep_failed f)"
| "preparation_fact acc (PrepRecoveryFailed a f) = held_preparation acc a (prep_recovery_failed f)"
| "preparation_fact acc (PrepResolved a) = (case jm_get acc a of None \<Rightarrow> acc | Some _ \<Rightarrow> jm_del a acc)"

definition preparation_step :: "(string, preparation) jsmap \<Rightarrow> repository_event \<Rightarrow> (string, preparation) jsmap" where
  "preparation_step acc e = (case re_body e of RPreparation p \<Rightarrow> preparation_fact acc p | _ \<Rightarrow> acc)"

definition ticketPreparationReducer ::
  "((string, preparation) jsmap, repository_event, (string, preparation) jsmap) reducer" where
  "ticketPreparationReducer =
     \<lparr>rd_version = 1, rd_rawEvents = False, rd_initial = [], rd_fold = foldl preparation_step, rd_finish = id\<rparr>"

interpretation preparation: journal_reducer ticketPreparationReducer
  by unfold_locales (simp_all add: ticketPreparationReducer_def)

section \<open>Sandboxes\<close>

datatype sandbox_state = SandboxLive | SandboxStoppedState | SandboxReleasedState

record sandbox =
  sb_operator :: string
  sb_environmentId :: string
  sb_provider :: string
  sb_state :: sandbox_state
  sb_lastEvidence :: timestamp
  sb_sessionId :: "string option"
  sb_baseSha :: "sha option"

definition kept_or :: "'a option \<Rightarrow> 'a option \<Rightarrow> 'a option" where
  "kept_or a b = (case a of None \<Rightarrow> b | Some x \<Rightarrow> Some x)"

definition live_sandbox :: "sandbox_opened \<Rightarrow> timestamp \<Rightarrow> string option \<Rightarrow> sha option \<Rightarrow> sandbox" where
  "live_sandbox p ts session base =
     \<lparr>sb_operator = sx_operator p, sb_environmentId = sx_environmentId p, sb_provider = sx_provider p,
      sb_state = SandboxLive, sb_lastEvidence = ts, sb_sessionId = session, sb_baseSha = base\<rparr>"

text \<open>A fact older than the evidence an environment already has is passed over.\<close>

definition later_evidence ::
  "(string, sandbox) jsmap \<Rightarrow> string \<Rightarrow> timestamp \<Rightarrow> (sandbox \<Rightarrow> sandbox) \<Rightarrow> (string, sandbox) jsmap" where
  "later_evidence m i ts f =
     (case jm_get m i of
        None \<Rightarrow> m
      | Some s \<Rightarrow> if sb_lastEvidence s \<le> ts then jm_set i (f s) m else m)"

fun sandbox_fact :: "(string, sandbox) jsmap \<Rightarrow> sandbox_ev \<Rightarrow> timestamp \<Rightarrow> (string, sandbox) jsmap" where
  "sandbox_fact m (SandboxProvisioned p base) ts =
     jm_set (sx_environmentId p) (live_sandbox p ts (sx_sessionId p) base) m"
| "sandbox_fact m (SandboxResumed p) ts =
     (let previous = jm_get m (sx_environmentId p)
      in jm_set (sx_environmentId p)
           (live_sandbox p ts (kept_or (sx_sessionId p) (Option.bind previous sb_sessionId)) (Option.bind previous sb_baseSha)) m)"
| "sandbox_fact m (SandboxActivity _ i) ts = later_evidence m i ts (\<lambda>s. s\<lparr>sb_lastEvidence := ts\<rparr>)"
| "sandbox_fact m (SandboxStopped _ i) ts =
     later_evidence m i ts (\<lambda>s. s\<lparr>sb_state := SandboxStoppedState, sb_lastEvidence := ts\<rparr>)"
| "sandbox_fact m (SandboxReset _ i) ts = later_evidence m i ts (\<lambda>s. s\<lparr>sb_lastEvidence := ts\<rparr>)"
| "sandbox_fact m (SandboxReleased who i) ts =
     (let previous = jm_get m i
      in jm_set i
           \<lparr>sb_operator = who, sb_environmentId = i,
            sb_provider = (case previous of None \<Rightarrow> '''' | Some s \<Rightarrow> sb_provider s),
            sb_state = SandboxReleasedState, sb_lastEvidence = ts,
            sb_sessionId = Option.bind previous sb_sessionId, sb_baseSha = Option.bind previous sb_baseSha\<rparr> m)"

definition sandbox_step :: "(string, sandbox) jsmap \<Rightarrow> repository_event \<Rightarrow> (string, sandbox) jsmap" where
  "sandbox_step m e = (case re_body e of RSandbox s \<Rightarrow> sandbox_fact m s (re_ts e) | _ \<Rightarrow> m)"

text \<open>
  The accumulator is the array of the map's values; every batch keys it again by the id each value
  carries, and the last of two values with one id would win.
\<close>

definition by_environment :: "sandbox list \<Rightarrow> (string, sandbox) jsmap" where
  "by_environment acc = foldl (\<lambda>m s. jm_set (sb_environmentId s) s m) [] acc"

definition foldSandboxStates :: "sandbox list \<Rightarrow> repository_event list \<Rightarrow> sandbox list" where
  "foldSandboxStates acc events = map snd (foldl sandbox_step (by_environment acc) events)"

definition sandboxStatesReducer :: "(sandbox list, repository_event, sandbox list) reducer" where
  "sandboxStatesReducer =
     \<lparr>rd_version = 1, rd_rawEvents = False, rd_initial = [], rd_fold = foldSandboxStates, rd_finish = id\<rparr>"

definition sandboxStates :: "repository_event list \<Rightarrow> sandbox list" where
  "sandboxStates events = reduce_journal sandboxStatesReducer events"

section \<open>Hosted executions of a harvest\<close>

record open_harvest_execution =
  oh_started :: harvest_execution_started
  oh_seq :: nat

definition names_execution :: "string \<Rightarrow> open_harvest_execution \<Rightarrow> bool" where
  "names_execution i x \<longleftrightarrow> hj_execution (oh_started x) = i"

definition replace_or_push :: "open_harvest_execution \<Rightarrow> open_harvest_execution list \<Rightarrow> open_harvest_execution list" where
  "replace_or_push x xs =
     (let named = names_execution (hj_execution (oh_started x))
      in if list_ex named xs then edit_first named (\<lambda>_. x) xs else xs @ [x])"

fun remove_named :: "string \<Rightarrow> open_harvest_execution list \<Rightarrow> open_harvest_execution list" where
  "remove_named i [] = []"
| "remove_named i (x # xs) = (if names_execution i x then xs else x # remove_named i xs)"

definition open_executions_step :: "open_harvest_execution list \<Rightarrow> repository_event \<Rightarrow> open_harvest_execution list" where
  "open_executions_step acc e =
     (case re_body e of
        RHarvestExecution (HarvestExecutionStarted p) \<Rightarrow> replace_or_push \<lparr>oh_started = p, oh_seq = re_seq e\<rparr> acc
      | RHarvestExecution (HarvestExecutionReleased i _) \<Rightarrow> remove_named i acc
      | _ \<Rightarrow> acc)"

definition openHarvestExecutionsReducer ::
  "(open_harvest_execution list, repository_event, open_harvest_execution list) reducer" where
  "openHarvestExecutionsReducer =
     \<lparr>rd_version = 1, rd_rawEvents = False, rd_initial = [], rd_fold = foldl open_executions_step, rd_finish = id\<rparr>"

interpretation openHarvest: journal_reducer openHarvestExecutionsReducer
  by unfold_locales (simp_all add: openHarvestExecutionsReducer_def)

definition openHarvestExecutions :: "repository_event list \<Rightarrow> open_harvest_execution list" where
  "openHarvestExecutions events = reduce_journal openHarvestExecutionsReducer events"

record classification_input =
  ci_executionStartedSeq :: nat
  ci_adoptedHolder :: "string option"
  ci_leaseHolder :: "string option"
  ci_maxRecoveryAttempts :: "nat option"

datatype harvest_result =
    ResultCompleted launch_kind string
  | ResultEscalated launch_kind string
  | ResultFailed launch_kind string
  | ResultParked "string option"
  | ResultHeld
  | ResultIdle

text \<open>The execution's start, then its authorization, looked up in the journal.\<close>

definition started_execution :: "repository_event list \<Rightarrow> nat \<Rightarrow> string option" where
  "started_execution events seq =
     Option.bind
       (List.find (\<lambda>e. re_seq e = seq \<and>
          (case re_body e of RHarvestExecution (HarvestExecutionStarted _) \<Rightarrow> True | _ \<Rightarrow> False)) events)
       (\<lambda>e. case re_body e of RHarvestExecution (HarvestExecutionStarted p) \<Rightarrow> Some (hj_execution p) | _ \<Rightarrow> None)"

fun authorization_in :: "repository_event list \<Rightarrow> string \<Rightarrow> harvest_authorized option" where
  "authorization_in [] i = None"
| "authorization_in (e # es) i =
     (case re_body e of
        RHarvestExecution (HarvestAuthorized p) \<Rightarrow> if hu_execution p = i then Some p else authorization_in es i
      | _ \<Rightarrow> authorization_in es i)"

definition seq_or_zero :: "nat option \<Rightarrow> nat" where
  "seq_or_zero n = (case n of None \<Rightarrow> 0 | Some k \<Rightarrow> k)"

definition outcome_seq :: "harvest_run \<Rightarrow> nat" where
  "outcome_seq r = max (seq_or_zero (map_option fst (hr_terminal r))) (seq_or_zero (map_option snd (hr_failure r)))"

definition run_result :: "harvest_authorized option \<Rightarrow> nat \<Rightarrow> harvest_run \<Rightarrow> harvest_result option" where
  "run_result selected seq r =
     (let launch = (case selected of
                      Some p \<Rightarrow> hu_launch p
                    | None \<Rightarrow> if fst (hr_started r) > seq then LaunchStarted else LaunchResumed)
      in if outcome_seq r \<le> seq then None
         else if hr_status r = HarvestCompleted then Some (ResultCompleted launch (hr_run r))
         else if hr_status r = HarvestEscalated then Some (ResultEscalated launch (hr_run r))
         else if hr_failure r \<noteq> None then Some (ResultFailed launch (hr_run r))
         else None)"

definition selected_run :: "harvest_state \<Rightarrow> harvest_authorized option \<Rightarrow> harvest_run option" where
  "selected_run st selected =
     (case selected of
        Some p \<Rightarrow> List.find (\<lambda>r. hr_run r = hu_run p) (hy_runs st)
      | None \<Rightarrow> last_opt (hy_runs st))"

definition idle_or_held :: "classification_input \<Rightarrow> harvest_result" where
  "idle_or_held i =
     (case (ci_adoptedHolder i, ci_leaseHolder i) of
        (Some a, Some l) \<Rightarrow> if l \<noteq> a then ResultHeld else ResultIdle
      | _ \<Rightarrow> ResultIdle)"

text \<open>Over the raw journal; the projected facts of a store are the same values.\<close>

definition classifyHarvestOutcome ::
  "repository_event list \<Rightarrow> classification_input \<Rightarrow> harvest_error + harvest_result" where
  "classifyHarvestOutcome events i =
     bind_result (reduceHarvest events) (\<lambda>st.
       (let selected = Option.bind (started_execution events (ci_executionStartedSeq i)) (authorization_in events)
        in case Option.bind (selected_run st selected) (run_result selected (ci_executionStartedSeq i)) of
             Some out \<Rightarrow> Inr out
           | None \<Rightarrow>
               map_result
                 (\<lambda>d. if d = ParkHarvest then ResultParked (map_option hr_run (actionableHarvestRun st)) else idle_or_held i)
                 (decideHarvestControl st
                    (case ci_maxRecoveryAttempts i of None \<Rightarrow> DEFAULT_MAX_HARVEST_RECOVERY_ATTEMPTS | Some n \<Rightarrow> n))))"

section \<open>Sandboxes, batch by batch\<close>

definition keyed_sandboxes :: "(string, sandbox) jsmap \<Rightarrow> bool" where
  "keyed_sandboxes m \<longleftrightarrow> distinct (map fst m) \<and> (\<forall>(i, s) \<in> set m. i = sb_environmentId s)"

lemma set_sandbox_keyed:
  assumes "keyed_sandboxes m" and "sb_environmentId s = i"
  shows "keyed_sandboxes (jm_set i s m)"
proof -
  have "set (jm_set i s m) \<subseteq> insert (i, s) (set m)" by (induction m) auto
  then show ?thesis using assms unfolding keyed_sandboxes_def by (auto simp: distinct_update)
qed

lemma later_evidence_keyed:
  assumes "keyed_sandboxes m" and "\<And>s. sb_environmentId (f s) = sb_environmentId s"
  shows "keyed_sandboxes (later_evidence m i ts f)"
proof (cases "jm_get m i")
  case (Some s)
  then have "sb_environmentId s = i" using assms(1) map_of_SomeD by (fastforce simp: keyed_sandboxes_def)
  then show ?thesis using Some assms set_sandbox_keyed [of m "f s" i] by (simp add: later_evidence_def)
qed (use assms in \<open>simp add: later_evidence_def\<close>)

lemma sandbox_step_keyed: "keyed_sandboxes m \<Longrightarrow> keyed_sandboxes (sandbox_step m e)"
  by (cases "re_body e"; (simp add: sandbox_step_def)?)
    (rename_tac x, case_tac x; simp add: Let_def set_sandbox_keyed later_evidence_keyed live_sandbox_def)

lemma sandbox_fold_keyed: "keyed_sandboxes m \<Longrightarrow> keyed_sandboxes (foldl sandbox_step m es)"
  by (induction es arbitrary: m) (simp_all add: sandbox_step_keyed)

lemma set_new: "i \<notin> fst ` set m \<Longrightarrow> jm_set i s m = m @ [(i, s)]"
  by (induction m) auto

lemma by_environment_keyed:
  assumes "keyed_sandboxes m"
  shows "by_environment (map snd m) = m"
proof -
  have "foldl (\<lambda>m s. jm_set (sb_environmentId s) s m) pre (map snd suf) = pre @ suf"
    if "keyed_sandboxes (pre @ suf)" for pre suf
    using that
  proof (induction suf arbitrary: pre)
    case (Cons x suf)
    then have new: "sb_environmentId (snd x) = fst x" "fst x \<notin> fst ` set pre" by (auto simp: keyed_sandboxes_def)
    have "keyed_sandboxes ((pre @ [x]) @ suf)" using Cons.prems by simp
    from Cons.IH [OF this] show ?case using new by (simp add: set_new)
  qed simp
  from this [of "[]" m] assms show ?thesis by (simp add: by_environment_def)
qed

text \<open>a projection of the sandboxes may be kept. Folding a batch into the array an earlier batch left
  gives the array of the whole journal, although the array has forgotten under which ids its entries
  stood; and an environment never has two entries.\<close>

lemma sandbox_states_incremental:
  "foldSandboxStates (foldSandboxStates [] xs) ys = foldSandboxStates [] (xs @ ys) \<and>
   distinct (map sb_environmentId (foldSandboxStates [] xs))"
proof -
  let ?m = "foldl sandbox_step [] xs"
  have keyed: "keyed_sandboxes ?m" by (rule sandbox_fold_keyed) (simp add: keyed_sandboxes_def)
  have start: "by_environment [] = []" by (simp add: by_environment_def)
  have "map sb_environmentId (map snd ?m) = map fst ?m" using keyed by (auto simp: keyed_sandboxes_def)
  moreover have "distinct (map fst ?m)" using keyed by (simp add: keyed_sandboxes_def)
  ultimately have "distinct (map sb_environmentId (map snd ?m))" by (simp only:)
  then show ?thesis using by_environment_keyed [OF keyed] by (simp add: foldSandboxStates_def start)
qed

section \<open>The outcome of an execution\<close>

definition reports :: "harvest_result \<Rightarrow> harvest_run \<Rightarrow> bool" where
  "reports out r \<longleftrightarrow>
     (\<exists>l. out = ResultCompleted l (hr_run r) \<and> hr_status r = HarvestCompleted \<or>
          out = ResultEscalated l (hr_run r) \<and> hr_status r = HarvestEscalated \<or>
          out = ResultFailed l (hr_run r) \<and> hr_failure r \<noteq> None)"

lemma run_result_reports:
  assumes "run_result selected seq r = Some out"
  shows "reports out r \<and> seq < outcome_seq r"
  using assms by (auto simp: run_result_def reports_def Let_def split: if_splits)

lemma selected_run_member: "selected_run st selected = Some r \<Longrightarrow> r \<in> set (hy_runs st)"
  by (auto simp: selected_run_def last_opt_def find_Some_iff split: option.splits if_splits)

text \<open>an execution reports its own outcome or none. The classification of a finished execution is the
  outcome of a run of the journal that was recorded after the execution started, or it says that the
  harvest is parked, held or idle.\<close>

lemma execution_outcome_is_fresh:
  assumes "classifyHarvestOutcome events i = Inr out"
  shows "(\<exists>run. out = ResultParked run) \<or> out = ResultHeld \<or> out = ResultIdle \<or>
    (\<exists>st. reduceHarvest events = Inr st \<and>
       (\<exists>r \<in> set (hy_runs st). reports out r \<and> ci_executionStartedSeq i < outcome_seq r))"
proof -
  let ?selected = "Option.bind (started_execution events (ci_executionStartedSeq i)) (authorization_in events)"
  obtain st where st: "reduceHarvest events = Inr st" using assms by (auto simp: classifyHarvestOutcome_def bind_result_Inr_iff)
  show ?thesis
  proof (cases "Option.bind (selected_run st ?selected) (run_result ?selected (ci_executionStartedSeq i))")
    case None
    then show ?thesis using assms st
      by (auto simp: classifyHarvestOutcome_def Let_def map_result_Inr_iff idle_or_held_def split: if_splits option.splits)
  next
    case (Some x)
    then have "x = out" using assms st by (simp add: classifyHarvestOutcome_def Let_def)
    moreover obtain r where "selected_run st ?selected = Some r" "run_result ?selected (ci_executionStartedSeq i) r = Some x"
      using Some by (auto simp: Option.bind_eq_Some_conv)
    ultimately show ?thesis using st run_result_reports selected_run_member by blast
  qed
qed

end
