(* ===== verification/ScanSchedule.thy ===== *)
theory ScanSchedule
  imports Events
begin

text \<open>
  The cadence of ticket scans, \<^verbatim>\<open>packages/core/src/processes/ticket-scan-schedule.ts\<close>. A time is what
  \<^verbatim>\<open>Date.parse\<close> gives for its text, \<open>None\<close> for \<^verbatim>\<open>NaN\<close>; every comparison with \<^verbatim>\<open>NaN\<close> is false. The
  interval is a number of milliseconds.
\<close>

datatype scan_mode = Admission | Observation

record scan_measurement =
  sm_startedAt :: "timestamp option"
  sm_mode :: scan_mode
  sm_readiness :: string
  sm_criteria :: string

record scan_input =
  si_previous :: "scan_measurement option"
  si_previousSeq :: "nat option"
  si_mode :: scan_mode
  si_readiness :: string
  si_criteria :: string
  si_startedAt :: "timestamp option"
  si_intervalMs :: int

record scan_cadence =
  sq_scanSeq :: nat
  sq_startedAt :: "timestamp option"
  sq_mode :: scan_mode
  sq_readiness :: string
  sq_criteria :: string

record scan_schedule =
  sh_due :: bool
  sh_allowClockRollback :: bool

definition minus_time :: "timestamp option \<Rightarrow> timestamp option \<Rightarrow> timestamp option" where
  "minus_time a b = (case (a, b) of (Some x, Some y) \<Rightarrow> Some (x - y) | _ \<Rightarrow> None)"

definition below :: "timestamp option \<Rightarrow> int \<Rightarrow> bool" where
  "below t n = (case t of None \<Rightarrow> False | Some x \<Rightarrow> x < n)"

definition at_least :: "timestamp option \<Rightarrow> int \<Rightarrow> bool" where
  "at_least t n = (case t of None \<Rightarrow> False | Some x \<Rightarrow> x \<ge> n)"

definition promoted :: "scan_input \<Rightarrow> scan_measurement \<Rightarrow> bool" where
  "promoted i p \<longleftrightarrow> si_mode i = Admission \<and> sm_mode p = Observation"

definition ticketScanDeferredByJournal :: "scan_input \<Rightarrow> bool" where
  "ticketScanDeferredByJournal i =
     (case si_previous i of
        None \<Rightarrow> False
      | Some p \<Rightarrow>
          if sm_readiness p \<noteq> si_readiness i then False
          else if sm_criteria p \<noteq> si_criteria i then False
          else if promoted i p then False
          else (let elapsed = minus_time (si_startedAt i) (sm_startedAt p)
                in elapsed \<noteq> None \<and> at_least elapsed 0 \<and> below elapsed (si_intervalMs i)))"

definition cadence_valid :: "scan_input \<Rightarrow> scan_measurement \<Rightarrow> scan_cadence \<Rightarrow> bool" where
  "cadence_valid i p c \<longleftrightarrow>
     Some (sq_scanSeq c) = si_previousSeq i \<and> sq_mode c = sm_mode p \<and> sq_readiness c = sm_readiness p \<and>
     sq_criteria c = sm_criteria p \<and> sq_startedAt c \<noteq> None"

definition baseline :: "scan_input \<Rightarrow> scan_measurement \<Rightarrow> scan_cadence option \<Rightarrow> timestamp option" where
  "baseline i p cached =
     (case cached of
        None \<Rightarrow> sm_startedAt p
      | Some c \<Rightarrow> if cadence_valid i p c then sq_startedAt c else sm_startedAt p)"

text \<open>Without a measurement the elapsed time is infinite.\<close>

definition ticketScanSchedule :: "scan_input \<Rightarrow> scan_cadence option \<Rightarrow> scan_schedule" where
  "ticketScanSchedule i cached =
     (case si_previous i of
        None \<Rightarrow> \<lparr>sh_due = True, sh_allowClockRollback = False\<rparr>
      | Some p \<Rightarrow>
          (let elapsed = minus_time (si_startedAt i) (baseline i p cached)
           in \<lparr>sh_due = below elapsed 0 \<or> at_least elapsed (si_intervalMs i) \<or> sm_readiness p \<noteq> si_readiness i \<or>
                 sm_criteria p \<noteq> si_criteria i \<or> promoted i p,
               sh_allowClockRollback = below elapsed 0\<rparr>))"

section \<open>The shortcut\<close>

text \<open>An anchored row acknowledges the recorded measurement or a later one, and no future one.\<close>

definition anchored :: "scan_input \<Rightarrow> scan_measurement \<Rightarrow> scan_cadence \<Rightarrow> bool" where
  "anchored i p c \<longleftrightarrow>
     (\<forall>t now start. sq_startedAt c = Some t \<and> si_startedAt i = Some now \<and> sm_startedAt p = Some start \<longrightarrow>
        start \<le> t \<and> t \<le> now)"

text \<open>C31: the journal alone may defer a scan. When the journal's measurement says that a scan is not due,
  the full schedule says so as well, whatever cadence row it reads, provided a valid row is anchored:
  no older than the measurement and not ahead of the clock. No clock rollback is reported either.\<close>

theorem deferral_is_exact:
  assumes "ticketScanDeferredByJournal i" and "si_previous i = Some p"
    and "\<And>c. cached = Some c \<Longrightarrow> cadence_valid i p c \<Longrightarrow> anchored i p c"
  shows "\<not> sh_due (ticketScanSchedule i cached) \<and> \<not> sh_allowClockRollback (ticketScanSchedule i cached)"
proof -
  obtain now start where t: "si_startedAt i = Some now" "sm_startedAt p = Some start" "start \<le> now"
    "now - start < si_intervalMs i"
    using assms(1,2)
    by (auto simp: ticketScanDeferredByJournal_def minus_time_def at_least_def below_def Let_def split: if_splits option.splits)
  have "\<exists>b. baseline i p cached = Some b \<and> start \<le> b \<and> b \<le> now"
  proof (cases cached)
    case (Some c)
    then show ?thesis using assms(3) [OF Some] t
      by (cases "cadence_valid i p c") (auto simp: baseline_def cadence_valid_def anchored_def)
  qed (use t in \<open>simp add: baseline_def\<close>)
  then show ?thesis using assms(1,2) t
    by (auto simp: ticketScanSchedule_def ticketScanDeferredByJournal_def minus_time_def at_least_def below_def Let_def
        split: if_splits)
qed

definition sample_scan :: scan_input where
  "sample_scan =
     \<lparr>si_previous = Some \<lparr>sm_startedAt = Some 1000, sm_mode = Admission, sm_readiness = ''r'', sm_criteria = ''c''\<rparr>,
      si_previousSeq = Some 4, si_mode = Admission, si_readiness = ''r'', si_criteria = ''c'',
      si_startedAt = Some 1500, si_intervalMs = 1000\<rparr>"

theorem deferral_is_exact_witness:
  "\<not> sh_due (ticketScanSchedule sample_scan
      (Some \<lparr>sq_scanSeq = 4, sq_startedAt = Some 1200, sq_mode = Admission, sq_readiness = ''r'', sq_criteria = ''c''\<rparr>))"
proof -
  let ?p = "\<lparr>sm_startedAt = Some 1000, sm_mode = Admission, sm_readiness = ''r'', sm_criteria = ''c''\<rparr>"
  let ?c = "\<lparr>sq_scanSeq = 4, sq_startedAt = Some 1200, sq_mode = Admission, sq_readiness = ''r'', sq_criteria = ''c''\<rparr>"
  have "ticketScanDeferredByJournal sample_scan" by code_simp
  moreover have "si_previous sample_scan = Some ?p" by (simp add: sample_scan_def)
  moreover have "anchored sample_scan ?p ?c" by (simp add: anchored_def sample_scan_def)
  ultimately show ?thesis using deferral_is_exact [of sample_scan ?p "Some ?c"] by blast
qed

end
