(* ===== verification/PublicationState.thy ===== *)
theory PublicationState
  imports PublicationRetry
begin

text \<open>
  The publication ledger, \<^verbatim>\<open>packages/core/src/processes/publication-state.ts\<close>: the events the publication
  selectors read, compacted in array order, with every run of other events collapsed to one barrier.
  The selectors are functions of the ledger. A request is the payload of its event with the event's seq.
\<close>

type_synonym request = "nat \<times> publication_request"

datatype ledger_item =
    LRequest nat publication_request
  | LLost nat nat
  | LCancelled nat nat
  | LProvisioned nat string
  | LReleased nat "string option"
  | LImplement nat nat sha sha
  | LReconcile nat sha "string option"
  | LRestack nat string sha
  | LFinalize nat sha
  | LStep nat string bool "sha option"
  | LBarrier nat

fun item_seq :: "ledger_item \<Rightarrow> nat" where
  "item_seq (LRequest n _) = n"
| "item_seq (LLost n _) = n"
| "item_seq (LCancelled n _) = n"
| "item_seq (LProvisioned n _) = n"
| "item_seq (LReleased n _) = n"
| "item_seq (LImplement n _ _ _) = n"
| "item_seq (LReconcile n _ _) = n"
| "item_seq (LRestack n _ _) = n"
| "item_seq (LFinalize n _) = n"
| "item_seq (LStep n _ _ _) = n"
| "item_seq (LBarrier n) = n"

record publication_ledger =
  lg_items :: "ledger_item list"
  lg_retries :: "ab_event list"

definition compact :: "ab_event \<Rightarrow> ledger_item option" where
  "compact e =
     (let n = ev_seq e in
      case ev_body e of
        EPublication (PublicationRequested q) \<Rightarrow> Some (LRequest n q)
      | ERestack (RestackCompleted p head) \<Rightarrow> Some (LRestack n (lr_id p) head)
      | EPublication (PublicationCandidateRetired r _ _ _) \<Rightarrow> Some (LCancelled n r)
      | ERestack (RestackContended _ r) \<Rightarrow> Some (LCancelled n r)
      | EReconcile (ReconcileContended _ r) \<Rightarrow> Some (LCancelled n r)
      | EPublication (PublicationLost r) \<Rightarrow> Some (LLost n r)
      | EWorkspace (WorkspaceProvisioned w) \<Rightarrow> Some (LProvisioned n (wl_ref w))
      | EWorkspace (WorkspaceReleased ref) \<Rightarrow> Some (LReleased n ref)
      | ELoop (ImplementCompleted rnd commits _) \<Rightarrow> Some (LImplement n rnd (cr_base commits) (cr_head commits))
      | EReconcile (ReconcileMerged commit) \<Rightarrow> Some (LReconcile n commit None)
      | EReconcile (ReconcileRebased head i) \<Rightarrow> Some (LReconcile n head (Some i))
      | EFinalize (FinalizeCompleted pr) \<Rightarrow> Some (LFinalize n (pr_headSha pr))
      | EFinalize (FinalizeStepCompleted step ok head) \<Rightarrow> Some (LStep n step ok head)
      | _ \<Rightarrow> None)"

section \<open>The selectors\<close>

fun matches_request :: "publication_request \<Rightarrow> ledger_item \<Rightarrow> bool" where
  "matches_request (ReqRestack sha i) (LRestack _ j head) = (j = i \<and> head = sha)"
| "matches_request (ReqImplement sha rnd base) (LImplement _ r b h) = (r = rnd \<and> b = base \<and> h = sha)"
| "matches_request (ReqReconcile sha rewrite) (LReconcile _ c i) = (c = sha \<and> (rewrite = None \<or> i = rewrite))"
| "matches_request (ReqFinalize sha) (LFinalize _ head) = (head = sha)"
| "matches_request (ReqFinalizeStep sha step) (LStep _ st ok head) = (st = step \<and> (\<not> ok \<or> head = Some sha))"
| "matches_request _ _ = False"

definition itemCompletes :: "ledger_item \<Rightarrow> request \<Rightarrow> bool" where
  "itemCompletes x q \<longleftrightarrow> item_seq x > fst q \<and> matches_request (snd q) x"

definition requestCompleted :: "ledger_item list \<Rightarrow> request \<Rightarrow> bool" where
  "requestCompleted items q \<longleftrightarrow> list_ex (\<lambda>x. itemCompletes x q) items"

text \<open>The workspace at the request: the scan stops at the first item of a later seq.\<close>

fun workspace_at :: "nat \<Rightarrow> string option \<Rightarrow> ledger_item list \<Rightarrow> string option" where
  "workspace_at n ref [] = ref"
| "workspace_at n ref (x # xs) =
     (if item_seq x > n then ref
      else workspace_at n (case x of LProvisioned _ r \<Rightarrow> Some r | LReleased _ _ \<Rightarrow> None | _ \<Rightarrow> ref) xs)"

definition cancels :: "nat \<Rightarrow> ledger_item \<Rightarrow> bool" where
  "cancels n x \<longleftrightarrow> (case x of LCancelled _ r \<Rightarrow> r = n | _ \<Rightarrow> False)"

definition releases :: "nat \<Rightarrow> string option \<Rightarrow> ledger_item \<Rightarrow> bool" where
  "releases n workspace x \<longleftrightarrow>
     (case x of LReleased m ref \<Rightarrow> m > n \<and> (ref = None \<or> workspace = None \<or> ref = workspace) | _ \<Rightarrow> False)"

definition requestSettled :: "ledger_item list \<Rightarrow> request \<Rightarrow> bool" where
  "requestSettled items q \<longleftrightarrow>
     requestCompleted items q \<or> list_ex (cancels (fst q)) items \<or>
     list_ex (releases (fst q) (workspace_at (fst q) None items)) items"

fun request_of :: "ledger_item \<Rightarrow> request option" where
  "request_of (LRequest n q) = Some (n, q)"
| "request_of _ = None"

definition uncompleted :: "ledger_item list \<Rightarrow> ledger_item \<Rightarrow> bool" where
  "uncompleted items x \<longleftrightarrow>
     (case request_of x of
        None \<Rightarrow> False
      | Some q \<Rightarrow> \<not> requestCompleted items q \<and> \<not> list_ex (cancels (fst q)) items)"

definition latestUncompletedRequest :: "ledger_item list \<Rightarrow> request option" where
  "latestUncompletedRequest items = Option.bind (find_last (uncompleted items) items) request_of"

definition lostRecorded :: "ledger_item list \<Rightarrow> request \<Rightarrow> bool" where
  "lostRecorded items q \<longleftrightarrow> list_ex (\<lambda>x. case x of LLost _ r \<Rightarrow> r = fst q | _ \<Rightarrow> False) items"

definition abandonedPending :: "ledger_item list \<Rightarrow> bool" where
  "abandonedPending items =
     (case latestUncompletedRequest items of None \<Rightarrow> False | Some q \<Rightarrow> requestSettled items q)"

definition publication_pending :: "ledger_item list \<Rightarrow> bool" where
  "publication_pending items =
     list_ex (\<lambda>x. case request_of x of None \<Rightarrow> False | Some q \<Rightarrow> \<not> requestSettled items q) items"

section \<open>The fold\<close>

definition is_retry_event :: "event_body \<Rightarrow> bool" where
  "is_retry_event b \<longleftrightarrow> retry_fact_of b \<noteq> None \<or> answered_id b \<noteq> None"

text \<open>The rewrite whose retries an event ends.\<close>

fun ends_rewrite :: "event_body \<Rightarrow> (publication_op \<times> string) option" where
  "ends_rewrite (ERestack (RestackCompleted p _)) = Some (OpRestack, lr_id p)"
| "ends_rewrite (ERestack (RestackContended i _)) = Some (OpRestack, i)"
| "ends_rewrite (EReconcile (ReconcileContended i _)) = Some (OpReconcile, i)"
| "ends_rewrite (EReconcile (ReconcileRebased _ i)) = Some (OpReconcile, i)"
| "ends_rewrite _ = None"

definition keeps_retry :: "publication_op \<Rightarrow> string \<Rightarrow> ab_event \<Rightarrow> bool" where
  "keeps_retry op i e =
     (case retry_fact_of (ev_body e) of None \<Rightarrow> True | Some f \<Rightarrow> \<not> about op i (fact_of f))"

definition note_retries :: "ab_event list \<Rightarrow> ab_event \<Rightarrow> ab_event list" where
  "note_retries retries e =
     (let noted = (if is_retry_event (ev_body e) then retries @ [e] else retries);
          kept = (case ends_rewrite (ev_body e) of None \<Rightarrow> noted | Some (op, i) \<Rightarrow> filter (keeps_retry op i) noted)
      in case ev_body e of EWorkspace (WorkspaceReleased _) \<Rightarrow> [] | _ \<Rightarrow> kept)"

definition note_item :: "ledger_item list \<Rightarrow> ab_event \<Rightarrow> ledger_item list" where
  "note_item items e =
     (case compact e of
        Some x \<Rightarrow> items @ [x]
      | None \<Rightarrow>
          (case last_opt items of
             Some (LBarrier n) \<Rightarrow> butlast items @ [LBarrier (max n (ev_seq e))]
           | _ \<Rightarrow> items @ [LBarrier (ev_seq e)]))"

definition publication_step :: "publication_ledger \<Rightarrow> ab_event \<Rightarrow> publication_ledger" where
  "publication_step acc e =
     acc\<lparr>lg_retries := note_retries (lg_retries acc) e, lg_items := note_item (lg_items acc) e\<rparr>"

definition publicationStateReducer :: "(publication_ledger, ab_event, publication_ledger) reducer" where
  "publicationStateReducer =
     \<lparr>rd_version = 7, rd_rawEvents = False, rd_initial = \<lparr>lg_items = [], lg_retries = []\<rparr>,
      rd_fold = fold_events publication_step, rd_finish = id\<rparr>"

interpretation publication: incremental_reducer publicationStateReducer
  by unfold_locales (simp_all add: publicationStateReducer_def)

definition publicationLedger :: "ab_event list \<Rightarrow> publication_ledger" where
  "publicationLedger events = reduce_log publicationStateReducer events"

definition ledger_retry :: "publication_ledger \<Rightarrow> publication_op \<Rightarrow> string \<Rightarrow> retry_state" where
  "ledger_retry l op i = publicationRetryState (lg_retries l) op i"

definition publicationRequestSettled :: "ab_event list \<Rightarrow> request \<Rightarrow> bool" where
  "publicationRequestSettled events q = requestSettled (lg_items (publicationLedger events)) q"

definition publicationRequestCompleted :: "ab_event list \<Rightarrow> request \<Rightarrow> bool" where
  "publicationRequestCompleted events q = requestCompleted (lg_items (publicationLedger events)) q"

definition latestUncompletedPublicationRequest :: "ab_event list \<Rightarrow> request option" where
  "latestUncompletedPublicationRequest events = latestUncompletedRequest (lg_items (publicationLedger events))"

definition publicationLostRecorded :: "ab_event list \<Rightarrow> request \<Rightarrow> bool" where
  "publicationLostRecorded events q = lostRecorded (lg_items (publicationLedger events)) q"

definition abandonedPublicationPending :: "ab_event list \<Rightarrow> bool" where
  "abandonedPublicationPending events = abandonedPending (lg_items (publicationLedger events))"

definition publicationPending :: "ab_event list \<Rightarrow> bool" where
  "publicationPending events = publication_pending (lg_items (publicationLedger events))"

section \<open>The ledger and the log\<close>

text \<open>The items of a log, written down without any compaction: one item per event.\<close>

definition item_of :: "ab_event \<Rightarrow> ledger_item" where
  "item_of e = (case compact e of Some x \<Rightarrow> x | None \<Rightarrow> LBarrier (ev_seq e))"

definition barrier :: "ledger_item \<Rightarrow> bool" where
  "barrier x \<longleftrightarrow> (case x of LBarrier _ \<Rightarrow> True | _ \<Rightarrow> False)"

lemma compact_seq: "compact e = Some x \<Longrightarrow> item_seq x = ev_seq e \<and> \<not> barrier x"
  unfolding compact_def barrier_def Let_def
  by (auto split: event_body.splits publication_ev.splits restack_ev.splits reconcile_ev.splits workspace_ev.splits
      loop_ev.splits finalize_ev.splits)

text \<open>Two ledgers with one content: the same items but for the barriers, and the same scan from every seq.\<close>

definition same_ledger :: "ledger_item list \<Rightarrow> ledger_item list \<Rightarrow> bool" where
  "same_ledger xs ys \<longleftrightarrow>
     filter (\<lambda>x. \<not> barrier x) xs = filter (\<lambda>x. \<not> barrier x) ys \<and>
     (\<forall>n. (\<forall>x \<in> set xs. item_seq x \<le> n) = (\<forall>x \<in> set ys. item_seq x \<le> n)) \<and>
     (\<forall>n ref. workspace_at n ref xs = workspace_at n ref ys)"

lemma workspace_at_append:
  "workspace_at n ref (xs @ ys) =
     (if \<forall>x \<in> set xs. item_seq x \<le> n then workspace_at n (workspace_at n ref xs) ys else workspace_at n ref xs)"
  by (induction xs arbitrary: ref) auto

lemma same_ledger_snoc: "same_ledger xs ys \<Longrightarrow> same_ledger (xs @ [x]) (ys @ [x])"
  by (auto simp: same_ledger_def workspace_at_append ball_Un)

lemma merged_barrier:
  "same_ledger (xs @ [LBarrier (max m n)]) ((xs @ [LBarrier m]) @ [LBarrier n])"
  by (auto simp: same_ledger_def barrier_def workspace_at_append ball_Un)

lemma same_ledger_trans: "same_ledger xs ys \<Longrightarrow> same_ledger ys zs \<Longrightarrow> same_ledger xs zs"
  by (simp add: same_ledger_def)

lemma note_item_same:
  assumes "same_ledger items ys"
  shows "same_ledger (note_item items e) (ys @ [item_of e])"
proof (cases "compact e")
  case None
  show ?thesis
  proof (cases "\<exists>n. last_opt items = Some (LBarrier n)")
    case True
    then obtain pre n where items: "items = pre @ [LBarrier n]"
      by (metis append_butlast_last_id last_opt_def option.distinct(1) option.inject)
    have "same_ledger (pre @ [LBarrier (max n (ev_seq e))]) (items @ [LBarrier (ev_seq e)])"
      using merged_barrier [of pre n "ev_seq e"] by (simp add: items)
    then show ?thesis using None same_ledger_trans same_ledger_snoc [OF assms]
      by (auto simp: note_item_def item_of_def items last_opt_def)
  next
    case False
    then have "note_item items e = items @ [LBarrier (ev_seq e)]"
      using None by (auto simp: note_item_def split: option.split ledger_item.split)
    then show ?thesis using None same_ledger_snoc [OF assms] by (simp add: item_of_def)
  qed
qed (use same_ledger_snoc [OF assms] in \<open>simp add: note_item_def item_of_def\<close>)

lemma ledger_same: "same_ledger (lg_items (fold_events publication_step acc events)) (ys @ map item_of events)"
  if "same_ledger (lg_items acc) ys"
  using that
proof (induction events arbitrary: acc ys)
  case (Cons e events)
  have "same_ledger (lg_items (publication_step acc e)) (ys @ [item_of e])"
    using note_item_same [OF Cons.prems] by (simp add: publication_step_def)
  from Cons.IH [OF this] show ?case by simp
qed simp

lemma ex_unbarred:
  assumes "\<And>x. P x \<Longrightarrow> \<not> barrier x"
  shows "list_ex P xs = list_ex P (filter (\<lambda>x. \<not> barrier x) xs)"
  using assms by (induction xs) auto

lemma find_last_unbarred:
  assumes "\<And>x. P x \<Longrightarrow> \<not> barrier x"
  shows "find_last P xs = find_last P (filter (\<lambda>x. \<not> barrier x) xs)"
proof -
  have "filter P xs = filter (\<lambda>x. \<not> barrier x \<and> P x) xs" using assms by (auto intro: filter_cong)
  then show ?thesis by (simp add: find_last_def)
qed

lemma matches_unbarred: "matches_request q x \<Longrightarrow> \<not> barrier x"
  by (cases x; cases q) (simp_all add: barrier_def)

text \<open>What the selectors read of a ledger: the items that are no barrier, and the scan.\<close>

lemma same_selectors:
  assumes "same_ledger xs ys"
  shows "requestCompleted xs = requestCompleted ys" and "requestSettled xs = requestSettled ys"
    and "lostRecorded xs = lostRecorded ys" and "latestUncompletedRequest xs = latestUncompletedRequest ys"
    and "publication_pending xs = publication_pending ys"
proof -
  have ex: "list_ex P xs = list_ex P ys" if "\<And>x. P x \<Longrightarrow> \<not> barrier x" for P
    using ex_unbarred [of P xs, OF that] ex_unbarred [of P ys, OF that] assms by (simp add: same_ledger_def)
  have scan: "workspace_at n ref xs = workspace_at n ref ys" for n ref using assms by (simp add: same_ledger_def)
  have cancel: "list_ex (cancels n) xs = list_ex (cancels n) ys" for n
    by (rule ex) (auto simp: cancels_def barrier_def split: ledger_item.splits)
  have release: "list_ex (releases n w) xs = list_ex (releases n w) ys" for n w
    by (rule ex) (auto simp: releases_def barrier_def split: ledger_item.splits)
  show completed: "requestCompleted xs = requestCompleted ys"
    unfolding requestCompleted_def by (rule ext, rule ex) (auto simp: itemCompletes_def matches_unbarred)
  show settled: "requestSettled xs = requestSettled ys"
    by (rule ext) (simp add: requestSettled_def completed scan cancel release)
  show "lostRecorded xs = lostRecorded ys"
    unfolding lostRecorded_def by (rule ext, rule ex) (auto simp: barrier_def split: ledger_item.splits)
  show "publication_pending xs = publication_pending ys"
    unfolding publication_pending_def settled by (rule ex) (auto simp: barrier_def split: ledger_item.splits option.splits)
  have open_requests: "uncompleted xs = uncompleted ys" unfolding uncompleted_def completed cancel ..
  have "\<not> barrier x" if "uncompleted zs x" for zs x
    using that by (cases x) (simp_all add: uncompleted_def barrier_def)
  then have "find_last (uncompleted xs) zs = find_last (uncompleted xs) (filter (\<lambda>x. \<not> barrier x) zs)" for zs
    by (rule find_last_unbarred)
  then show "latestUncompletedRequest xs = latestUncompletedRequest ys"
    using assms unfolding latestUncompletedRequest_def same_ledger_def open_requests by metis
qed

text \<open>C26: compaction loses nothing. Every selector of the compacted ledger gives what it gives on the whole
  log with one item per event: whether a request is completed, settled or recorded as lost, the latest
  uncompleted request, and whether a publication is pending or abandoned.\<close>

theorem ledger_agrees_with_log:
  fixes events :: "ab_event list"
  defines "items \<equiv> map item_of (filterKnownEvents events)"
  shows "publicationRequestCompleted events q = requestCompleted items q \<and>
    publicationRequestSettled events q = requestSettled items q \<and>
    publicationLostRecorded events q = lostRecorded items q \<and>
    latestUncompletedPublicationRequest events = latestUncompletedRequest items \<and>
    publicationPending events = publication_pending items \<and>
    abandonedPublicationPending events = abandonedPending items"
proof -
  have "publicationLedger events =
      fold_events publication_step \<lparr>lg_items = [], lg_retries = []\<rparr> (filterKnownEvents events)"
    by (simp add: publicationLedger_def reduce_log_def rd_events_def publicationStateReducer_def)
  moreover have "same_ledger (lg_items \<lparr>lg_items = [], lg_retries = []\<rparr>) []" by (simp add: same_ledger_def)
  ultimately have "same_ledger (lg_items (publicationLedger events)) items"
    using ledger_same [of "\<lparr>lg_items = [], lg_retries = []\<rparr>" "[]" "filterKnownEvents events"] by (simp add: items_def)
  note same = same_selectors [OF this]
  show ?thesis
    unfolding publicationRequestCompleted_def publicationRequestSettled_def publicationLostRecorded_def
      latestUncompletedPublicationRequest_def publicationPending_def abandonedPublicationPending_def
      abandonedPending_def same by (intro conjI refl)
qed

section \<open>The ladders\<close>

definition fresh_ladder :: retry_state where
  "fresh_ladder = \<lparr>rt_anchor = 0, rt_latest = None\<rparr>"

definition is_release :: "event_body \<Rightarrow> bool" where
  "is_release b \<longleftrightarrow> (case b of EWorkspace (WorkspaceReleased _) \<Rightarrow> True | _ \<Rightarrow> False)"

lemma ladder_of_answers:
  assumes "\<forall>e \<in> set es. keeps_retry op i e" and "rt_latest st = None"
  shows "foldl (retry_step op i) st es = st"
  using assms
proof (induction es)
  case (Cons e es)
  then have "retry_step op i st e = st" by (auto simp: retry_step_def keeps_retry_def split: option.splits)
  then show ?case using Cons by simp
qed simp

lemma ladder_ignores_others:
  assumes "(op', i') \<noteq> (op, i)"
  shows "foldl (retry_step op i) st (filter (keeps_retry op' i') es) = foldl (retry_step op i) st es"
proof (induction es arbitrary: st)
  case (Cons e es)
  have "retry_step op i st e = st" if other: "\<not> keeps_retry op' i' e"
  proof -
    obtain f where f: "retry_fact_of (ev_body e) = Some f" "about op' i' (fact_of f)"
      using other by (auto simp: keeps_retry_def split: option.splits)
    moreover have "answered_id (ev_body e) = None"
      using f(1) by (auto simp: answered_id_def split: event_body.splits escalation_ev.splits)
    moreover have "\<not> about op i (fact_of f)" using f(2) assms by (auto simp: about_def)
    ultimately show ?thesis by (simp add: retry_step_def)
  qed
  then show ?case using Cons by simp
qed simp

text \<open>C30: every rewrite climbs its own ladder. After one more event, the retry state the ledger gives for a
  rewrite is fresh if the event completed or cancelled that rewrite or released the workspace, and
  otherwise the earlier state after that event, whatever became of other rewrites in between.\<close>

theorem ladder_per_rewrite:
  "ledger_retry (publicationLedger (events @ [e])) op i =
     (if is_release (ev_body e) \<or> ends_rewrite (ev_body e) = Some (op, i) then fresh_ladder
      else retry_step op i (ledger_retry (publicationLedger events) op i) e)"
proof -
  let ?retries = "lg_retries (publicationLedger events)"
  have ledger: "publicationLedger es = fold_events publication_step \<lparr>lg_items = [], lg_retries = []\<rparr> (filterKnownEvents es)" for es
    by (simp add: publicationLedger_def reduce_log_def rd_events_def publicationStateReducer_def)
  show ?thesis
  proof (cases "known_event e")
    case False
    then have "publicationLedger (events @ [e]) = publicationLedger events" by (simp add: ledger filterKnownEvents_def)
    moreover have "retry_step op i st e = st" "\<not> is_release (ev_body e)" "ends_rewrite (ev_body e) = None" for st
      using False by (auto simp: known_event_def retry_step_def answered_id_def is_release_def split: event_body.splits)
    ultimately show ?thesis by simp
  next
    case True
    then have now: "lg_retries (publicationLedger (events @ [e])) = note_retries ?retries e"
      by (simp add: ledger filterKnownEvents_def publication_step_def)
    let ?noted = "if is_retry_event (ev_body e) then ?retries @ [e] else ?retries"
    have noted: "foldl (retry_step op i) st ?noted = retry_step op i (foldl (retry_step op i) st ?retries) e" for st
      by (auto simp: is_retry_event_def retry_step_def split: option.splits)
    show ?thesis
    proof (cases "is_release (ev_body e)")
      case True
      then have "note_retries ?retries e = []" by (auto simp: note_retries_def is_release_def Let_def split: event_body.splits workspace_ev.splits)
      then show ?thesis using now True by (simp add: ledger_retry_def publicationRetryState_def fresh_ladder_def)
    next
      case False
      then have kept: "note_retries ?retries e =
          (case ends_rewrite (ev_body e) of None \<Rightarrow> ?noted | Some (op, i) \<Rightarrow> filter (keeps_retry op i) ?noted)"
        by (auto simp: note_retries_def is_release_def Let_def split: event_body.splits workspace_ev.splits)
      show ?thesis
      proof (cases "ends_rewrite (ev_body e) = Some (op, i)")
        case True
        have "foldl (retry_step op i) fresh_ladder (filter (keeps_retry op i) ?noted) = fresh_ladder"
          by (rule ladder_of_answers) (simp_all add: fresh_ladder_def)
        then show ?thesis using now kept True by (simp add: ledger_retry_def publicationRetryState_def fresh_ladder_def)
      next
        case other: False
        have "foldl (retry_step op i) st (note_retries ?retries e) = foldl (retry_step op i) st ?noted" for st
        proof (cases "ends_rewrite (ev_body e)")
          case (Some x)
          then have "x \<noteq> (op, i)" using other by simp
          then show ?thesis using kept Some ladder_ignores_others by (cases x) auto
        qed (simp only: kept option.case)
        then show ?thesis using now False other noted by (simp add: ledger_retry_def publicationRetryState_def)
      qed
    qed
  qed
qed

end
