(* ===== verification/ExecutionState.thy ===== *)
theory ExecutionState
  imports EngineLoop Strings
begin

text \<open>
  What a dispatcher reads of a build's executions, workspaces and failures: the selectors of
  \<^verbatim>\<open>packages/core/src/processes\<close> in \<^verbatim>\<open>execution-settlement.ts\<close>, \<^verbatim>\<open>execution-no-progress.ts\<close>,
  \<^verbatim>\<open>execution-relaunch.ts\<close>, \<^verbatim>\<open>dispatcher-selectors.ts\<close>, \<^verbatim>\<open>build-execution-state.ts\<close>,
  \<^verbatim>\<open>dispatch-failure-budget.ts\<close>, \<^verbatim>\<open>infrastructure-failure-budget.ts\<close> and \<^verbatim>\<open>phase-failure-budget.ts\<close>. The
  calls to providers and the store around them are not modelled; what they append is a value.
\<close>

section \<open>The open execution\<close>

definition open_execution_step :: "execution_started option \<Rightarrow> ab_event \<Rightarrow> execution_started option" where
  "open_execution_step acc e =
     (case ev_body e of
        EExecution (ExecutionStarted p) \<Rightarrow> Some p
      | EExecution (ExecutionEnded i _ _) \<Rightarrow> if map_option xs_instance acc = Some i then None else acc
      | _ \<Rightarrow> acc)"

definition openExecutionReducer :: "(execution_started option, ab_event, execution_started option) reducer" where
  "openExecutionReducer =
     \<lparr>rd_version = 1, rd_rawEvents = False, rd_initial = None, rd_fold = fold_events open_execution_step, rd_finish = id\<rparr>"

interpretation openExecution: incremental_reducer openExecutionReducer
  by unfold_locales (simp_all add: openExecutionReducer_def)

definition open_execution :: "ab_event list \<Rightarrow> execution_started option" where
  "open_execution events = reduce_log openExecutionReducer events"

text \<open>\<open>NoExecution\<close> is \<^verbatim>\<open>none\<close>.\<close>

datatype last_outcome = NoExecution | OpenOutcome | EndedOutcome execution_outcome

record last_execution =
  lx_state :: last_outcome
  lx_instance :: "string option"

definition last_execution_step :: "last_execution \<Rightarrow> ab_event \<Rightarrow> last_execution" where
  "last_execution_step acc e =
     (case ev_body e of
        EExecution (ExecutionStarted p) \<Rightarrow> \<lparr>lx_state = OpenOutcome, lx_instance = Some (xs_instance p)\<rparr>
      | EExecution (ExecutionEnded i outcome _) \<Rightarrow>
          if lx_state acc = OpenOutcome \<and> lx_instance acc = Some i then acc\<lparr>lx_state := EndedOutcome outcome\<rparr> else acc
      | _ \<Rightarrow> acc)"

definition lastExecutionOutcomeReducer :: "(last_execution, ab_event, last_outcome) reducer" where
  "lastExecutionOutcomeReducer =
     \<lparr>rd_version = 2, rd_rawEvents = False, rd_initial = \<lparr>lx_state = NoExecution, lx_instance = None\<rparr>,
      rd_fold = fold_events last_execution_step, rd_finish = lx_state\<rparr>"

interpretation lastOutcome: incremental_reducer lastExecutionOutcomeReducer
  by unfold_locales (simp_all add: lastExecutionOutcomeReducer_def)

definition lastExecutionOutcome :: "ab_event list \<Rightarrow> last_outcome" where
  "lastExecutionOutcome events = reduce_log lastExecutionOutcomeReducer events"

text \<open>What a provider observed of the open execution, and the end the settlement records for it.\<close>

datatype execution_observation = ObservedRunning | ObservedEnded "int option" | ObservedLost

definition settled_outcome_of :: "bool \<Rightarrow> execution_observation \<Rightarrow> (execution_outcome \<times> int option) option" where
  "settled_outcome_of relaunch ob =
     (case ob of
        ObservedRunning \<Rightarrow> None
      | ObservedEnded code \<Rightarrow> Some (if code = Some 0 \<and> relaunch then EndedRelaunch else EndedCompleted, code)
      | ObservedLost \<Rightarrow> Some (EndedLost, None))"

section \<open>Relaunches\<close>

definition sameRuntime :: "runtime_identity \<Rightarrow> runtime_identity \<Rightarrow> bool" where
  "sameRuntime a b \<longleftrightarrow>
     rt_version a = rt_version b \<and> rt_commit a = rt_commit b \<and> rt_kind a = rt_kind b \<and> rt_location a = rt_location b"

definition relaunchTarget :: "build_acc \<Rightarrow> string \<Rightarrow> runtime_identity \<Rightarrow> relaunch_requested option" where
  "relaunchTarget acc i runtime =
     (case jm_get (ba_draining acc) i of
        None \<Rightarrow> None
      | Some x \<Rightarrow>
          if dx_ended x then None
          else (case dx_authorization x of
                  None \<Rightarrow> None
                | Some a \<Rightarrow>
                    (case da_targetRuntime a of
                       None \<Rightarrow> None
                     | Some target \<Rightarrow>
                         if \<not> sameRuntime (da_runtime a) runtime \<or> sameRuntime target runtime then None
                         else Some \<lparr>rr_instance = i, rr_correlation = da_correlation a, rr_from = runtime, rr_to = target\<rparr>)))"

section \<open>Executions without progress\<close>

datatype progress_kind = Bookkeeping | FailureFact | ProgressFact

definition executionProgress :: "(string \<times> progress_kind) list" where
  "executionProgress =
     [(''execution.relaunch-requested'', Bookkeeping), (''execution.drain-authorized'', Bookkeeping),
      (''execution.drain-settled'', Bookkeeping), (''build.compatibility-deferred'', Bookkeeping),
      (''build.janitor-attempt-failed'', Bookkeeping), (''build.janitor-failing'', Bookkeeping),
      (''build.janitor-recovered'', Bookkeeping), (''landing.application-failed'', FailureFact),
      (''landing.decided'', ProgressFact), (''build.hold-requested'', ProgressFact),
      (''build.land-requested'', ProgressFact), (''landing.command-acknowledged'', ProgressFact),
      (''landing.native-enable-started'', Bookkeeping), (''landing.forge-merged'', ProgressFact),
      (''landing.native-applied'', Bookkeeping), (''target.distance'', Bookkeeping),
      (''target.rewritten'', Bookkeeping), (''target.rewrite-cleared'', Bookkeeping),
      (''target.moved'', Bookkeeping), (''restack.prepared'', ProgressFact),
      (''restack.replayed'', ProgressFact), (''restack.publish-intended'', ProgressFact),
      (''restack.rewritten'', ProgressFact), (''restack.contended'', ProgressFact),
      (''restack.completed'', ProgressFact), (''build.created'', ProgressFact),
      (''integration.abandoned'', ProgressFact), (''integration.observed'', Bookkeeping),
      (''integration.prepared'', ProgressFact), (''integration.landing-intended'', ProgressFact),
      (''integration.landed'', ProgressFact), (''integration.verification-failed'', Bookkeeping),
      (''integration.audited'', ProgressFact), (''node.opening'', ProgressFact),
      (''node.writer-reserved'', ProgressFact), (''node.item-prepared'', ProgressFact),
      (''node.item-replayed'', ProgressFact), (''node.item-conflicted'', ProgressFact),
      (''node.publish-intended'', ProgressFact), (''node.rewritten'', ProgressFact),
      (''node.writer-settled'', ProgressFact), (''node.contribution-recorded'', Bookkeeping),
      (''node.issue-links-recorded'', Bookkeeping), (''node.issue-links-published'', Bookkeeping),
      (''node.inventory'', Bookkeeping), (''node.restack-requested'', Bookkeeping),
      (''node.restack-satisfied'', ProgressFact), (''node.restack-availability-observed'', Bookkeeping),
      (''node.parent-distance'', Bookkeeping), (''node.parent-requested'', Bookkeeping),
      (''node.parent-accepted'', ProgressFact), (''node.parent-pr-retargeted'', ProgressFact),
      (''node.parent-completed'', ProgressFact), (''node.parent-cancelled'', Bookkeeping),
      (''node.parent-rejection-cleared'', Bookkeeping), (''node.parent-rejected'', Bookkeeping),
      (''node.opened'', ProgressFact), (''node.poll-checked'', Bookkeeping), (''node.compared'', Bookkeeping),
      (''pr.opened'', ProgressFact), (''build.completed'', ProgressFact),
      (''runner.runtime-recorded'', Bookkeeping), (''runner.attached'', Bookkeeping),
      (''runner.setup-failed'', FailureFact), (''workspace.provisioned'', Bookkeeping),
      (''workspace.provision-started'', Bookkeeping), (''workspace.cleanup-required'', Bookkeeping),
      (''workspace.fenced'', Bookkeeping), (''workspace.commits-preserved'', Bookkeeping),
      (''workspace.commits-lost'', Bookkeeping), (''workspace.released'', Bookkeeping),
      (''execution.started'', Bookkeeping), (''execution.ended'', Bookkeeping),
      (''infrastructure.failed'', FailureFact), (''infrastructure.cleanup-attempted'', Bookkeeping),
      (''pr-summary.requested'', ProgressFact), (''pr-summary.attempted'', ProgressFact),
      (''pr-summary.result'', ProgressFact), (''pr-summary.settled'', ProgressFact),
      (''finalize.step-started'', ProgressFact), (''publication.requested'', ProgressFact),
      (''publication.candidate-retired'', ProgressFact), (''publication.lost'', ProgressFact),
      (''publication.retry-scheduled'', FailureFact), (''publication.retry-exhausted'', FailureFact),
      (''abort.remote-branch-deleted'', ProgressFact), (''abort.local-branch-deleted'', ProgressFact),
      (''abort.ticket-returned'', ProgressFact), (''dispatch.failed'', FailureFact),
      (''dispatch.comment-posted'', Bookkeeping), (''build.pause-requested'', ProgressFact),
      (''build.resume-requested'', ProgressFact), (''build.abort-requested'', ProgressFact),
      (''build.discard-requested'', ProgressFact), (''build.auto-merge-requested'', ProgressFact),
      (''build.auto-merge-cancelled'', ProgressFact), (''build.auto-merge-default-observed'', Bookkeeping),
      (''build.paused'', ProgressFact), (''build.resumed'', ProgressFact), (''build.aborted'', ProgressFact),
      (''spec.imported'', ProgressFact), (''spec.authored'', ProgressFact), (''spec.revised'', ProgressFact),
      (''session.suspended'', Bookkeeping), (''session.resumed'', Bookkeeping),
      (''session.resume-fallback'', Bookkeeping), (''session.started'', ProgressFact),
      (''session.native-handle-recorded'', Bookkeeping), (''session.ended'', ProgressFact),
      (''plan.started'', ProgressFact), (''plan.completed'', ProgressFact),
      (''plan-review.started'', ProgressFact), (''plan-review.verdict'', ProgressFact),
      (''implement.started'', ProgressFact), (''implement.completed'', ProgressFact),
      (''code-review.started'', ProgressFact), (''code-review.verdict'', ProgressFact),
      (''verify.reconcile-policy-captured'', ProgressFact), (''verify.config-captured'', ProgressFact),
      (''verify.config-superseded'', ProgressFact), (''verify.started'', ProgressFact),
      (''verify.cancelled'', ProgressFact), (''verify.stage-failed'', ProgressFact),
      (''verify.completed'', ProgressFact), (''finalize.started'', ProgressFact),
      (''finalize.completed'', ProgressFact), (''finalize.step-completed'', ProgressFact),
      (''pr-attachment.designated'', ProgressFact), (''pr-attachment.hosted'', ProgressFact),
      (''pr-attachment.reclaimed'', ProgressFact), (''pr-attachment.reclaim-failed'', ProgressFact),
      (''pr.auto-merge-enabled'', ProgressFact), (''pr.auto-merge-disabled'', ProgressFact),
      (''pr.merged'', ProgressFact), (''pr.closed'', ProgressFact), (''pr.conflicted'', ProgressFact),
      (''reconcile.progress-checked'', ProgressFact), (''reconcile.prepared'', Bookkeeping),
      (''reconcile.contended'', Bookkeeping), (''reconcile.replayed'', Bookkeeping),
      (''reconcile.publish-intended'', Bookkeeping), (''reconcile.rewritten'', ProgressFact),
      (''reconcile.started'', ProgressFact), (''reconcile.completed'', ProgressFact),
      (''issue-link.downgraded'', ProgressFact), (''issue-links.sealed'', Bookkeeping),
      (''observation.recorded'', ProgressFact), (''escalation.raised'', ProgressFact),
      (''escalation.answered'', ProgressFact), (''session.build-read-failed'', Bookkeeping),
      (''session.build-read-recovered'', Bookkeeping), (''phase.deferred'', Bookkeeping),
      (''phase.deferral-escalated'', Bookkeeping), (''phase.failed'', FailureFact)]"

definition advances_build :: "event_body \<Rightarrow> bool" where
  "advances_build b \<longleftrightarrow> map_of executionProgress (event_type b) \<noteq> Some Bookkeeping"

record active_execution =
  ae_instance :: string
  ae_seq :: nat
  ae_eligible :: bool

record progress_streak =
  ng_active :: "active_execution option"
  ng_count :: nat
  ng_open :: "string list"
  ng_latest :: "(string \<times> nat) option"

definition no_progress_ended :: "progress_streak \<Rightarrow> string \<Rightarrow> bool \<Rightarrow> nat \<Rightarrow> progress_streak" where
  "no_progress_ended acc i clean seq =
     (case ng_active acc of
        None \<Rightarrow> acc
      | Some x \<Rightarrow>
          if ae_instance x \<noteq> i then acc
          else acc\<lparr>ng_count := (if clean \<and> ae_eligible x then ng_count acc + 1 else 0),
                   ng_latest := Some (i, seq), ng_active := None\<rparr>)"

definition raises_no_progress :: "event_body \<Rightarrow> string option" where
  "raises_no_progress b =
     (case b of
        EEscalation (EscalationRaised p) \<Rightarrow>
          if er_source p = SrcPolicy \<and> er_policyCause p = Some ExecutionNoProgress then Some (er_id p) else None
      | _ \<Rightarrow> None)"

definition no_progress_other :: "progress_streak \<Rightarrow> event_body \<Rightarrow> progress_streak" where
  "no_progress_other acc b =
     (if advances_build b
      then acc\<lparr>ng_count := 0, ng_active := map_option (ae_eligible_update (\<lambda>_. False)) (ng_active acc)\<rparr>
      else acc)"

definition no_progress_step :: "progress_streak \<Rightarrow> ab_event \<Rightarrow> progress_streak" where
  "no_progress_step acc e =
     (case ev_body e of
        EExecution (ExecutionStarted p) \<Rightarrow>
          acc\<lparr>ng_count := (if ng_active acc = None then ng_count acc else 0),
              ng_active := Some \<lparr>ae_instance = xs_instance p, ae_seq = ev_seq e, ae_eligible = True\<rparr>\<rparr>
      | EExecution (ExecutionEnded i outcome code) \<Rightarrow>
          no_progress_ended acc i (outcome = EndedCompleted \<and> code = Some 0) (ev_seq e)
      | EEscalation (EscalationAnswered p) \<Rightarrow>
          if ea_id p \<notin> set (ng_open acc) then acc
          else acc\<lparr>ng_open := filter (\<lambda>i. i \<noteq> ea_id p) (ng_open acc), ng_count := 0, ng_active := None\<rparr>
      | _ \<Rightarrow>
          (case raises_no_progress (ev_body e) of
             Some i \<Rightarrow> acc\<lparr>ng_open := set_add i (ng_open acc)\<rparr>
           | None \<Rightarrow> no_progress_other acc (ev_body e)))"

definition initialNoProgress :: progress_streak where
  "initialNoProgress = \<lparr>ng_active = None, ng_count = 0, ng_open = [], ng_latest = None\<rparr>"

definition executionNoProgressReducer :: "(progress_streak, ab_event, progress_streak) reducer" where
  "executionNoProgressReducer =
     \<lparr>rd_version = 6, rd_rawEvents = False, rd_initial = initialNoProgress, rd_fold = fold_events no_progress_step,
      rd_finish = id\<rparr>"

interpretation noProgress: incremental_reducer executionNoProgressReducer
  by unfold_locales (simp_all add: executionNoProgressReducer_def)

definition executionNoProgress :: "ab_event list \<Rightarrow> progress_streak" where
  "executionNoProgress events = reduce_log executionNoProgressReducer events"

text \<open>
  The guard before a launch, from the engine's decision and the streak. A raise that loses the race for
  the log's tail is decided again.
\<close>

datatype execution_guard = MayLaunch | MayNotLaunch | RaiseNoProgress nat "(string \<times> nat) option"

definition ensureExecutionProgress :: "decision option \<Rightarrow> progress_streak \<Rightarrow> execution_guard" where
  "ensureExecutionProgress decision streak =
     (case decision of
        None \<Rightarrow> MayNotLaunch
      | Some d \<Rightarrow>
          (case d of
             Acknowledge _ \<Rightarrow> MayLaunch
           | _ \<Rightarrow>
               if ng_open streak \<noteq> [] then MayNotLaunch
               else (case d of
                       Wait _ \<Rightarrow> MayLaunch
                     | _ \<Rightarrow>
                         if ng_count streak < 3 then MayLaunch
                         else RaiseNoProgress (ng_count streak) (ng_latest streak))))"

section \<open>Workspaces and bases\<close>

definition open_workspace_step :: "workspace_location option \<Rightarrow> ab_event \<Rightarrow> workspace_location option" where
  "open_workspace_step acc e =
     (case ev_body e of
        EWorkspace (WorkspaceProvisioned w) \<Rightarrow> Some w
      | EWorkspace (WorkspaceCleanupRequired w) \<Rightarrow> Some w
      | EWorkspace (WorkspaceReleased _) \<Rightarrow> None
      | _ \<Rightarrow> acc)"

definition openBuildWorkspaceReducer :: "(workspace_location option, ab_event, workspace_location option) reducer" where
  "openBuildWorkspaceReducer =
     \<lparr>rd_version = 2, rd_rawEvents = False, rd_initial = None, rd_fold = fold_events open_workspace_step, rd_finish = id\<rparr>"

interpretation buildWorkspace: incremental_reducer openBuildWorkspaceReducer
  by unfold_locales (simp_all add: openBuildWorkspaceReducer_def)

text \<open>The runner's view: where the working copy is and on which branch.\<close>

record open_location =
  ow_ref :: string
  ow_path :: string
  ow_branch :: string

definition location_of :: "workspace_location \<Rightarrow> open_location" where
  "location_of w =
     \<lparr>ow_ref = wl_ref w, ow_path = (case wl_path w of None \<Rightarrow> wl_ref w | Some p \<Rightarrow> p), ow_branch = wl_branch w\<rparr>"

definition open_location_step :: "open_location option \<Rightarrow> ab_event \<Rightarrow> open_location option" where
  "open_location_step acc e =
     (case ev_body e of
        EWorkspace (WorkspaceProvisioned w) \<Rightarrow> Some (location_of w)
      | EWorkspace (WorkspaceReleased _) \<Rightarrow> None
      | _ \<Rightarrow> acc)"

definition openWorkspaceReducer :: "(open_location option, ab_event, open_location option) reducer" where
  "openWorkspaceReducer =
     \<lparr>rd_version = 1, rd_rawEvents = False, rd_initial = None, rd_fold = fold_events open_location_step, rd_finish = id\<rparr>"

interpretation openWorkspace: incremental_reducer openWorkspaceReducer
  by unfold_locales (simp_all add: openWorkspaceReducer_def)

definition base_branch_step :: "string option \<Rightarrow> ab_event \<Rightarrow> string option" where
  "base_branch_step acc e =
     (case ev_body e of
        EBuild (BuildCreated p) \<Rightarrow> (case acc of None \<Rightarrow> Some (bc_baseBranch p) | Some b \<Rightarrow> Some b)
      | ENode (NodeParentAccepted p) \<Rightarrow> Some (np_branch (px_next p))
      | _ \<Rightarrow> acc)"

definition baseBranchReducer :: "(string option, ab_event, string option) reducer" where
  "baseBranchReducer =
     \<lparr>rd_version = 2, rd_rawEvents = False, rd_initial = None, rd_fold = fold_events base_branch_step, rd_finish = id\<rparr>"

interpretation baseBranch: incremental_reducer baseBranchReducer
  by unfold_locales (simp_all add: baseBranchReducer_def)

record provision_marker =
  mk_provider :: string
  mk_branch :: string
  mk_generation :: nat
  mk_ts :: timestamp
  mk_seq :: nat

definition provision_marker_step :: "provision_marker option \<Rightarrow> ab_event \<Rightarrow> provision_marker option" where
  "provision_marker_step acc e =
     (case ev_body e of
        EWorkspace (WorkspaceProvisionStarted p b g) \<Rightarrow>
          Some \<lparr>mk_provider = p, mk_branch = b, mk_generation = g, mk_ts = ev_ts e, mk_seq = ev_seq e\<rparr>
      | EWorkspace (WorkspaceProvisioned _) \<Rightarrow> None
      | EWorkspace (WorkspaceReleased _) \<Rightarrow> None
      | _ \<Rightarrow> acc)"

definition provisionMarkerReducer :: "(provision_marker option, ab_event, provision_marker option) reducer" where
  "provisionMarkerReducer =
     \<lparr>rd_version = 1, rd_rawEvents = False, rd_initial = None, rd_fold = fold_events provision_marker_step, rd_finish = id\<rparr>"

interpretation provisionMarker: incremental_reducer provisionMarkerReducer
  by unfold_locales (simp_all add: provisionMarkerReducer_def)

record recovery_checkpoint =
  ry_settled :: "sha option"
  ry_original :: "sha option"

definition recovery_step :: "recovery_checkpoint \<Rightarrow> ab_event \<Rightarrow> recovery_checkpoint" where
  "recovery_step acc e =
     (let settle = (\<lambda>head. acc\<lparr>ry_settled := Some head\<rparr>) in
      case ev_body e of
        EWorkspace (WorkspaceProvisioned w) \<Rightarrow>
          if ry_original acc = None then acc\<lparr>ry_original := Some (wl_base w)\<rparr> else acc
      | ELoop (ImplementCompleted _ commits _) \<Rightarrow> settle (cr_head commits)
      | ERestack (RestackRewritten _ head observed) \<Rightarrow> settle (case observed of None \<Rightarrow> head | Some h \<Rightarrow> h)
      | ERestack (RestackCompleted _ head) \<Rightarrow> settle head
      | EReconcile (ReconcileRewritten p) \<Rightarrow> settle (reconcileRewriteHead p)
      | EReconcile (ReconcileMerged commit) \<Rightarrow> settle commit
      | EReconcile (ReconcileRebased head _) \<Rightarrow> settle head
      | EFinalize (FinalizeStepCompleted _ ok head) \<Rightarrow>
          (case head of Some h \<Rightarrow> if ok then settle h else acc | None \<Rightarrow> acc)
      | _ \<Rightarrow> acc)"

definition recoveryCheckpointReducer :: "(recovery_checkpoint, ab_event, sha option) reducer" where
  "recoveryCheckpointReducer =
     \<lparr>rd_version = 4, rd_rawEvents = False, rd_initial = \<lparr>ry_settled = None, ry_original = None\<rparr>,
      rd_fold = fold_events recovery_step,
      rd_finish = (\<lambda>acc. case ry_settled acc of None \<Rightarrow> ry_original acc | Some h \<Rightarrow> Some h)\<rparr>"

interpretation recoveryCheckpoint: incremental_reducer recoveryCheckpointReducer
  by unfold_locales (simp_all add: recoveryCheckpointReducer_def)

section \<open>Failure budgets\<close>

record dispatch_budget =
  dp_failures :: "dispatch_failed list"
  dp_open :: "string list"
  dp_aborted :: bool

record dispatch_verdict =
  dv_count :: nat
  dv_latest :: "dispatch_failed option"
  dv_parked :: bool

definition dispatch_budget_step :: "bool \<Rightarrow> dispatch_budget \<Rightarrow> ab_event \<Rightarrow> dispatch_budget" where
  "dispatch_budget_step owns acc e =
     (case ev_body e of
        ERunner RunnerAttached \<Rightarrow> acc\<lparr>dp_failures := []\<rparr>
      | EEscalation (EscalationRaised p) \<Rightarrow>
          if er_source p = SrcPolicy \<and> er_policyCause p = Some DispatchFailureLimit
          then acc\<lparr>dp_open := set_add (er_id p) (dp_open acc)\<rparr> else acc
      | EEscalation (EscalationAnswered p) \<Rightarrow>
          if ea_id p \<notin> set (dp_open acc) then acc
          else (let acc1 = acc\<lparr>dp_open := filter (\<lambda>i. i \<noteq> ea_id p) (dp_open acc)\<rparr>
                in if ea_resolution p \<noteq> Abort then acc1\<lparr>dp_failures := []\<rparr> else acc1\<lparr>dp_aborted := True\<rparr>)
      | EDispatchFailed p \<Rightarrow>
          if owns \<and> df_stage p = ''workspace'' then acc else acc\<lparr>dp_failures := dp_failures acc @ [p]\<rparr>
      | _ \<Rightarrow> acc)"

definition dispatchFailureBudgetReducer :: "bool \<Rightarrow> (dispatch_budget, ab_event, dispatch_verdict) reducer" where
  "dispatchFailureBudgetReducer owns =
     \<lparr>rd_version = 1, rd_rawEvents = False, rd_initial = \<lparr>dp_failures = [], dp_open = [], dp_aborted = False\<rparr>,
      rd_fold = fold_events (dispatch_budget_step owns),
      rd_finish = (\<lambda>acc. \<lparr>dv_count = length (dp_failures acc), dv_latest = last_opt (dp_failures acc),
        dv_parked = dp_aborted acc \<or> dp_open acc \<noteq> []\<rparr>)\<rparr>"

interpretation dispatchBudget: incremental_reducer "dispatchFailureBudgetReducer owns" for owns
  by unfold_locales (simp_all add: dispatchFailureBudgetReducer_def)

datatype dispatch_guard = MayDispatch | ParkedDispatch | RaiseDispatchLimit nat dispatch_failed

text \<open>The check before another provider call; the raised question names the stage and the error.\<close>

definition ensureDispatchBudget :: "dispatch_verdict \<Rightarrow> nat \<Rightarrow> dispatch_guard" where
  "ensureDispatchBudget budget maxAttempts =
     (if dv_parked budget then ParkedDispatch
      else case dv_latest budget of
             None \<Rightarrow> MayDispatch
           | Some f \<Rightarrow> if dv_count budget < maxAttempts then MayDispatch else RaiseDispatchLimit maxAttempts f)"

record infrastructure_reset =
  nr_escalations :: "string list"
  nr_resetSeq :: nat

definition infrastructure_reset_step :: "infrastructure_reset \<Rightarrow> ab_event \<Rightarrow> infrastructure_reset" where
  "infrastructure_reset_step acc e =
     (case ev_body e of
        EEscalation (EscalationRaised p) \<Rightarrow>
          if er_policyCause p = Some InfrastructureFailureLimit
          then acc\<lparr>nr_escalations := set_add (er_id p) (nr_escalations acc)\<rparr> else acc
      | EExecution (ExecutionEnded _ _ _) \<Rightarrow> acc\<lparr>nr_resetSeq := ev_seq e\<rparr>
      | EEscalation (EscalationAnswered p) \<Rightarrow>
          if ea_resolution p = Retry \<and> ea_id p \<in> set (nr_escalations acc) then acc\<lparr>nr_resetSeq := ev_seq e\<rparr> else acc
      | _ \<Rightarrow> acc)"

definition infrastructureFailureResetReducer :: "(infrastructure_reset, ab_event, nat) reducer" where
  "infrastructureFailureResetReducer =
     \<lparr>rd_version = 1, rd_rawEvents = False, rd_initial = \<lparr>nr_escalations = [], nr_resetSeq = 0\<rparr>,
      rd_fold = fold_events infrastructure_reset_step, rd_finish = nr_resetSeq\<rparr>"

interpretation infrastructureReset: incremental_reducer infrastructureFailureResetReducer
  by unfold_locales (simp_all add: infrastructureFailureResetReducer_def)

definition infrastructureFailureResetSeq :: "ab_event list \<Rightarrow> nat" where
  "infrastructureFailureResetSeq events = reduce_log infrastructureFailureResetReducer events"

datatype infrastructure_cause = ProviderLimit | TimeoutCause | MissingCause | UnknownOutcome | ProviderError

definition classifyInfrastructureFailure :: "string \<Rightarrow> bool \<Rightarrow> infrastructure_cause" where
  "classifyInfrastructureFailure message cleanupPending =
     (let lower = lower_case message; mentions = list_ex (contains_text lower)
      in if mentions [''limit'', ''quota'', ''cpu'', ''duration''] then ProviderLimit
         else if mentions [''timeout'', ''abort''] then TimeoutCause
         else if mentions [''no longer exists'', ''not found'', ''missing''] then MissingCause
         else if cleanupPending then UnknownOutcome else ProviderError)"

definition is_infrastructure_failure :: "event_body \<Rightarrow> bool" where
  "is_infrastructure_failure b \<longleftrightarrow> (case b of EInfra (InfrastructureFailed _) \<Rightarrow> True | _ \<Rightarrow> False)"

definition infrastructure_attempt :: "ab_event list \<Rightarrow> nat" where
  "infrastructure_attempt events =
     length (filter (\<lambda>e. is_infrastructure_failure (ev_body e) \<and> ev_seq e > infrastructureFailureResetSeq events) events) + 1"

text \<open>
  What \<^verbatim>\<open>recordInfrastructureFailure\<close> appends: the attempt it numbers, and whether the limit is raised,
  given the seq of the last raise the store knows after the append.
\<close>

definition recordInfrastructureFailure :: "ab_event list \<Rightarrow> nat \<Rightarrow> nat \<Rightarrow> nat \<times> bool" where
  "recordInfrastructureFailure events maxAttempts raisedSeq =
     (let attempt = infrastructure_attempt events
      in (attempt, attempt \<ge> maxAttempts \<and> raisedSeq \<le> infrastructureFailureResetSeq events))"

datatype reset_scope = ScopeNone | MatchingRound | AllPhaseRounds

fun POLICY_PHASE_FAILURE_RESET_SCOPES :: "policy_cause \<Rightarrow> reset_scope" where
  "POLICY_PHASE_FAILURE_RESET_SCOPES ReviewRoundLimit = MatchingRound"
| "POLICY_PHASE_FAILURE_RESET_SCOPES VerifyFailureLimit = AllPhaseRounds"
| "POLICY_PHASE_FAILURE_RESET_SCOPES ReconcileNoProgress = ScopeNone"
| "POLICY_PHASE_FAILURE_RESET_SCOPES DispatchFailureLimit = ScopeNone"
| "POLICY_PHASE_FAILURE_RESET_SCOPES ExecutionNoProgress = ScopeNone"
| "POLICY_PHASE_FAILURE_RESET_SCOPES SetupFailureLimit = ScopeNone"
| "POLICY_PHASE_FAILURE_RESET_SCOPES InfrastructureFailureLimit = ScopeNone"
| "POLICY_PHASE_FAILURE_RESET_SCOPES PublicationRetryLimit = ScopeNone"
| "POLICY_PHASE_FAILURE_RESET_SCOPES PhaseAttemptLimit = MatchingRound"
| "POLICY_PHASE_FAILURE_RESET_SCOPES NonRetryablePhaseFailure = MatchingRound"

record phase_raise =
  pz_phase :: escalation_target
  pz_round :: "nat option"
  pz_source :: escalation_source
  pz_policyCause :: "policy_cause option"
  pz_ownBuildRead :: bool

definition resetsPhaseFailureBudget :: "phase_raise \<Rightarrow> phase \<Rightarrow> nat \<Rightarrow> bool" where
  "resetsPhaseFailureBudget raise p rnd =
     (if pz_ownBuildRead raise \<or> pz_phase raise \<noteq> OnPhase p then False
      else case (pz_source raise, pz_policyCause raise) of
             (SrcPolicy, Some cause) \<Rightarrow>
               (case POLICY_PHASE_FAILURE_RESET_SCOPES cause of
                  ScopeNone \<Rightarrow> False
                | MatchingRound \<Rightarrow> pz_round raise = Some rnd
                | AllPhaseRounds \<Rightarrow> True)
           | _ \<Rightarrow> pz_round raise = None \<or> pz_round raise = Some rnd)"

end
