(* ===== verification/ExecutionFacts.thy ===== *)
theory ExecutionFacts
  imports ExecutionState
begin

text \<open>
  What the selectors of a build's executions promise: the streak of executions without progress counts
  what the log shows, and the two views of the latest execution agree.
\<close>

section \<open>The streak\<close>

definition breaks_streak :: "ab_event \<Rightarrow> bool" where
  "breaks_streak e \<longleftrightarrow>
     advances_build (ev_body e) \<and> raises_no_progress (ev_body e) = None \<and>
     (case ev_body e of
        EExecution (ExecutionStarted _) \<Rightarrow> False
      | EExecution (ExecutionEnded _ _ _) \<Rightarrow> False
      | EEscalation (EscalationAnswered _) \<Rightarrow> False
      | _ \<Rightarrow> True)"

definition since_progress :: "ab_event list \<Rightarrow> ab_event list" where
  "since_progress events = rev (takeWhile (\<lambda>e. \<not> breaks_streak e) (rev events))"

definition clean_end :: "ab_event \<Rightarrow> bool" where
  "clean_end e \<longleftrightarrow>
     (case ev_body e of EExecution (ExecutionEnded _ outcome code) \<Rightarrow> outcome = EndedCompleted \<and> code = Some 0 | _ \<Rightarrow> False)"

definition idle_ends :: "ab_event list \<Rightarrow> nat" where
  "idle_ends events = length (filter clean_end (since_progress events))"

lemma since_progress_snoc:
  "since_progress (events @ [e]) = (if breaks_streak e then [] else since_progress events @ [e])"
  by (simp add: since_progress_def)

lemma idle_ends_snoc:
  "idle_ends (events @ [e]) = (if breaks_streak e then 0 else idle_ends events + (if clean_end e then 1 else 0))"
  by (simp add: idle_ends_def since_progress_snoc)

lemma clean_end_keeps: "clean_end e \<Longrightarrow> \<not> breaks_streak e"
  by (auto simp: clean_end_def breaks_streak_def split: event_body.splits execution_ev.splits)

lemma other_fact_counts:
  assumes "\<And>p. ev_body e \<noteq> EExecution (ExecutionStarted p)" and "\<And>i out c. ev_body e \<noteq> EExecution (ExecutionEnded i out c)"
    and "\<And>p. ev_body e \<noteq> EEscalation (EscalationAnswered p)"
  shows "no_progress_step acc e =
    (case raises_no_progress (ev_body e) of
       Some i \<Rightarrow> acc\<lparr>ng_open := set_add i (ng_open acc)\<rparr> | None \<Rightarrow> no_progress_other acc (ev_body e))"
    and "breaks_streak e \<longleftrightarrow> advances_build (ev_body e) \<and> raises_no_progress (ev_body e) = None" and "\<not> clean_end e"
  using assms
  by (auto simp: no_progress_step_def breaks_streak_def clean_end_def split: event_body.split execution_ev.split escalation_ev.split)

lemma no_progress_step_count:
  assumes "ng_count acc \<le> idle_ends events"
  shows "ng_count (no_progress_step acc e) \<le> idle_ends (events @ [e])"
proof -
  consider (start) p where "ev_body e = EExecution (ExecutionStarted p)"
    | (over) i out c where "ev_body e = EExecution (ExecutionEnded i out c)"
    | (answer) p where "ev_body e = EEscalation (EscalationAnswered p)"
    | (other) "\<And>p. ev_body e \<noteq> EExecution (ExecutionStarted p)" "\<And>i out c. ev_body e \<noteq> EExecution (ExecutionEnded i out c)"
        "\<And>p. ev_body e \<noteq> EEscalation (EscalationAnswered p)"
    by blast
  then show ?thesis
  proof cases
    case other
    note other_fact_counts [OF other]
    then show ?thesis using assms by (auto simp: idle_ends_snoc no_progress_other_def split: option.split)
  qed (use assms in \<open>auto simp: no_progress_step_def no_progress_ended_def idle_ends_snoc breaks_streak_def clean_end_def
      split: option.split\<close>)
qed

lemma no_progress_count: "ng_count (fold_events no_progress_step initialNoProgress events) \<le> idle_ends events"
proof (induction events rule: rev_induct)
  case (snoc e events)
  then show ?case using no_progress_step_count [OF snoc] by simp
qed (simp add: initialNoProgress_def)

lemma executionNoProgress_fold:
  "executionNoProgress events = fold_events no_progress_step initialNoProgress (filterKnownEvents events)"
  by (simp add: executionNoProgress_def reduce_log_def rd_events_def executionNoProgressReducer_def)


definition sample_started :: "string \<Rightarrow> event_body" where
  "sample_started i = EExecution (ExecutionStarted \<lparr>xs_provider = ''vm'', xs_workspaceRef = ''w'', xs_instance = i,
     xs_environmentId = None, xs_sessionId = None, xs_commandId = None\<rparr>)"

definition sample_idle :: "string \<Rightarrow> event_body list" where
  "sample_idle i = [sample_started i, EExecution (ExecutionEnded i EndedCompleted (Some 0))]"

definition numbered :: "event_body list \<Rightarrow> ab_event list" where
  "numbered bs = map2 (\<lambda>n b. \<lparr>ev_seq = n, ev_ts = 0, ev_actor = Dispatcher, ev_body = b\<rparr>) [1..<length bs + 1] bs"

abbreviation three_idle :: "ab_event list" where
  "three_idle \<equiv> numbered (sample_idle ''a'' @ sample_idle ''b'' @ sample_idle ''c'')"


text \<open>C29: three idle executions are enough. Whatever the log holds, once three executions in a row have
  started and ended cleanly with nothing in between, the guard no longer lets a fourth start: it raises,
  or an earlier complaint is still open, unless the engine is waiting or acknowledging a command.\<close>

theorem idle_executions_are_caught:
  assumes "map ev_body six = concat (map (\<lambda>p. [EExecution (ExecutionStarted p),
      EExecution (ExecutionEnded (xs_instance p) EndedCompleted (Some 0))]) [p, q, r])"
    and "\<forall>c. d \<noteq> Acknowledge c" and "\<forall>w. d \<noteq> Wait w"
  shows "ensureExecutionProgress (Some d) (executionNoProgress (events @ six)) \<noteq> MayLaunch"
proof -
  obtain a b c d' e f where six: "six = [a, b, c, d', e, f]"
    using assms(1) by (auto simp: map_eq_Cons_conv)
  have known: "filterKnownEvents six = six" using assms(1) by (auto simp: six filterKnownEvents_def known_event_def)
  let ?acc = "executionNoProgress events"
  have "executionNoProgress (events @ six) = fold_events no_progress_step ?acc six"
    by (simp add: executionNoProgress_fold known)
  moreover have "3 \<le> ng_count (fold_events no_progress_step ?acc six)"
    using assms(1) by (simp add: six no_progress_step_def no_progress_ended_def)
  ultimately show ?thesis using assms(2,3)
    by (auto simp: ensureExecutionProgress_def split: decision.splits)
qed

theorem idle_executions_are_caught_witness:
  "ensureExecutionProgress (Some RestartExecution) (executionNoProgress ([] @ three_idle)) \<noteq> MayLaunch"
proof -
  let ?p = "\<lambda>i. \<lparr>xs_provider = ''vm'', xs_workspaceRef = ''w'', xs_instance = i,
     xs_environmentId = None, xs_sessionId = None, xs_commandId = None\<rparr>"
  have "map ev_body three_idle = concat (map (\<lambda>p. [EExecution (ExecutionStarted p),
      EExecution (ExecutionEnded (xs_instance p) EndedCompleted (Some 0))]) [?p ''a'', ?p ''b'', ?p ''c''])"
    by code_simp
  from idle_executions_are_caught [OF this] show ?thesis by blast
qed

section \<open>Two views of the latest execution\<close>

definition views_agree :: "execution_started option \<Rightarrow> last_execution \<Rightarrow> bool" where
  "views_agree x l \<longleftrightarrow>
     (case x of None \<Rightarrow> lx_state l \<noteq> OpenOutcome | Some p \<Rightarrow> lx_state l = OpenOutcome \<and> lx_instance l = Some (xs_instance p))"

lemma views_agree_step: "views_agree x l \<Longrightarrow> views_agree (open_execution_step x e) (last_execution_step l e)"
  by (auto simp: views_agree_def open_execution_step_def last_execution_step_def
      split: event_body.split execution_ev.split option.splits)

text \<open>the two projections of the latest execution agree. A build has an open execution exactly when its
  last outcome is open, and no execution is open once any outcome is recorded for the latest one.\<close>

lemma open_execution_views_agree:
  "open_execution events \<noteq> None \<longleftrightarrow> lastExecutionOutcome events = OpenOutcome"
proof -
  have "views_agree (fold_events open_execution_step x es) (fold_events last_execution_step l es)" if "views_agree x l" for x l es
    using that by (induction es arbitrary: x l) (simp_all add: views_agree_step)
  from this [of None "\<lparr>lx_state = NoExecution, lx_instance = None\<rparr>" "filterKnownEvents events"]
  show ?thesis
    by (auto simp: open_execution_def lastExecutionOutcome_def reduce_log_def rd_events_def openExecutionReducer_def
        lastExecutionOutcomeReducer_def views_agree_def split: option.splits)
qed

end
