(* ===== verification/Spec2Isabelle.thy ===== *)
theory Spec2Isabelle
  imports LoopProperties LogProperties BuildProperties EngineProperties AutoMerge TerminalGuard
    LandingReadiness DispatchCapacity PublicationRetry NodePolling AutoMergeDefault UpgradeFacts
    RepositoryAttention DispatchStatus JournalFacts HarvestProperties
    TicketContinuity TargetLineage JournalStates ScanSchedule PublicationState ExecutionFacts
begin

text \<open>
  \<^bold>\<open>Autobuild: the kernel as a function of the log.\<close>

  Autobuild drives a ticket from a spec to a merged change. Everything it knows about a build is an
  append-only log of typed events; every decision is computed from folds of that log. This
  development models that pure kernel, \<^verbatim>\<open>packages/core/src/kernel\<close> with the vocabulary of
  \<^verbatim>\<open>ontology.ts\<close>, \<^verbatim>\<open>events/\<close> and \<^verbatim>\<open>config/\<close>, and proves what its folds and predicates promise.

  \<^bold>\<open>Theories and what they model.\<close>
  \<^item> \<open>Prelude\<close>: JavaScript collections. A \<^verbatim>\<open>Map\<close>, or an object used as one, is an association list in
    insertion order (\<open>jm_get\<close>, \<open>jm_set\<close>, \<open>jm_del\<close>, \<open>jm_has\<close>); a \<^verbatim>\<open>Set\<close> is a list without repetition.
    \<open>Results\<close>: throwing as the left side of a sum, and folds that stop at the first throw.
  \<^item> \<open>Ontology\<close> (\<^verbatim>\<open>ontology.ts\<close>), \<open>Config\<close> (\<^verbatim>\<open>config/schema.ts\<close>, \<^verbatim>\<open>kernel/verify-applicability.ts\<close>),
    \<open>EventBase\<close>, \<open>BuildPayloads\<close>, \<open>PhasePayloads\<close>, \<open>TreePayloads\<close>, \<open>Events\<close> and \<open>EventTypes\<close>
    (\<^verbatim>\<open>events/payloads.ts\<close>, \<^verbatim>\<open>events/envelope.ts\<close>), \<open>Phases\<close>
    (\<^verbatim>\<open>kernel/phases.ts\<close>): the data.
  \<^item> \<open>Stall\<close> and \<open>Converge\<close> (\<^verbatim>\<open>kernel/stall.ts\<close>, \<^verbatim>\<open>kernel/converge.ts\<close>): the review loop and what stops it.
  \<^item> \<open>VerifyStage\<close> (\<^verbatim>\<open>verify-stage-state.ts\<close>, \<^verbatim>\<open>verify-stages.ts\<close>, \<^verbatim>\<open>verify-budget.ts\<close>): verify members,
    the active stage and the wording of an exhausted budget.
  \<^item> \<open>Incremental\<close> (\<^verbatim>\<open>incremental.ts\<close>, \<^verbatim>\<open>incremental-contract.ts\<close>): the reducer interface, with the locale
    \<open>incremental_reducer\<close> for the contract that a kept accumulator stands for the log it folded; it is
    interpreted by \<open>LeafRestack\<close>, \<open>LogIndex\<close> and \<open>NodeRestack\<close>.
  \<^item> \<open>LeafRestack\<close>, \<open>ReadDeferrals\<close>, \<open>LogIndex\<close> with \<open>LogIndexFacts\<close>, \<open>NodeRestack\<close>, \<open>NodeIssueLinks\<close>, \<open>Landing\<close>,
    \<open>Compatibility\<close>, \<open>IntegrationState\<close>, \<open>PollingActivity\<close>: one fold each, named after its source file.
  \<^item> \<open>BuildAcc\<close>, \<open>Drain\<close>, \<open>SessionFold\<close>, \<open>EscalationFold\<close>, \<open>Integration\<close>, \<open>Reducer\<close>: \<^verbatim>\<open>kernel/reducer.ts\<close> and
    \<^verbatim>\<open>kernel/integration-state.ts\<close>. \<open>build_acc\<close> is \<^verbatim>\<open>BuildAcc\<close>; \<open>foldBuild\<close> runs the two passes of
    \<^verbatim>\<open>foldBuild\<close> (compatibility and drains, then \<open>main_step\<close> per event) and the end of the batch; each
    \<^verbatim>\<open>case\<close> group of the code's switch is one step function.
  \<^item> \<open>ReducerFacts\<close>, \<open>ReducerIncremental\<close>, \<open>ReducerContract\<close>: invariants of the reducer by views that most
    step families leave alone, and the commutation of the event steps with the fields only a batch
    touches.
  \<^item> \<open>PlanSelection\<close> (\<^verbatim>\<open>plan-verify-selection.ts\<close>): the front matter of a plan and the verify steps it selects.
  \<^item> \<open>EngineLoop\<close>, \<open>Engine\<close> (\<^verbatim>\<open>kernel/engine.ts\<close>): \<open>decideNext\<close>. Every early return of the transition table is a
    rule, a \<open>decision option\<close>, and the decision is the first rule that decides (\<open>first_decision\<close>). A rule
    list per section of the source (\<open>operator_rules\<close>, \<open>blocking_rules\<close>, \<open>loop_rules\<close>, \<open>verify_rules\<close>,
    \<open>finalize_rules\<close>, \<open>epilogue_rules\<close>) keeps its order; a node build ends in \<open>decide_node\<close>, a leaf build in
    \<open>decide_leaf\<close>. The only error is the step table entry a node build reads without a check.
    \<open>EngineFacts\<close> says which rules can give which decision, \<open>EnginePhases\<close> which events of the log stand
    behind one.
  \<^item> \<open>Rules\<close>: the first refusal of an ordered list. \<open>TerminalGuard\<close>, \<open>LandingReadiness\<close>, \<open>PublicationRetry\<close>,
    \<open>AutoMerge\<close>, \<open>DispatchCapacity\<close>, \<open>NodePolling\<close>: the kernel's predicates over a build, one per source file.
  \<^item> \<open>RepositoryEvents\<close> (\<^verbatim>\<open>events/repository.ts\<close>): the second log, the journal of a repository, with the
    locale \<open>journal_reducer\<close> for its reducers (\<open>reduce_journal\<close>, \<open>journal_advance\<close>). It is interpreted by
    \<open>AutoMergeDefault\<close>, \<open>DispatchUpgrade\<close>, \<open>RepositoryAttention\<close>, \<open>DispatchStatus\<close> and the small folds of
    \<open>JournalFolds\<close>. \<open>UpgradeFacts\<close> proves the retention of upgrade runs and the handoff invariant,
    \<open>JournalFacts\<close> the order independence of the settings and the window of recent runs.
  \<^item> \<open>HarvestEvents\<close> (the harvest facts and \<^verbatim>\<open>harvest/schema.ts\<close>), \<open>Harvest\<close>, \<open>HarvestControl\<close>
    (\<^verbatim>\<open>kernel/harvest.ts\<close>): the fold that turns observations into runs and a ledger, every throw a
    \<open>harvest_error\<close>, and what callers ask of it. \<open>HarvestFacts\<close> describes the changes a run can undergo by
    an inductive relation (\<open>evolves\<close>) from which the invariants of a single run follow; \<open>HarvestClaims\<close>
    ties the claims and the ledger to the runs; \<open>HarvestProperties\<close> states the results.
  \<^item> \<open>JournalEvents\<close>, \<open>TicketMigrations\<close> with \<open>TicketContinuity\<close> (\<^verbatim>\<open>kernel/ticket-migrations.ts\<close>): how a ticket is
    followed from source to source. \<open>JournalStates\<close> (\<^verbatim>\<open>kernel/ticket-preparation.ts\<close>,
    \<^verbatim>\<open>processes/sandbox-state.ts\<close>, \<^verbatim>\<open>processes/harvest-execution-state.ts\<close>), \<open>ScanSchedule\<close>
    (\<^verbatim>\<open>processes/ticket-scan-schedule.ts\<close>), \<open>TargetLineage\<close> (\<^verbatim>\<open>kernel/target-lineage.ts\<close>).
  \<^item> \<open>PublicationState\<close> (\<^verbatim>\<open>processes/publication-state.ts\<close>), \<open>ExecutionState\<close> with \<open>ExecutionFacts\<close> (the
    selectors of \<^verbatim>\<open>processes/execution-*.ts\<close>, \<^verbatim>\<open>dispatcher-selectors.ts\<close> and the failure budgets): what the
    dispatcher reads of a build. \<open>Strings\<close> holds the two operations on text they need.
  \<^item> \<open>LoopProperties\<close>, \<open>LogProperties\<close>, \<open>BuildProperties\<close>, \<open>EngineProperties\<close>: the properties, by area.

  \<^bold>\<open>Correspondence.\<close> Sequence numbers are positive in a log, as the store assigns them from 1; the code's
  truthiness tests on them are membership tests here. Round and attempt numbers are natural
  numbers. A mutable accumulator is a value that is returned updated. The batches of the build fold
  are explicit, because the code recomputes fields at the end of each batch.

  \<^bold>\<open>Bounds.\<close> \<open>converge\<close> is a partial function, since the code re-reads its bound every round; it is proved
  to return whenever the policy stays below some number of rounds. \<open>retainRuns\<close> of the upgrade fold is
  one too, since it would turn for ever if no run could be evicted; it is proved to return on every
  journal. Every other loop is a total function with a termination proof. No fuel is used.

  \<^bold>\<open>Not modelled.\<close> Validation of stored payloads by zod schemas; hashing and JSON text, except that the
  frozen integration config is represented by the values its text denotes; the
  remaining facts of the repository journal; git, forges, sandboxes,
  agents and the store; the dispatcher and runner processes; the command line; the website.
\<close>

end
